(* ===== verification/Prelude.thy ===== *)
theory Prelude
  imports
    Complex_Main
    "HOL-Library.Word"
    "HOL-Library.Char_ord"
    "HOL-Library.List_Lexorder"
    "HOL-Library.Product_Lexorder"
    "HOL-Library.Multiset"
begin

text \<open>
  Shared vocabulary of the development: the types every component uses (time, identifiers,
  results), Rust's saturating conversions, the generic operations on tables kept as lists of rows
  (\<open>UPDATE ... WHERE\<close>, \<open>DELETE ... WHERE\<close>, primary-key lookup, \<open>INSERT ... ON CONFLICT\<close>) with
  their lemmas, and lemmas on counting the rows that satisfy a predicate.
\<close>

named_theorems frame_simps \<open>which parts of the state an operation leaves alone\<close>
named_theorems counter_simps \<open>how row counts change\<close>

section \<open>Types\<close>

text \<open>
  Time stamps are microseconds since the epoch (the resolution of a Postgres \<open>timestamptz\<close>), so
  the \<open>make_interval(secs => n)\<close> of a query is \<open>secs n\<close>. A Rust \<open>Duration\<close> is a number of
  nanoseconds.
\<close>

type_synonym timestamp = int
type_synonym duration = nat
type_synonym job_id = int
type_synonym batch_key = int
type_synonym uuid = "128 word"

definition secs :: "int \<Rightarrow> int" where
  "secs n = n * 1000000"

definition millis :: "int \<Rightarrow> int" where
  "millis n = n * 1000"

section \<open>Machine integer bounds and saturating conversions\<close>

abbreviation i16_max :: int where "i16_max \<equiv> 32767"
abbreviation i16_min :: int where "i16_min \<equiv> -32768"
abbreviation i32_max :: int where "i32_max \<equiv> 2147483647"
abbreviation i64_max :: int where "i64_max \<equiv> 9223372036854775807"
abbreviation u32_max :: nat where "u32_max \<equiv> 4294967295"
abbreviation u64_max :: nat where "u64_max \<equiv> 18446744073709551615"

text \<open>\<open>i32::try_from(x).unwrap_or(i32::MAX)\<close> and its kin, on non-negative arguments.\<close>

definition sat_i32 :: "int \<Rightarrow> int" where
  "sat_i32 x = min x i32_max"

definition sat_i64 :: "int \<Rightarrow> int" where
  "sat_i64 x = min x i64_max"

definition sat_u32 :: "nat \<Rightarrow> nat" where
  "sat_u32 x = min x u32_max"

definition sat_u64 :: "nat \<Rightarrow> nat" where
  "sat_u64 x = min x u64_max"

lemma sat_i32_le: "sat_i32 x \<le> i32_max" "sat_i32 x \<le> x"
  by (simp_all add: sat_i32_def)

lemma sat_i32_pos: "0 < sat_i32 x \<longleftrightarrow> 0 < x"
  by (simp add: sat_i32_def)

lemma sat_i32_nonneg: "0 \<le> sat_i32 x \<longleftrightarrow> 0 \<le> x"
  by (simp add: sat_i32_def)

section \<open>Counting rows\<close>

definition count_if :: "('a \<Rightarrow> bool) \<Rightarrow> 'a list \<Rightarrow> nat" where
  "count_if p xs = length (filter p xs)"

lemma count_if_Nil [simp]: "count_if p [] = 0"
  by (simp add: count_if_def)

lemma count_if_Cons [simp]: "count_if p (x # xs) = (if p x then Suc (count_if p xs) else count_if p xs)"
  by (simp add: count_if_def)

lemma count_if_append [simp]: "count_if p (xs @ ys) = count_if p xs + count_if p ys"
  by (simp add: count_if_def)

lemma count_if_cong: "(\<And>x. x \<in> set xs \<Longrightarrow> p x = q x) \<Longrightarrow> count_if p xs = count_if q xs"
  unfolding count_if_def by (metis filter_cong)

lemma count_if_map: "count_if p (map f xs) = count_if (\<lambda>x. p (f x)) xs"
  by (simp add: count_if_def filter_map comp_def)

lemma count_if_filter: "count_if p (filter q xs) = count_if (\<lambda>x. q x \<and> p x) xs"
  by (simp add: count_if_def conj_commute)

lemma count_if_le_length: "count_if p xs \<le> length xs"
  by (simp add: count_if_def)

lemma count_if_mono: "(\<And>x. x \<in> set xs \<Longrightarrow> p x \<Longrightarrow> q x) \<Longrightarrow> count_if p xs \<le> count_if q xs"
  by (induction xs) auto

lemma count_if_zero_iff: "count_if p xs = 0 \<longleftrightarrow> (\<forall>x \<in> set xs. \<not> p x)"
  by (induction xs) auto

lemma count_if_pos_iff: "0 < count_if p xs \<longleftrightarrow> (\<exists>x \<in> set xs. p x)"
  by (induction xs) auto

lemma count_if_False [simp]: "count_if (\<lambda>_. False) xs = 0"
  by (simp add: count_if_def)

lemma count_if_disj:
  "(\<And>x. \<not> (p x \<and> q x)) \<Longrightarrow> count_if (\<lambda>x. p x \<or> q x) xs = count_if p xs + count_if q xs"
  by (induction xs) auto

lemma count_if_split: "count_if p xs = count_if (\<lambda>x. p x \<and> q x) xs + count_if (\<lambda>x. p x \<and> \<not> q x) xs"
  by (induction xs) auto

lemma count_if_diff: "count_if (\<lambda>x. p x \<and> \<not> q x) xs = count_if p xs - count_if (\<lambda>x. p x \<and> q x) xs"
  using count_if_split [of p xs q] by simp

lemma count_if_mset: "mset xs = mset ys \<Longrightarrow> count_if p xs = count_if p ys"
  unfolding count_if_def by (metis mset_filter size_mset)

lemma count_if_take_le: "count_if p (take n xs) \<le> count_if p xs"
  by (metis append_take_drop_id count_if_append le_add1)

text \<open>Rows picked out by a list of keys: each key picks at most one row of a table whose keys are
  distinct, so at most as many rows are picked as there are entries for them.\<close>

lemma count_if_key_le:
  assumes "distinct (map key rows)"
    and "\<And>r. r \<in> set rows \<Longrightarrow> p r \<Longrightarrow> \<exists>a \<in> set as. q a \<and> k a = key r"
  shows "count_if p rows \<le> count_if q as"
proof -
  have inj: "inj_on key (set rows)" and "distinct rows"
    using assms(1) by (simp_all add: distinct_map)
  have "count_if p rows = card (set (filter p rows))"
    using distinct_card [of "filter p rows"] \<open>distinct rows\<close> by (simp add: count_if_def)
  also have "\<dots> = card (key ` set (filter p rows))"
    using inj by (intro card_image [symmetric]) (auto intro: inj_on_subset)
  also have "\<dots> \<le> card (k ` set (filter q as))"
    using assms(2) by (intro card_mono) (auto simp: image_iff, metis)
  also have "\<dots> \<le> card (set (filter q as))"
    by (rule card_image_le) simp
  also have "\<dots> \<le> count_if q as"
    using card_length [of "filter q as"] by (simp add: count_if_def)
  finally show ?thesis .
qed

section \<open>Tables as lists of rows\<close>

text \<open>
  \<open>UPDATE t SET f WHERE p\<close>, the rows a \<open>RETURNING\<close> clause of it yields, \<open>DELETE FROM t WHERE p\<close>,
  and lookup by primary key.
\<close>

definition update_where :: "('r \<Rightarrow> bool) \<Rightarrow> ('r \<Rightarrow> 'r) \<Rightarrow> 'r list \<Rightarrow> 'r list" where
  "update_where p f t = map (\<lambda>r. if p r then f r else r) t"

definition returning :: "('r \<Rightarrow> bool) \<Rightarrow> ('r \<Rightarrow> 'r) \<Rightarrow> 'r list \<Rightarrow> 'r list" where
  "returning p f t = map f (filter p t)"

definition delete_where :: "('r \<Rightarrow> bool) \<Rightarrow> 'r list \<Rightarrow> 'r list" where
  "delete_where p t = filter (\<lambda>r. \<not> p r) t"

definition lookup_by :: "('r \<Rightarrow> 'k) \<Rightarrow> 'k \<Rightarrow> 'r list \<Rightarrow> 'r option" where
  "lookup_by key k t = find (\<lambda>r. key r = k) t"

text \<open>\<open>INSERT INTO t VALUES r ON CONFLICT (key) DO UPDATE SET f\<close>; \<open>f\<close> sees the stored row.\<close>

definition upsert_by :: "('r \<Rightarrow> 'k) \<Rightarrow> 'r \<Rightarrow> ('r \<Rightarrow> 'r) \<Rightarrow> 'r list \<Rightarrow> 'r list" where
  "upsert_by key r f t =
     (if key r \<in> key ` set t then update_where (\<lambda>s. key s = key r) f t else t @ [r])"

text \<open>\<open>INSERT INTO t VALUES r ON CONFLICT (key) DO NOTHING\<close>\<close>

definition insert_if_absent :: "('r \<Rightarrow> 'k) \<Rightarrow> 'r \<Rightarrow> 'r list \<Rightarrow> 'r list" where
  "insert_if_absent key r t = (if key r \<in> key ` set t then t else t @ [r])"

lemma update_where_Nil [simp]: "update_where p f [] = []"
  by (simp add: update_where_def)

lemma update_where_Cons [simp]:
  "update_where p f (r # t) = (if p r then f r else r) # update_where p f t"
  by (simp add: update_where_def)

lemma update_where_append [simp]: "update_where p f (t @ t') = update_where p f t @ update_where p f t'"
  by (simp add: update_where_def)

lemma length_update_where [simp]: "length (update_where p f t) = length t"
  by (simp add: update_where_def)

lemma set_update_where:
  "set (update_where p f t) = {r \<in> set t. \<not> p r} \<union> f ` {r \<in> set t. p r}"
  by (auto simp: update_where_def)

lemma update_where_id: "(\<And>r. r \<in> set t \<Longrightarrow> \<not> p r) \<Longrightarrow> update_where p f t = t"
  by (induction t) auto

lemma map_update_where_stable:
  "(\<And>r. p r \<Longrightarrow> key (f r) = key r) \<Longrightarrow> map key (update_where p f t) = map key t"
  by (induction t) auto

lemma count_if_update_where:
  "count_if q (update_where p f t) = count_if (\<lambda>r. p r \<and> q (f r)) t + count_if (\<lambda>r. \<not> p r \<and> q r) t"
  by (induction t) auto

lemma count_if_update_where_same:
  "(\<And>r. r \<in> set t \<Longrightarrow> p r \<Longrightarrow> q (f r) = q r) \<Longrightarrow> count_if q (update_where p f t) = count_if q t"
  by (induction t) auto

lemma length_returning [simp]: "length (returning p f t) = count_if p t"
  by (simp add: returning_def count_if_def)

lemma set_returning: "set (returning p f t) = f ` {r \<in> set t. p r}"
  by (auto simp: returning_def)

lemma count_if_returning: "count_if q (returning p f t) = count_if (\<lambda>r. p r \<and> q (f r)) t"
  by (simp add: returning_def count_if_map count_if_filter)

lemma set_delete_where [simp]: "set (delete_where p t) = {r \<in> set t. \<not> p r}"
  by (auto simp: delete_where_def)

lemma count_if_delete_where: "count_if q (delete_where p t) = count_if (\<lambda>r. q r \<and> \<not> p r) t"
  by (simp add: delete_where_def count_if_filter conj_commute)

lemma length_delete_where: "length (delete_where p t) + count_if p t = length t"
  by (induction t) (auto simp: delete_where_def)

lemma distinct_delete_where: "distinct (map key t) \<Longrightarrow> distinct (map key (delete_where p t))"
  unfolding delete_where_def by (rule distinct_map_filter)

lemma lookup_by_None_iff: "lookup_by key k t = None \<longleftrightarrow> k \<notin> key ` set t"
  by (auto simp: lookup_by_def find_None_iff)

lemma lookup_by_SomeD: "lookup_by key k t = Some r \<Longrightarrow> r \<in> set t \<and> key r = k"
  by (auto simp: lookup_by_def find_Some_iff)

lemma lookup_by_Some_iff:
  "distinct (map key t) \<Longrightarrow> lookup_by key k t = Some r \<longleftrightarrow> r \<in> set t \<and> key r = k"
  unfolding lookup_by_def by (induction t) force+

lemma distinct_key_eq:
  "distinct (map key t) \<Longrightarrow> r \<in> set t \<Longrightarrow> s \<in> set t \<Longrightarrow> key r = key s \<Longrightarrow> r = s"
  by (metis distinct_map inj_onD)

lemma update_where_key:
  assumes "distinct (map key t)" "lookup_by key k t = Some r"
  shows "count_if (\<lambda>s. key s = k \<and> q s) t = (if q r then 1 else 0)"
  using assms
proof (induction t)
  case (Cons s t)
  show ?case
  proof (cases "key s = k")
    case True
    with Cons.prems(1) have "\<forall>r \<in> set t. key r \<noteq> k"
      by (metis distinct.simps(2) image_eqI list.set_map list.simps(9))
    then have "count_if (\<lambda>s. key s = k \<and> q s) t = 0"
      by (simp add: count_if_zero_iff)
    with True Cons.prems(2) show ?thesis by (simp add: lookup_by_def)
  next
    case False
    with Cons show ?thesis by (simp add: lookup_by_def)
  qed
qed (simp add: lookup_by_def)

lemma distinct_update_where:
  assumes "\<And>r. p r \<Longrightarrow> key (f r) = key r"
  shows "distinct (map key (update_where p f t)) \<longleftrightarrow> distinct (map key t)"
  using map_update_where_stable [of p key f t, OF assms] by simp

lemma distinct_insert_if_absent:
  "distinct (map key t) \<Longrightarrow> distinct (map key (insert_if_absent key r t))"
  by (simp add: insert_if_absent_def)

lemma distinct_upsert_by:
  assumes "\<And>s. key (f s) = key s" "distinct (map key t)"
  shows "distinct (map key (upsert_by key r f t))"
  using assms by (auto simp: upsert_by_def distinct_update_where)

lemma lookup_by_update_where:
  assumes "\<And>r. p r \<Longrightarrow> key (f r) = key r"
  shows "lookup_by key k (update_where p f t)
       = map_option (\<lambda>r. if p r then f r else r) (lookup_by key k t)"
  using assms by (induction t) (auto simp: lookup_by_def)

lemma lookup_by_upsert_by:
  assumes "\<And>s. key (f s) = key s"
  shows "lookup_by key k (upsert_by key r f t)
       = (if k = key r
          then (case lookup_by key k t of None \<Rightarrow> Some r | Some s \<Rightarrow> Some (f s))
          else lookup_by key k t)"
proof (cases "key r \<in> key ` set t")
  case True
  have "lookup_by key k (upsert_by key r f t)
      = map_option (\<lambda>s. if key s = key r then f s else s) (lookup_by key k t)"
    using True assms by (simp add: upsert_by_def lookup_by_update_where)
  then show ?thesis
    using True lookup_by_None_iff [of key "key r" t]
    by (cases "lookup_by key k t") (auto dest: lookup_by_SomeD)
next
  case False
  then have none: "lookup_by key (key r) t = None"
    by (simp add: lookup_by_None_iff)
  have "lookup_by key k (t @ [r]) = (case lookup_by key k t of None \<Rightarrow> if key r = k then Some r else None | Some s \<Rightarrow> Some s)"
    by (induction t) (auto simp: lookup_by_def)
  with False none show ?thesis
    by (auto simp: upsert_by_def split: option.splits)
qed

lemma lookup_by_insert_if_absent:
  "lookup_by key k t = None \<Longrightarrow> lookup_by key (key r) t = None \<Longrightarrow>
   lookup_by key k (insert_if_absent key r t) = (if key r = k then Some r else None)"
  unfolding insert_if_absent_def lookup_by_def by (induction t) (auto simp: find_None_iff split: if_splits)

section \<open>Sorting and limits\<close>

lemma set_take_sort_key: "set (take n (sort_key f xs)) \<subseteq> set xs"
  by (metis set_sort set_take_subset)

lemma mset_filter_eq: "mset xs = mset ys \<Longrightarrow> mset (filter p xs) = mset (filter p ys)"
  by simp

lemma distinct_take_sort: "distinct xs \<Longrightarrow> distinct (take n (sort_key f xs))"
  by (simp add: distinct_take)

lemma distinct_map_take: "distinct (map f xs) \<Longrightarrow> distinct (map f (take n xs))"
  by (simp flip: take_map)

lemma distinct_map_sort_key: "distinct (map g (sort_key f xs)) \<longleftrightarrow> distinct (map g xs)"
  by (metis mset_map mset_sort mset_eq_imp_distinct_iff)

section \<open>Texts\<close>

text \<open>The bytes of the long dash that messages use.\<close>

definition em_dash :: string where
  "em_dash = [char_of (226::nat), char_of (128::nat), char_of (148::nat)]"

end
