(* ===== verification/Jobs.thy ===== *)
theory Jobs
  imports Prelude
begin

text \<open>
  The vocabulary of \<open>crates/eddyq-core/src/job.rs\<close>, \<open>error.rs\<close> and \<open>retention.rs\<close>: JSON values, job
  states, the \<open>Job\<close> trait, the error type, handler failures and the entries of a job's error log
  with their byte caps, and per-job retention rules.
\<close>

section \<open>JSON values (\<open>serde_json::Value\<close>)\<close>

text \<open>
  \<open>serde_json::Map\<close> is a \<open>BTreeMap\<close> here (the crate is built without \<open>preserve_order\<close>): an object
  is a list of entries in strictly increasing key order, and \<open>insert\<close> replaces or adds in order.
  Strings are UTF-8 byte sequences, one \<open>char\<close> per byte, so \<open>length\<close> is Rust's \<open>str::len\<close> and the
  list order is Rust's \<open>Ord\<close> on \<open>str\<close>.
\<close>

datatype number = PosInt nat | NegInt int | Float real

datatype json =
    JNull
  | JBool bool
  | JNumber number
  | JString string
  | JArray "json list"
  | JObject "(string \<times> json) list"

definition json_int :: "int \<Rightarrow> json" where
  "json_int n = JNumber (if 0 \<le> n then PosInt (nat n) else NegInt n)"

fun map_insert :: "string \<Rightarrow> json \<Rightarrow> (string \<times> json) list \<Rightarrow> (string \<times> json) list" where
  "map_insert k v [] = [(k, v)]"
| "map_insert k v ((k', v') # m) =
     (if k = k' then (k, v) # m
      else if k < k' then (k, v) # (k', v') # m
      else (k', v') # map_insert k v m)"

lemma map_of_map_insert [simp]: "map_of (map_insert k v m) = (map_of m)(k \<mapsto> v)"
  by (induction k v m rule: map_insert.induct) auto

lemma set_keys_map_insert: "fst ` set (map_insert k v m) = insert k (fst ` set m)"
  by (induction k v m rule: map_insert.induct) auto

lemma sorted_map_insert:
  "sorted_wrt (<) (map fst m) \<Longrightarrow> sorted_wrt (<) (map fst (map_insert k v m))"
proof (induction k v m rule: map_insert.induct)
  case (2 k v k' v' m)
  have "\<And>x. x \<in> set (map fst (map_insert k v m)) \<longleftrightarrow> x = k \<or> x \<in> set (map fst m)"
    using set_keys_map_insert [of k v m] by auto
  with 2 show ?case
    by (auto simp: set_keys_map_insert)
qed simp

section \<open>Job states\<close>

datatype job_state = Pending | Running | Completed | Failed | Scheduled | Cancelled

fun as_str :: "job_state \<Rightarrow> string" where
  "as_str Pending = ''pending''"
| "as_str Running = ''running''"
| "as_str Completed = ''completed''"
| "as_str Failed = ''failed''"
| "as_str Scheduled = ''scheduled''"
| "as_str Cancelled = ''cancelled''"

text \<open>\<open>stats::parse_state\<close>, the inverse used when rows are read back.\<close>

definition parse_state :: "string \<Rightarrow> job_state option" where
  "parse_state s =
     (if s = ''pending'' then Some Pending
      else if s = ''running'' then Some Running
      else if s = ''completed'' then Some Completed
      else if s = ''failed'' then Some Failed
      else if s = ''scheduled'' then Some Scheduled
      else if s = ''cancelled'' then Some Cancelled
      else None)"

lemma parse_state_as_str [simp]: "parse_state (as_str st) = Some st"
  by (cases st) (simp_all add: parse_state_def)

lemma parse_state_SomeD: "parse_state s = Some st \<Longrightarrow> s = as_str st"
  by (auto simp: parse_state_def split: if_splits)

text \<open>\<open>backend::CleanState\<close>: the finalized states an ad-hoc sweep may target.\<close>

datatype clean_state = CleanCompleted | CleanFailed | CleanCancelled

fun clean_as_str :: "clean_state \<Rightarrow> string" where
  "clean_as_str CleanCompleted = ''completed''"
| "clean_as_str CleanFailed = ''failed''"
| "clean_as_str CleanCancelled = ''cancelled''"

definition terminal :: "job_state \<Rightarrow> bool" where
  "terminal st \<longleftrightarrow> st = Completed \<or> st = Failed \<or> st = Cancelled"

text \<open>The states in the predicate of the unique index on \<open>(kind, unique_key)\<close>.\<close>

definition live :: "job_state \<Rightarrow> bool" where
  "live st \<longleftrightarrow> st = Pending \<or> st = Running \<or> st = Scheduled"

lemma live_iff_not_terminal: "live st \<longleftrightarrow> \<not> terminal st"
  by (cases st) (simp_all add: live_def terminal_def)

lemma live_simps [simp]:
  "live Pending" "live Running" "live Scheduled" "\<not> live Completed" "\<not> live Failed" "\<not> live Cancelled"
  by (simp_all add: live_def)

lemma terminal_simps [simp]:
  "\<not> terminal Pending" "\<not> terminal Running" "\<not> terminal Scheduled"
  "terminal Completed" "terminal Failed" "terminal Cancelled"
  by (simp_all add: terminal_def)

section \<open>Errors\<close>

datatype error =
    Database string
  | Migration string
  | Serde string
  | UnknownKind string
  | Cron string
  | InvalidArgument string
  | AlreadyRunning
  | NotRunning
  | Unsupported string
  | Backend string

type_synonym 'a res = "error + 'a"

datatype directive = Cancel | Retry nat

record handler_failure =
  hf_message :: string
  hf_name :: "string option"
  hf_stack :: "string option"
  hf_directive :: "directive option"

definition from_message :: "string \<Rightarrow> handler_failure" where
  "from_message m = \<lparr>hf_message = m, hf_name = None, hf_stack = None, hf_directive = None\<rparr>"

definition max_error_message_bytes :: nat where "max_error_message_bytes = 2048"
definition max_error_stack_bytes :: nat where "max_error_stack_bytes = 4096"
definition max_error_entries :: nat where "max_error_entries = 10"

section \<open>Truncation for storage\<close>

fun show_nat :: "nat \<Rightarrow> string" where
  "show_nat n =
     (if n < 10 then [char_of (48 + n)] else show_nat (n div 10) @ [char_of (48 + n mod 10)])"

declare show_nat.simps [simp del]

definition show_int :: "int \<Rightarrow> string" where
  "show_int n = (if n < 0 then ''-'' @ show_nat (nat (- n)) else show_nat (nat n))"

definition truncation_marker :: "nat \<Rightarrow> string" where
  "truncation_marker dropped = ''...[truncated '' @ show_nat dropped @ '' bytes]''"

text \<open>A UTF-8 continuation byte is \<open>0b10xxxxxx\<close>; \<open>str::is_char_boundary\<close> is true at both ends of the
  string and at every byte that does not continue a character.\<close>

definition is_continuation :: "char \<Rightarrow> bool" where
  "is_continuation c \<longleftrightarrow> 128 \<le> (of_char c :: nat) \<and> (of_char c :: nat) < 192"

definition is_char_boundary :: "string \<Rightarrow> nat \<Rightarrow> bool" where
  "is_char_boundary s i \<longleftrightarrow>
     i = 0 \<or> i = length s \<or> (i < length s \<and> \<not> is_continuation (s ! i))"

text \<open>The \<open>while !s.is_char_boundary(cut) { cut -= 1; }\<close> loop.\<close>

primrec floor_char_boundary :: "string \<Rightarrow> nat \<Rightarrow> nat" where
  "floor_char_boundary s 0 = 0"
| "floor_char_boundary s (Suc n) =
     (if is_char_boundary s (Suc n) then Suc n else floor_char_boundary s n)"

definition truncate_for_storage :: "string \<Rightarrow> nat \<Rightarrow> string" where
  "truncate_for_storage s max_bytes =
     (if length s \<le> max_bytes then s
      else (let reserve = length (truncation_marker (length s));
                cut = floor_char_boundary s (max_bytes - reserve)
            in take cut s @ truncation_marker (length s - cut)))"

lemma show_nat_length_mono: "m \<le> n \<Longrightarrow> length (show_nat m) \<le> length (show_nat n)"
proof (induction n arbitrary: m rule: show_nat.induct)
  case (1 n)
  show ?case
  proof (cases "n < 10")
    case True
    with 1 show ?thesis by (simp add: show_nat.simps)
  next
    case False
    show ?thesis
    proof (cases "m < 10")
      case True
      with False show ?thesis by (simp add: show_nat.simps [of m] show_nat.simps [of n])
    next
      case m: False
      have "m div 10 \<le> n div 10" using "1.prems" by (rule div_le_mono)
      with False "1.IH" have "length (show_nat (m div 10)) \<le> length (show_nat (n div 10))"
        by blast
      with False m show ?thesis by (simp add: show_nat.simps [of m] show_nat.simps [of n])
    qed
  qed
qed

lemma truncation_marker_mono:
  "m \<le> n \<Longrightarrow> length (truncation_marker m) \<le> length (truncation_marker n)"
  by (simp add: truncation_marker_def show_nat_length_mono)

lemma floor_char_boundary_le: "floor_char_boundary s n \<le> n"
  by (induction n) auto

lemma floor_char_boundary_ok: "is_char_boundary s (floor_char_boundary s n)"
  by (induction n) (auto simp: is_char_boundary_def)

lemma floor_char_boundary_greatest:
  "is_char_boundary s k \<Longrightarrow> k \<le> n \<Longrightarrow> k \<le> floor_char_boundary s n"
  by (induction n) (auto simp: le_Suc_eq)

text \<open>When anything is dropped the result is a prefix of the input that ends on a character
  boundary, followed by the marker that states how much was dropped.\<close>

lemma truncate_for_storage_cases:
  obtains "length s \<le> m" "truncate_for_storage s m = s"
  | cut where "m < length s" "is_char_boundary s cut"
      "cut \<le> m - length (truncation_marker (length s))"
      "truncate_for_storage s m = take cut s @ truncation_marker (length s - cut)"
proof (cases "length s \<le> m")
  case True
  with that(1) show ?thesis by (simp add: truncate_for_storage_def)
next
  case False
  with that(2) [OF _ floor_char_boundary_ok floor_char_boundary_le] show ?thesis
    by (simp add: truncate_for_storage_def Let_def)
qed

lemma length_truncate_for_storage:
  assumes "length (truncation_marker (length s)) \<le> m"
  shows "length (truncate_for_storage s m) \<le> m"
proof (cases rule: truncate_for_storage_cases [of s m])
  case (2 cut)
  have "length (truncation_marker (length s - cut)) \<le> length (truncation_marker (length s))"
    by (rule truncation_marker_mono) simp
  with 2 assms show ?thesis by simp
qed simp

section \<open>Entries of the error log\<close>

text \<open>The serialised clock reading \<open>json!(Utc::now())\<close> is the argument \<open>clock\<close>.\<close>

definition as_error_entry :: "json \<Rightarrow> handler_failure \<Rightarrow> json" where
  "as_error_entry clock f =
     (let o0 = map_insert ''at'' clock [];
          o1 = map_insert ''message''
                 (JString (truncate_for_storage (hf_message f) max_error_message_bytes)) o0;
          o2 = (case hf_name f of Some n \<Rightarrow> map_insert ''name'' (JString n) o1 | None \<Rightarrow> o1);
          o3 = (case hf_stack f of
                  Some st \<Rightarrow> map_insert ''stack''
                    (JString (truncate_for_storage st max_error_stack_bytes)) o2
                | None \<Rightarrow> o2);
          o4 = (case hf_directive f of
                  None \<Rightarrow> o3
                | Some Cancel \<Rightarrow> map_insert ''directive'' (JString ''cancel'') o3
                | Some (Retry ms) \<Rightarrow>
                    map_insert ''retryDelayMs'' (json_int (int ms))
                      (map_insert ''directive'' (JString ''retry'') o3))
      in JObject o4)"

text \<open>\<open>jsonb_path_query_array(errors || entry, '$[last - $back to last]', back)\<close> with
  \<open>back = MAX_ERROR_ENTRIES - 1\<close>: append, then keep the newest entries.\<close>

definition error_log_trim_vars :: nat where
  "error_log_trim_vars = max_error_entries - 1"

definition append_error :: "json list \<Rightarrow> json \<Rightarrow> json list" where
  "append_error errs entry =
     (let all = errs @ [entry] in drop (length all - 1 - error_log_trim_vars) all)"

lemma length_append_error: "length (append_error errs e) \<le> max_error_entries"
  by (simp add: append_error_def error_log_trim_vars_def max_error_entries_def Let_def)

lemma append_error_nonempty: "append_error errs e \<noteq> []"
  by (simp add: append_error_def Let_def)

lemma last_append_error: "last (append_error errs e) = e"
  by (simp add: append_error_def Let_def last_drop)

lemma append_error_short:
  "length errs < max_error_entries \<Longrightarrow> append_error errs e = errs @ [e]"
  by (simp add: append_error_def error_log_trim_vars_def max_error_entries_def Let_def)

section \<open>Per-job retention rules\<close>

datatype retention_rule = RBool bool | RRule "nat option" "nat option"

definition rule_drop :: retention_rule where "rule_drop = RBool True"
definition rule_keep :: retention_rule where "rule_keep = RBool False"

definition keep_count :: "nat \<Rightarrow> retention_rule" where
  "keep_count n = RRule None (Some n)"

text \<open>\<open>Duration::as_secs\<close> drops the sub-second part.\<close>

definition as_secs :: "duration \<Rightarrow> nat" where
  "as_secs d = d div 1000000000"

definition as_millis :: "duration \<Rightarrow> nat" where
  "as_millis d = d div 1000000"

definition keep_age :: "duration \<Rightarrow> retention_rule" where
  "keep_age d = RRule (Some (as_secs d)) None"

definition keep_both :: "duration \<Rightarrow> nat \<Rightarrow> retention_rule" where
  "keep_both d n = RRule (Some (as_secs d)) (Some n)"

text \<open>\<open>RetentionRule::to_arg\<close>: the untagged serde encoding, with absent fields skipped, printed by
  \<open>serde_json::to_string\<close>; the empty string for no rule.\<close>

definition rule_json :: "retention_rule \<Rightarrow> string" where
  "rule_json r =
     (case r of
        RBool b \<Rightarrow> (if b then ''true'' else ''false'')
      | RRule None None \<Rightarrow> [char_of (123::nat), char_of (125::nat)]
      | RRule (Some a) None \<Rightarrow>
          [char_of (123::nat), char_of (34::nat)] @ ''age'' @ [char_of (34::nat)] @ '':'' @ show_nat a @ [char_of (125::nat)]
      | RRule None (Some c) \<Rightarrow>
          [char_of (123::nat), char_of (34::nat)] @ ''count'' @ [char_of (34::nat)] @ '':'' @ show_nat c @ [char_of (125::nat)]
      | RRule (Some a) (Some c) \<Rightarrow>
          [char_of (123::nat), char_of (34::nat)] @ ''age'' @ [char_of (34::nat)] @ '':'' @ show_nat a @ '',''
          @ [char_of (34::nat)] @ ''count'' @ [char_of (34::nat)] @ '':'' @ show_nat c @ [char_of (125::nat)])"

definition to_arg :: "retention_rule option \<Rightarrow> string" where
  "to_arg r = (case r of None \<Rightarrow> [] | Some rule \<Rightarrow> rule_json rule)"

section \<open>The \<open>Job\<close> trait\<close>

definition default_queue :: string where "default_queue = ''default''"

text \<open>A value implementing \<open>Job\<close>, as the answers its methods give; \<open>t_payload\<close> is the outcome of
  \<open>serde_json::to_value\<close>.\<close>

record typed_job =
  t_kind :: string
  t_payload :: "json res"
  t_max_attempts :: int
  t_max_stalled_count :: int
  t_priority :: int
  t_unique_key :: "string option"
  t_queue :: string
  t_group_key :: "string option"
  t_tags :: "string list"
  t_metadata :: "json option"

text \<open>The trait's default methods.\<close>

definition trait_defaults :: "string \<Rightarrow> json res \<Rightarrow> typed_job" where
  "trait_defaults kind payload =
     \<lparr>t_kind = kind, t_payload = payload, t_max_attempts = 3, t_max_stalled_count = 1,
      t_priority = 0, t_unique_key = None, t_queue = default_queue, t_group_key = None,
      t_tags = [], t_metadata = None\<rparr>"

end
