(* ===== verification/Schema.thy ===== *)
theory Schema
  imports Jobs
begin

text \<open>
  The database the Postgres backend keeps its state in, as \<open>crates/eddyq-core/migrations/*.up.sql\<close>
  and the row structs of \<open>named_queue.rs\<close>, \<open>group.rs\<close>, \<open>schedule.rs\<close>, \<open>enqueue.rs\<close> declare it. Each table is the
  list of its rows; \<open>BIGSERIAL\<close> columns have a counter. \<open>notified\<close> is the log of the \<open>pg_notify\<close>
  calls that were delivered, as (channel, payload) pairs. The table constraints (\<open>PRIMARY KEY\<close>,
  \<open>CHECK\<close>, the partial unique index) are predicates on the state.
\<close>

section \<open>Rows\<close>

record job =
  j_id :: job_id
  j_queue :: string
  j_kind :: string
  j_payload :: json
  j_state :: job_state
  j_priority :: int
  j_attempt :: int
  j_max_attempts :: int
  j_stalled_count :: int
  j_max_stalled_count :: int
  j_scheduled_at :: timestamp
  j_heartbeat_at :: "timestamp option"
  j_worker_id :: "uuid option"
  j_errors :: "json list"
  j_result :: "json option"
  j_unique_key :: "string option"
  j_group_key :: "string option"
  j_tags :: "string list"
  j_metadata :: json
  j_batch_id :: "batch_key option"
  j_created_at :: timestamp
  j_finalized_at :: "timestamp option"

record named_queue =
  q_name :: string
  q_running_count :: int
  q_max_concurrency :: int
  q_paused :: bool
  q_default_timeout_ms :: "int option"
  q_created_at :: timestamp
  q_updated_at :: timestamp

record group =
  g_key :: string
  g_running_count :: int
  g_max_concurrency :: int
  g_paused :: bool
  g_rate_count :: "int option"
  g_rate_period_ms :: "int option"
  g_tokens :: real
  g_tokens_refilled_at :: "timestamp option"
  g_created_at :: timestamp
  g_updated_at :: timestamp

record stored_rule =
  r_pattern :: string
  r_max_concurrency :: "int option"
  r_rate_count :: "int option"
  r_rate_period_ms :: "int option"
  r_priority :: int
  r_created_at :: timestamp
  r_updated_at :: timestamp

text \<open>\<open>enqueue::DynEnqueue\<close>; it is also what \<open>eddyq_batches.on_complete\<close> holds.\<close>

record dyn_enqueue =
  d_kind :: string
  d_payload :: json
  d_max_attempts :: int
  d_max_stalled_count :: int
  d_priority :: int
  d_queue :: string
  d_scheduled_at :: "timestamp option"
  d_unique_key :: "string option"
  d_group_key :: "string option"
  d_tags :: "string list"
  d_metadata :: json
  d_batch_id :: "batch_key option"
  d_remove_on_complete :: "retention_rule option"
  d_remove_on_fail :: "retention_rule option"

datatype batch_state = BatchPending | BatchComplete

record batch =
  b_id :: batch_key
  b_state :: batch_state
  b_total :: int
  b_completed :: int
  b_failed :: int
  b_cancelled :: int
  b_on_complete :: "dyn_enqueue option"
  b_callback_enqueued_at :: "timestamp option"
  b_metadata :: json
  b_created_at :: timestamp
  b_finalized_at :: "timestamp option"

record schedule =
  s_name :: string
  s_kind :: string
  s_payload :: json
  s_cron_expr :: "string option"
  s_interval_ms :: "int option"
  s_next_run_at :: timestamp
  s_last_run_at :: "timestamp option"
  s_enabled :: bool
  s_priority :: int
  s_max_attempts :: int
  s_queue :: string

record leader =
  l_role :: string
  l_worker_id :: uuid
  l_expires_at :: timestamp
  l_elected_at :: timestamp

section \<open>The database\<close>

record db =
  jobs :: "job list"
  next_job_id :: job_id
  queues :: "named_queue list"
  groups :: "group list"
  rules :: "stored_rule list"
  batches :: "batch list"
  next_batch_id :: batch_key
  schedules :: "schedule list"
  leaders :: "leader list"
  stats_cache :: "(string \<times> string \<times> int) list"
  stats_computed_at :: "timestamp option"
  notified :: "(string \<times> string) list"

definition empty_db :: db where
  "empty_db = \<lparr>jobs = [], next_job_id = 1, queues = [], groups = [], rules = [], batches = [],
     next_batch_id = 1, schedules = [], leaders = [], stats_cache = [],
     stats_computed_at = None, notified = []\<rparr>"

text \<open>
  A transaction body runs to a new state and a value, or fails. \<open>run_tx\<close> is the
  \<open>pool.begin() ... tx.commit()\<close> around it: an early \<open>return Err(..)\<close> or a failing statement drops the
  transaction, so nothing it wrote is kept, its notifications included.
\<close>

type_synonym 'a tx = "db \<Rightarrow> error + (db \<times> 'a)"

definition run_tx :: "'a tx \<Rightarrow> db \<Rightarrow> db \<times> 'a res" where
  "run_tx body s = (case body s of Inl e \<Rightarrow> (s, Inl e) | Inr (s', a) \<Rightarrow> (s', Inr a))"

definition bind_tx :: "'a tx \<Rightarrow> ('a \<Rightarrow> 'b tx) \<Rightarrow> 'b tx" where
  "bind_tx m k s = (case m s of Inl e \<Rightarrow> Inl e | Inr (s', a) \<Rightarrow> k a s')"

definition pg_notify :: "string \<Rightarrow> string \<Rightarrow> db \<Rightarrow> db" where
  "pg_notify channel payload s = s\<lparr>notified := notified s @ [(channel, payload)]\<rparr>"

lemma run_tx_simps [simp]:
  "body s = Inl e \<Longrightarrow> run_tx body s = (s, Inl e)"
  "body s = Inr (s', a) \<Longrightarrow> run_tx body s = (s', Inr a)"
  by (simp_all add: run_tx_def)

text \<open>Whatever holds of the start and is kept by the body on success is kept by the transaction.\<close>

lemma run_tx_invariant:
  "P s \<Longrightarrow> (\<And>s' a. body s = Inr (s', a) \<Longrightarrow> P s') \<Longrightarrow> P (fst (run_tx body s))"
  by (auto simp: run_tx_def split: sum.splits)

lemma pg_notify_simps [simp]:
  "jobs (pg_notify c p s) = jobs s" "next_job_id (pg_notify c p s) = next_job_id s"
  "queues (pg_notify c p s) = queues s" "groups (pg_notify c p s) = groups s"
  "rules (pg_notify c p s) = rules s" "batches (pg_notify c p s) = batches s"
  "next_batch_id (pg_notify c p s) = next_batch_id s" "schedules (pg_notify c p s) = schedules s"
  "leaders (pg_notify c p s) = leaders s" "stats_cache (pg_notify c p s) = stats_cache s"
  "stats_computed_at (pg_notify c p s) = stats_computed_at s"
  "notified (pg_notify c p s) = notified s @ [(c, p)]"
  by (simp_all add: pg_notify_def)

section \<open>What the rows count\<close>

definition running :: "job \<Rightarrow> bool" where
  "running j \<longleftrightarrow> j_state j = Running"

text \<open>\<open>owner\<close> says which counter row, if any, a running job is counted in.\<close>

definition counted :: "(job \<Rightarrow> string option) \<Rightarrow> string \<Rightarrow> job list \<Rightarrow> nat" where
  "counted owner k js = count_if (\<lambda>j. running j \<and> owner j = Some k) js"

definition queue_of :: "job \<Rightarrow> string option" where
  "queue_of j = Some (j_queue j)"

abbreviation running_in_group :: "string \<Rightarrow> job list \<Rightarrow> nat" where
  "running_in_group \<equiv> counted j_group_key"

abbreviation running_in_queue :: "string \<Rightarrow> job list \<Rightarrow> nat" where
  "running_in_queue \<equiv> counted queue_of"

text \<open>The jobs of a batch that have not reached a terminal state.\<close>

definition outstanding :: "batch_key \<Rightarrow> job list \<Rightarrow> nat" where
  "outstanding b js = count_if (\<lambda>j. live (j_state j) \<and> j_batch_id j = Some b) js"

section \<open>Constraints of the schema\<close>

text \<open>Primary keys, and ids below the serial counters.\<close>

definition keys_ok :: "db \<Rightarrow> bool" where
  "keys_ok s \<longleftrightarrow>
     distinct (map j_id (jobs s)) \<and> (\<forall>j \<in> set (jobs s). j_id j < next_job_id s) \<and>
     distinct (map q_name (queues s)) \<and> distinct (map g_key (groups s)) \<and>
     distinct (map r_pattern (rules s)) \<and>
     distinct (map b_id (batches s)) \<and> (\<forall>b \<in> set (batches s). b_id b < next_batch_id s) \<and>
     distinct (map s_name (schedules s)) \<and> distinct (map l_role (leaders s))"

text \<open>The partial unique index \<open>eddyq_jobs_unique\<close> on \<open>(kind, unique_key)\<close>.\<close>

definition conflicts :: "string \<Rightarrow> string option \<Rightarrow> job \<Rightarrow> bool" where
  "conflicts kind ukey j \<longleftrightarrow>
     ukey \<noteq> None \<and> j_kind j = kind \<and> j_unique_key j = ukey \<and> live (j_state j)"

fun unique_index_ok :: "job list \<Rightarrow> bool" where
  "unique_index_ok [] \<longleftrightarrow> True"
| "unique_index_ok (j # js) \<longleftrightarrow>
     (live (j_state j) \<longrightarrow> (\<forall>k \<in> set js. \<not> conflicts (j_kind j) (j_unique_key j) k)) \<and>
     unique_index_ok js"

text \<open>The \<open>CHECK\<close> constraints a write can run into.\<close>

text \<open>A \<open>CHECK\<close> passes when it is true or unknown: a comparison with \<open>NULL\<close> does not fail it.\<close>

definition rate_check :: "int option \<Rightarrow> int option \<Rightarrow> bool" where
  "rate_check rc rp \<longleftrightarrow>
     (case rc of None \<Rightarrow> True | Some c \<Rightarrow> 0 < c) \<and> (case rp of None \<Rightarrow> True | Some p \<Rightarrow> 0 < p)"

definition group_check :: "group \<Rightarrow> bool" where
  "group_check g \<longleftrightarrow>
     0 \<le> g_running_count g \<and> 0 \<le> g_max_concurrency g \<and>
     rate_check (g_rate_count g) (g_rate_period_ms g)"

definition queue_check :: "named_queue \<Rightarrow> bool" where
  "queue_check q \<longleftrightarrow>
     0 \<le> q_running_count q \<and> 0 \<le> q_max_concurrency q \<and>
     (case q_default_timeout_ms q of None \<Rightarrow> True | Some t \<Rightarrow> 0 < t)"

definition rule_check :: "int option \<Rightarrow> int option \<Rightarrow> int option \<Rightarrow> bool" where
  "rule_check max_c rc rp \<longleftrightarrow> rate_check rc rp \<and> (max_c \<noteq> None \<or> rc \<noteq> None)"

definition batch_check :: "batch \<Rightarrow> bool" where
  "batch_check b \<longleftrightarrow>
     0 \<le> b_total b \<and> 0 \<le> b_completed b \<and> 0 \<le> b_failed b \<and> 0 \<le> b_cancelled b \<and>
     b_completed b + b_failed b + b_cancelled b \<le> b_total b"

definition schedule_check :: "schedule \<Rightarrow> bool" where
  "schedule_check r \<longleftrightarrow> (s_cron_expr r \<noteq> None) \<noteq> (s_interval_ms r \<noteq> None)"

definition checks_ok :: "db \<Rightarrow> bool" where
  "checks_ok s \<longleftrightarrow>
     (\<forall>g \<in> set (groups s). 0 \<le> g_max_concurrency g) \<and>
     (\<forall>q \<in> set (queues s). 0 \<le> q_max_concurrency q) \<and>
     (\<forall>b \<in> set (batches s). batch_check b)"

text \<open>
  The counter invariant: every \<open>running_count\<close> is the number of rows running under it, and no group
  runs a job without having a row (a claim creates the row, and nothing deletes one).
\<close>

definition counters_ok :: "db \<Rightarrow> bool" where
  "counters_ok s \<longleftrightarrow>
     (\<forall>g \<in> set (groups s). g_running_count g = int (running_in_group (g_key g) (jobs s))) \<and>
     (\<forall>q \<in> set (queues s). q_running_count q = int (running_in_queue (q_name q) (jobs s))) \<and>
     (\<forall>j \<in> set (jobs s). running j \<longrightarrow>
        (case j_group_key j of None \<Rightarrow> True | Some k \<Rightarrow> k \<in> g_key ` set (groups s)))"

text \<open>
  The batch invariant: the settled and the outstanding jobs of a batch add up to its total, and its
  callback slot is claimed exactly when nothing is outstanding. A job's \<open>batch_id\<close> names a batch
  (\<open>REFERENCES eddyq_batches(id) ON DELETE SET NULL\<close>).
\<close>

definition batch_settled :: "batch \<Rightarrow> int" where
  "batch_settled b = b_completed b + b_failed b + b_cancelled b"

definition batches_ok :: "db \<Rightarrow> bool" where
  "batches_ok s \<longleftrightarrow>
     (\<forall>j \<in> set (jobs s). \<forall>b. j_batch_id j = Some b \<longrightarrow> b \<in> b_id ` set (batches s)) \<and>
     (\<forall>b \<in> set (batches s).
        0 \<le> b_completed b \<and> 0 \<le> b_failed b \<and> 0 \<le> b_cancelled b \<and>
        batch_settled b + int (outstanding (b_id b) (jobs s)) = b_total b \<and>
        (b_callback_enqueued_at b \<noteq> None \<longleftrightarrow> outstanding (b_id b) (jobs s) = 0) \<and>
        (b_callback_enqueued_at b \<noteq> None \<longleftrightarrow> b_state b = BatchComplete) \<and>
        (b_callback_enqueued_at b \<noteq> None \<longleftrightarrow> b_finalized_at b \<noteq> None) \<and>
        (\<forall>spec. b_on_complete b = Some spec \<longrightarrow> d_batch_id spec = None))"

text \<open>The invariant of the database.\<close>

definition db_ok :: "db \<Rightarrow> bool" where
  "db_ok s \<longleftrightarrow>
     keys_ok s \<and> unique_index_ok (jobs s) \<and> counters_ok s \<and> checks_ok s \<and> batches_ok s"

section \<open>Lemmas\<close>

lemma unique_index_ok_append:
  "unique_index_ok (js @ [k]) \<longleftrightarrow>
     unique_index_ok js \<and> (live (j_state k) \<longrightarrow> (\<forall>j \<in> set js. \<not> conflicts (j_kind k) (j_unique_key k) j))"
  by (induction js) (auto simp: conflicts_def)

lemma unique_index_ok_filter: "unique_index_ok js \<Longrightarrow> unique_index_ok (filter p js)"
  by (induction js) auto

text \<open>The index stays valid under an update that keeps kind and key and revives no finalized row.\<close>

lemma unique_index_ok_update:
  assumes "unique_index_ok js"
    and "\<And>j. p j \<Longrightarrow> j_kind (f j) = j_kind j"
    and "\<And>j. p j \<Longrightarrow> j_unique_key (f j) = j_unique_key j"
    and "\<And>j. p j \<Longrightarrow> live (j_state (f j)) \<Longrightarrow> live (j_state j)"
  shows "unique_index_ok (update_where p f js)"
  using assms(1)
proof (induction js)
  case (Cons j js)
  have "\<not> conflicts (j_kind j) (j_unique_key j) k'"
    if "live (j_state j)" "k' \<in> set (update_where p f js)" for k'
  proof -
    from that(2) obtain k where k: "k \<in> set js" and k': "k' = (if p k then f k else k)"
      by (auto simp: update_where_def)
    have "\<not> conflicts (j_kind j) (j_unique_key j) k"
      using Cons.prems that(1) k by simp
    then show ?thesis
      using assms(2-4) [of k] by (auto simp: k' conflicts_def)
  qed
  with Cons assms(2-4) show ?case by auto
qed simp

lemma outstanding_pos_iff:
  "0 < outstanding b js \<longleftrightarrow> (\<exists>j \<in> set js. live (j_state j) \<and> j_batch_id j = Some b)"
  by (simp add: outstanding_def count_if_pos_iff)

lemma batches_ok_D:
  assumes "batches_ok s" "b \<in> set (batches s)"
  shows "batch_settled b + int (outstanding (b_id b) (jobs s)) = b_total b"
    and "b_callback_enqueued_at b \<noteq> None \<longleftrightarrow> outstanding (b_id b) (jobs s) = 0"
    and "b_callback_enqueued_at b \<noteq> None \<longleftrightarrow> b_state b = BatchComplete"
  using assms by (auto simp: batches_ok_def)

lemma batches_ok_transfer:
  assumes "batches_ok s" "batches s' = batches s" "\<And>b. outstanding b (jobs s') = outstanding b (jobs s)"
    and refs: "\<And>j. j \<in> set (jobs s') \<Longrightarrow> set_option (j_batch_id j) \<subseteq> b_id ` set (batches s)"
  shows "batches_ok s'"
proof -
  have "\<forall>j \<in> set (jobs s'). \<forall>b. j_batch_id j = Some b \<longrightarrow> b \<in> b_id ` set (batches s)"
    using refs by fastforce
  with assms(1) show ?thesis unfolding batches_ok_def assms(2,3) by blast
qed

lemma empty_db_ok:
  "keys_ok empty_db" "unique_index_ok (jobs empty_db)" "counters_ok empty_db" "batches_ok empty_db"
  "checks_ok empty_db"
  by (simp_all add: empty_db_def keys_ok_def counters_ok_def batches_ok_def checks_ok_def)

lemma db_ok_empty: "db_ok empty_db"
  by (simp add: db_ok_def empty_db_ok)

lemma db_okD:
  assumes "db_ok s"
  shows "keys_ok s" "unique_index_ok (jobs s)" "counters_ok s" "checks_ok s" "batches_ok s"
  using assms by (simp_all add: db_ok_def)

lemma db_okI:
  "keys_ok s \<Longrightarrow> unique_index_ok (jobs s) \<Longrightarrow> counters_ok s \<Longrightarrow> checks_ok s \<Longrightarrow> batches_ok s \<Longrightarrow> db_ok s"
  by (simp add: db_ok_def)

text \<open>Parts of the state that the invariant reads only through their keys, or not at all.\<close>

lemma db_ok_frame:
  assumes "db_ok s" "jobs s' = jobs s" "next_job_id s' = next_job_id s" "queues s' = queues s"
    "groups s' = groups s" "batches s' = batches s" "next_batch_id s' = next_batch_id s"
    and "distinct (map s_name (schedules s'))" "distinct (map l_role (leaders s'))"
    "distinct (map r_pattern (rules s'))"
  shows "db_ok s'"
  using assms(1) assms(8-10)
  unfolding db_ok_def keys_ok_def counters_ok_def checks_ok_def batches_ok_def assms(2-7) by blast

lemma db_ok_keys:
  assumes "db_ok s"
  shows "distinct (map s_name (schedules s))" "distinct (map l_role (leaders s))" "distinct (map r_pattern (rules s))"
    "distinct (map j_id (jobs s))" "distinct (map g_key (groups s))" "distinct (map q_name (queues s))"
    "distinct (map b_id (batches s))"
  using db_okD(1) [OF assms] by (simp_all add: keys_ok_def)

end
