(* ===== verification/Counters.thy ===== *)
theory Counters
  imports Schema
begin

text \<open>
  The two concurrency counters, \<open>eddyq_groups.running_count\<close> and \<open>eddyq_queues.running_count\<close>, and
  the contract they share: a counter equals the number of jobs running under it. The contract and
  its preservation are proved once, in the locale \<open>counter\<close>, for any table whose rows carry a
  count and any way of saying which row a job is counted in; the locale is interpreted on both
  tables.
\<close>

section \<open>How a job transition changes what is counted\<close>

lemma counted_update_leave:
  assumes "\<And>j. j \<in> set js \<Longrightarrow> p j \<Longrightarrow> running j \<and> \<not> running (f j)"
  shows "counted owner k (update_where p f js) + count_if (\<lambda>j. p j \<and> owner j = Some k) js
       = counted owner k js"
  using assms by (induction js) (auto simp: counted_def)

lemma counted_update_enter:
  assumes "\<And>j. j \<in> set js \<Longrightarrow> p j \<Longrightarrow> \<not> running j \<and> running (f j) \<and> owner (f j) = owner j"
  shows "counted owner k (update_where p f js)
       = counted owner k js + count_if (\<lambda>j. p j \<and> owner j = Some k) js"
  using assms by (induction js) (auto simp: counted_def)

lemma counted_update_same:
  assumes "\<And>j. j \<in> set js \<Longrightarrow> p j \<Longrightarrow> running (f j) = running j \<and> owner (f j) = owner j"
  shows "counted owner k (update_where p f js) = counted owner k js"
  using assms by (induction js) (auto simp: counted_def)

lemma counted_delete:
  assumes "\<And>j. j \<in> set js \<Longrightarrow> p j \<Longrightarrow> \<not> running j"
  shows "counted owner k (delete_where p js) = counted owner k js"
  using assms unfolding counted_def count_if_delete_where by (intro count_if_cong) auto

lemma counted_append [simp]: "counted owner k (js @ js') = counted owner k js + counted owner k js'"
  by (simp add: counted_def)

lemma counted_Nil [simp]: "counted owner k [] = 0"
  by (simp add: counted_def)

lemma counted_single_not_running [simp]: "\<not> running j \<Longrightarrow> counted owner k [j] = 0"
  by (simp add: counted_def)

section \<open>Counter rows\<close>

definition set_group_count :: "timestamp \<Rightarrow> int \<Rightarrow> group \<Rightarrow> group" where
  "set_group_count now n g = g\<lparr>g_running_count := n, g_updated_at := now\<rparr>"

definition set_queue_count :: "timestamp \<Rightarrow> int \<Rightarrow> named_queue \<Rightarrow> named_queue" where
  "set_queue_count now n q = q\<lparr>q_running_count := n, q_updated_at := now\<rparr>"

text \<open>\<open>UPDATE eddyq_groups SET running_count = GREATEST(running_count - 1, 0), updated_at = NOW()
  WHERE key = $1\<close>, and the same statement on \<open>eddyq_queues\<close>.\<close>

definition dec_group :: "timestamp \<Rightarrow> string \<Rightarrow> group list \<Rightarrow> group list" where
  "dec_group now k = update_where (\<lambda>g. g_key g = k)
     (\<lambda>g. set_group_count now (max (g_running_count g - 1) 0) g)"

definition dec_queue :: "timestamp \<Rightarrow> string \<Rightarrow> named_queue list \<Rightarrow> named_queue list" where
  "dec_queue now k = update_where (\<lambda>q. q_name q = k)
     (\<lambda>q. set_queue_count now (max (q_running_count q - 1) 0) q)"

text \<open>\<open>COUNT(*)\<close> of the given jobs by group and by queue, and the rows lowered by such counts.\<close>

definition group_delta :: "job list \<Rightarrow> string \<Rightarrow> nat" where
  "group_delta rows k = count_if (\<lambda>j. j_group_key j = Some k) rows"

definition queue_delta :: "job list \<Rightarrow> string \<Rightarrow> nat" where
  "queue_delta rows q = count_if (\<lambda>j. j_queue j = q) rows"

definition drop_groups :: "timestamp \<Rightarrow> (string \<Rightarrow> nat) \<Rightarrow> group list \<Rightarrow> group list" where
  "drop_groups now n = update_where (\<lambda>g. 0 < n (g_key g))
     (\<lambda>g. set_group_count now (max (g_running_count g - int (n (g_key g))) 0) g)"

definition drop_queues :: "timestamp \<Rightarrow> (string \<Rightarrow> nat) \<Rightarrow> named_queue list \<Rightarrow> named_queue list" where
  "drop_queues now n = update_where (\<lambda>q. 0 < n (q_name q))
     (\<lambda>q. set_queue_count now (max (q_running_count q - int (n (q_name q))) 0) q)"

text \<open>Every row's count is the number of jobs it owns among the running ones.\<close>

definition rows_match ::
  "('r \<Rightarrow> string) \<Rightarrow> ('r \<Rightarrow> int) \<Rightarrow> (job \<Rightarrow> string option) \<Rightarrow> 'r list \<Rightarrow> job list \<Rightarrow> bool" where
  "rows_match key cnt owner rows js \<longleftrightarrow>
     (\<forall>r \<in> set rows. cnt r = int (counted owner (key r) js))"

locale counter =
  fixes key :: "'r \<Rightarrow> string"
    and cnt :: "'r \<Rightarrow> int"
    and set_cnt :: "timestamp \<Rightarrow> int \<Rightarrow> 'r \<Rightarrow> 'r"
    and owner :: "job \<Rightarrow> string option"
  assumes key_set_cnt: "key (set_cnt now n r) = key r"
    and cnt_set_cnt: "cnt (set_cnt now n r) = n"
begin

lemma rows_match_same:
  "rows_match key cnt owner rows js \<Longrightarrow> (\<And>k. counted owner k js' = counted owner k js) \<Longrightarrow>
   rows_match key cnt owner rows js'"
  by (simp add: rows_match_def)

text \<open>Lowering each touched row by as many jobs as left \<open>running\<close> under it keeps the match; the
  floor at zero is never reached.\<close>

lemma rows_match_drop:
  assumes "rows_match key cnt owner rows js"
    and "\<And>k. counted owner k js' + n k = counted owner k js"
    and "\<And>r. \<not> p r \<Longrightarrow> n (key r) = 0"
  shows "rows_match key cnt owner
           (update_where p (\<lambda>r. set_cnt now (max (cnt r - int (n (key r))) 0) r) rows) js'"
proof -
  have "cnt (if p r then set_cnt now (max (cnt r - int (n (key r))) 0) r else r)
      = int (counted owner (key r) js')" if "r \<in> set rows" for r
  proof -
    have c: "cnt r = int (counted owner (key r) js)"
      using assms(1) that by (simp add: rows_match_def)
    have d: "counted owner (key r) js' + n (key r) = counted owner (key r) js"
      by (rule assms(2))
    show ?thesis
    proof (cases "p r")
      case True
      with c d show ?thesis by (simp add: cnt_set_cnt)
    next
      case False
      with c d assms(3) [OF False] show ?thesis by simp
    qed
  qed
  moreover have "key (if p r then set_cnt now m r else r) = key r" for r m
    by (simp add: key_set_cnt)
  ultimately show ?thesis
    unfolding rows_match_def update_where_def set_map by (metis (no_types, lifting) imageE)
qed

lemma rows_match_drop_one:
  assumes "rows_match key cnt owner rows js"
    and "\<And>k'. counted owner k' js' + (if k' = k then 1 else 0) = counted owner k' js"
  shows "rows_match key cnt owner
           (update_where (\<lambda>r. key r = k) (\<lambda>r. set_cnt now (max (cnt r - 1) 0) r) rows) js'"
proof -
  have eq: "update_where (\<lambda>r. key r = k) (\<lambda>r. set_cnt now (max (cnt r - 1) 0) r) rows
    = update_where (\<lambda>r. key r = k)
        (\<lambda>r. set_cnt now (max (cnt r - int (if key r = k then 1 else 0)) 0) r) rows"
    by (simp add: update_where_def)
  show ?thesis
    unfolding eq by (rule rows_match_drop [OF assms(1)]) (use assms(2) in auto)
qed

text \<open>Raising each row by as many jobs as entered \<open>running\<close> under it keeps the match.\<close>

lemma rows_match_raise:
  assumes "rows_match key cnt owner rows js"
    and "\<And>k. counted owner k js' = counted owner k js + n k"
    and "\<And>r. \<not> p r \<Longrightarrow> n (key r) = 0"
    and "\<And>r. p r \<Longrightarrow> key (f r) = key r \<and> cnt (f r) = cnt r + int (n (key r))"
  shows "rows_match key cnt owner (update_where p f rows) js'"
  using assms by (auto simp: rows_match_def set_update_where)

text \<open>\<open>reconcile_counters\<close> lowers exactly the rows above their actual count: afterwards no row is
  above it, and rows that matched are left alone.\<close>

definition reconciled :: "timestamp \<Rightarrow> job list \<Rightarrow> 'r list \<Rightarrow> 'r list" where
  "reconciled now js = update_where
     (\<lambda>r. 0 < cnt r \<and> int (counted owner (key r) js) < cnt r)
     (\<lambda>r. set_cnt now (min (cnt r) (int (counted owner (key r) js))) r)"

lemma reconciled_upper:
  assumes "r \<in> set (reconciled now js rows)"
  shows "cnt r \<le> int (counted owner (key r) js)"
proof -
  from assms obtain r0 where "r0 \<in> set rows"
    and r: "r = (if 0 < cnt r0 \<and> int (counted owner (key r0) js) < cnt r0
                 then set_cnt now (min (cnt r0) (int (counted owner (key r0) js))) r0 else r0)"
    by (auto simp: reconciled_def update_where_def)
  show ?thesis
    by (simp add: r key_set_cnt cnt_set_cnt not_less)
qed

lemma reconciled_noop:
  "rows_match key cnt owner rows js \<Longrightarrow> reconciled now js rows = rows"
  unfolding reconciled_def by (rule update_where_id) (simp add: rows_match_def)

lemma reconciled_keys: "map key (reconciled now js rows) = map key rows"
  unfolding reconciled_def by (rule map_update_where_stable) (rule key_set_cnt)

end

interpretation gc: counter g_key g_running_count set_group_count j_group_key
  by unfold_locales (simp_all add: set_group_count_def)

interpretation qc: counter q_name q_running_count set_queue_count queue_of
  by unfold_locales (simp_all add: set_queue_count_def)

section \<open>The counter invariant over both tables\<close>

definition groups_present :: "db \<Rightarrow> bool" where
  "groups_present s \<longleftrightarrow>
     (\<forall>j \<in> set (jobs s). \<forall>k. running j \<and> j_group_key j = Some k \<longrightarrow> k \<in> g_key ` set (groups s))"

lemma counters_ok_iff:
  "counters_ok s \<longleftrightarrow>
     rows_match g_key g_running_count j_group_key (groups s) (jobs s) \<and>
     rows_match q_name q_running_count queue_of (queues s) (jobs s) \<and>
     groups_present s"
  by (auto simp: counters_ok_def rows_match_def groups_present_def split: option.splits)

lemma counters_ok_group:
  "counters_ok s \<Longrightarrow> g \<in> set (groups s) \<Longrightarrow> g_running_count g = int (running_in_group (g_key g) (jobs s))"
  by (simp add: counters_ok_def)

lemma counters_ok_queue:
  "counters_ok s \<Longrightarrow> q \<in> set (queues s) \<Longrightarrow> q_running_count q = int (running_in_queue (q_name q) (jobs s))"
  by (simp add: counters_ok_def)

text \<open>A group without a row runs nothing.\<close>

lemma no_row_no_running:
  assumes "groups_present s" "k \<notin> g_key ` set (groups s)"
  shows "running_in_group k (jobs s) = 0"
  using assms by (auto simp: counted_def count_if_zero_iff groups_present_def)

text \<open>The keys and rows of the counter tables under the decrements.\<close>

lemma dec_group_keys [simp]: "map g_key (dec_group now k gs) = map g_key gs"
  unfolding dec_group_def by (rule map_update_where_stable) (simp add: set_group_count_def)

lemma dec_queue_keys [simp]: "map q_name (dec_queue now k qs) = map q_name qs"
  unfolding dec_queue_def by (rule map_update_where_stable) (simp add: set_queue_count_def)

lemma drop_groups_keys [simp]: "map g_key (drop_groups now n gs) = map g_key gs"
  unfolding drop_groups_def by (rule map_update_where_stable) (simp add: set_group_count_def)

lemma drop_queues_keys [simp]: "map q_name (drop_queues now n qs) = map q_name qs"
  unfolding drop_queues_def by (rule map_update_where_stable) (simp add: set_queue_count_def)

lemma dec_group_drop: "dec_group now k = drop_groups now (\<lambda>k'. if k' = k then 1 else 0)"
  by (rule ext) (simp add: dec_group_def drop_groups_def update_where_def)

lemma dec_queue_drop: "dec_queue now k = drop_queues now (\<lambda>k'. if k' = k then 1 else 0)"
  by (rule ext) (simp add: dec_queue_def drop_queues_def update_where_def)

lemma drop_none [simp]: "drop_groups now (\<lambda>_. 0) gs = gs" "drop_queues now (\<lambda>_. 0) qs = qs"
  by (simp_all add: drop_groups_def drop_queues_def update_where_def)

lemma drop_max:
  "g \<in> set (drop_groups now n gs) \<Longrightarrow> \<exists>g0 \<in> set gs. g_max_concurrency g = g_max_concurrency g0"
  "q \<in> set (drop_queues now n qs) \<Longrightarrow> \<exists>q0 \<in> set qs. q_max_concurrency q = q_max_concurrency q0"
  by (auto simp: drop_groups_def drop_queues_def set_update_where set_group_count_def set_queue_count_def)

lemma set_map_image: "map f xs = map f ys \<Longrightarrow> f ` set xs = f ` set ys"
  by (metis list.set_map)

lemma groups_present_weaken:
  assumes "groups_present s"
    and "g_key ` set (groups s) \<subseteq> g_key ` set (groups s')"
    and "\<And>j'. j' \<in> set (jobs s') \<Longrightarrow> running j' \<Longrightarrow>
           \<exists>j \<in> set (jobs s). running j \<and> j_group_key j = j_group_key j'"
  shows "groups_present s'"
  using assms unfolding groups_present_def by (metis subsetD)

end
