(* ===== verification/Job_Groups.thy ===== *)
theory Job_Groups
  imports Counters
begin

text \<open>
  \<open>crates/eddyq-core/src/group.rs\<close>: the administration of \<open>eddyq_groups\<close> (caps, pauses, token-bucket
  rates) and of the pattern rules from which a group's row is created on first enqueue. Patterns
  are turned into SQL \<open>LIKE\<close> patterns; the matcher below follows \<open>LIKE\<close>: \<open>%\<close> matches any sequence,
  \<open>_\<close> any one character, a backslash takes the next character literally, and a pattern that ends in
  a backslash raises an error. A character is a UTF-8 sequence, not a byte.
\<close>

section \<open>Patterns\<close>

function utf8_chars :: "string \<Rightarrow> string list" where
  "utf8_chars [] = []"
| "utf8_chars (c # cs) =
     (c # takeWhile is_continuation cs) # utf8_chars (dropWhile is_continuation cs)"
  by pat_completeness auto
termination
  by (relation "measure length") (auto simp: le_imp_less_Suc length_dropWhile_le)

text \<open>\<open>REPLACE(REPLACE(pattern, '*', '%'), '?', '_')\<close>\<close>

definition like_of_glob :: "string \<Rightarrow> string" where
  "like_of_glob p =
     map (\<lambda>c. if c = CHR ''?'' then CHR ''_'' else c)
       (map (\<lambda>c. if c = CHR ''*'' then CHR ''%'' else c) p)"

datatype like_token = AnySeq | AnyOne | Lit string

abbreviation backslash :: string where "backslash \<equiv> [CHR 0x5C]"

fun like_tokens :: "string list \<Rightarrow> like_token list option" where
  "like_tokens [] = Some []"
| "like_tokens (c # cs) =
     (if c = ''%'' then map_option ((#) AnySeq) (like_tokens cs)
      else if c = ''_'' then map_option ((#) AnyOne) (like_tokens cs)
      else if c = backslash then
        (case cs of [] \<Rightarrow> None | d # ds \<Rightarrow> map_option ((#) (Lit d)) (like_tokens ds))
      else map_option ((#) (Lit c)) (like_tokens cs))"

fun match_tokens :: "like_token list \<Rightarrow> string list \<Rightarrow> bool" where
  "match_tokens [] cs \<longleftrightarrow> cs = []"
| "match_tokens (Lit d # ts) cs \<longleftrightarrow> (case cs of [] \<Rightarrow> False | c # cs' \<Rightarrow> c = d \<and> match_tokens ts cs')"
| "match_tokens (AnyOne # ts) cs \<longleftrightarrow> (case cs of [] \<Rightarrow> False | c # cs' \<Rightarrow> match_tokens ts cs')"
| "match_tokens (AnySeq # ts) cs \<longleftrightarrow>
     match_tokens ts cs \<or> (case cs of [] \<Rightarrow> False | c # cs' \<Rightarrow> match_tokens (AnySeq # ts) cs')"

text \<open>\<open>key LIKE pattern\<close>; \<open>None\<close> is the error raised for a trailing escape character.\<close>

definition like_match :: "string \<Rightarrow> string \<Rightarrow> bool option" where
  "like_match pattern k = map_option (\<lambda>ts. match_tokens ts (utf8_chars k)) (like_tokens (utf8_chars pattern))"

text \<open>What the documentation of \<open>GroupRule\<close> says a pattern means: \<open>*\<close> any characters, \<open>?\<close> one
  character, and nothing else is special.\<close>

fun glob_tokens :: "string list \<Rightarrow> like_token list" where
  "glob_tokens [] = []"
| "glob_tokens (c # cs) =
     (if c = ''*'' then AnySeq else if c = ''?'' then AnyOne else Lit c) # glob_tokens cs"

definition glob_match :: "string \<Rightarrow> string \<Rightarrow> bool" where
  "glob_match pattern k = match_tokens (glob_tokens (utf8_chars pattern)) (utf8_chars k)"

definition plain_pattern :: "string \<Rightarrow> bool" where
  "plain_pattern p \<longleftrightarrow> (\<forall>c \<in> set p. c \<noteq> CHR ''%'' \<and> c \<noteq> CHR ''_'' \<and> c \<noteq> CHR 0x5C)"

section \<open>Administration\<close>

definition unlimited :: int where "unlimited = i32_max"

definition fresh_group :: "timestamp \<Rightarrow> string \<Rightarrow> group" where
  "fresh_group now k =
     \<lparr>g_key = k, g_running_count = 0, g_max_concurrency = i32_max, g_paused = False,
      g_rate_count = None, g_rate_period_ms = None, g_tokens = 0, g_tokens_refilled_at = None,
      g_created_at = now, g_updated_at = now\<rparr>"

definition group_set_concurrency :: "timestamp \<Rightarrow> string \<Rightarrow> int \<Rightarrow> db \<Rightarrow> db" where
  "group_set_concurrency now k mx s =
     (let m = max mx 0 in
      s\<lparr>groups := upsert_by g_key ((fresh_group now k)\<lparr>g_max_concurrency := m\<rparr>)
          (\<lambda>g. g\<lparr>g_max_concurrency := m, g_updated_at := now\<rparr>) (groups s)\<rparr>)"

definition group_set_paused :: "timestamp \<Rightarrow> string \<Rightarrow> bool \<Rightarrow> db \<Rightarrow> db" where
  "group_set_paused now k paused s =
     s\<lparr>groups := upsert_by g_key ((fresh_group now k)\<lparr>g_paused := paused\<rparr>)
         (\<lambda>g. g\<lparr>g_paused := paused, g_updated_at := now\<rparr>) (groups s)\<rparr>"

definition group_get :: "string \<Rightarrow> db \<Rightarrow> group option" where
  "group_get k s = lookup_by g_key k (groups s)"

definition group_list :: "db \<Rightarrow> group list" where
  "group_list s = sort_key g_key (groups s)"

text \<open>\<open>set_rate\<close>: the new bucket is full.\<close>

definition group_set_rate :: "timestamp \<Rightarrow> string \<Rightarrow> nat \<Rightarrow> duration \<Rightarrow> db \<Rightarrow> db \<times> unit res" where
  "group_set_rate now k n period s =
     (let c = sat_i32 (int n); p = sat_i32 (int (as_millis period)) in
      if c \<le> 0 \<or> p \<le> 0
      then (s, Inl (InvalidArgument ''rate count and period must both be positive''))
      else (s\<lparr>groups := upsert_by g_key
              ((fresh_group now k)\<lparr>g_rate_count := Some c, g_rate_period_ms := Some p,
                 g_tokens := real_of_int c, g_tokens_refilled_at := Some now\<rparr>)
              (\<lambda>g. g\<lparr>g_rate_count := Some c, g_rate_period_ms := Some p,
                 g_tokens := real_of_int c, g_tokens_refilled_at := Some now,
                 g_updated_at := now\<rparr>) (groups s)\<rparr>, Inr ()))"

definition group_clear_rate :: "timestamp \<Rightarrow> string \<Rightarrow> db \<Rightarrow> db" where
  "group_clear_rate now k s =
     s\<lparr>groups := update_where (\<lambda>g. g_key g = k)
         (\<lambda>g. g\<lparr>g_rate_count := None, g_rate_period_ms := None, g_tokens := 0,
            g_tokens_refilled_at := None, g_updated_at := now\<rparr>) (groups s)\<rparr>"

section \<open>Rules\<close>

record group_rule =
  gr_max_concurrency :: "int option"
  gr_rate_count :: "nat option"
  gr_rate_period :: "duration option"
  gr_priority :: int

definition rule_concurrency :: "int \<Rightarrow> group_rule" where
  "rule_concurrency m = \<lparr>gr_max_concurrency = Some (max m 0), gr_rate_count = None,
     gr_rate_period = None, gr_priority = 0\<rparr>"

definition rule_rate :: "nat \<Rightarrow> duration \<Rightarrow> group_rule" where
  "rule_rate c p = \<lparr>gr_max_concurrency = None, gr_rate_count = Some c, gr_rate_period = Some p,
     gr_priority = 0\<rparr>"

definition rule_both :: "int \<Rightarrow> nat \<Rightarrow> duration \<Rightarrow> group_rule" where
  "rule_both m c p = \<lparr>gr_max_concurrency = Some (max m 0), gr_rate_count = Some c,
     gr_rate_period = Some p, gr_priority = 0\<rparr>"

definition with_priority :: "int \<Rightarrow> group_rule \<Rightarrow> group_rule" where
  "with_priority p r = r\<lparr>gr_priority := p\<rparr>"

definition set_rule :: "timestamp \<Rightarrow> string \<Rightarrow> group_rule \<Rightarrow> db \<Rightarrow> db \<times> unit res" where
  "set_rule now pattern rule s =
     (let period_ms = map_option (\<lambda>p. sat_i32 (int (as_millis p))) (gr_rate_period rule);
          rate_count = map_option (\<lambda>c. sat_i32 (int c)) (gr_rate_count rule)
      in if gr_max_concurrency rule = None \<and> rate_count = None
         then (s, Inl (InvalidArgument ''GroupRule must specify at least one of max_concurrency or rate''))
         else if \<not> rule_check (gr_max_concurrency rule) rate_count period_ms
         then (s, Inl (Database ''eddyq_group_rules check constraint''))
         else (s\<lparr>rules := upsert_by r_pattern
                 \<lparr>r_pattern = pattern, r_max_concurrency = gr_max_concurrency rule,
                  r_rate_count = rate_count, r_rate_period_ms = period_ms,
                  r_priority = gr_priority rule, r_created_at = now, r_updated_at = now\<rparr>
                 (\<lambda>r. r\<lparr>r_max_concurrency := gr_max_concurrency rule, r_rate_count := rate_count,
                    r_rate_period_ms := period_ms, r_priority := gr_priority rule,
                    r_updated_at := now\<rparr>) (rules s)\<rparr>, Inr ()))"

definition remove_rule :: "string \<Rightarrow> db \<Rightarrow> db \<times> bool" where
  "remove_rule pattern s =
     (s\<lparr>rules := delete_where (\<lambda>r. r_pattern r = pattern) (rules s)\<rparr>,
      0 < count_if (\<lambda>r. r_pattern r = pattern) (rules s))"

definition rule_rank :: "stored_rule \<Rightarrow> int \<times> int" where
  "rule_rank r = (- r_priority r, - int (length (utf8_chars (r_pattern r))))"

definition list_rules :: "db \<Rightarrow> stored_rule list" where
  "list_rules s = sort_key (\<lambda>r. (rule_rank r, r_pattern r)) (rules s)"

text \<open>
  \<open>ORDER BY priority DESC, LENGTH(pattern) DESC LIMIT 1\<close> does not order rules of equal rank: which of
  them comes first is the database's choice, the argument \<open>scan\<close>, an arbitrary rearrangement of the
  rows it is given.
\<close>

definition best_rule :: "(stored_rule list \<Rightarrow> stored_rule list) \<Rightarrow> string \<Rightarrow> stored_rule list \<Rightarrow> stored_rule option" where
  "best_rule scan k rs =
     (case sort_key rule_rank (scan (filter (\<lambda>r. like_match (like_of_glob (r_pattern r)) k = Some True) rs)) of
        [] \<Rightarrow> None | r # _ \<Rightarrow> Some r)"

definition group_of_rule :: "timestamp \<Rightarrow> string \<Rightarrow> stored_rule \<Rightarrow> group" where
  "group_of_rule now k r =
     (fresh_group now k)\<lparr>
        g_max_concurrency := (case r_max_concurrency r of Some m \<Rightarrow> m | None \<Rightarrow> i32_max),
        g_paused := False,
        g_rate_count := r_rate_count r,
        g_rate_period_ms := r_rate_period_ms r,
        g_tokens := (case r_rate_count r of Some c \<Rightarrow> real_of_int c | None \<Rightarrow> 0),
        g_tokens_refilled_at := (case r_rate_count r of Some _ \<Rightarrow> Some now | None \<Rightarrow> None)\<rparr>"

text \<open>The statement fails as a whole when a pattern is malformed for \<open>LIKE\<close> or the row violates a
  \<open>CHECK\<close> (which Postgres evaluates before it looks for a conflicting row).\<close>

definition materialize_from_rule ::
  "(stored_rule list \<Rightarrow> stored_rule list) \<Rightarrow> timestamp \<Rightarrow> string \<Rightarrow> db \<Rightarrow> db res" where
  "materialize_from_rule scan now k s =
     (if \<exists>r \<in> set (rules s). like_match (like_of_glob (r_pattern r)) k = None
      then Inl (Database ''LIKE pattern must not end with escape character'')
      else case best_rule scan k (rules s) of
             None \<Rightarrow> Inr s
           | Some r \<Rightarrow>
               if \<not> group_check (group_of_rule now k r)
               then Inl (Database ''eddyq_groups check constraint'')
               else Inr (s\<lparr>groups := insert_if_absent g_key (group_of_rule now k r) (groups s)\<rparr>))"

section \<open>Patterns mean what the documentation says, without \<open>LIKE\<close>'s own metacharacters\<close>

lemma is_continuation_special [simp]:
  "\<not> is_continuation (CHR ''*'')" "\<not> is_continuation (CHR ''?'')"
  "\<not> is_continuation (CHR ''%'')" "\<not> is_continuation (CHR ''_'')"
  by (simp_all add: is_continuation_def)

definition like_char :: "char \<Rightarrow> char" where
  "like_char c = (if c = CHR ''*'' then CHR ''%'' else if c = CHR ''?'' then CHR ''_'' else c)"

lemma like_of_glob_map: "like_of_glob p = map like_char p"
  by (auto simp: like_of_glob_def like_char_def)

lemma is_continuation_like_char [simp]: "is_continuation (like_char c) = is_continuation c"
  by (simp add: like_char_def)

lemma utf8_chars_map_like: "utf8_chars (map like_char p) = map (map like_char) (utf8_chars p)"
  by (induction p rule: utf8_chars.induct)
     (simp_all add: takeWhile_map dropWhile_map comp_def)

lemma utf8_chars_pieces: "cs \<in> set (utf8_chars s) \<Longrightarrow> cs \<noteq> [] \<and> set cs \<subseteq> set s"
  by (induction s rule: utf8_chars.induct)
     (auto dest: set_takeWhileD set_dropWhileD)

lemma utf8_chars_tail: "cs \<in> set (utf8_chars s) \<Longrightarrow> \<forall>c \<in> set (tl cs). is_continuation c"
  by (induction s rule: utf8_chars.induct) (auto dest: set_takeWhileD)

text \<open>
  A Rust \<open>str\<close> is valid UTF-8; all that is used of it is that an ASCII byte is a character of its own.
\<close>

definition piece_ok :: "string \<Rightarrow> bool" where
  "piece_ok cs \<longleftrightarrow> cs \<noteq> [] \<and> ((of_char (hd cs) :: nat) < 128 \<longrightarrow> tl cs = [])"

definition str_ok :: "string \<Rightarrow> bool" where
  "str_ok s \<longleftrightarrow> (\<forall>cs \<in> set (utf8_chars s). piece_ok cs)"

text \<open>A character of a plain pattern becomes a metacharacter of \<open>LIKE\<close> exactly when the pattern wrote
  one of its own, and never becomes an escape.\<close>

lemma like_char_high: "128 \<le> (of_char c :: nat) \<Longrightarrow> like_char c = c"
  by (auto simp: like_char_def)

lemma like_char_piece:
  assumes "piece_ok cs" "plain_pattern cs" "\<forall>c \<in> set (tl cs). is_continuation c"
  shows "(map like_char cs = ''%'' \<longleftrightarrow> cs = ''*'') \<and> (map like_char cs = ''_'' \<longleftrightarrow> cs = ''?'') \<and>
    map like_char cs \<noteq> backslash \<and> (cs \<noteq> ''*'' \<and> cs \<noteq> ''?'' \<longrightarrow> map like_char cs = cs)"
proof -
  obtain c ds where cs: "cs = c # ds"
    using assms(1) by (cases cs) (auto simp: piece_ok_def)
  have c: "c \<noteq> CHR ''%''" "c \<noteq> CHR ''_''" "c \<noteq> CHR 0x5C"
    using assms(2) by (simp_all add: cs plain_pattern_def)
  show ?thesis
  proof (cases "(of_char c :: nat) < 128")
    case True
    then have "ds = []" using assms(1) by (simp add: cs piece_ok_def)
    with c show ?thesis by (auto simp: cs like_char_def)
  next
    case False
    have "\<forall>d \<in> set ds. 128 \<le> (of_char d :: nat)"
      using assms(3) by (auto simp: cs is_continuation_def)
    then have "map like_char ds = ds" by (simp add: like_char_high map_idI)
    moreover have "c \<noteq> CHR ''*''" "c \<noteq> CHR ''?''" using False by auto
    ultimately show ?thesis using c False by (auto simp: cs like_char_high)
  qed
qed

lemma like_tokens_plain:
  assumes "\<forall>cs \<in> set css. piece_ok cs \<and> plain_pattern cs \<and> (\<forall>c \<in> set (tl cs). is_continuation c)"
  shows "like_tokens (map (map like_char) css) = Some (glob_tokens css)"
  using assms
proof (induction css)
  case (Cons cs css)
  then have "(map like_char cs = ''%'' \<longleftrightarrow> cs = ''*'') \<and> (map like_char cs = ''_'' \<longleftrightarrow> cs = ''?'') \<and>
    map like_char cs \<noteq> backslash \<and> (cs \<noteq> ''*'' \<and> cs \<noteq> ''?'' \<longrightarrow> map like_char cs = cs)"
    by (intro like_char_piece) simp_all
  moreover have "like_tokens (map (map like_char) css) = Some (glob_tokens css)"
    using Cons by simp
  ultimately show ?case by auto
qed simp

lemma like_match_plain:
  assumes "plain_pattern p" "str_ok p"
  shows "like_match (like_of_glob p) k = Some (glob_match p k)"
proof -
  have "piece_ok cs \<and> plain_pattern cs \<and> (\<forall>c \<in> set (tl cs). is_continuation c)"
    if cs: "cs \<in> set (utf8_chars p)" for cs
  proof -
    have "plain_pattern cs"
      using utf8_chars_pieces [OF cs] assms(1) unfolding plain_pattern_def by blast
    with cs assms(2) utf8_chars_tail [OF cs] show ?thesis by (simp add: str_ok_def)
  qed
  then show ?thesis
    by (simp add: like_match_def glob_match_def like_of_glob_map utf8_chars_map_like like_tokens_plain)
qed

section \<open>Configuration changes keep the invariants\<close>

text \<open>
  Every operation of this theory replaces the group table by one whose rows keep the counts of the
  rows they replace; a row without a predecessor starts at zero.
\<close>

definition rows_config :: "group list \<Rightarrow> group list \<Rightarrow> bool" where
  "rows_config gs gs' \<longleftrightarrow>
     distinct (map g_key gs') \<and>
     g_key ` set gs \<subseteq> g_key ` set gs' \<and>
     (\<forall>g' \<in> set gs'.
        (\<exists>g \<in> set gs. g_key g = g_key g' \<and> g_running_count g = g_running_count g' \<and>
            (0 \<le> g_max_concurrency g \<longrightarrow> 0 \<le> g_max_concurrency g')) \<or>
        (g_running_count g' = 0 \<and> 0 \<le> g_max_concurrency g' \<and> g_key g' \<notin> g_key ` set gs))"

definition group_config_step :: "db \<Rightarrow> db \<Rightarrow> bool" where
  "group_config_step s s' \<longleftrightarrow> (\<exists>gs'. s' = s\<lparr>groups := gs'\<rparr> \<and> rows_config (groups s) gs')"

lemma group_config_step_frame:
  assumes "group_config_step s s'"
  shows "jobs s' = jobs s" "queues s' = queues s" "batches s' = batches s" "rules s' = rules s"
    "schedules s' = schedules s" "leaders s' = leaders s" "next_job_id s' = next_job_id s"
    "next_batch_id s' = next_batch_id s" "notified s' = notified s"
    "rows_config (groups s) (groups s')"
  using assms by (auto simp: group_config_step_def)

lemma rows_config_refl: "distinct (map g_key gs) \<Longrightarrow> rows_config gs gs"
  by (auto simp: rows_config_def)

lemma group_config_step_refl: "distinct (map g_key (groups s)) \<Longrightarrow> group_config_step s s"
  unfolding group_config_step_def by (rule exI [of _ "groups s"]) (simp add: rows_config_refl)

lemma group_config_step_keys: "group_config_step s s' \<Longrightarrow> keys_ok s \<Longrightarrow> keys_ok s'"
  by (auto simp: group_config_step_def rows_config_def keys_ok_def)

lemma group_config_step_counters:
  assumes step: "group_config_step s s'" and ok: "counters_ok s"
  shows "counters_ok s'"
proof -
  note fr = group_config_step_frame [OF step]
  have pres: "groups_present s" using ok by (simp add: counters_ok_iff)
  have "g_running_count g' = int (running_in_group (g_key g') (jobs s))" if "g' \<in> set (groups s')" for g'
  proof (cases "\<exists>g \<in> set (groups s). g_key g = g_key g' \<and> g_running_count g = g_running_count g'")
    case True
    then obtain g where "g \<in> set (groups s)" "g_key g = g_key g'" "g_running_count g = g_running_count g'"
      by blast
    with counters_ok_group [OF ok, of g] show ?thesis by simp
  next
    case False
    with fr(10) that have "g_running_count g' = 0" "g_key g' \<notin> g_key ` set (groups s)"
      by (auto simp: rows_config_def)
    with no_row_no_running [OF pres] show ?thesis by simp
  qed
  moreover have "groups_present s'"
    by (rule groups_present_weaken [OF pres]) (use fr in \<open>auto simp: rows_config_def\<close>)
  ultimately show ?thesis
    using ok fr by (simp add: counters_ok_iff rows_match_def)
qed

lemma group_config_step_checks:
  assumes "group_config_step s s'" "checks_ok s"
  shows "checks_ok s'"
proof -
  have "0 \<le> g_max_concurrency g'" if "g' \<in> set (groups s')" for g'
    using assms(2) that group_config_step_frame(10) [OF assms(1)]
    by (auto simp: rows_config_def checks_ok_def)
  with assms group_config_step_frame [OF assms(1)] show ?thesis by (simp add: checks_ok_def)
qed

text \<open>An upsert with a fresh row, an update in place, and a conditional insert are such steps.\<close>

lemma update_rows_config:
  assumes "distinct (map g_key gs)"
    and f: "\<And>g. g_key (f g) = g_key g \<and> g_running_count (f g) = g_running_count g \<and>
           (0 \<le> g_max_concurrency g \<longrightarrow> 0 \<le> g_max_concurrency (f g))"
  shows "rows_config gs (update_where p f gs)"
proof -
  have keys: "map g_key (update_where p f gs) = map g_key gs"
    by (rule map_update_where_stable) (simp add: f)
  have "\<exists>g \<in> set gs. g_key g = g_key g' \<and> g_running_count g = g_running_count g' \<and>
          (0 \<le> g_max_concurrency g \<longrightarrow> 0 \<le> g_max_concurrency g')"
    if "g' \<in> set (update_where p f gs)" for g'
    using that f by (auto simp: set_update_where)
  then show ?thesis
    using assms(1) set_map_image [OF keys] by (auto simp: rows_config_def keys)
qed

lemma insert_rows_config:
  assumes "distinct (map g_key gs)" "g_running_count row = 0" "0 \<le> g_max_concurrency row"
    and "g_key row \<notin> g_key ` set gs"
  shows "rows_config gs (gs @ [row])"
  using assms by (auto simp: rows_config_def)

lemma upsert_config_step:
  assumes "distinct (map g_key (groups s))"
    and "\<And>g. g_key (f g) = g_key g \<and> g_running_count (f g) = g_running_count g \<and>
           (0 \<le> g_max_concurrency g \<longrightarrow> 0 \<le> g_max_concurrency (f g))"
    and "g_running_count row = 0" "0 \<le> g_max_concurrency row"
  shows "group_config_step s (s\<lparr>groups := upsert_by g_key row f (groups s)\<rparr>)"
  unfolding group_config_step_def upsert_by_def
  using update_rows_config [OF assms(1,2)] insert_rows_config [OF assms(1,3,4)] by auto

lemma update_config_step:
  assumes "distinct (map g_key (groups s))"
    and "\<And>g. g_key (f g) = g_key g \<and> g_running_count (f g) = g_running_count g \<and>
           (0 \<le> g_max_concurrency g \<longrightarrow> 0 \<le> g_max_concurrency (f g))"
  shows "group_config_step s (s\<lparr>groups := update_where p f (groups s)\<rparr>)"
  unfolding group_config_step_def using update_rows_config [OF assms] by auto

lemma insert_config_step:
  assumes "distinct (map g_key (groups s))" "g_running_count row = 0" "0 \<le> g_max_concurrency row"
  shows "group_config_step s (s\<lparr>groups := insert_if_absent g_key row (groups s)\<rparr>)"
proof (cases "g_key row \<in> g_key ` set (groups s)")
  case True
  then show ?thesis
    using group_config_step_refl [OF assms(1)] by (simp add: insert_if_absent_def)
next
  case False
  then show ?thesis
    using insert_rows_config [OF assms False] by (auto simp: group_config_step_def insert_if_absent_def)
qed

lemma keys_ok_groups: "keys_ok s \<Longrightarrow> distinct (map g_key (groups s))"
  by (simp add: keys_ok_def)

lemma group_set_concurrency_step:
  "keys_ok s \<Longrightarrow> group_config_step s (group_set_concurrency now k mx s)"
  unfolding group_set_concurrency_def Let_def
  by (rule upsert_config_step) (simp_all add: keys_ok_groups fresh_group_def)

lemma group_set_paused_step:
  "keys_ok s \<Longrightarrow> group_config_step s (group_set_paused now k b s)"
  unfolding group_set_paused_def
  by (rule upsert_config_step) (simp_all add: keys_ok_groups fresh_group_def)

lemma group_set_rate_step:
  assumes "keys_ok s"
  shows "group_config_step s (fst (group_set_rate now k n period s))"
  using assms unfolding group_set_rate_def Let_def
  by (auto intro!: upsert_config_step group_config_step_refl simp: keys_ok_groups fresh_group_def)

lemma group_clear_rate_step:
  "keys_ok s \<Longrightarrow> group_config_step s (group_clear_rate now k s)"
  unfolding group_clear_rate_def by (rule update_config_step) (simp_all add: keys_ok_groups)

lemma materialize_step:
  assumes "materialize_from_rule scan now k s = Inr s'" "keys_ok s"
  shows "group_config_step s s'"
  using assms unfolding materialize_from_rule_def
  by (auto intro!: insert_config_step group_config_step_refl
      simp: keys_ok_groups group_of_rule_def fresh_group_def group_check_def split: if_splits option.splits)

lemma materialize_keeps_explicit:
  assumes "materialize_from_rule scan now k s = Inr s'" "group_get k' s = Some g"
  shows "group_get k' s' = Some g"
proof -
  have "lookup_by g_key k' xs = Some g \<Longrightarrow> lookup_by g_key k' (xs @ gs) = Some g" for xs gs
    unfolding lookup_by_def by (induction xs) auto
  with assms show ?thesis
    unfolding materialize_from_rule_def group_get_def
    by (auto simp: insert_if_absent_def split: if_splits option.splits)
qed

text \<open>A rule is chosen among the matching ones, and none of these outranks it.\<close>

lemma best_rule_SomeD:
  assumes "best_rule scan k rs = Some r" "\<And>xs. mset (scan xs) = mset xs"
  shows "r \<in> set rs" "like_match (like_of_glob (r_pattern r)) k = Some True"
    "\<And>r'. r' \<in> set rs \<Longrightarrow> like_match (like_of_glob (r_pattern r')) k = Some True \<Longrightarrow>
       rule_rank r \<le> rule_rank r'"
proof -
  let ?ms = "filter (\<lambda>r. like_match (like_of_glob (r_pattern r)) k = Some True) rs"
  obtain ys where srt: "sort_key rule_rank (scan ?ms) = r # ys"
    using assms(1) by (auto simp: best_rule_def split: list.splits)
  have set_eq: "set (r # ys) = set ?ms"
    using assms(2) [of ?ms] by (metis mset_eq_setD set_sort srt)
  then have "r \<in> set ?ms" by auto
  then show "r \<in> set rs" "like_match (like_of_glob (r_pattern r)) k = Some True" by auto
  have "sorted (map rule_rank (r # ys))" by (metis sorted_sort_key srt)
  then show "rule_rank r \<le> rule_rank r'"
    if "r' \<in> set rs" "like_match (like_of_glob (r_pattern r')) k = Some True" for r'
    using that set_eq by fastforce
qed

lemma best_rule_NoneD:
  assumes "best_rule scan k rs = None" "\<And>xs. mset (scan xs) = mset xs" "r \<in> set rs"
  shows "like_match (like_of_glob (r_pattern r)) k \<noteq> Some True"
proof
  assume "like_match (like_of_glob (r_pattern r)) k = Some True"
  with assms(3) have "filter (\<lambda>r. like_match (like_of_glob (r_pattern r)) k = Some True) rs \<noteq> []"
    by (auto simp: filter_empty_conv)
  with assms(1,2) show False
    by (auto simp: best_rule_def split: list.splits)
       (metis mset.simps(1) mset_sort mset_zero_iff)
qed

end
