(* ===== verification/Named_Queues.thy ===== *)
theory Named_Queues
  imports Counters
begin

text \<open>
  \<open>crates/eddyq-core/src/named_queue.rs\<close>: queue-name validation and the administration of
  \<open>eddyq_queues\<close>. A queue without a row is unlimited; every statement that may create a row
  initialises its \<open>running_count\<close> from the jobs running on the queue at that moment. The database
  clock \<open>NOW()\<close> of a statement is the argument \<open>now\<close>.
\<close>

definition max_queue_name_len :: nat where "max_queue_name_len = 64"

definition is_ascii_alphanumeric :: "char \<Rightarrow> bool" where
  "is_ascii_alphanumeric c \<longleftrightarrow>
     (let n = (of_char c :: nat)
      in (48 \<le> n \<and> n \<le> 57) \<or> (65 \<le> n \<and> n \<le> 90) \<or> (97 \<le> n \<and> n \<le> 122))"

definition queue_char_ok :: "char \<Rightarrow> bool" where
  "queue_char_ok c \<longleftrightarrow>
     is_ascii_alphanumeric c \<or> c = CHR ''.'' \<or> c = CHR ''_'' \<or> c = CHR ''-''"

definition validate_queue_name :: "string \<Rightarrow> unit res" where
  "validate_queue_name name =
     (if name = [] then Inl (InvalidArgument ''queue name must not be empty'')
      else if length name > max_queue_name_len then Inl (InvalidArgument ''queue name exceeds 64 chars'')
      else if \<not> list_all queue_char_ok name
           then Inl (InvalidArgument ''queue name contains invalid character'')
      else Inr ())"

definition valid_queue_name :: "string \<Rightarrow> bool" where
  "valid_queue_name name \<longleftrightarrow> validate_queue_name name = Inr ()"

lemma valid_queue_name_iff:
  "valid_queue_name name \<longleftrightarrow>
     name \<noteq> [] \<and> length name \<le> max_queue_name_len \<and> (\<forall>c \<in> set name. queue_char_ok c)"
  by (auto simp: valid_queue_name_def validate_queue_name_def list_all_iff)

lemma validate_queue_name_cases:
  obtains "validate_queue_name name = Inr ()" "valid_queue_name name"
  | m where "validate_queue_name name = Inl (InvalidArgument m)" "\<not> valid_queue_name name"
proof (cases "validate_queue_name name = Inr ()")
  case True
  with that(1) show ?thesis by (simp add: valid_queue_name_def)
next
  case False
  then obtain m where "validate_queue_name name = Inl (InvalidArgument m)"
    by (auto simp: validate_queue_name_def split: if_splits)
  with that(2) show ?thesis by (simp add: valid_queue_name_def)
qed

section \<open>Administration\<close>

text \<open>The row the column defaults and \<open>SELECT $1, ..., COUNT(*) FROM eddyq_jobs WHERE queue = $1 AND
  state = 'running'\<close> give.\<close>

definition fresh_queue :: "timestamp \<Rightarrow> string \<Rightarrow> job list \<Rightarrow> named_queue" where
  "fresh_queue now name js =
     \<lparr>q_name = name, q_running_count = int (running_in_queue name js), q_max_concurrency = i32_max,
      q_paused = False, q_default_timeout_ms = None, q_created_at = now, q_updated_at = now\<rparr>"

definition queue_set_concurrency :: "timestamp \<Rightarrow> string \<Rightarrow> int \<Rightarrow> db \<Rightarrow> db" where
  "queue_set_concurrency now name mx s =
     (let m = max mx 0 in
      s\<lparr>queues := upsert_by q_name ((fresh_queue now name (jobs s))\<lparr>q_max_concurrency := m\<rparr>)
          (\<lambda>q. q\<lparr>q_max_concurrency := m, q_updated_at := now\<rparr>) (queues s)\<rparr>)"

definition queue_set_paused :: "timestamp \<Rightarrow> string \<Rightarrow> bool \<Rightarrow> db \<Rightarrow> db" where
  "queue_set_paused now name paused s =
     s\<lparr>queues := upsert_by q_name ((fresh_queue now name (jobs s))\<lparr>q_paused := paused\<rparr>)
         (\<lambda>q. q\<lparr>q_paused := paused, q_updated_at := now\<rparr>) (queues s)\<rparr>"

definition queue_timeout_ms :: "duration option \<Rightarrow> int option" where
  "queue_timeout_ms t =
     Option.bind (map_option (\<lambda>d. sat_i32 (int (as_millis d))) t)
       (\<lambda>m. if 0 < m then Some m else None)"

definition queue_set_timeout :: "timestamp \<Rightarrow> string \<Rightarrow> duration option \<Rightarrow> db \<Rightarrow> db" where
  "queue_set_timeout now name t s =
     (let ms = queue_timeout_ms t in
      s\<lparr>queues := upsert_by q_name ((fresh_queue now name (jobs s))\<lparr>q_default_timeout_ms := ms\<rparr>)
          (\<lambda>q. q\<lparr>q_default_timeout_ms := ms, q_updated_at := now\<rparr>) (queues s)\<rparr>)"

definition queue_get :: "string \<Rightarrow> db \<Rightarrow> named_queue option" where
  "queue_get name s = lookup_by q_name name (queues s)"

definition queue_list :: "db \<Rightarrow> named_queue list" where
  "queue_list s = sort_key q_name (queues s)"

lemmas queue_admin_defs = queue_set_concurrency_def queue_set_paused_def queue_set_timeout_def

section \<open>The shared contract of the three settings\<close>

text \<open>
  Each setting is an upsert whose new row counts the running jobs and whose update touches neither
  name nor count. What follows from that alone is proved once.
\<close>

locale queue_setting =
  fixes setting :: "timestamp \<Rightarrow> string \<Rightarrow> 'v \<Rightarrow> db \<Rightarrow> db"
    and apply_to :: "timestamp \<Rightarrow> 'v \<Rightarrow> named_queue \<Rightarrow> named_queue"
  assumes setting_eq: "setting now name v s =
      s\<lparr>queues := upsert_by q_name (apply_to now v (fresh_queue now name (jobs s)))
          (apply_to now v) (queues s)\<rparr>"
    and apply_name: "q_name (apply_to now v q) = q_name q"
    and apply_count: "q_running_count (apply_to now v q) = q_running_count q"
    and apply_max: "0 \<le> q_max_concurrency q \<Longrightarrow> 0 \<le> q_max_concurrency (apply_to now v q)"
begin

lemma frame:
  "jobs (setting now name v s) = jobs s" "groups (setting now name v s) = groups s"
  "batches (setting now name v s) = batches s" "rules (setting now name v s) = rules s"
  "schedules (setting now name v s) = schedules s" "leaders (setting now name v s) = leaders s"
  "next_job_id (setting now name v s) = next_job_id s"
  "next_batch_id (setting now name v s) = next_batch_id s"
  by (simp_all add: setting_eq)

lemma lookup:
  "queue_get k (setting now name v s) =
     (if k = name
      then Some (apply_to now v (case queue_get k s of None \<Rightarrow> fresh_queue now name (jobs s) | Some q \<Rightarrow> q))
      else queue_get k s)"
  by (auto simp: setting_eq queue_get_def lookup_by_upsert_by apply_name fresh_queue_def
      split: option.splits)

lemma keeps_keys: "keys_ok s \<Longrightarrow> keys_ok (setting now name v s)"
  by (simp add: setting_eq keys_ok_def distinct_upsert_by apply_name)

lemma rows:
  assumes "q' \<in> set (queues (setting now name v s))"
  obtains q where "q \<in> set (queues s)" "q' = q \<or> q' = apply_to now v q"
  | "q' = apply_to now v (fresh_queue now name (jobs s))"
  using assms by (auto simp: setting_eq upsert_by_def set_update_where split: if_splits)

lemma keeps_counters:
  assumes "counters_ok s"
  shows "counters_ok (setting now name v s)"
proof -
  have "q_running_count q' = int (running_in_queue (q_name q') (jobs s))"
    if "q' \<in> set (queues (setting now name v s))" for q'
    using that
  proof (cases rule: rows)
    case (1 q)
    then show ?thesis
      using counters_ok_queue [OF assms 1(1)] by (auto simp: apply_name apply_count)
  next
    case 2
    then show ?thesis by (simp add: apply_name apply_count fresh_queue_def)
  qed
  with assms show ?thesis
    by (simp add: counters_ok_iff rows_match_def groups_present_def frame)
qed

lemma keeps_checks:
  assumes "checks_ok s"
  shows "checks_ok (setting now name v s)"
proof -
  have "0 \<le> q_max_concurrency q'" if "q' \<in> set (queues (setting now name v s))" for q'
    using that
  proof (cases rule: rows)
    case (1 q)
    then show ?thesis using assms by (auto simp: checks_ok_def intro: apply_max)
  next
    case 2
    then show ?thesis by (simp add: apply_max fresh_queue_def)
  qed
  with assms show ?thesis by (simp add: checks_ok_def frame)
qed

end

interpretation qconc: queue_setting queue_set_concurrency
  "\<lambda>now mx q. q\<lparr>q_max_concurrency := max mx 0, q_updated_at := now\<rparr>"
  by unfold_locales (simp_all add: queue_set_concurrency_def fresh_queue_def Let_def)

interpretation qpause: queue_setting queue_set_paused
  "\<lambda>now paused q. q\<lparr>q_paused := paused, q_updated_at := now\<rparr>"
  by unfold_locales (simp_all add: queue_set_paused_def fresh_queue_def)

interpretation qtimeout: queue_setting queue_set_timeout
  "\<lambda>now t q. q\<lparr>q_default_timeout_ms := queue_timeout_ms t, q_updated_at := now\<rparr>"
  by unfold_locales (simp_all add: queue_set_timeout_def fresh_queue_def Let_def)

lemma queue_timeout_ms_positive: "queue_timeout_ms t = Some m \<Longrightarrow> 0 < m \<and> m \<le> i32_max"
  by (cases t) (auto simp: queue_timeout_ms_def sat_i32_def split: if_splits)

end
