(* ===== verification/Claim.thy ===== *)
theory Claim
  imports Job_Groups Named_Queues
begin

text \<open>
  \<open>crates/eddyq-core/src/fetch.rs\<close>, \<open>claim_batch\<close>: the transaction by which a fetcher takes jobs, in the
  phases of the source. The queue rows are read once without a lock, and the rows that can bind are
  read again under a lock; \<open>c_seen_queues\<close> is what the first read returned, which may be older than
  the state \<open>s\<close> the rest of the transaction works on. Rows that other transactions hold locked, and
  which \<open>SKIP LOCKED\<close> therefore leaves out, are given by predicates, and the iteration order of the
  \<open>HashMap\<close> of group slots by \<open>c_order\<close>. Token balances are real numbers; the rounding of \<open>f64\<close> is not
  modelled.
\<close>

section \<open>Data\<close>

record group_state =
  gs_slots :: int
  gs_refilled :: real
  gs_rate_limited :: bool

type_synonym slot_table = "(string \<times> group_state) list"

record claim_env =
  c_now :: timestamp
  c_utc :: timestamp
  c_seen_queues :: "named_queue list"
  c_queue_locked :: "string \<Rightarrow> bool"
  c_group_locked :: "string \<Rightarrow> bool"
  c_job_locked :: "job_id \<Rightarrow> bool"
  c_order :: "slot_table \<Rightarrow> slot_table"

record claimed_job =
  cj_id :: job_id
  cj_kind :: string
  cj_payload :: json
  cj_attempt :: int
  cj_max_attempts :: int
  cj_stalled_count :: int
  cj_max_stalled_count :: int
  cj_group_key :: "string option"
  cj_queue :: string
  cj_worker_id :: uuid
  cj_timeout :: "duration option"

text \<open>An accepted candidate: id, group key and queue.\<close>

type_synonym accepted = "job_id \<times> string option \<times> string"

type_synonym budget = "string \<Rightarrow> int option"

section \<open>Phase 0: queue budgets\<close>

definition queue_row_needs_lock :: "int \<Rightarrow> int \<Rightarrow> bool \<Rightarrow> bool" where
  "queue_row_needs_lock running_count max_concurrency paused \<longleftrightarrow>
     \<not> paused \<and> max_concurrency < i32_max \<and> running_count < max_concurrency"

definition queue_slots :: "named_queue \<Rightarrow> int" where
  "queue_slots q = (if q_paused q then 0 else max (q_max_concurrency q - q_running_count q) 0)"

definition seen_rows :: "claim_env \<Rightarrow> string list \<Rightarrow> named_queue list" where
  "seen_rows c qs = sort_key q_name (filter (\<lambda>q. q_name q \<in> set qs) (c_seen_queues c))"

definition binding_queues :: "claim_env \<Rightarrow> string list \<Rightarrow> string list" where
  "binding_queues c qs =
     map q_name (filter (\<lambda>q. queue_row_needs_lock (q_running_count q) (q_max_concurrency q) (q_paused q))
       (seen_rows c qs))"

definition record_slots :: "budget \<Rightarrow> named_queue list \<Rightarrow> budget" where
  "record_slots = foldl (\<lambda>m q. m(q_name q \<mapsto> queue_slots q))"

definition seen_timeouts :: "claim_env \<Rightarrow> string list \<Rightarrow> string \<Rightarrow> duration option" where
  "seen_timeouts c qs =
     foldl (\<lambda>m q. case q_default_timeout_ms q of
                    Some ms \<Rightarrow> if 0 < ms then m(q_name q \<mapsto> nat ms * 1000000) else m
                  | None \<Rightarrow> m) Map.empty (seen_rows c qs)"

definition locked_rows :: "claim_env \<Rightarrow> string list \<Rightarrow> db \<Rightarrow> named_queue list" where
  "locked_rows c names s =
     sort_key q_name (filter (\<lambda>q. q_name q \<in> set names \<and> \<not> c_queue_locked c (q_name q)) (queues s))"

definition phase0_budget :: "claim_env \<Rightarrow> string list \<Rightarrow> db \<Rightarrow> budget" where
  "phase0_budget c qs s =
     (let unlocked = record_slots Map.empty (seen_rows c qs);
          binding = binding_queues c qs
      in if binding = [] then unlocked
         else record_slots (foldl (\<lambda>m name. m(name \<mapsto> 0)) unlocked binding) (locked_rows c binding s))"

definition budget_for :: "string \<Rightarrow> budget \<Rightarrow> int" where
  "budget_for q tbl = (case tbl q of None \<Rightarrow> i32_max | Some b \<Rightarrow> b)"

text \<open>\<open>entry(q).and_modify(|b| *b = (*b - n).max(0))\<close>\<close>

definition spend :: "string \<Rightarrow> int \<Rightarrow> budget \<Rightarrow> budget" where
  "spend q n tbl = (case tbl q of None \<Rightarrow> tbl | Some b \<Rightarrow> tbl(q \<mapsto> max (b - n) 0))"

section \<open>Phase 1: ungrouped jobs\<close>

definition claim_order :: "job \<Rightarrow> int \<times> int \<times> int" where
  "claim_order j = (- j_priority j, j_scheduled_at j, j_id j)"

definition due :: "timestamp \<Rightarrow> string list \<Rightarrow> job \<Rightarrow> bool" where
  "due now kinds j \<longleftrightarrow> j_state j = Pending \<and> j_scheduled_at j \<le> now \<and> j_kind j \<in> set kinds"

definition ungrouped_candidates :: "claim_env \<Rightarrow> string list \<Rightarrow> string \<Rightarrow> db \<Rightarrow> job list" where
  "ungrouped_candidates c kinds q s =
     sort_key claim_order (filter (\<lambda>j. due (c_now c) kinds j \<and> j_group_key j = None \<and> j_queue j = q \<and>
       \<not> c_job_locked c (j_id j)) (jobs s))"

text \<open>One iteration of the loop over queues; the \<open>break\<close>s are the test at the head of \<open>phase1\<close>.\<close>

definition take_ungrouped ::
  "claim_env \<Rightarrow> nat \<Rightarrow> string list \<Rightarrow> db \<Rightarrow> string \<Rightarrow> accepted list \<times> budget \<Rightarrow> accepted list \<times> budget" where
  "take_ungrouped c batch_size kinds s q st =
     (let acc = fst st; bud = snd st; q_slots = budget_for q bud in
      if q_slots \<le> 0 then st
      else let n = min q_slots (sat_i64 (int (batch_size - length acc))) in
        if n \<le> 0 then st
        else let rows = take (nat n) (ungrouped_candidates c kinds q s);
                 got = sat_i32 (int (length rows))
             in (acc @ map (\<lambda>j. (j_id j, None, q)) rows, spend q got bud))"

fun phase1 ::
  "claim_env \<Rightarrow> nat \<Rightarrow> string list \<Rightarrow> db \<Rightarrow> string list \<Rightarrow> accepted list \<times> budget \<Rightarrow> accepted list \<times> budget" where
  "phase1 c batch_size kinds s [] st = st"
| "phase1 c batch_size kinds s (q # qs) st =
     (if batch_size \<le> length (fst st) then st
      else phase1 c batch_size kinds s qs (take_ungrouped c batch_size kinds s q st))"

section \<open>Phase 2: groups with work, and their slots\<close>

text \<open>
  The recursive queries \<open>GROUP_WALK\<close> and \<open>GROUP_WALK_BY_QUEUE\<close> seek the next key past the current one
  until there is none.
\<close>

definition next_after :: "'a::linorder list \<Rightarrow> 'a \<Rightarrow> 'a option" where
  "next_after ks k = (case sort (filter (\<lambda>x. k < x) ks) of [] \<Rightarrow> None | x # _ \<Rightarrow> Some x)"

lemma next_after_SomeD:
  assumes "next_after ks k = Some x"
  shows "x \<in> set ks" "k < x" "\<And>y. y \<in> set ks \<Longrightarrow> k < y \<Longrightarrow> x \<le> y"
proof -
  obtain xs where srt: "sort (filter (\<lambda>x. k < x) ks) = x # xs"
    using assms by (auto simp: next_after_def split: list.splits)
  have set_eq: "set (x # xs) = {y \<in> set ks. k < y}" by (metis set_filter set_sort srt)
  then show "x \<in> set ks" "k < x" by auto
  have "sorted (x # xs)" by (metis sorted_sort srt)
  then show "x \<le> y" if "y \<in> set ks" "k < y" for y
    using that set_eq by (auto dest!: equalityD2 simp: subset_iff)
qed

lemma next_after_NoneD:
  assumes "next_after ks k = None" "y \<in> set ks"
  shows "y \<le> k"
proof -
  have "sort (filter (\<lambda>x. k < x) ks) = []"
    using assms(1) by (auto simp: next_after_def split: list.splits)
  then have "filter (\<lambda>x. k < x) ks = []" by (metis length_0_conv length_sort)
  with assms(2) show ?thesis by (auto simp: filter_empty_conv not_less)
qed

function walk_from :: "'a::linorder list \<Rightarrow> 'a \<Rightarrow> 'a list" where
  "walk_from ks k = k # (case next_after ks k of None \<Rightarrow> [] | Some x \<Rightarrow> walk_from ks x)"
  by pat_completeness auto
termination
proof (relation "measure (\<lambda>(ks, k). length (filter (\<lambda>x. k < x) ks))")
  show "((ks, x), (ks, k)) \<in> measure (\<lambda>(ks, k). length (filter (\<lambda>x. k < x) ks))"
    if "next_after ks k = Some x" for ks :: "'a list" and k x
  proof -
    have x: "x \<in> set ks" "k < x" using next_after_SomeD [OF that] by blast+
    have "filter (\<lambda>y. x < y) ks = filter (\<lambda>y. x < y) (filter (\<lambda>y. k < y) ks)"
      using x(2) by (simp add: filter_filter) (metis (mono_tags, lifting) filter_cong less_trans)
    moreover have "length (filter (\<lambda>y. x < y) (filter (\<lambda>y. k < y) ks)) < length (filter (\<lambda>y. k < y) ks)"
      by (rule length_filter_less [of x]) (simp_all add: x)
    ultimately show ?thesis by simp
  qed
qed simp

declare walk_from.simps [simp del]

definition walk :: "'a::linorder list \<Rightarrow> 'a list" where
  "walk ks = (case sort ks of [] \<Rightarrow> [] | k # _ \<Rightarrow> walk_from ks k)"

definition grouped_due :: "claim_env \<Rightarrow> string list \<Rightarrow> string list \<Rightarrow> db \<Rightarrow> job list" where
  "grouped_due c kinds open_qs s =
     filter (\<lambda>j. due (c_now c) kinds j \<and> j_group_key j \<noteq> None \<and> j_queue j \<in> set open_qs) (jobs s)"

definition group_walk :: "claim_env \<Rightarrow> string list \<Rightarrow> string list \<Rightarrow> db \<Rightarrow> string list" where
  "group_walk c kinds open_qs s = walk (List.map_filter j_group_key (grouped_due c kinds open_qs s))"

definition group_walk_by_queue :: "claim_env \<Rightarrow> string list \<Rightarrow> string list \<Rightarrow> db \<Rightarrow> string list" where
  "group_walk_by_queue c kinds open_qs s =
     remdups (map snd (walk (List.map_filter (\<lambda>j. map_option (Pair (j_queue j)) (j_group_key j))
       (grouped_due c kinds open_qs s))))"

definition active_group_keys ::
  "claim_env \<Rightarrow> nat \<Rightarrow> string list \<Rightarrow> string list \<Rightarrow> string list \<Rightarrow> db \<Rightarrow> string list" where
  "active_group_keys c remaining kinds qs open_qs s =
     (if remaining = 0 \<or> open_qs = [] then []
      else if length open_qs < length qs then group_walk_by_queue c kinds open_qs s
      else group_walk c kinds open_qs s)"

text \<open>The token bucket, refilled at \<open>rate_count\<close> tokens per \<open>rate_period_ms\<close> since the last claim.\<close>

definition refilled :: "timestamp \<Rightarrow> int \<Rightarrow> int \<Rightarrow> real \<Rightarrow> timestamp option \<Rightarrow> real" where
  "refilled utc rc rp tokens refilled_at =
     (let elapsed_ms = (case refilled_at of None \<Rightarrow> 0 | Some ts \<Rightarrow> max ((utc - ts) div 1000) 0);
          refill = real_of_int elapsed_ms * real_of_int rc / real_of_int rp
      in max (min (tokens + refill) (real_of_int rc)) 0)"

definition group_conc_slots :: "group \<Rightarrow> int" where
  "group_conc_slots g = (if g_paused g then 0 else max (g_max_concurrency g - g_running_count g) 0)"

definition group_state_of :: "timestamp \<Rightarrow> group \<Rightarrow> group_state" where
  "group_state_of utc g =
     (case (g_rate_count g, g_rate_period_ms g) of
        (Some rc, Some rp) \<Rightarrow>
          if 0 < rc \<and> 0 < rp
          then let new_tokens = refilled utc rc rp (g_tokens g) (g_tokens_refilled_at g)
               in \<lparr>gs_slots = min (group_conc_slots g) (sat_i32 (max \<lfloor>new_tokens\<rfloor> 0)),
                   gs_refilled = new_tokens, gs_rate_limited = True\<rparr>
          else \<lparr>gs_slots = min (group_conc_slots g) i32_max, gs_refilled = 0, gs_rate_limited = False\<rparr>
      | _ \<Rightarrow> \<lparr>gs_slots = min (group_conc_slots g) i32_max, gs_refilled = 0, gs_rate_limited = False\<rparr>)"

definition unlimited_state :: group_state where
  "unlimited_state = \<lparr>gs_slots = i32_max, gs_refilled = 0, gs_rate_limited = False\<rparr>"

definition group_slots :: "claim_env \<Rightarrow> string list \<Rightarrow> db \<Rightarrow> slot_table" where
  "group_slots c keys s =
     map (\<lambda>g. (g_key g, group_state_of (c_utc c) g))
       (sort_key g_key (filter (\<lambda>g. g_key g \<in> set keys \<and> \<not> c_group_locked c (g_key g)) (groups s)))
     @ map (\<lambda>k. (k, unlimited_state)) (filter (\<lambda>k. k \<notin> g_key ` set (groups s)) keys)"

section \<open>Phase 3: grouped jobs\<close>

definition group_candidates :: "claim_env \<Rightarrow> string list \<Rightarrow> string list \<Rightarrow> string \<Rightarrow> db \<Rightarrow> job list" where
  "group_candidates c kinds open_qs k s =
     sort_key claim_order (filter (\<lambda>j. due (c_now c) kinds j \<and> j_group_key j = Some k \<and>
       j_queue j \<in> set open_qs \<and> \<not> c_job_locked c (j_id j)) (jobs s))"

fun accept_rows ::
  "nat \<Rightarrow> string \<Rightarrow> (job_id \<times> string) list \<Rightarrow> int \<Rightarrow> accepted list \<times> budget \<Rightarrow> accepted list \<times> budget" where
  "accept_rows batch_size k [] slots st = st"
| "accept_rows batch_size k (r # rows) slots st =
     (if batch_size \<le> length (fst st) \<or> slots \<le> 0 then st
      else if budget_for (snd r) (snd st) \<le> 0 then accept_rows batch_size k rows slots st
      else accept_rows batch_size k rows (slots - 1)
             (fst st @ [(fst r, Some k, snd r)], spend (snd r) 1 (snd st)))"

text \<open>One iteration of the loop over groups.\<close>

definition take_group ::
  "claim_env \<Rightarrow> nat \<Rightarrow> string list \<Rightarrow> string list \<Rightarrow> db \<Rightarrow> string \<times> group_state
    \<Rightarrow> accepted list \<times> budget \<Rightarrow> accepted list \<times> budget" where
  "take_group c batch_size kinds open_qs s g st =
     (let k = fst g; slots = gs_slots (snd g) in
      if slots \<le> 0 then st
      else let take_n = min slots (sat_i64 (int (batch_size - length (fst st)))) in
        if take_n \<le> 0 then st
        else accept_rows batch_size k
               (map (\<lambda>j. (j_id j, j_queue j)) (take (nat take_n) (group_candidates c kinds open_qs k s)))
               slots st)"

fun phase3 ::
  "claim_env \<Rightarrow> nat \<Rightarrow> string list \<Rightarrow> string list \<Rightarrow> db \<Rightarrow> slot_table \<Rightarrow> accepted list \<times> budget \<Rightarrow> accepted list \<times> budget" where
  "phase3 c batch_size kinds open_qs s [] st = st"
| "phase3 c batch_size kinds open_qs s (g # rest) st =
     (if batch_size \<le> length (fst st) then st
      else phase3 c batch_size kinds open_qs s rest (take_group c batch_size kinds open_qs s g st))"

section \<open>Phase 4: taking the accepted jobs\<close>

definition start_job :: "timestamp \<Rightarrow> uuid \<Rightarrow> job \<Rightarrow> job" where
  "start_job now worker j =
     j\<lparr>j_state := Running, j_attempt := j_attempt j + 1, j_heartbeat_at := Some now, j_worker_id := Some worker\<rparr>"

definition bump_group :: "claim_env \<Rightarrow> slot_table \<Rightarrow> job list \<Rightarrow> string \<Rightarrow> group list \<Rightarrow> group list" where
  "bump_group c slots rows k gs =
     (let delta = int (group_delta rows k);
          plain = upsert_by g_key ((fresh_group (c_now c) k)\<lparr>g_running_count := delta\<rparr>)
                    (\<lambda>g. g\<lparr>g_running_count := g_running_count g + delta, g_updated_at := c_now c\<rparr>) gs
      in case map_of slots k of
           None \<Rightarrow> plain
         | Some st \<Rightarrow>
             if gs_rate_limited st
             then let left = max (gs_refilled st - real_of_int delta) 0
                  in upsert_by g_key
                       ((fresh_group (c_now c) k)\<lparr>g_running_count := delta, g_tokens := left,
                          g_tokens_refilled_at := Some (c_utc c)\<rparr>)
                       (\<lambda>g. g\<lparr>g_running_count := g_running_count g + delta, g_tokens := left,
                          g_tokens_refilled_at := Some (c_utc c), g_updated_at := c_now c\<rparr>) gs
             else plain)"

definition bump_queue :: "timestamp \<Rightarrow> job list \<Rightarrow> string \<Rightarrow> named_queue list \<Rightarrow> named_queue list" where
  "bump_queue now rows q =
     update_where (\<lambda>r. q_name r = q)
       (\<lambda>r. r\<lparr>q_running_count := q_running_count r + int (queue_delta rows q), q_updated_at := now\<rparr>)"

definition claimed_of :: "uuid \<Rightarrow> (string \<Rightarrow> duration option) \<Rightarrow> job \<Rightarrow> claimed_job" where
  "claimed_of worker timeouts j =
     \<lparr>cj_id = j_id j, cj_kind = j_kind j, cj_payload = j_payload j, cj_attempt = j_attempt j,
      cj_max_attempts = j_max_attempts j, cj_stalled_count = j_stalled_count j,
      cj_max_stalled_count = j_max_stalled_count j, cj_group_key = j_group_key j,
      cj_queue = j_queue j, cj_worker_id = worker, cj_timeout = timeouts (j_queue j)\<rparr>"

definition phase4 ::
  "claim_env \<Rightarrow> uuid \<Rightarrow> (string \<Rightarrow> duration option) \<Rightarrow> slot_table \<Rightarrow> accepted list \<Rightarrow> db \<Rightarrow> db \<times> claimed_job list" where
  "phase4 c worker timeouts slots acc s =
     (let ids = map fst acc;
          rows = returning (\<lambda>j. j_id j \<in> set ids) (start_job (c_now c) worker) (jobs s)
      in (s\<lparr>jobs := update_where (\<lambda>j. j_id j \<in> set ids) (start_job (c_now c) worker) (jobs s),
            groups := fold (bump_group c slots rows) (remdups (List.map_filter j_group_key rows)) (groups s),
            queues := fold (bump_queue (c_now c) rows) (remdups (map j_queue rows)) (queues s)\<rparr>,
          map (claimed_of worker timeouts) rows))"

text \<open>What the phases before the writes select: the slots of the groups and the accepted jobs.\<close>

definition select_jobs ::
  "claim_env \<Rightarrow> nat \<Rightarrow> string list \<Rightarrow> string list \<Rightarrow> db \<Rightarrow> slot_table \<times> accepted list" where
  "select_jobs c batch_size kinds qs s =
     (let (acc1, bud1) = phase1 c batch_size kinds s qs ([], phase0_budget c qs s);
          open_qs = filter (\<lambda>q. 0 < budget_for q bud1) qs;
          keys = active_group_keys c (batch_size - length acc1) kinds qs open_qs s;
          slots = group_slots c keys s
      in (slots, fst (phase3 c batch_size kinds open_qs s (c_order c slots) (acc1, bud1))))"

definition claim_batch ::
  "claim_env \<Rightarrow> uuid \<Rightarrow> nat \<Rightarrow> string list \<Rightarrow> string list \<Rightarrow> db \<Rightarrow> db \<times> claimed_job list" where
  "claim_batch c worker batch_size kinds qs s =
     (if batch_size = 0 \<or> kinds = [] \<or> qs = [] then (s, [])
      else if list_all (\<lambda>q. budget_for q (phase0_budget c qs s) \<le> 0) qs then (s, [])
      else let (slots, acc) = select_jobs c batch_size kinds qs s
           in if acc = [] then (s, [])
              else phase4 c worker (seen_timeouts c qs) slots acc s)"

end
