(* ===== verification/Enqueue.thy ===== *)
theory Enqueue
  imports Named_Queues Job_Groups
begin

text \<open>
  \<open>crates/eddyq-core/src/enqueue.rs\<close>: inserting jobs, one at a time or in bulk, from a typed \<open>Job\<close> or
  a dynamic request, on a pooled connection or inside the caller's transaction.

  A function on a connection returns the state its statements reached and a result: on a pooled
  connection each statement commits on its own, so an error can leave earlier statements behind.
  \<open>in_tx\<close> turns such a function into a transaction body. A call reads the process clock \<open>Utc::now()\<close>
  up to twice and the database clock \<open>NOW()\<close>; they are fields of \<open>env\<close>, with the database's choice
  among equally ranked group rules.
\<close>

record env =
  e_now :: timestamp
  e_utc :: timestamp
  e_utc_later :: timestamp
  e_rule_scan :: "stored_rule list \<Rightarrow> stored_rule list"

type_synonym 'a conn = "db \<Rightarrow> db \<times> 'a res"

definition in_tx :: "'a conn \<Rightarrow> 'a tx" where
  "in_tx f s = (case f s of (s', Inl e) \<Rightarrow> Inl e | (s', Inr a) \<Rightarrow> Inr (s', a))"

record enqueue_options =
  o_scheduled_at :: "timestamp option"
  o_max_attempts :: "int option"
  o_max_stalled_count :: "int option"
  o_priority :: "int option"
  o_unique_key :: "string option"
  o_group_key :: "string option"
  o_tags :: "string list option"
  o_metadata :: "json option"
  o_queue :: "string option"
  o_remove_on_complete :: "retention_rule option"
  o_remove_on_fail :: "retention_rule option"

definition default_options :: enqueue_options where
  "default_options = \<lparr>o_scheduled_at = None, o_max_attempts = None, o_max_stalled_count = None,
     o_priority = None, o_unique_key = None, o_group_key = None, o_tags = None, o_metadata = None,
     o_queue = None, o_remove_on_complete = None, o_remove_on_fail = None\<rparr>"

datatype enqueue_result = Inserted job_id | Skipped

record bulk_enqueue_result =
  inserted :: nat
  skipped :: nat

definition unwrap_or :: "'a option \<Rightarrow> 'a \<Rightarrow> 'a" where
  "unwrap_or x d = (case x of Some v \<Rightarrow> v | None \<Rightarrow> d)"

definition or_else :: "'a option \<Rightarrow> 'a option \<Rightarrow> 'a option" where
  "or_else x y = (case x of Some v \<Rightarrow> Some v | None \<Rightarrow> y)"

definition notify_channel :: string where "notify_channel = ''eddyq_job''"

section \<open>One row\<close>

text \<open>The row an insert creates: the given columns, the state \<open>'pending'\<close> and the column defaults.\<close>

definition new_job :: "timestamp \<Rightarrow> timestamp \<Rightarrow> dyn_enqueue \<Rightarrow> job_id \<Rightarrow> job" where
  "new_job now scheduled_at d i =
     \<lparr>j_id = i, j_queue = d_queue d, j_kind = d_kind d, j_payload = d_payload d, j_state = Pending,
      j_priority = d_priority d, j_attempt = 0, j_max_attempts = d_max_attempts d,
      j_stalled_count = 0, j_max_stalled_count = d_max_stalled_count d,
      j_scheduled_at = scheduled_at, j_heartbeat_at = None, j_worker_id = None, j_errors = [],
      j_result = None, j_unique_key = d_unique_key d, j_group_key = d_group_key d,
      j_tags = d_tags d, j_metadata = d_metadata d, j_batch_id = d_batch_id d,
      j_created_at = now, j_finalized_at = None\<rparr>"

definition has_conflict :: "dyn_enqueue \<Rightarrow> job list \<Rightarrow> bool" where
  "has_conflict d js \<longleftrightarrow> (\<exists>j \<in> set js. conflicts (d_kind d) (d_unique_key d) j)"

definition batch_fk_ok :: "dyn_enqueue \<Rightarrow> db \<Rightarrow> bool" where
  "batch_fk_ok d s \<longleftrightarrow> (case d_batch_id d of None \<Rightarrow> True | Some b \<Rightarrow> b \<in> b_id ` set (batches s))"

text \<open>\<open>INSERT INTO eddyq_jobs ... ON CONFLICT DO NOTHING RETURNING id\<close>. The sequence behind \<open>id\<close> advances
  also when the row conflicts; a \<open>batch_id\<close> that names no batch violates the foreign key.\<close>

definition insert_row :: "timestamp \<Rightarrow> timestamp \<Rightarrow> dyn_enqueue \<Rightarrow> db \<Rightarrow> error + (db \<times> job_id option)" where
  "insert_row now scheduled_at d s =
     (let i = next_job_id s; s1 = s\<lparr>next_job_id := i + 1\<rparr> in
      if has_conflict d (jobs s) then Inr (s1, None)
      else if \<not> batch_fk_ok d s then Inl (Database ''eddyq_jobs_batch_id_fkey'')
      else Inr (s1\<lparr>jobs := jobs s @ [new_job now scheduled_at d i]\<rparr>, Some i))"

definition materialize_opt :: "env \<Rightarrow> string option \<Rightarrow> db \<Rightarrow> db res" where
  "materialize_opt e k s =
     (case k of None \<Rightarrow> Inr s | Some key \<Rightarrow> materialize_from_rule (e_rule_scan e) (e_now e) key s)"

text \<open>The part \<open>insert_job\<close> and \<open>insert_dyn\<close> share from the \<open>INSERT\<close> on.\<close>

definition insert_and_materialize ::
  "env \<Rightarrow> timestamp \<Rightarrow> bool \<Rightarrow> dyn_enqueue \<Rightarrow> (enqueue_result \<times> bool) conn" where
  "insert_and_materialize e scheduled_at due_now d s =
     (case insert_row (e_now e) scheduled_at d s of
        Inl err \<Rightarrow> (s, Inl err)
      | Inr (s1, None) \<Rightarrow> (s1, Inr (Skipped, due_now))
      | Inr (s1, Some i) \<Rightarrow>
          (case materialize_opt e (d_group_key d) s1 of
             Inl err \<Rightarrow> (s1, Inl err)
           | Inr s2 \<Rightarrow> (s2, Inr (Inserted i, due_now))))"

section \<open>Typed jobs\<close>

text \<open>The column values \<open>insert_job\<close> binds for a job and its options.\<close>

definition typed_row :: "typed_job \<Rightarrow> enqueue_options \<Rightarrow> json \<Rightarrow> dyn_enqueue" where
  "typed_row job opts payload =
     \<lparr>d_kind = t_kind job, d_payload = payload,
      d_max_attempts = unwrap_or (o_max_attempts opts) (t_max_attempts job),
      d_max_stalled_count = unwrap_or (o_max_stalled_count opts) (t_max_stalled_count job),
      d_priority = unwrap_or (o_priority opts) (t_priority job),
      d_queue = unwrap_or (o_queue opts) (t_queue job),
      d_scheduled_at = o_scheduled_at opts,
      d_unique_key = or_else (o_unique_key opts) (t_unique_key job),
      d_group_key = or_else (o_group_key opts) (t_group_key job),
      d_tags = unwrap_or (o_tags opts) (t_tags job),
      d_metadata = unwrap_or (or_else (o_metadata opts) (t_metadata job)) (JObject []),
      d_batch_id = None,
      d_remove_on_complete = None, d_remove_on_fail = None\<rparr>"

definition insert_job :: "env \<Rightarrow> typed_job \<Rightarrow> enqueue_options \<Rightarrow> (enqueue_result \<times> bool) conn" where
  "insert_job e job opts s =
     (case t_payload job of
        Inl err \<Rightarrow> (s, Inl err)
      | Inr payload \<Rightarrow>
          (let d = typed_row job opts payload in
           case validate_queue_name (d_queue d) of
             Inl err \<Rightarrow> (s, Inl err)
           | Inr _ \<Rightarrow>
               (let scheduled_at = unwrap_or (o_scheduled_at opts) (e_utc e);
                    due_now = (scheduled_at \<le> e_utc_later e)
                in insert_and_materialize e scheduled_at due_now d s)))"

text \<open>The notification both single-job entry points send after an insert that is due.\<close>

definition notify_if_due :: "enqueue_result \<times> bool \<Rightarrow> db \<Rightarrow> db \<times> enqueue_result res" where
  "notify_if_due r s =
     (case r of
        (Inserted i, True) \<Rightarrow> (pg_notify notify_channel [] s, Inr (Inserted i))
      | (res, _) \<Rightarrow> (s, Inr res))"

definition enqueue :: "env \<Rightarrow> typed_job \<Rightarrow> enqueue_options \<Rightarrow> enqueue_result conn" where
  "enqueue e job opts s =
     (case insert_job e job opts s of
        (s1, Inl err) \<Rightarrow> (s1, Inl err)
      | (s1, Inr r) \<Rightarrow> notify_if_due r s1)"

definition enqueue_in_tx :: "env \<Rightarrow> typed_job \<Rightarrow> enqueue_options \<Rightarrow> enqueue_result tx" where
  "enqueue_in_tx e job opts = in_tx (enqueue e job opts)"

section \<open>Dynamic requests\<close>

definition default_max_stalled_count :: int where "default_max_stalled_count = 1"

definition dyn_new :: "string \<Rightarrow> json \<Rightarrow> dyn_enqueue" where
  "dyn_new kind payload =
     \<lparr>d_kind = kind, d_payload = payload, d_max_attempts = 3, d_max_stalled_count = 1,
      d_priority = 0, d_queue = default_queue, d_scheduled_at = None, d_unique_key = None,
      d_group_key = None, d_tags = [], d_metadata = JObject [], d_batch_id = None,
      d_remove_on_complete = None, d_remove_on_fail = None\<rparr>"

definition insert_dyn :: "env \<Rightarrow> dyn_enqueue \<Rightarrow> (enqueue_result \<times> bool) conn" where
  "insert_dyn e req s =
     (case validate_queue_name (d_queue req) of
        Inl err \<Rightarrow> (s, Inl err)
      | Inr _ \<Rightarrow>
          (let scheduled_at = unwrap_or (d_scheduled_at req) (e_utc e);
               due_now = (scheduled_at \<le> e_utc_later e)
           in insert_and_materialize e scheduled_at due_now req s))"

definition enqueue_dyn :: "env \<Rightarrow> dyn_enqueue \<Rightarrow> enqueue_result conn" where
  "enqueue_dyn e req s =
     (case insert_dyn e req s of
        (s1, Inl err) \<Rightarrow> (s1, Inl err)
      | (s1, Inr r) \<Rightarrow> notify_if_due r s1)"

definition enqueue_dyn_in_tx :: "env \<Rightarrow> dyn_enqueue \<Rightarrow> enqueue_result tx" where
  "enqueue_dyn_in_tx e req = in_tx (enqueue_dyn e req)"

text \<open>\<open>queue.rs\<close>'s \<open>build_dyn_enqueue\<close>, the path \<open>Queue::enqueue\<close> takes to a backend.\<close>

definition build_dyn_enqueue :: "typed_job \<Rightarrow> enqueue_options \<Rightarrow> dyn_enqueue res" where
  "build_dyn_enqueue job opts =
     (case t_payload job of
        Inl err \<Rightarrow> Inl err
      | Inr payload \<Rightarrow>
          Inr ((dyn_new (t_kind job) payload)\<lparr>
            d_max_attempts := unwrap_or (o_max_attempts opts) (t_max_attempts job),
            d_max_stalled_count := unwrap_or (o_max_stalled_count opts) (t_max_stalled_count job),
            d_priority := unwrap_or (o_priority opts) (t_priority job),
            d_scheduled_at := o_scheduled_at opts,
            d_unique_key := or_else (o_unique_key opts) (t_unique_key job),
            d_group_key := or_else (o_group_key opts) (t_group_key job),
            d_tags := unwrap_or (o_tags opts) (t_tags job),
            d_metadata := unwrap_or (or_else (o_metadata opts) (t_metadata job)) (JObject []),
            d_queue := unwrap_or (o_queue opts) (t_queue job),
            d_remove_on_complete := o_remove_on_complete opts,
            d_remove_on_fail := o_remove_on_fail opts\<rparr>))"

section \<open>Bulk inserts\<close>

text \<open>\<open>INSERT ... SELECT ... FROM UNNEST ... ON CONFLICT DO NOTHING RETURNING id\<close>: row by row, an earlier row
  of the statement counting as a conflict for a later one; the rows inserted are counted.\<close>

fun insert_rows :: "timestamp \<Rightarrow> (dyn_enqueue \<times> timestamp) list \<Rightarrow> db \<Rightarrow> error + (db \<times> nat)" where
  "insert_rows now [] s = Inr (s, 0)"
| "insert_rows now ((d, at_time) # ds) s =
     (case insert_row now at_time d s of
        Inl err \<Rightarrow> Inl err
      | Inr (s1, r) \<Rightarrow>
          (case insert_rows now ds s1 of
             Inl err \<Rightarrow> Inl err
           | Inr (s2, n) \<Rightarrow> Inr (s2, (if r = None then n else Suc n))))"

text \<open>The group keys of all requests, flattened, sorted and without duplicates.\<close>

definition distinct_groups :: "dyn_enqueue list \<Rightarrow> string list" where
  "distinct_groups ds = remdups_adj (sort (List.map_filter d_group_key ds))"

fun materialize_all :: "env \<Rightarrow> string list \<Rightarrow> db \<Rightarrow> db res" where
  "materialize_all e [] s = Inr s"
| "materialize_all e (k # ks) s =
     (case materialize_from_rule (e_rule_scan e) (e_now e) k s of
        Inl err \<Rightarrow> Inl err
      | Inr s1 \<Rightarrow> materialize_all e ks s1)"

text \<open>The validation in the loop that collects the columns: the first invalid queue name ends it.\<close>

fun validate_all :: "string list \<Rightarrow> unit res" where
  "validate_all [] = Inr ()"
| "validate_all (q # qs) =
     (case validate_queue_name q of Inl err \<Rightarrow> Inl err | Inr _ \<Rightarrow> validate_all qs)"

definition insert_many_dyn ::
  "env \<Rightarrow> dyn_enqueue list \<Rightarrow> db \<Rightarrow> error + (db \<times> bulk_enqueue_result \<times> bool \<times> string list)" where
  "insert_many_dyn e reqs s =
     (let now = e_utc e;
          rows = map (\<lambda>d. (d, unwrap_or (d_scheduled_at d) now)) reqs;
          any_due_now = list_ex (\<lambda>(d, t). t \<le> now) rows
      in case validate_all (map d_queue reqs) of
           Inl err \<Rightarrow> Inl err
         | Inr _ \<Rightarrow>
             (case insert_rows (e_now e) rows s of
                Inl err \<Rightarrow> Inl err
              | Inr (s1, n) \<Rightarrow>
                  Inr (s1, \<lparr>inserted = n, skipped = length reqs - n\<rparr>, any_due_now, distinct_groups reqs)))"

definition finish_many ::
  "env \<Rightarrow> db \<times> bulk_enqueue_result \<times> bool \<times> string list \<Rightarrow> error + (db \<times> bulk_enqueue_result)" where
  "finish_many e r =
     (case r of (s1, result, any_due_now, gs) \<Rightarrow>
        (case materialize_all e gs s1 of
           Inl err \<Rightarrow> Inl err
         | Inr s2 \<Rightarrow>
             Inr (if any_due_now \<and> 0 < inserted result then pg_notify notify_channel [] s2 else s2, result)))"

definition enqueue_many_dyn_in_tx :: "env \<Rightarrow> dyn_enqueue list \<Rightarrow> bulk_enqueue_result tx" where
  "enqueue_many_dyn_in_tx e reqs s =
     (if reqs = [] then Inr (s, \<lparr>inserted = 0, skipped = 0\<rparr>)
      else case insert_many_dyn e reqs s of Inl err \<Rightarrow> Inl err | Inr r \<Rightarrow> finish_many e r)"

definition enqueue_many_dyn :: "env \<Rightarrow> dyn_enqueue list \<Rightarrow> bulk_enqueue_result conn" where
  "enqueue_many_dyn e reqs s =
     (if reqs = [] then (s, Inr \<lparr>inserted = 0, skipped = 0\<rparr>)
      else run_tx (enqueue_many_dyn_in_tx e reqs) s)"

text \<open>The typed variant binds one clock reading as every row's \<open>scheduled_at\<close> and reports the batch as
  due.\<close>

fun typed_rows :: "typed_job list \<Rightarrow> dyn_enqueue list res" where
  "typed_rows [] = Inr []"
| "typed_rows (job # js) =
     (case t_payload job of
        Inl err \<Rightarrow> Inl err
      | Inr payload \<Rightarrow>
          (case validate_queue_name (t_queue job) of
             Inl err \<Rightarrow> Inl err
           | Inr _ \<Rightarrow>
               (case typed_rows js of
                  Inl err \<Rightarrow> Inl err
                | Inr ds \<Rightarrow> Inr (typed_row job default_options payload # ds))))"

definition insert_many ::
  "env \<Rightarrow> typed_job list \<Rightarrow> db \<Rightarrow> error + (db \<times> bulk_enqueue_result \<times> bool \<times> string list)" where
  "insert_many e js s =
     (case typed_rows js of
        Inl err \<Rightarrow> Inl err
      | Inr ds \<Rightarrow>
          (case insert_rows (e_now e) (map (\<lambda>d. (d, e_utc e)) ds) s of
             Inl err \<Rightarrow> Inl err
           | Inr (s1, n) \<Rightarrow>
               Inr (s1, \<lparr>inserted = n, skipped = length js - n\<rparr>, True, distinct_groups ds)))"

definition enqueue_many_in_tx :: "env \<Rightarrow> typed_job list \<Rightarrow> bulk_enqueue_result tx" where
  "enqueue_many_in_tx e js s =
     (if js = [] then Inr (s, \<lparr>inserted = 0, skipped = 0\<rparr>)
      else case insert_many e js s of Inl err \<Rightarrow> Inl err | Inr r \<Rightarrow> finish_many e r)"

definition enqueue_many :: "env \<Rightarrow> typed_job list \<Rightarrow> bulk_enqueue_result conn" where
  "enqueue_many e js s =
     (if js = [] then (s, Inr \<lparr>inserted = 0, skipped = 0\<rparr>)
      else run_tx (enqueue_many_in_tx e js) s)"

section \<open>What an enqueue may do to the database\<close>

text \<open>
  The effect every entry point has, whether it succeeds or fails: pending rows with new ids are
  appended, group rows are added from rules, the id sequence and the notification log advance.
  \<open>B\<close> holds the batch ids of the new rows.
\<close>

definition fresh_rows :: "batch_key option set \<Rightarrow> batch list \<Rightarrow> job_id \<Rightarrow> job_id \<Rightarrow> job list \<Rightarrow> bool" where
  "fresh_rows B bs lo hi js \<longleftrightarrow>
     lo \<le> hi \<and> distinct (map j_id js) \<and>
     (\<forall>j \<in> set js. j_state j = Pending \<and> j_batch_id j \<in> B \<and>
        set_option (j_batch_id j) \<subseteq> b_id ` set bs \<and> lo \<le> j_id j \<and> j_id j < hi)"

definition enqueue_step :: "batch_key option set \<Rightarrow> db \<Rightarrow> db \<Rightarrow> bool" where
  "enqueue_step B s s' \<longleftrightarrow>
     (\<exists>new nt.
        s' = s\<lparr>jobs := jobs s @ new, next_job_id := next_job_id s', groups := groups s',
               notified := notified s @ nt\<rparr> \<and>
        rows_config (groups s) (groups s') \<and>
        fresh_rows B (batches s) (next_job_id s) (next_job_id s') new \<and>
        (unique_index_ok (jobs s) \<longrightarrow> unique_index_ok (jobs s @ new)))"

lemma rows_config_trans:
  assumes "rows_config gs gs'" "rows_config gs' gs''"
  shows "rows_config gs gs''"
  unfolding rows_config_def
proof (intro conjI ballI)
  show "distinct (map g_key gs'')" using assms(2) by (simp add: rows_config_def)
  have sub: "g_key ` set gs \<subseteq> g_key ` set gs'" "g_key ` set gs' \<subseteq> g_key ` set gs''"
    using assms by (simp_all add: rows_config_def)
  then show "g_key ` set gs \<subseteq> g_key ` set gs''" by (rule order_trans)
  fix g'' assume "g'' \<in> set gs''"
  with assms(2) consider
      g' where "g' \<in> set gs'" "g_key g' = g_key g''" "g_running_count g' = g_running_count g''"
        "0 \<le> g_max_concurrency g' \<longrightarrow> 0 \<le> g_max_concurrency g''"
    | "g_running_count g'' = 0" "0 \<le> g_max_concurrency g''" "g_key g'' \<notin> g_key ` set gs'"
    by (auto simp: rows_config_def)
  then show "(\<exists>g \<in> set gs. g_key g = g_key g'' \<and> g_running_count g = g_running_count g'' \<and>
            (0 \<le> g_max_concurrency g \<longrightarrow> 0 \<le> g_max_concurrency g'')) \<or>
        (g_running_count g'' = 0 \<and> 0 \<le> g_max_concurrency g'' \<and> g_key g'' \<notin> g_key ` set gs)"
  proof cases
    case 1
    with assms(1) show ?thesis by (simp add: rows_config_def) metis
  next
    case 2
    with sub(1) show ?thesis by blast
  qed
qed

lemma fresh_rows_append:
  assumes "fresh_rows B bs lo mid js" "fresh_rows B bs mid hi js'"
  shows "fresh_rows B bs lo hi (js @ js')"
proof -
  have "j_id j < j_id j'" if "j \<in> set js" "j' \<in> set js'" for j j'
    using assms that unfolding fresh_rows_def by force
  then have "j_id ` set js \<inter> j_id ` set js' = {}" by force
  moreover have "lo \<le> mid" "mid \<le> hi" using assms by (simp_all add: fresh_rows_def)
  ultimately show ?thesis
    using assms by (simp add: fresh_rows_def ball_Un) (meson order_less_le_trans order_trans)
qed

lemma enqueue_step_trans:
  assumes "enqueue_step B s s1" "enqueue_step B s1 s2"
  shows "enqueue_step B s s2"
proof -
  obtain new nt where
    s1: "s1 = s\<lparr>jobs := jobs s @ new, next_job_id := next_job_id s1, groups := groups s1,
                notified := notified s @ nt\<rparr>" and
    a: "rows_config (groups s) (groups s1)" "fresh_rows B (batches s) (next_job_id s) (next_job_id s1) new"
      "unique_index_ok (jobs s) \<longrightarrow> unique_index_ok (jobs s @ new)"
    using assms(1) unfolding enqueue_step_def by blast
  obtain new' nt' where
    s2: "s2 = s1\<lparr>jobs := jobs s1 @ new', next_job_id := next_job_id s2, groups := groups s2,
                notified := notified s1 @ nt'\<rparr>" and
    b: "rows_config (groups s1) (groups s2)" "fresh_rows B (batches s1) (next_job_id s1) (next_job_id s2) new'"
      "unique_index_ok (jobs s1) \<longrightarrow> unique_index_ok (jobs s1 @ new')"
    using assms(2) unfolding enqueue_step_def by blast
  have eqs: "jobs s1 = jobs s @ new" "batches s1 = batches s" "notified s1 = notified s @ nt"
    by (subst s1, simp)+
  have "s2 = s\<lparr>jobs := jobs s @ (new @ new'), next_job_id := next_job_id s2, groups := groups s2,
                notified := notified s @ (nt @ nt')\<rparr>"
    by (subst s2, subst s1) (simp add: eqs)
  moreover have "rows_config (groups s) (groups s2)" using a(1) b(1) by (rule rows_config_trans)
  moreover have "fresh_rows B (batches s) (next_job_id s) (next_job_id s2) (new @ new')"
    using a(2) b(2) unfolding eqs by (rule fresh_rows_append)
  moreover have "unique_index_ok (jobs s) \<longrightarrow> unique_index_ok (jobs s @ (new @ new'))"
    using a(3) b(3) by (simp add: eqs)
  ultimately show ?thesis unfolding enqueue_step_def by blast
qed

lemma fresh_rows_Nil [simp]: "fresh_rows B bs lo hi [] \<longleftrightarrow> lo \<le> hi"
  by (simp add: fresh_rows_def)

text \<open>Steps that add no row.\<close>

lemma enqueue_step_quiet:
  assumes "s' = s\<lparr>next_job_id := next_job_id s', groups := groups s', notified := notified s @ nt\<rparr>"
    and "next_job_id s \<le> next_job_id s'" "rows_config (groups s) (groups s')"
  shows "enqueue_step B s s'"
  unfolding enqueue_step_def
proof (intro exI conjI)
  show "s' = s\<lparr>jobs := jobs s @ [], next_job_id := next_job_id s', groups := groups s',
               notified := notified s @ nt\<rparr>"
    by (subst assms(1)) simp
qed (use assms(2,3) in simp_all)

lemma enqueue_step_refl: "keys_ok s \<Longrightarrow> enqueue_step B s s"
  by (rule enqueue_step_quiet [where nt = "[]"]) (simp_all add: keys_ok_groups rows_config_refl)

lemma enqueue_step_notify: "keys_ok s \<Longrightarrow> enqueue_step B s (pg_notify c p s)"
  by (rule enqueue_step_quiet [where nt = "[(c, p)]"])
     (simp_all add: pg_notify_def keys_ok_groups rows_config_refl)

lemma enqueue_step_config: "group_config_step s s' \<Longrightarrow> enqueue_step B s s'"
  by (rule enqueue_step_quiet [where nt = "[]"]) (auto simp: group_config_step_def)

lemma enqueue_step_mono: "enqueue_step B s s' \<Longrightarrow> B \<subseteq> B' \<Longrightarrow> enqueue_step B' s s'"
  unfolding enqueue_step_def fresh_rows_def by blast

lemma insert_row_step:
  assumes "insert_row now at_time d s = Inr (s1, r)" "keys_ok s" "d_batch_id d \<in> B"
  shows "enqueue_step B s s1"
proof -
  have gs: "rows_config (groups s) (groups s)" using assms(2) by (simp add: keys_ok_groups rows_config_refl)
  show ?thesis
  proof (cases "has_conflict d (jobs s)")
    case True
    with assms(1) have "s1 = s\<lparr>next_job_id := next_job_id s + 1\<rparr>" by (simp add: insert_row_def Let_def)
    with gs show ?thesis by (intro enqueue_step_quiet [where nt = "[]"]) simp_all
  next
    case False
    let ?new = "[new_job now at_time d (next_job_id s)]"
    from False assms(1) have fk: "batch_fk_ok d s"
      and s1: "s1 = s\<lparr>next_job_id := next_job_id s + 1, jobs := jobs s @ ?new\<rparr>"
      by (auto simp: insert_row_def Let_def split: if_splits)
    have "unique_index_ok (jobs s) \<longrightarrow> unique_index_ok (jobs s @ ?new)"
      using False by (simp add: unique_index_ok_append new_job_def has_conflict_def)
    moreover have "fresh_rows B (batches s) (next_job_id s) (next_job_id s1) ?new"
      using fk assms(3) by (auto simp: s1 fresh_rows_def new_job_def batch_fk_ok_def split: option.splits)
    ultimately show ?thesis
      unfolding enqueue_step_def using gs
      by (intro exI [of _ ?new] exI [of _ "[]"]) (simp add: s1)
  qed
qed

section \<open>Consequences for the invariant\<close>

text \<open>A step by its effect on each table.\<close>

lemma enqueue_step_facts:
  assumes "enqueue_step B s s'"
  obtains new where "jobs s' = jobs s @ new"
    "fresh_rows B (batches s) (next_job_id s) (next_job_id s') new"
    "unique_index_ok (jobs s) \<longrightarrow> unique_index_ok (jobs s')"
proof -
  obtain new nt where
    s': "s' = s\<lparr>jobs := jobs s @ new, next_job_id := next_job_id s', groups := groups s',
                notified := notified s @ nt\<rparr>"
    and new: "fresh_rows B (batches s) (next_job_id s) (next_job_id s') new"
      "unique_index_ok (jobs s) \<longrightarrow> unique_index_ok (jobs s @ new)"
    using assms unfolding enqueue_step_def by blast
  have "jobs s' = jobs s @ new" by (subst s') simp
  with new that show ?thesis by metis
qed

lemma enqueue_step_frame:
  assumes "enqueue_step B s s'"
  shows "queues s' = queues s" "rules s' = rules s" "batches s' = batches s"
    "next_batch_id s' = next_batch_id s" "schedules s' = schedules s" "leaders s' = leaders s"
    "rows_config (groups s) (groups s')"
proof -
  obtain new nt where
    s': "s' = s\<lparr>jobs := jobs s @ new, next_job_id := next_job_id s', groups := groups s',
                notified := notified s @ nt\<rparr>" and "rows_config (groups s) (groups s')"
    using assms unfolding enqueue_step_def by blast
  then show "rows_config (groups s) (groups s')" by blast
  show "queues s' = queues s" "rules s' = rules s" "batches s' = batches s"
    "next_batch_id s' = next_batch_id s" "schedules s' = schedules s" "leaders s' = leaders s"
    by (subst s', simp)+
qed

lemma enqueue_step_keys:
  assumes "enqueue_step B s s'" "keys_ok s"
  shows "keys_ok s'"
proof -
  obtain new where js: "jobs s' = jobs s @ new"
    and new: "fresh_rows B (batches s) (next_job_id s) (next_job_id s') new"
    using enqueue_step_facts [OF assms(1)] by metis
  have old: "\<forall>j \<in> set (jobs s). j_id j < next_job_id s" using assms(2) by (simp add: keys_ok_def)
  have "j_id j < j_id j'" if "j \<in> set (jobs s)" "j' \<in> set new" for j j'
    using old new that unfolding fresh_rows_def by force
  then have "j_id ` set (jobs s) \<inter> j_id ` set new = {}" by force
  then have "distinct (map j_id (jobs s'))"
    using new assms(2) by (simp add: js fresh_rows_def keys_ok_def)
  moreover have "\<forall>j \<in> set (jobs s'). j_id j < next_job_id s'"
    using old new by (auto simp: js fresh_rows_def)
  moreover have "distinct (map g_key (groups s'))"
    using enqueue_step_frame(7) [OF assms(1)] by (simp add: rows_config_def)
  ultimately show ?thesis
    using assms(2) enqueue_step_frame [OF assms(1)] by (simp add: keys_ok_def)
qed

lemma enqueue_step_unique: "enqueue_step B s s' \<Longrightarrow> unique_index_ok (jobs s) \<Longrightarrow> unique_index_ok (jobs s')"
  by (metis enqueue_step_facts)

lemma enqueue_step_jobs:
  assumes "enqueue_step B s s'"
  obtains new where "jobs s' = jobs s @ new"
    "\<And>j. j \<in> set new \<Longrightarrow> j_state j = Pending"
    "\<And>j. j \<in> set new \<Longrightarrow> j_batch_id j \<in> B \<and> set_option (j_batch_id j) \<subseteq> b_id ` set (batches s)"
    "\<And>j. j \<in> set new \<Longrightarrow> next_job_id s \<le> j_id j"
proof -
  obtain new where js: "jobs s' = jobs s @ new"
    and new: "fresh_rows B (batches s) (next_job_id s) (next_job_id s') new"
    using enqueue_step_facts [OF assms] by metis
  from new show ?thesis by (intro that [OF js]) (simp_all add: fresh_rows_def)
qed

lemma counted_none: "(\<And>j. j \<in> set js \<Longrightarrow> \<not> running j) \<Longrightarrow> counted owner k js = 0"
  by (simp add: counted_def count_if_zero_iff)

lemma enqueue_step_counters:
  assumes "enqueue_step B s s'" "counters_ok s"
  shows "counters_ok s'"
proof -
  note fr = enqueue_step_frame [OF assms(1)]
  obtain new where js: "jobs s' = jobs s @ new" and new: "\<And>j. j \<in> set new \<Longrightarrow> \<not> running j"
    using enqueue_step_jobs [OF assms(1)] by (metis job_state.distinct(1) running_def)
  have "group_config_step s (s\<lparr>groups := groups s'\<rparr>)"
    using fr by (auto simp: group_config_step_def)
  then have "counters_ok (s\<lparr>groups := groups s'\<rparr>)" using assms(2) by (rule group_config_step_counters)
  moreover have "counted owner k (jobs s') = counted owner k (jobs s)" for owner k
    using counted_none [OF new] by (simp add: js)
  ultimately show ?thesis
    using new fr by (auto simp: counters_ok_iff rows_match_def groups_present_def js)
qed

lemma enqueue_step_checks:
  assumes "enqueue_step B s s'" "checks_ok s"
  shows "checks_ok s'"
proof -
  note fr = enqueue_step_frame [OF assms(1)]
  have "checks_ok (s\<lparr>groups := groups s'\<rparr>)"
    by (rule group_config_step_checks [OF _ assms(2)]) (use fr in \<open>auto simp: group_config_step_def\<close>)
  then show ?thesis using fr by (simp add: checks_ok_def)
qed

lemma enqueue_step_batches:
  assumes "enqueue_step B s s'" "B \<subseteq> {None}" "batches_ok s"
  shows "batches_ok s'"
proof -
  obtain new where js: "jobs s' = jobs s @ new" and new: "\<And>j. j \<in> set new \<Longrightarrow> j_batch_id j = None"
    using enqueue_step_jobs [OF assms(1)] assms(2) by (metis singletonD subsetD)
  have "outstanding b (jobs s') = outstanding b (jobs s)" for b
    using new by (simp add: js outstanding_def count_if_zero_iff)
  with assms(3) new enqueue_step_frame [OF assms(1)] show ?thesis
    by (auto simp: batches_ok_def js)
qed

lemma enqueue_step_db_ok: "enqueue_step {None} s s' \<Longrightarrow> db_ok s \<Longrightarrow> db_ok s'"
  by (meson db_okD db_okI enqueue_step_batches enqueue_step_checks enqueue_step_counters
      enqueue_step_keys enqueue_step_unique subset_refl)

section \<open>The entry points are such steps\<close>

lemma materialize_opt_step:
  "materialize_opt e k s = Inr s' \<Longrightarrow> keys_ok s \<Longrightarrow> enqueue_step B s s'"
  unfolding materialize_opt_def
  by (cases k) (auto intro: enqueue_step_refl enqueue_step_config materialize_step)

lemma insert_and_materialize_step:
  assumes "keys_ok s"
  shows "enqueue_step {d_batch_id d} s (fst (insert_and_materialize e at_time due d s))"
proof (cases "insert_row (e_now e) at_time d s")
  case (Inl err)
  with assms show ?thesis by (simp add: insert_and_materialize_def enqueue_step_refl)
next
  case (Inr r)
  obtain s1 i where r: "insert_row (e_now e) at_time d s = Inr (s1, i)" using Inr by (cases r) auto
  have s1: "enqueue_step {d_batch_id d} s s1" by (rule insert_row_step [OF r assms]) simp
  show ?thesis
  proof (cases "i = None")
    case True
    with r s1 show ?thesis by (simp add: insert_and_materialize_def)
  next
    case False
    have "enqueue_step {d_batch_id d} s s2" if "materialize_opt e (d_group_key d) s1 = Inr s2" for s2
      using enqueue_step_trans [OF s1 materialize_opt_step [OF that enqueue_step_keys [OF s1 assms]]] .
    with False r s1 show ?thesis
      by (auto simp: insert_and_materialize_def split: sum.splits option.splits)
  qed
qed

lemma notify_if_due_step: "keys_ok s \<Longrightarrow> enqueue_step B s (fst (notify_if_due r s))"
  by (auto simp: notify_if_due_def enqueue_step_refl enqueue_step_notify
      split: prod.splits enqueue_result.splits bool.splits)

lemma then_notify_step:
  assumes "keys_ok s" "enqueue_step B s (fst r)"
  shows "enqueue_step B s (fst (case r of (s1, Inl err) \<Rightarrow> (s1, Inl err) | (s1, Inr x) \<Rightarrow> notify_if_due x s1))"
proof -
  obtain s1 x where r: "r = (s1, x)" by (cases r)
  have "enqueue_step B s1 (fst (notify_if_due y s1))" for y
    using notify_if_due_step enqueue_step_keys assms r by simp
  with assms(2) show ?thesis by (auto simp: r split: sum.splits intro: enqueue_step_trans)
qed

lemma enqueue_dyn_step:
  assumes "keys_ok s"
  shows "enqueue_step {d_batch_id d} s (fst (enqueue_dyn e d s))"
proof -
  have "enqueue_step {d_batch_id d} s (fst (insert_dyn e d s))"
    using assms by (auto simp: insert_dyn_def Let_def enqueue_step_refl insert_and_materialize_step split: sum.splits)
  then show ?thesis unfolding enqueue_dyn_def by (rule then_notify_step [OF assms])
qed

text \<open>\<open>enqueue\<close> on a typed job is \<open>enqueue_dyn\<close> on the request \<open>build_dyn_enqueue\<close> makes of it: the two ways
  from a job to its row agree.\<close>

lemma insert_and_materialize_cong:
  assumes "d' = d\<lparr>d_remove_on_complete := x, d_remove_on_fail := y\<rparr>"
  shows "insert_and_materialize e at_time due d' s = insert_and_materialize e at_time due d s"
  by (simp add: assms insert_and_materialize_def insert_row_def has_conflict_def batch_fk_ok_def
      new_job_def Let_def cong: option.case_cong)

lemma typed_row_build:
  assumes "t_payload job = Inr payload"
  shows "build_dyn_enqueue job opts =
    Inr ((typed_row job opts payload)\<lparr>d_remove_on_complete := o_remove_on_complete opts,
            d_remove_on_fail := o_remove_on_fail opts\<rparr>)"
  using assms by (simp add: build_dyn_enqueue_def dyn_new_def typed_row_def)

lemma enqueue_via_dyn:
  "enqueue e job opts s =
     (case build_dyn_enqueue job opts of Inl err \<Rightarrow> (s, Inl err) | Inr d \<Rightarrow> enqueue_dyn e d s)"
proof (cases "t_payload job")
  case (Inl err)
  then show ?thesis by (simp add: enqueue_def insert_job_def build_dyn_enqueue_def)
next
  case (Inr payload)
  let ?d = "typed_row job opts payload"
  have at_time: "d_scheduled_at ?d = o_scheduled_at opts" by (simp add: typed_row_def)
  show ?thesis
    unfolding enqueue_def enqueue_dyn_def insert_job_def insert_dyn_def typed_row_build [OF Inr]
    by (simp add: Inr Let_def at_time insert_and_materialize_cong [OF refl] cong: sum.case_cong)
qed

lemma build_dyn_enqueue_batch: "build_dyn_enqueue job opts = Inr d \<Longrightarrow> d_batch_id d = None"
  by (auto simp: build_dyn_enqueue_def dyn_new_def split: sum.splits)

lemma enqueue_is_step:
  assumes "keys_ok s"
  shows "enqueue_step {None} s (fst (enqueue e job opts s))"
  using assms enqueue_dyn_step [OF assms]
  by (auto simp: enqueue_via_dyn enqueue_step_refl split: sum.splits dest: build_dyn_enqueue_batch)
     (metis build_dyn_enqueue_batch)

subsection \<open>Bulk\<close>

lemma insert_rows_step:
  "insert_rows now rows s = Inr (s1, n) \<Longrightarrow> keys_ok s \<Longrightarrow> (\<And>d t. (d, t) \<in> set rows \<Longrightarrow> d_batch_id d \<in> B) \<Longrightarrow>
   enqueue_step B s s1"
proof (induction now rows s arbitrary: s1 n rule: insert_rows.induct)
  case (1 now s)
  then show ?case by (simp add: enqueue_step_refl)
next
  case (2 now d t rows s)
  from 2(2) obtain s0 r m where a: "insert_row now t d s = Inr (s0, r)"
    and b: "insert_rows now rows s0 = Inr (s1, m)"
    by (auto split: sum.splits prod.splits)
  have s0: "enqueue_step B s s0" by (rule insert_row_step [OF a 2(3)]) (rule 2(4) [of d t], simp)
  have "enqueue_step B s0 s1"
  proof (rule 2(1) [OF a refl b enqueue_step_keys [OF s0 2(3)]])
    show "d_batch_id d' \<in> B" if "(d', t') \<in> set rows" for d' t'
      by (rule 2(4) [of d' t']) (simp add: that)
  qed
  with s0 show ?case by (rule enqueue_step_trans)
qed

lemma insert_rows_count:
  "insert_rows now rows s = Inr (s1, n) \<Longrightarrow>
   n \<le> length rows \<and> length (jobs s1) = length (jobs s) + n \<and> groups s1 = groups s \<and> rules s1 = rules s"
proof (induction now rows s arbitrary: s1 n rule: insert_rows.induct)
  case (2 now d t rows s)
  from 2(2) obtain s0 r m where a: "insert_row now t d s = Inr (s0, r)"
    and b: "insert_rows now rows s0 = Inr (s1, m)" "n = (if r = None then m else Suc m)"
    by (auto split: sum.splits prod.splits)
  have "length (jobs s0) = length (jobs s) + (if r = None then 0 else 1) \<and> groups s0 = groups s \<and> rules s0 = rules s"
    using a by (auto simp: insert_row_def Let_def split: if_splits)
  with 2(1) [OF a refl b(1)] b(2) show ?case by auto
qed simp

lemma materialize_all_step:
  "materialize_all e ks s = Inr s' \<Longrightarrow> keys_ok s \<Longrightarrow> enqueue_step B s s' \<and> jobs s' = jobs s"
proof (induction e ks s arbitrary: s' rule: materialize_all.induct)
  case (2 e k ks s)
  from 2(2) obtain s1 where a: "materialize_from_rule (e_rule_scan e) (e_now e) k s = Inr s1"
    and b: "materialize_all e ks s1 = Inr s'"
    by (auto split: sum.splits)
  have c: "group_config_step s s1" using a 2(3) by (rule materialize_step)
  have "enqueue_step B s1 s' \<and> jobs s' = jobs s1"
    using 2(1) [OF a b group_config_step_keys [OF c 2(3)]] .
  with c show ?case
    using enqueue_step_trans [OF enqueue_step_config [OF c]] group_config_step_frame(1) [OF c] by simp
qed (simp add: enqueue_step_refl)

text \<open>The body both bulk operations end with.\<close>

lemma finish_many_step:
  assumes "finish_many e (s1, r, due, gs) = Inr (s', r')" "keys_ok s1"
  shows "enqueue_step B s1 s' \<and> r' = r \<and> jobs s' = jobs s1"
proof (cases "materialize_all e gs s1")
  case (Inl err)
  with assms(1) show ?thesis by (simp add: finish_many_def)
next
  case (Inr s2)
  have s2: "enqueue_step B s1 s2" "jobs s2 = jobs s1"
    using materialize_all_step [OF Inr assms(2)] by simp_all
  have k2: "keys_ok s2" by (rule enqueue_step_keys [OF s2(1) assms(2)])
  have r: "r' = r" and s': "s' = pg_notify notify_channel [] s2 \<or> s' = s2"
    using assms(1) Inr by (auto simp: finish_many_def)
  from s' have "enqueue_step B s2 s' \<and> jobs s' = jobs s2"
    using enqueue_step_refl [OF k2] enqueue_step_notify [OF k2] by fastforce
  then show ?thesis using s2 r enqueue_step_trans [OF s2(1)] by simp
qed

lemma enqueue_many_dyn_in_tx_step:
  assumes "enqueue_many_dyn_in_tx e reqs s = Inr (s', r)" "keys_ok s"
  shows "enqueue_step (d_batch_id ` set reqs) s s' \<and> inserted r + skipped r = length reqs \<and>
    length (jobs s') = length (jobs s) + inserted r"
proof (cases "reqs = []")
  case True
  with assms show ?thesis by (auto simp: enqueue_many_dyn_in_tx_def enqueue_step_refl)
next
  case False
  let ?rows = "map (\<lambda>d. (d, unwrap_or (d_scheduled_at d) (e_utc e))) reqs"
  obtain s1 n due where a: "insert_rows (e_now e) ?rows s = Inr (s1, n)"
    and b: "finish_many e (s1, \<lparr>inserted = n, skipped = length reqs - n\<rparr>, due, distinct_groups reqs) = Inr (s', r)"
    using assms(1) False
    by (auto simp: enqueue_many_dyn_in_tx_def insert_many_dyn_def Let_def split: sum.splits prod.splits)
  have s1: "enqueue_step (d_batch_id ` set reqs) s s1"
    by (rule insert_rows_step [OF a assms(2)]) auto
  have c: "enqueue_step (d_batch_id ` set reqs) s1 s' \<and>
      r = \<lparr>inserted = n, skipped = length reqs - n\<rparr> \<and> jobs s' = jobs s1"
    by (rule finish_many_step [OF b enqueue_step_keys [OF s1 assms(2)]])
  with s1 insert_rows_count [OF a] show ?thesis by (auto intro: enqueue_step_trans)
qed

lemma typed_rows_batch: "typed_rows js = Inr ds \<Longrightarrow> length ds = length js \<and> (\<forall>d \<in> set ds. d_batch_id d = None)"
  by (induction js arbitrary: ds) (auto simp: typed_row_def split: sum.splits)

lemma enqueue_many_in_tx_step:
  assumes "enqueue_many_in_tx e js s = Inr (s', r)" "keys_ok s"
  shows "enqueue_step {None} s s' \<and> inserted r + skipped r = length js \<and>
    length (jobs s') = length (jobs s) + inserted r"
proof (cases "js = []")
  case True
  with assms show ?thesis by (auto simp: enqueue_many_in_tx_def enqueue_step_refl)
next
  case False
  obtain ds s1 n where ds: "typed_rows js = Inr ds"
    and a: "insert_rows (e_now e) (map (\<lambda>d. (d, e_utc e)) ds) s = Inr (s1, n)"
    and b: "finish_many e (s1, \<lparr>inserted = n, skipped = length js - n\<rparr>, True, distinct_groups ds) = Inr (s', r)"
    using assms(1) False
    by (auto simp: enqueue_many_in_tx_def insert_many_def split: sum.splits prod.splits)
  note len = typed_rows_batch [OF ds]
  have s1: "enqueue_step {None} s s1"
    by (rule insert_rows_step [OF a assms(2)]) (use len in auto)
  have "enqueue_step {None} s1 s' \<and> r = \<lparr>inserted = n, skipped = length js - n\<rparr> \<and> jobs s' = jobs s1"
    by (rule finish_many_step [OF b enqueue_step_keys [OF s1 assms(2)]])
  with s1 len insert_rows_count [OF a] show ?thesis by (auto intro: enqueue_step_trans)
qed

section \<open>The contract of a source of jobs\<close>

text \<open>
  What the rest of the system relies on: submitting work, successfully or not, is an
  \<open>enqueue_step\<close>. It then touches no existing job and keeps the invariant of the database.
\<close>

locale job_source =
  fixes submit :: "env \<Rightarrow> 'a \<Rightarrow> db \<Rightarrow> db \<times> 'b res"
    and batch_ids :: "'a \<Rightarrow> batch_key option set"
  assumes submit_step: "keys_ok s \<Longrightarrow> enqueue_step (batch_ids a) s (fst (submit e a s))"
begin

lemma submit_appends:
  assumes "keys_ok s"
  obtains new where "jobs (fst (submit e a s)) = jobs s @ new"
    "\<And>j. j \<in> set new \<Longrightarrow> j_state j = Pending"
    "\<And>j. j \<in> set new \<Longrightarrow> j_id j \<notin> j_id ` set (jobs s)"
proof -
  obtain new where a: "jobs (fst (submit e a s)) = jobs s @ new"
    "\<And>j. j \<in> set new \<Longrightarrow> j_state j = Pending" "\<And>j. j \<in> set new \<Longrightarrow> next_job_id s \<le> j_id j"
    using enqueue_step_jobs [OF submit_step [OF assms]] by metis
  have "\<forall>j \<in> set (jobs s). j_id j < next_job_id s" using assms by (simp add: keys_ok_def)
  with a show ?thesis by (intro that [OF a(1,2)]) force+
qed

lemma submit_db_ok: "db_ok s \<Longrightarrow> batch_ids a \<subseteq> {None} \<Longrightarrow> db_ok (fst (submit e a s))"
  by (rule enqueue_step_db_ok [OF enqueue_step_mono [OF submit_step]]) (simp_all add: db_okD)

end

interpretation typed_source: job_source "\<lambda>e (job, opts). enqueue e job opts" "\<lambda>_. {None}"
  by unfold_locales (auto intro: enqueue_is_step)

interpretation dyn_source: job_source enqueue_dyn "\<lambda>d. {d_batch_id d}"
  by unfold_locales (rule enqueue_dyn_step)

lemma run_tx_step:
  "keys_ok s \<Longrightarrow> (\<And>s' a. body s = Inr (s', a) \<Longrightarrow> enqueue_step B s s') \<Longrightarrow> enqueue_step B s (fst (run_tx body s))"
  by (rule run_tx_invariant [of "enqueue_step B s"]) (simp_all add: enqueue_step_refl)

interpretation many_dyn_source: job_source enqueue_many_dyn "\<lambda>reqs. d_batch_id ` set reqs"
  by unfold_locales
     (auto simp: enqueue_many_dyn_def enqueue_step_refl intro!: run_tx_step dest: enqueue_many_dyn_in_tx_step)

interpretation many_source: job_source enqueue_many "\<lambda>_. {None}"
  by unfold_locales
     (auto simp: enqueue_many_def enqueue_step_refl intro!: run_tx_step dest: enqueue_many_in_tx_step)

section \<open>Results\<close>

lemma insert_row_fresh:
  assumes "\<not> has_conflict d (jobs s)" "batch_fk_ok d s"
  shows "insert_row now t d s =
    Inr (s\<lparr>next_job_id := next_job_id s + 1, jobs := jobs s @ [new_job now t d (next_job_id s)]\<rparr>,
         Some (next_job_id s))"
  using assms by (simp add: insert_row_def Let_def)

lemma materialize_opt_frame:
  "materialize_opt e k s = Inr s' \<Longrightarrow> jobs s' = jobs s \<and> notified s' = notified s"
  by (auto simp: materialize_opt_def materialize_from_rule_def split: option.splits if_splits)

lemma enqueue_dyn_skip:
  assumes "valid_queue_name (d_queue d)" "has_conflict d (jobs s)"
  shows "enqueue_dyn e d s = (s\<lparr>next_job_id := next_job_id s + 1\<rparr>, Inr Skipped)"
  using assms
  by (simp add: enqueue_dyn_def insert_dyn_def valid_queue_name_def insert_and_materialize_def
      insert_row_def notify_if_due_def Let_def)

lemma enqueue_dyn_insert:
  assumes "valid_queue_name (d_queue d)" "\<not> has_conflict d (jobs s)" "enqueue_dyn e d s = (s', Inr r)"
  shows "r = Inserted (next_job_id s) \<and>
    jobs s' = jobs s @ [new_job (e_now e) (unwrap_or (d_scheduled_at d) (e_utc e)) d (next_job_id s)] \<and>
    notified s' = notified s @
      (if unwrap_or (d_scheduled_at d) (e_utc e) \<le> e_utc_later e then [(notify_channel, [])] else [])"
  using assms
  by (auto simp: enqueue_dyn_def insert_dyn_def valid_queue_name_def insert_and_materialize_def
      insert_row_def notify_if_due_def Let_def dest!: materialize_opt_frame
      split: sum.splits prod.splits option.splits if_splits bool.splits)

lemma enqueue_dyn_invalid:
  assumes "\<not> valid_queue_name (d_queue d)"
  shows "\<exists>m. enqueue_dyn e d s = (s, Inl (InvalidArgument m))"
  using assms
  by (cases rule: validate_queue_name_cases [of "d_queue d"])
     (auto simp: enqueue_dyn_def insert_dyn_def)

end
