(* ===== verification/Batches.thy ===== *)
theory Batches
  imports Enqueue
begin

text \<open>
  \<open>crates/eddyq-core/src/batch.rs\<close>: a batch groups jobs and fires its \<open>on_complete\<close> callback when the last
  of them reaches a terminal state. The column \<open>on_complete\<close> holds the request itself; its JSON
  encoding and decoding are not modelled.

  Inside the transaction that settles jobs, the batch invariant is owed: \<open>owe\<close> jobs have become
  terminal without being counted yet, and the callbacks of the batches in \<open>pend\<close> have still to be
  claimed. \<open>batches_mid\<close> is the invariant with that debt; \<open>batches_ok\<close> is the case without any.
\<close>

section \<open>Definitions\<close>

datatype terminal_outcome = OutCompleted | OutFailed | OutCancelled

record batch_options =
  bo_on_complete :: "dyn_enqueue option"
  bo_metadata :: json

record batch_enqueue_result =
  br_batch_id :: batch_key
  br_inserted :: nat
  br_skipped :: nat

record batch_settle_summary =
  bs_total :: int
  bs_completed :: int
  bs_failed :: int
  bs_cancelled :: int
  bs_duration_ms :: int

definition callback_key :: "batch_key \<Rightarrow> string" where
  "callback_key bid = ''eddyq.batch.'' @ show_int bid @ ''.callback''"

definition batch_envelope :: "batch_key \<Rightarrow> batch_settle_summary \<Rightarrow> json" where
  "batch_envelope bid summary =
     JObject (foldl (\<lambda>m (k, v). map_insert k (json_int v) m) []
       [(''batchId'', bid), (''total'', bs_total summary), (''completed'', bs_completed summary),
        (''failed'', bs_failed summary), (''cancelled'', bs_cancelled summary),
        (''durationMs'', bs_duration_ms summary)])"

definition callback_payload :: "json \<Rightarrow> json \<Rightarrow> json" where
  "callback_payload payload envelope =
     (case payload of
        JObject m \<Rightarrow> JObject (map_insert ''_eddyq_batch'' envelope m)
      | original \<Rightarrow> JObject (map_insert ''_payload'' original (map_insert ''_eddyq_batch'' envelope [])))"

definition build_callback_dyn :: "dyn_enqueue \<Rightarrow> batch_key \<Rightarrow> batch_settle_summary \<Rightarrow> dyn_enqueue" where
  "build_callback_dyn spec bid summary =
     spec\<lparr>d_payload := callback_payload (d_payload spec) (batch_envelope bid summary),
          d_unique_key := Some (callback_key bid)\<rparr>"

definition finish_batch :: "timestamp \<Rightarrow> batch \<Rightarrow> batch" where
  "finish_batch now b =
     b\<lparr>b_callback_enqueued_at := Some now, b_state := BatchComplete, b_finalized_at := Some now\<rparr>"

text \<open>\<open>(EXTRACT(EPOCH FROM (NOW() - created_at)) * 1000)::bigint\<close>: the cast rounds half away from zero.\<close>

definition elapsed_ms :: "timestamp \<Rightarrow> timestamp \<Rightarrow> int" where
  "elapsed_ms now since =
     (let d = now - since in if 0 \<le> d then (d + 500) div 1000 else - ((500 - d) div 1000))"

definition claimable_batch :: "batch_key \<Rightarrow> batch \<Rightarrow> bool" where
  "claimable_batch bid b \<longleftrightarrow>
     b_id b = bid \<and> b_callback_enqueued_at b = None \<and> batch_settled b = b_total b"

definition summary_of :: "timestamp \<Rightarrow> batch \<Rightarrow> batch_settle_summary" where
  "summary_of now b = \<lparr>bs_total = b_total b, bs_completed = b_completed b, bs_failed = b_failed b,
     bs_cancelled = b_cancelled b, bs_duration_ms = elapsed_ms now (b_created_at b)\<rparr>"

definition try_claim_and_fire :: "env \<Rightarrow> batch_key \<Rightarrow> unit tx" where
  "try_claim_and_fire e bid s =
     (let now = e_now e;
          claimed = returning (claimable_batch bid) (finish_batch now) (batches s);
          s1 = s\<lparr>batches := update_where (claimable_batch bid) (finish_batch now) (batches s)\<rparr>
      in case claimed of
           [] \<Rightarrow> Inr (s1, ())
         | b # _ \<Rightarrow>
             (case b_on_complete b of
                None \<Rightarrow> Inr (s1, ())
              | Some spec \<Rightarrow>
                  (case enqueue_dyn_in_tx e (build_callback_dyn spec bid (summary_of now b)) s1 of
                     Inl err \<Rightarrow> Inl err
                   | Inr (s2, _) \<Rightarrow> Inr (s2, ()))))"

fun bump :: "terminal_outcome \<Rightarrow> batch \<Rightarrow> batch" where
  "bump OutCompleted b = b\<lparr>b_completed := b_completed b + 1\<rparr>"
| "bump OutFailed b = b\<lparr>b_failed := b_failed b + 1\<rparr>"
| "bump OutCancelled b = b\<lparr>b_cancelled := b_cancelled b + 1\<rparr>"

definition settle_terminal :: "env \<Rightarrow> batch_key \<Rightarrow> terminal_outcome \<Rightarrow> unit tx" where
  "settle_terminal e bid outcome s =
     (case lookup_by b_id bid (batches s) of
        None \<Rightarrow> Inr (s, ())
      | Some b0 \<Rightarrow>
          (let b = bump outcome b0;
               s1 = s\<lparr>batches := update_where (\<lambda>b. b_id b = bid) (bump outcome) (batches s)\<rparr>
           in if \<not> batch_check b then Inl (Database ''eddyq_batches_counts_check'')
              else if b_callback_enqueued_at b \<noteq> None then Inr (s1, ())
              else if b_completed b + b_failed b + b_cancelled b \<noteq> b_total b then Inr (s1, ())
              else try_claim_and_fire e bid s1))"

definition new_batch :: "timestamp \<Rightarrow> batch_options \<Rightarrow> batch_key \<Rightarrow> batch" where
  "new_batch now opts bid =
     \<lparr>b_id = bid, b_state = BatchPending, b_total = 0, b_completed = 0, b_failed = 0, b_cancelled = 0,
      b_on_complete = bo_on_complete opts, b_callback_enqueued_at = None,
      b_metadata = (if bo_metadata opts = JNull then JObject [] else bo_metadata opts),
      b_created_at = now, b_finalized_at = None\<rparr>"

definition insert_items :: "env \<Rightarrow> dyn_enqueue list \<Rightarrow> batch_key \<Rightarrow> nat tx" where
  "insert_items e items bid s =
     (if items = [] then Inr (s, 0)
      else case enqueue_many_dyn_in_tx e (map (\<lambda>d. d\<lparr>d_batch_id := Some bid\<rparr>) items) s of
             Inl err \<Rightarrow> Inl err
           | Inr (s', bulk) \<Rightarrow> Inr (s', inserted bulk))"

definition zero_summary :: batch_settle_summary where
  "zero_summary = \<lparr>bs_total = 0, bs_completed = 0, bs_failed = 0, bs_cancelled = 0, bs_duration_ms = 0\<rparr>"

definition finish_empty :: "env \<Rightarrow> batch_options \<Rightarrow> batch_key \<Rightarrow> unit tx" where
  "finish_empty e opts bid s =
     (let s1 = s\<lparr>batches := update_where (\<lambda>b. b_id b = bid) (finish_batch (e_now e)) (batches s)\<rparr>
      in case bo_on_complete opts of
           None \<Rightarrow> Inr (s1, ())
         | Some spec \<Rightarrow>
             (case enqueue_dyn_in_tx e (build_callback_dyn spec bid zero_summary) s1 of
                Inl err \<Rightarrow> Inl err
              | Inr (s2, _) \<Rightarrow> Inr (s2, ())))"

definition enqueue_batch_in_tx :: "env \<Rightarrow> dyn_enqueue list \<Rightarrow> batch_options \<Rightarrow> batch_enqueue_result tx" where
  "enqueue_batch_in_tx e items opts s =
     (let bid = next_batch_id s;
          s1 = s\<lparr>batches := batches s @ [new_batch (e_now e) opts bid], next_batch_id := bid + 1\<rparr>
      in case insert_items e items bid s1 of
           Inl err \<Rightarrow> Inl err
         | Inr (s2, n) \<Rightarrow>
             (let s3 = s2\<lparr>batches := update_where (\<lambda>b. b_id b = bid) (\<lambda>b. b\<lparr>b_total := int n\<rparr>) (batches s2)\<rparr>;
                  result = \<lparr>br_batch_id = bid, br_inserted = n, br_skipped = length items - n\<rparr>
              in if n = 0
                 then (case finish_empty e opts bid s3 of Inl err \<Rightarrow> Inl err | Inr (s4, _) \<Rightarrow> Inr (s4, result))
                 else Inr (s3, result)))"

definition enqueue_batch :: "env \<Rightarrow> dyn_enqueue list \<Rightarrow> batch_options \<Rightarrow> batch_enqueue_result conn" where
  "enqueue_batch e items opts = run_tx (enqueue_batch_in_tx e items opts)"

section \<open>The batch invariant with a debt\<close>

definition claimed :: "batch \<Rightarrow> bool" where
  "claimed b \<longleftrightarrow> b_callback_enqueued_at b \<noteq> None"

definition batch_row_ok :: "job list \<Rightarrow> (batch_key \<Rightarrow> nat) \<Rightarrow> batch_key set \<Rightarrow> batch \<Rightarrow> bool" where
  "batch_row_ok js owe pend b \<longleftrightarrow>
     0 \<le> b_completed b \<and> 0 \<le> b_failed b \<and> 0 \<le> b_cancelled b \<and>
     batch_settled b + int (outstanding (b_id b) js) + int (owe (b_id b)) = b_total b \<and>
     (claimed b \<longrightarrow> outstanding (b_id b) js + owe (b_id b) = 0) \<and>
     (b_id b \<notin> pend \<and> outstanding (b_id b) js + owe (b_id b) = 0 \<longrightarrow> claimed b) \<and>
     (claimed b \<longleftrightarrow> b_state b = BatchComplete) \<and>
     (claimed b \<longleftrightarrow> b_finalized_at b \<noteq> None) \<and>
     (\<forall>spec. b_on_complete b = Some spec \<longrightarrow> d_batch_id spec = None)"

definition batch_refs_ok :: "db \<Rightarrow> bool" where
  "batch_refs_ok s \<longleftrightarrow> (\<forall>j \<in> set (jobs s). set_option (j_batch_id j) \<subseteq> b_id ` set (batches s))"

definition batches_mid :: "(batch_key \<Rightarrow> nat) \<Rightarrow> batch_key set \<Rightarrow> db \<Rightarrow> bool" where
  "batches_mid owe pend s \<longleftrightarrow>
     batch_refs_ok s \<and> (\<forall>b \<in> set (batches s). batch_row_ok (jobs s) owe pend b)"

lemma batches_ok_mid: "batches_ok s \<longleftrightarrow> batches_mid (\<lambda>_. 0) {} s"
  by (auto simp: batches_ok_def batches_mid_def batch_row_ok_def batch_refs_ok_def claimed_def
      subset_iff elem_set)

lemma batch_row_ok_check: "batch_row_ok js owe pend b \<Longrightarrow> batch_check b"
  by (simp add: batch_row_ok_def batch_check_def batch_settled_def)

text \<open>The transactions that settle jobs change the batch rows in place and then at most enqueue
  callbacks.\<close>

definition settled_step :: "db \<Rightarrow> db \<Rightarrow> bool" where
  "settled_step s s' \<longleftrightarrow>
     (\<exists>bs'. map b_id bs' = map b_id (batches s) \<and> enqueue_step {None} (s\<lparr>batches := bs'\<rparr>) s')"

lemma settled_step_refl: "keys_ok s \<Longrightarrow> settled_step s s"
  unfolding settled_step_def by (rule exI [of _ "batches s"]) (simp add: enqueue_step_refl)

lemma keys_ok_batches:
  assumes "map b_id bs' = map b_id (batches s)"
  shows "keys_ok (s\<lparr>batches := bs'\<rparr>) \<longleftrightarrow> keys_ok s"
proof -
  have "(\<forall>b \<in> set bs'. b_id b < n) \<longleftrightarrow> (\<forall>b \<in> set (batches s). b_id b < n)" for n
    using set_map_image [OF assms] by (metis (no_types, lifting) imageE imageI)
  with assms show ?thesis by (simp add: keys_ok_def)
qed

lemma settled_step_keys: "settled_step s s' \<Longrightarrow> keys_ok s \<Longrightarrow> keys_ok s'"
  unfolding settled_step_def by (metis enqueue_step_keys keys_ok_batches)

lemma settled_step_unique: "settled_step s s' \<Longrightarrow> unique_index_ok (jobs s) \<Longrightarrow> unique_index_ok (jobs s')"
  unfolding settled_step_def using enqueue_step_unique by fastforce

lemma settled_step_counters:
  assumes "settled_step s s'" "counters_ok s"
  shows "counters_ok s'"
proof -
  obtain bs' where step: "enqueue_step {None} (s\<lparr>batches := bs'\<rparr>) s'"
    using assms(1) unfolding settled_step_def by blast
  show ?thesis by (rule enqueue_step_counters [OF step]) (use assms(2) in \<open>simp add: counters_ok_iff groups_present_def\<close>)
qed

lemma settled_step_batch_ids: "settled_step s s' \<Longrightarrow> map b_id (batches s') = map b_id (batches s)"
  unfolding settled_step_def using enqueue_step_frame(3) by fastforce

lemma settled_step_jobs:
  assumes "settled_step s s'"
  obtains new where "jobs s' = jobs s @ new" "\<And>j. j \<in> set new \<Longrightarrow> j_state j = Pending"
    "\<And>j. j \<in> set new \<Longrightarrow> j_batch_id j = None" "\<And>j. j \<in> set new \<Longrightarrow> next_job_id s \<le> j_id j"
proof -
  obtain bs' where step: "enqueue_step {None} (s\<lparr>batches := bs'\<rparr>) s'"
    using assms unfolding settled_step_def by blast
  show ?thesis
    by (rule enqueue_step_jobs [OF step], rule that) auto
qed

lemma settled_step_frame:
  assumes "settled_step s s'"
  shows "queues s' = queues s" "rules s' = rules s" "next_batch_id s' = next_batch_id s"
    "schedules s' = schedules s" "leaders s' = leaders s" "rows_config (groups s) (groups s')"
  using assms unfolding settled_step_def by (auto dest: enqueue_step_frame)

lemma settled_step_checks:
  assumes "settled_step s s'" "checks_ok s" "batches_mid owe pend s'"
  shows "checks_ok s'"
proof -
  have "0 \<le> g_max_concurrency g" if "g \<in> set (groups s')" for g
    using that assms(2) settled_step_frame(6) [OF assms(1)] by (auto simp: rows_config_def checks_ok_def)
  moreover have "batch_check b" if "b \<in> set (batches s')" for b
    using that assms(3) by (auto simp: batches_mid_def intro: batch_row_ok_check)
  ultimately show ?thesis
    using assms(2) settled_step_frame [OF assms(1)] by (simp add: checks_ok_def)
qed

lemma settled_step_trans:
  assumes "settled_step s s1" "settled_step s1 s2"
  shows "settled_step s s2"
proof -
  obtain bs1 where 1: "map b_id bs1 = map b_id (batches s)" "enqueue_step {None} (s\<lparr>batches := bs1\<rparr>) s1"
    using assms(1) unfolding settled_step_def by blast
  obtain bs2 where 2: "map b_id bs2 = map b_id (batches s1)" "enqueue_step {None} (s1\<lparr>batches := bs2\<rparr>) s2"
    using assms(2) unfolding settled_step_def by blast
  have ids: "map b_id bs2 = map b_id (batches s)"
    using 1(1) 2(1) enqueue_step_frame(3) [OF 1(2)] by simp
  have "enqueue_step {None} (s\<lparr>batches := bs2\<rparr>) (s1\<lparr>batches := bs2\<rparr>)"
  proof -
    obtain new nt where
      s1: "s1 = s\<lparr>batches := bs1, jobs := jobs s @ new, next_job_id := next_job_id s1, groups := groups s1,
                 notified := notified s @ nt\<rparr>"
      and r: "rows_config (groups s) (groups s1)"
        "fresh_rows {None} bs1 (next_job_id s) (next_job_id s1) new"
        "unique_index_ok (jobs s) \<longrightarrow> unique_index_ok (jobs s @ new)"
      using 1(2) unfolding enqueue_step_def by auto
    have "fresh_rows {None} bs2 (next_job_id s) (next_job_id s1) new"
      using r(2) by (auto simp: fresh_rows_def)
    moreover have "s1\<lparr>batches := bs2\<rparr> = s\<lparr>batches := bs2, jobs := jobs s @ new, next_job_id := next_job_id s1,
        groups := groups s1, notified := notified s @ nt\<rparr>"
      by (subst s1) simp
    ultimately show ?thesis
      unfolding enqueue_step_def using r
      by (intro exI [of _ new] exI [of _ nt]) simp
  qed
  with 2(2) have "enqueue_step {None} (s\<lparr>batches := bs2\<rparr>) s2" by (rule enqueue_step_trans [rotated])
  with ids show ?thesis unfolding settled_step_def by blast
qed

section \<open>Claiming and settling\<close>

lemma outstanding_append: "outstanding b (js @ js') = outstanding b js + outstanding b js'"
  by (simp add: outstanding_def)

lemma outstanding_none: "(\<And>j. j \<in> set js \<Longrightarrow> j_batch_id j \<noteq> Some b) \<Longrightarrow> outstanding b js = 0"
  by (simp add: outstanding_def count_if_zero_iff)

lemma enqueue_step_mid:
  assumes "enqueue_step {None} s s'" "batches_mid owe pend s"
  shows "batches_mid owe pend s'"
proof -
  obtain new where js: "jobs s' = jobs s @ new" and new: "\<And>j. j \<in> set new \<Longrightarrow> j_batch_id j = None"
    using enqueue_step_jobs [OF assms(1)] by (metis singletonD)
  have "outstanding b (jobs s') = outstanding b (jobs s)" for b
    using outstanding_none [of new b] new by (simp add: js outstanding_append)
  then have "batch_row_ok (jobs s') owe pend b = batch_row_ok (jobs s) owe pend b" for b
    by (simp only: batch_row_ok_def)
  moreover have "batch_refs_ok s \<Longrightarrow> batch_refs_ok s'"
    using new enqueue_step_frame(3) [OF assms(1)] by (auto simp: batch_refs_ok_def js)
  ultimately show ?thesis
    using assms(2) enqueue_step_frame(3) [OF assms(1)] by (simp add: batches_mid_def)
qed

lemma finish_batch_id [simp]: "b_id (finish_batch now b) = b_id b"
  by (simp add: finish_batch_def)

lemma bump_simps [simp]:
  "b_id (bump oc b) = b_id b" "b_total (bump oc b) = b_total b" "b_on_complete (bump oc b) = b_on_complete b"
  "b_state (bump oc b) = b_state b" "b_finalized_at (bump oc b) = b_finalized_at b"
  "b_callback_enqueued_at (bump oc b) = b_callback_enqueued_at b"
  "batch_settled (bump oc b) = batch_settled b + 1"
  by (cases oc; simp add: batch_settled_def)+

lemma bump_nonneg:
  "0 \<le> b_completed b \<Longrightarrow> 0 \<le> b_completed (bump oc b)"
  "0 \<le> b_failed b \<Longrightarrow> 0 \<le> b_failed (bump oc b)"
  "0 \<le> b_cancelled b \<Longrightarrow> 0 \<le> b_cancelled (bump oc b)"
  by (cases oc; simp)+

lemma build_callback_batch [simp]: "d_batch_id (build_callback_dyn spec bid su) = d_batch_id spec"
  by (simp add: build_callback_dyn_def)

lemma enqueue_dyn_in_tx_step:
  assumes "enqueue_dyn_in_tx e d s = Inr (s', r)" "keys_ok s"
  shows "enqueue_step {d_batch_id d} s s'"
  using enqueue_dyn_step [OF assms(2), of d e] assms(1)
  by (auto simp: enqueue_dyn_in_tx_def in_tx_def split: prod.splits sum.splits)

definition specs_ok :: "db \<Rightarrow> bool" where
  "specs_ok s \<longleftrightarrow> (\<forall>b \<in> set (batches s). \<forall>spec. b_on_complete b = Some spec \<longrightarrow> d_batch_id spec = None)"

lemma batches_mid_specs: "batches_mid owe pend s \<Longrightarrow> specs_ok s"
  by (simp add: batches_mid_def batch_row_ok_def specs_ok_def)

text \<open>Updating batch rows in place under their ids.\<close>

lemma batches_update_ids:
  "(\<And>b. b_id (f b) = b_id b) \<Longrightarrow> map b_id (update_where p f bs) = map b_id bs"
  by (rule map_update_where_stable) simp

lemma try_claim_enqueues:
  assumes "try_claim_and_fire e bid s = Inr (s', u)" "keys_ok s" "specs_ok s"
  shows "enqueue_step {None} (s\<lparr>batches := update_where (claimable_batch bid) (finish_batch (e_now e)) (batches s)\<rparr>) s'"
proof -
  let ?s1 = "s\<lparr>batches := update_where (claimable_batch bid) (finish_batch (e_now e)) (batches s)\<rparr>"
  have k1: "keys_ok ?s1"
    using keys_ok_batches [OF batches_update_ids] assms(2) by simp
  show ?thesis
  proof (cases "returning (claimable_batch bid) (finish_batch (e_now e)) (batches s)")
    case Nil
    with assms(1) k1 show ?thesis by (simp add: try_claim_and_fire_def Let_def enqueue_step_refl)
  next
    case (Cons b bs)
    then have "b \<in> finish_batch (e_now e) ` set (batches s)"
      using set_returning [of "claimable_batch bid" "finish_batch (e_now e)" "batches s"] by auto
    then have spec: "b_on_complete b = Some spec \<Longrightarrow> d_batch_id spec = None" for spec
      using assms(3) by (auto simp: specs_ok_def finish_batch_def)
    show ?thesis
    proof (cases "b_on_complete b")
      case None
      with Cons assms(1) k1 show ?thesis by (simp add: try_claim_and_fire_def Let_def enqueue_step_refl)
    next
      case (Some sp)
      obtain r where "enqueue_dyn_in_tx e (build_callback_dyn sp bid (summary_of (e_now e) b)) ?s1 = Inr (s', r)"
        using Cons Some assms(1) by (auto simp: try_claim_and_fire_def Let_def split: sum.splits)
      from enqueue_dyn_in_tx_step [OF this k1] spec [OF Some] show ?thesis by simp
    qed
  qed
qed

lemma try_claim_step:
  assumes "try_claim_and_fire e bid s = Inr (s', u)" "keys_ok s" "specs_ok s"
  shows "settled_step s s'"
  unfolding settled_step_def
  using try_claim_enqueues [OF assms] batches_update_ids [of "finish_batch (e_now e)"] by auto

lemma finish_row_ok:
  assumes "batch_row_ok js owe pend b" "claimable_batch bid b"
  shows "batch_row_ok js owe pend' (finish_batch now b)"
  using assms by (auto simp: batch_row_ok_def claimable_batch_def finish_batch_def claimed_def batch_settled_def)

lemma not_claimable_row_ok:
  assumes "batch_row_ok js owe pend b" "\<not> claimable_batch bid b"
  shows "batch_row_ok js owe (pend - {bid}) b"
  using assms by (auto simp: batch_row_ok_def claimable_batch_def claimed_def)

lemma try_claim_mid:
  assumes "try_claim_and_fire e bid s = Inr (s', u)" "keys_ok s" "batches_mid owe pend s"
  shows "batches_mid owe (pend - {bid}) s'"
proof -
  let ?bs = "update_where (claimable_batch bid) (finish_batch (e_now e)) (batches s)"
  have "batch_row_ok (jobs s) owe (pend - {bid}) b" if "b \<in> set ?bs" for b
    using that assms(3) finish_row_ok not_claimable_row_ok
    by (fastforce simp: set_update_where batches_mid_def)
  moreover have "b_id ` set ?bs = b_id ` set (batches s)"
    by (rule set_map_image) (simp add: batches_update_ids)
  ultimately have "batches_mid owe (pend - {bid}) (s\<lparr>batches := ?bs\<rparr>)"
    using assms(3) by (simp add: batches_mid_def batch_refs_ok_def)
  with try_claim_enqueues [OF assms(1,2) batches_mid_specs [OF assms(3)]] show ?thesis
    by (rule enqueue_step_mid)
qed

lemma bump_row_ok:
  assumes "batch_row_ok js owe pend b" "b_id b = bid" "owe bid = Suc n"
  shows "batch_row_ok js (owe(bid := n)) (insert bid pend) (bump oc b)"
  using assms by (auto simp: batch_row_ok_def claimed_def bump_nonneg)

lemma other_row_ok:
  assumes "batch_row_ok js owe pend b" "b_id b \<noteq> bid"
  shows "batch_row_ok js (owe(bid := n)) (insert bid pend) b"
  using assms by (auto simp: batch_row_ok_def)

lemma bump_mid:
  assumes "batches_mid owe pend s" "owe bid = Suc n"
  shows "batches_mid (owe(bid := n)) (insert bid pend)
           (s\<lparr>batches := update_where (\<lambda>b. b_id b = bid) (bump oc) (batches s)\<rparr>)"
proof -
  let ?bs = "update_where (\<lambda>b. b_id b = bid) (bump oc) (batches s)"
  have "batch_row_ok (jobs s) (owe(bid := n)) (insert bid pend) b" if "b \<in> set ?bs" for b
    using that assms bump_row_ok other_row_ok by (fastforce simp: set_update_where batches_mid_def)
  moreover have "b_id ` set ?bs = b_id ` set (batches s)"
    by (rule set_map_image) (simp add: batches_update_ids)
  ultimately show ?thesis using assms(1) by (simp add: batches_mid_def batch_refs_ok_def)
qed

text \<open>Dropping a batch from the pending claims is sound once its row is claimed or not yet done.\<close>

lemma batches_mid_drop_pend:
  assumes "batches_mid owe pend s"
    and "\<And>b. b \<in> set (batches s) \<Longrightarrow> b_id b = bid \<Longrightarrow> claimed b \<or> batch_settled b \<noteq> b_total b"
  shows "batches_mid owe (pend - {bid}) s"
proof -
  have "batch_row_ok (jobs s) owe (pend - {bid}) b" if "b \<in> set (batches s)" for b
  proof -
    have "batch_row_ok (jobs s) owe pend b" using assms(1) that by (simp add: batches_mid_def)
    with assms(2) [OF that] show ?thesis by (auto simp: batch_row_ok_def)
  qed
  with assms(1) show ?thesis by (simp add: batches_mid_def)
qed

lemma settle_terminal_found:
  assumes "lookup_by b_id bid (batches s) = Some b0"
  shows "settle_terminal e bid oc s =
    (if \<not> batch_check (bump oc b0) then Inl (Database ''eddyq_batches_counts_check'')
     else if claimable_batch bid (bump oc b0)
     then try_claim_and_fire e bid (s\<lparr>batches := update_where (\<lambda>b. b_id b = bid) (bump oc) (batches s)\<rparr>)
     else Inr (s\<lparr>batches := update_where (\<lambda>b. b_id b = bid) (bump oc) (batches s)\<rparr>, ()))"
proof -
  have "b_id b0 = bid" using lookup_by_SomeD [OF assms] by simp
  then have "claimable_batch bid (bump oc b0) \<longleftrightarrow>
      b_callback_enqueued_at (bump oc b0) = None \<and>
      b_completed (bump oc b0) + b_failed (bump oc b0) + b_cancelled (bump oc b0) = b_total (bump oc b0)"
    by (simp add: claimable_batch_def batch_settled_def del: bump_simps(7))
  then show ?thesis
    unfolding settle_terminal_def assms by (simp add: Let_def del: bump_simps)
qed

lemma settle_terminal_result:
  assumes "settle_terminal e bid oc s = Inr (s', u)" "keys_ok s" "batches_mid owe pend s" "owe bid = Suc n"
  shows "settled_step s s' \<and> batches_mid (owe(bid := n)) (pend - {bid}) s'"
proof (cases "lookup_by b_id bid (batches s)")
  case None
  then have no: "\<And>b. b \<in> set (batches s) \<Longrightarrow> b_id b \<noteq> bid" by (auto simp: lookup_by_None_iff)
  have "batch_row_ok (jobs s) (owe(bid := n)) (pend - {bid}) b" if "b \<in> set (batches s)" for b
  proof -
    have "batch_row_ok (jobs s) owe pend b" using assms(3) that by (simp add: batches_mid_def)
    with no [OF that] show ?thesis by (auto simp: batch_row_ok_def)
  qed
  with assms(3) have "batches_mid (owe(bid := n)) (pend - {bid}) s" by (simp add: batches_mid_def)
  with None assms(1,2) show ?thesis by (simp add: settle_terminal_def settled_step_refl)
next
  case (Some b0)
  let ?s1 = "s\<lparr>batches := update_where (\<lambda>b. b_id b = bid) (bump oc) (batches s)\<rparr>"
  have mid1: "batches_mid (owe(bid := n)) (insert bid pend) ?s1"
    by (rule bump_mid [OF assms(3,4)])
  have ids: "map b_id (batches ?s1) = map b_id (batches s)" by (simp add: batches_update_ids)
  have k1: "keys_ok ?s1" using keys_ok_batches ids assms(2) by simp
  have step1: "settled_step s ?s1"
    unfolding settled_step_def using enqueue_step_refl [OF k1] ids by (intro exI [of _ "batches ?s1"]) simp
  have pend: "insert bid pend - {bid} = pend - {bid}" by simp
  show ?thesis
  proof (cases "claimable_batch bid (bump oc b0)")
    case True
    with Some assms(1) have "try_claim_and_fire e bid ?s1 = Inr (s', u)"
      by (simp add: settle_terminal_found [OF Some] split: if_splits)
    from try_claim_step [OF this k1 batches_mid_specs [OF mid1]] try_claim_mid [OF this k1 mid1]
    show ?thesis using settled_step_trans [OF step1] by (simp add: pend)
  next
    case False
    then have s': "s' = ?s1"
      using assms(1) by (simp add: settle_terminal_found [OF Some] split: if_splits)
    have "claimed b \<or> batch_settled b \<noteq> b_total b" if b: "b \<in> set (batches ?s1)" "b_id b = bid" for b
    proof -
      obtain b' where "b' \<in> set (batches s)" "b = bump oc b'" "b_id b' = bid"
        using b by (auto simp: set_update_where)
      moreover have "b0 \<in> set (batches s)" "b_id b0 = bid" using lookup_by_SomeD [OF Some] by simp_all
      moreover have "distinct (map b_id (batches s))" using assms(2) by (simp add: keys_ok_def)
      ultimately have "b = bump oc b0" using distinct_key_eq [of b_id "batches s" b0 b'] by simp
      with False b(2) show ?thesis by (simp add: claimable_batch_def claimed_def)
    qed
    then have "batches_mid (owe(bid := n)) (insert bid pend - {bid}) ?s1"
      by (rule batches_mid_drop_pend [OF mid1])
    with step1 show ?thesis unfolding s' pend by (rule conjI)
  qed
qed

section \<open>Enqueueing a batch\<close>

lemma db_ok_batches_only:
  assumes "keys_ok s" "unique_index_ok (jobs s)" "counters_ok s" "checks_ok s"
    and "map b_id bs = map b_id (batches s)" "batches_mid (\<lambda>_. 0) {} (s\<lparr>batches := bs\<rparr>)"
  shows "db_ok (s\<lparr>batches := bs\<rparr>)"
proof -
  have "batch_check b" if "b \<in> set bs" for b
    using assms(6) that by (auto simp: batches_mid_def intro: batch_row_ok_check)
  then show ?thesis
    using assms keys_ok_batches [OF assms(5)]
    by (simp add: db_ok_def counters_ok_iff groups_present_def checks_ok_def batches_ok_mid)
qed

text \<open>The state after the items are inserted: the new batch has as many outstanding jobs as were
  inserted, and the other batches are as before.\<close>

lemma insert_items_step:
  assumes "insert_items e items bid s = Inr (s', n)" "keys_ok s"
  shows "enqueue_step {Some bid} s s' \<and> length (jobs s') = length (jobs s) + n \<and> n \<le> length items"
proof (cases "items = []")
  case True
  with assms show ?thesis by (simp add: insert_items_def enqueue_step_refl)
next
  case False
  let ?items = "map (\<lambda>d. d\<lparr>d_batch_id := Some bid\<rparr>) items"
  obtain r where r: "enqueue_many_dyn_in_tx e ?items s = Inr (s', r)" "n = inserted r"
    using False assms(1) by (auto simp: insert_items_def split: sum.splits)
  have "d_batch_id ` set ?items \<subseteq> {Some bid}" by auto
  then show ?thesis
    using enqueue_many_dyn_in_tx_step [OF r(1) assms(2)] r(2) by (auto intro: enqueue_step_mono)
qed

lemma outstanding_all:
  "(\<And>j. j \<in> set js \<Longrightarrow> j_state j = Pending \<and> j_batch_id j = Some bid) \<Longrightarrow>
   outstanding b js = (if b = bid then length js else 0)"
  by (induction js) (auto simp: outstanding_def)

lemma insert_items_mid:
  assumes step: "enqueue_step {Some bid} (s\<lparr>batches := batches s @ [b0], next_batch_id := m\<rparr>) s2"
    and len: "length (jobs s2) = length (jobs s) + n"
    and ok: "batches_ok s" and fresh: "bid \<notin> b_id ` set (batches s)"
    and b0: "b_id b0 = bid" "b_completed b0 = 0" "b_failed b0 = 0" "b_cancelled b0 = 0"
      "b_callback_enqueued_at b0 = None" "b_state b0 = BatchPending" "b_finalized_at b0 = None"
      "\<And>spec. b_on_complete b0 = Some spec \<Longrightarrow> d_batch_id spec = None"
  shows "batches_mid (\<lambda>_. 0) (if n = 0 then {bid} else {})
           (s2\<lparr>batches := batches s @ [b0\<lparr>b_total := int n\<rparr>]\<rparr>)"
proof -
  obtain new where js: "jobs s2 = jobs s @ new"
    and new: "\<And>j. j \<in> set new \<Longrightarrow> j_state j = Pending \<and> j_batch_id j = Some bid"
    using enqueue_step_jobs [OF step] by (metis (mono_tags, lifting) db.select_convs(1) db.update_convs(6,7) db.surjective singletonD)
  have refs: "batch_refs_ok s" and rows: "\<And>b. b \<in> set (batches s) \<Longrightarrow> batch_row_ok (jobs s) (\<lambda>_. 0) {} b"
    using ok by (auto simp: batches_ok_mid batches_mid_def)
  have old: "outstanding bid (jobs s) = 0"
    by (rule outstanding_none) (use refs fresh in \<open>auto simp: batch_refs_ok_def\<close>)
  have n: "n = length new" using len by (simp add: js)
  have out: "outstanding b (jobs s2) = outstanding b (jobs s) + (if b = bid then n else 0)" for b
    using outstanding_all [OF new] by (simp add: js outstanding_append n)
  have "batch_row_ok (jobs s2) (\<lambda>_. 0) P b" if "b \<in> set (batches s)" for b P
    using rows [OF that] that fresh out [of "b_id b"] by (auto simp: batch_row_ok_def)
  moreover have "batch_row_ok (jobs s2) (\<lambda>_. 0) (if n = 0 then {bid} else {}) (b0\<lparr>b_total := int n\<rparr>)"
    using out [of bid] old b0 by (simp add: batch_row_ok_def claimed_def batch_settled_def)
  moreover have "batch_refs_ok (s2\<lparr>batches := batches s @ [b0\<lparr>b_total := int n\<rparr>]\<rparr>)"
    using refs new b0(1) by (auto simp: batch_refs_ok_def js)
  ultimately show ?thesis by (simp add: batches_mid_def)
qed

lemma finish_empty_step:
  assumes "finish_empty e opts bid s = Inr (s', u)" "keys_ok s"
    and "\<And>spec. bo_on_complete opts = Some spec \<Longrightarrow> d_batch_id spec = None"
  shows "enqueue_step {None} (s\<lparr>batches := update_where (\<lambda>b. b_id b = bid) (finish_batch (e_now e)) (batches s)\<rparr>) s'"
proof -
  let ?s1 = "s\<lparr>batches := update_where (\<lambda>b. b_id b = bid) (finish_batch (e_now e)) (batches s)\<rparr>"
  have k1: "keys_ok ?s1"
    using keys_ok_batches [OF batches_update_ids] assms(2) by simp
  show ?thesis
  proof (cases "bo_on_complete opts")
    case None
    with assms(1) k1 show ?thesis by (simp add: finish_empty_def Let_def enqueue_step_refl)
  next
    case (Some spec)
    obtain r where "enqueue_dyn_in_tx e (build_callback_dyn spec bid zero_summary) ?s1 = Inr (s', r)"
      using Some assms(1) by (auto simp: finish_empty_def Let_def split: sum.splits)
    from enqueue_dyn_in_tx_step [OF this k1] assms(3) [OF Some] show ?thesis by simp
  qed
qed

lemma finish_all_mid:
  assumes "batches_mid (\<lambda>_. 0) {bid} s"
    and "\<And>b. b \<in> set (batches s) \<Longrightarrow> b_id b = bid \<Longrightarrow> claimable_batch bid b"
  shows "batches_mid (\<lambda>_. 0) {} (s\<lparr>batches := update_where (\<lambda>b. b_id b = bid) (finish_batch now) (batches s)\<rparr>)"
proof -
  let ?bs = "update_where (\<lambda>b. b_id b = bid) (finish_batch now) (batches s)"
  have rows: "\<And>b. b \<in> set (batches s) \<Longrightarrow> batch_row_ok (jobs s) (\<lambda>_. 0) {bid} b"
    using assms(1) by (simp add: batches_mid_def)
  have "batch_row_ok (jobs s) (\<lambda>_. 0) {} b" if b: "b \<in> set ?bs" for b
  proof -
    consider b' where "b' \<in> set (batches s)" "b_id b' = bid" "b = finish_batch now b'"
      | "b \<in> set (batches s)" "b_id b \<noteq> bid"
      using b by (auto simp: set_update_where)
    then show ?thesis
    proof cases
      case 1
      then show ?thesis using finish_row_ok [OF rows assms(2)] by simp
    next
      case 2
      then show ?thesis using rows [OF 2(1)] by (auto simp: batch_row_ok_def)
    qed
  qed
  moreover have "b_id ` set ?bs = b_id ` set (batches s)"
    by (rule set_map_image) (simp add: batches_update_ids)
  ultimately show ?thesis using assms(1) by (simp add: batches_mid_def batch_refs_ok_def)
qed

lemma enqueue_batch_in_tx_ok:
  assumes tx: "enqueue_batch_in_tx e items opts s = Inr (s', r)" and ok: "db_ok s"
    and spec: "\<And>spec. bo_on_complete opts = Some spec \<Longrightarrow> d_batch_id spec = None"
  shows "db_ok s' \<and> br_batch_id r = next_batch_id s \<and> br_inserted r + br_skipped r = length items"
proof -
  let ?bid = "next_batch_id s" and ?b0 = "new_batch (e_now e) opts (next_batch_id s)"
  let ?s1 = "s\<lparr>batches := batches s @ [?b0], next_batch_id := ?bid + 1\<rparr>"
  note oks = db_okD [OF ok]
  have lt: "\<forall>b \<in> set (batches s). b_id b < ?bid" using oks(1) by (simp add: keys_ok_def)
  then have fresh': "b \<in> set (batches s) \<Longrightarrow> b_id b \<noteq> ?bid" for b by fastforce
  then have fresh: "?bid \<notin> b_id ` set (batches s)" by (metis imageE)
  have k1: "keys_ok ?s1" using oks(1) fresh lt by (force simp: keys_ok_def new_batch_def)
  have b1: "counters_ok ?s1" "unique_index_ok (jobs ?s1)" "checks_ok ?s1"
    using oks by (auto simp: counters_ok_iff groups_present_def checks_ok_def batch_check_def new_batch_def)
  obtain s2 n where s2: "insert_items e items ?bid ?s1 = Inr (s2, n)"
    using tx by (auto simp: enqueue_batch_in_tx_def Let_def split: sum.splits)
  have step: "enqueue_step {Some ?bid} ?s1 s2" and len: "length (jobs s2) = length (jobs s) + n"
    and n: "n \<le> length items"
    using insert_items_step [OF s2 k1] by simp_all
  have bs2: "batches s2 = batches s @ [?b0]" using enqueue_step_frame(3) [OF step] by simp
  have "update_where (\<lambda>b. b_id b = ?bid) f (batches s) = batches s" for f
    by (rule update_where_id) (simp add: fresh')
  then have up: "update_where (\<lambda>b. b_id b = ?bid) f (batches s @ [b]) = batches s @ [f b]"
    if "b_id b = ?bid" for f b
    using that by simp
  let ?b3 = "?b0\<lparr>b_total := int n\<rparr>"
  let ?s3 = "s2\<lparr>batches := batches s @ [?b3]\<rparr>"
  have mid: "batches_mid (\<lambda>_. 0) (if n = 0 then {?bid} else {}) ?s3"
    by (rule insert_items_mid [OF step len oks(5) fresh]) (simp_all add: new_batch_def spec)
  have k2: "keys_ok s2" "unique_index_ok (jobs s2)" "counters_ok s2" "checks_ok s2"
    using enqueue_step_keys [OF step k1] enqueue_step_unique [OF step b1(2)]
      enqueue_step_counters [OF step b1(1)] enqueue_step_checks [OF step b1(3)] by simp_all
  have s3: "s2\<lparr>batches := update_where (\<lambda>b. b_id b = ?bid) (\<lambda>b. b\<lparr>b_total := int n\<rparr>) (batches s2)\<rparr> = ?s3"
    using up [of ?b0] by (simp add: bs2 new_batch_def)
  have r: "r = \<lparr>br_batch_id = ?bid, br_inserted = n, br_skipped = length items - n\<rparr>"
    using tx s2 by (auto simp: enqueue_batch_in_tx_def Let_def split: if_splits sum.splits)
  have ids3: "map b_id (batches s @ [?b3]) = map b_id (batches s2)" by (simp add: bs2)
  have "db_ok s'"
  proof (cases "n = 0")
    case False
    with tx s2 s3 have "s' = ?s3" by (simp add: enqueue_batch_in_tx_def Let_def)
    with False mid show ?thesis using db_ok_batches_only [OF k2 ids3] by simp
  next
    case True
    with tx s2 obtain u where u: "finish_empty e opts ?bid ?s3 = Inr (s', u)"
      unfolding s3 [symmetric] by (auto simp: enqueue_batch_in_tx_def Let_def split: sum.splits)
    let ?bs4 = "update_where (\<lambda>b. b_id b = ?bid) (finish_batch (e_now e)) (batches ?s3)"
    have "batches_mid (\<lambda>_. 0) {} (?s3\<lparr>batches := ?bs4\<rparr>)"
      by (rule finish_all_mid)
         (use mid True in \<open>auto dest: fresh' simp: claimable_batch_def new_batch_def batch_settled_def\<close>)
    then have mid4: "batches_mid (\<lambda>_. 0) {} (s2\<lparr>batches := ?bs4\<rparr>)" by simp
    have "map b_id ?bs4 = map b_id (batches ?s3)" by (rule batches_update_ids) simp
    then have "map b_id ?bs4 = map b_id (batches s2)" using ids3 by simp
    then have "db_ok (s2\<lparr>batches := ?bs4\<rparr>)" by (rule db_ok_batches_only [OF k2 _ mid4])
    moreover have "keys_ok ?s3" using keys_ok_batches [OF ids3] k2(1) by simp
    from finish_empty_step [OF u this spec] have "enqueue_step {None} (s2\<lparr>batches := ?bs4\<rparr>) s'" by simp
    ultimately show ?thesis by (rule enqueue_step_db_ok [rotated])
  qed
  with r n show ?thesis by simp
qed

section \<open>When the callback fires\<close>

lemma returning_unique:
  assumes "distinct (map key t)" "r \<in> set t" "p r" "\<And>x. p x \<Longrightarrow> key x = key r"
  shows "returning p f t = [f r]"
proof -
  have "filter p t = [r]"
    using assms(1,2)
  proof (induction t)
    case (Cons x t)
    show ?case
    proof (cases "x = r")
      case True
      have "\<not> p y" if "y \<in> set t" for y
        using Cons.prems(1) True that assms(4) [of y] by (auto simp: image_iff)
      then have "\<forall>y \<in> set t. \<not> p y" by blast
      with True assms(3) show ?thesis by (simp add: filter_empty_conv)
    next
      case False
      with Cons.prems have "\<not> p x" using assms(4) [of x] by force
      with Cons False show ?thesis by simp
    qed
  qed simp
  then show ?thesis by (simp add: returning_def)
qed

lemma try_claim_fires:
  assumes "keys_ok s" "b \<in> set (batches s)" "claimable_batch bid b"
  shows "try_claim_and_fire e bid s =
    (let s1 = s\<lparr>batches := update_where (claimable_batch bid) (finish_batch (e_now e)) (batches s)\<rparr>
     in case b_on_complete b of
          None \<Rightarrow> Inr (s1, ())
        | Some spec \<Rightarrow>
            (case enqueue_dyn_in_tx e (build_callback_dyn spec bid (summary_of (e_now e) b)) s1 of
               Inl err \<Rightarrow> Inl err
             | Inr (s2, _) \<Rightarrow> Inr (s2, ())))"
proof -
  have "returning (claimable_batch bid) (finish_batch (e_now e)) (batches s) = [finish_batch (e_now e) b]"
    by (rule returning_unique [where key = b_id])
       (use assms in \<open>auto simp: keys_ok_def claimable_batch_def\<close>)
  moreover have "b_on_complete (finish_batch now b) = b_on_complete b"
    "summary_of now (finish_batch now b) = summary_of now b" for now
    by (simp_all add: finish_batch_def summary_of_def)
  ultimately show ?thesis by (simp add: try_claim_and_fire_def Let_def cong: option.case_cong)
qed

lemma try_claim_idle:
  assumes "\<And>b. b \<in> set (batches s) \<Longrightarrow> \<not> claimable_batch bid b"
  shows "try_claim_and_fire e bid s = Inr (s, ())"
  using assms by (simp add: try_claim_and_fire_def returning_def update_where_id Let_def)

end
