(* ===== verification/Settle.thy ===== *)
theory Settle
  imports Batches
begin

text \<open>
  The rest of \<open>crates/eddyq-core/src/fetch.rs\<close> that moves jobs between states: completion, failure
  and retry, cancellation, heartbeats, the sweep of stale jobs, the reclaim at a forced shutdown and
  the reconciliation of counters. \<open>clock\<close> stands for the serialised \<open>Utc::now()\<close> of an error entry.
\<close>

section \<open>Transitions of one job\<close>

definition complete_job :: "timestamp \<Rightarrow> json option \<Rightarrow> job \<Rightarrow> job" where
  "complete_job now result j =
     j\<lparr>j_state := Completed, j_heartbeat_at := None, j_worker_id := None, j_finalized_at := Some now,
       j_result := result\<rparr>"

definition retry_job :: "timestamp \<Rightarrow> json \<Rightarrow> job \<Rightarrow> job" where
  "retry_job at_time entry j =
     j\<lparr>j_state := Pending, j_heartbeat_at := None, j_worker_id := None, j_scheduled_at := at_time,
       j_errors := append_error (j_errors j) entry\<rparr>"

definition fail_job :: "timestamp \<Rightarrow> json \<Rightarrow> job \<Rightarrow> job" where
  "fail_job now entry j =
     j\<lparr>j_state := Failed, j_heartbeat_at := None, j_worker_id := None,
       j_errors := append_error (j_errors j) entry, j_finalized_at := Some now\<rparr>"

definition cancel_job :: "timestamp \<Rightarrow> job \<Rightarrow> job" where
  "cancel_job now j = j\<lparr>j_state := Cancelled, j_finalized_at := Some now\<rparr>"

definition stall_exhausted :: "job \<Rightarrow> bool" where
  "stall_exhausted j \<longleftrightarrow> j_max_stalled_count j < j_stalled_count j + 1"

definition recover_job :: "timestamp \<Rightarrow> json \<Rightarrow> job \<Rightarrow> job" where
  "recover_job now entry j =
     j\<lparr>j_stalled_count := j_stalled_count j + 1,
       j_state := (if stall_exhausted j then Failed else Pending),
       j_attempt := (if stall_exhausted j then j_attempt j else max (j_attempt j - 1) 0),
       j_heartbeat_at := None, j_worker_id := None,
       j_errors := append_error (j_errors j) entry,
       j_finalized_at := (if stall_exhausted j then Some now else None)\<rparr>"

section \<open>Operations\<close>

text \<open>The gate of the terminal paths: the row is still running under the worker that reports.\<close>

definition owned :: "job_id \<Rightarrow> uuid \<Rightarrow> job \<Rightarrow> bool" where
  "owned i worker j \<longleftrightarrow> j_id j = i \<and> j_state j = Running \<and> j_worker_id j = Some worker"

text \<open>Giving back the slots of a job: the two \<open>UPDATE ... GREATEST(running_count - 1, 0)\<close>.\<close>

definition release :: "timestamp \<Rightarrow> job \<Rightarrow> db \<Rightarrow> db" where
  "release now j s =
     s\<lparr>groups := (case j_group_key j of None \<Rightarrow> groups s | Some k \<Rightarrow> dec_group now k (groups s)),
       queues := dec_queue now (j_queue j) (queues s)\<rparr>"

definition settle_opt :: "env \<Rightarrow> batch_key option \<Rightarrow> terminal_outcome \<Rightarrow> unit tx" where
  "settle_opt e b outcome s = (case b of None \<Rightarrow> Inr (s, ()) | Some bid \<Rightarrow> settle_terminal e bid outcome s)"

definition mark_completed_in_tx :: "env \<Rightarrow> job_id \<Rightarrow> uuid \<Rightarrow> json option \<Rightarrow> unit tx" where
  "mark_completed_in_tx e i worker result s =
     (let f = complete_job (e_now e) result;
          s1 = s\<lparr>jobs := update_where (owned i worker) f (jobs s)\<rparr>
      in case returning (owned i worker) f (jobs s) of
           [] \<Rightarrow> Inr (s1, ())
         | j # _ \<Rightarrow> settle_opt e (j_batch_id j) OutCompleted (release (e_now e) j s1))"

definition mark_completed :: "env \<Rightarrow> job_id \<Rightarrow> uuid \<Rightarrow> json option \<Rightarrow> unit conn" where
  "mark_completed e i worker result = run_tx (mark_completed_in_tx e i worker result)"

definition mark_failed_in_tx :: "env \<Rightarrow> job_id \<Rightarrow> uuid \<Rightarrow> json \<Rightarrow> timestamp option \<Rightarrow> unit tx" where
  "mark_failed_in_tx e i worker entry retry_at s =
     (let f = (case retry_at of Some t \<Rightarrow> retry_job t entry | None \<Rightarrow> fail_job (e_now e) entry);
          s1 = s\<lparr>jobs := update_where (owned i worker) f (jobs s)\<rparr>
      in case returning (owned i worker) f (jobs s) of
           [] \<Rightarrow> Inr (s1, ())
         | j # _ \<Rightarrow>
             settle_opt e (if retry_at = None then j_batch_id j else None) OutFailed (release (e_now e) j s1))"

definition mark_failed :: "env \<Rightarrow> job_id \<Rightarrow> uuid \<Rightarrow> json \<Rightarrow> timestamp option \<Rightarrow> unit conn" where
  "mark_failed e i worker entry retry_at = run_tx (mark_failed_in_tx e i worker entry retry_at)"

definition pending_id :: "job_id \<Rightarrow> job \<Rightarrow> bool" where
  "pending_id i j \<longleftrightarrow> j_id j = i \<and> j_state j = Pending"

definition cancel_in_tx :: "env \<Rightarrow> job_id \<Rightarrow> bool tx" where
  "cancel_in_tx e i s =
     (let f = cancel_job (e_now e);
          s1 = s\<lparr>jobs := update_where (pending_id i) f (jobs s)\<rparr>
      in case returning (pending_id i) f (jobs s) of
           [] \<Rightarrow> Inr (s1, False)
         | j # _ \<Rightarrow>
             (case settle_opt e (j_batch_id j) OutCancelled s1 of
                Inl err \<Rightarrow> Inl err
              | Inr (s2, _) \<Rightarrow> Inr (s2, True)))"

definition cancel :: "env \<Rightarrow> job_id \<Rightarrow> bool conn" where
  "cancel e i = run_tx (cancel_in_tx e i)"

definition update_heartbeat_batch :: "timestamp \<Rightarrow> job_id list \<Rightarrow> db \<Rightarrow> db \<times> nat" where
  "update_heartbeat_batch now ids s =
     (if ids = [] then (s, 0)
      else (s\<lparr>jobs := update_where (\<lambda>j. j_id j \<in> set ids \<and> running j) (\<lambda>j. j\<lparr>j_heartbeat_at := Some now\<rparr>) (jobs s)\<rparr>,
            count_if (\<lambda>j. j_id j \<in> set ids \<and> running j) (jobs s)))"

text \<open>\<open>COUNT(*) ... WHERE batch_id IS NOT NULL AND state = 'failed' GROUP BY batch_id\<close>\<close>

definition batch_failures :: "job list \<Rightarrow> batch_key \<Rightarrow> nat" where
  "batch_failures swept b = count_if (\<lambda>j. j_batch_id j = Some b \<and> j_state j = Failed) swept"

definition add_failures :: "(batch_key \<Rightarrow> nat) \<Rightarrow> batch \<Rightarrow> batch" where
  "add_failures n b = b\<lparr>b_failed := b_failed b + int (n (b_id b))\<rparr>"

fun fire_all :: "env \<Rightarrow> batch_key list \<Rightarrow> unit tx" where
  "fire_all e [] s = Inr (s, ())"
| "fire_all e (b # bs) s =
     (case try_claim_and_fire e b s of Inl err \<Rightarrow> Inl err | Inr (s1, _) \<Rightarrow> fire_all e bs s1)"

text \<open>The statement and the loop that \<open>sweep_stale\<close> and \<open>reclaim_in_flight\<close> share; \<open>p\<close> is the \<open>WHERE\<close> clause of the
  one or the other, besides \<open>state = 'running'\<close>.\<close>

definition recover_in_tx :: "env \<Rightarrow> json \<Rightarrow> (job \<Rightarrow> bool) \<Rightarrow> nat tx" where
  "recover_in_tx e entry p s =
     (let now = e_now e;
          q = (\<lambda>j. running j \<and> p j);
          swept = returning q (recover_job now entry) (jobs s);
          failures = batch_failures swept;
          bumped = sort (map b_id (filter (\<lambda>b. 0 < failures (b_id b)) (batches s)));
          s1 = s\<lparr>jobs := update_where q (recover_job now entry) (jobs s),
                 groups := drop_groups now (group_delta swept) (groups s),
                 queues := drop_queues now (queue_delta swept) (queues s),
                 batches := update_where (\<lambda>b. 0 < failures (b_id b)) (add_failures failures) (batches s)\<rparr>
      in if \<not> list_all batch_check (batches s1) then Inl (Database ''eddyq_batches_counts_check'')
         else case fire_all e bumped s1 of
                Inl err \<Rightarrow> Inl err
              | Inr (s2, _) \<Rightarrow> Inr (s2, length swept))"

text \<open>The UTF-8 bytes of a dash between spaces.\<close>

definition recovery_entry :: "json \<Rightarrow> string \<Rightarrow> json" where
  "recovery_entry clock message = JObject (map_insert ''message'' (JString message) (map_insert ''at'' clock []))"

definition stale :: "timestamp \<Rightarrow> duration \<Rightarrow> job \<Rightarrow> bool" where
  "stale now stale_after j \<longleftrightarrow>
     (case j_heartbeat_at j of
        None \<Rightarrow> True
      | Some t \<Rightarrow> t < now - secs (sat_i64 (int (as_secs stale_after))))"

definition sweep_stale :: "env \<Rightarrow> json \<Rightarrow> duration \<Rightarrow> nat conn" where
  "sweep_stale e clock stale_after =
     run_tx (recover_in_tx e (recovery_entry clock (''worker lost contact '' @ em_dash @ '' job recovered''))
       (stale (e_now e) stale_after))"

definition reclaim_in_flight :: "env \<Rightarrow> json \<Rightarrow> job_id list \<Rightarrow> nat conn" where
  "reclaim_in_flight e clock ids s =
     (if ids = [] then (s, Inr 0)
      else run_tx (recover_in_tx e (recovery_entry clock (''worker shutting down '' @ em_dash @ '' job recovered''))
             (\<lambda>j. j_id j \<in> set ids)) s)"

definition reconcile_counters :: "timestamp \<Rightarrow> db \<Rightarrow> db \<times> (nat \<times> nat)" where
  "reconcile_counters now s =
     (s\<lparr>groups := update_where
            (\<lambda>g. 0 < g_running_count g \<and> int (running_in_group (g_key g) (jobs s)) < g_running_count g)
            (\<lambda>g. set_group_count now (min (g_running_count g) (int (running_in_group (g_key g) (jobs s)))) g)
            (groups s),
        queues := update_where
            (\<lambda>q. 0 < q_running_count q \<and> int (running_in_queue (q_name q) (jobs s)) < q_running_count q)
            (\<lambda>q. set_queue_count now (min (q_running_count q) (int (running_in_queue (q_name q) (jobs s)))) q)
            (queues s)\<rparr>,
      (count_if (\<lambda>g. 0 < g_running_count g \<and> int (running_in_group (g_key g) (jobs s)) < g_running_count g) (groups s),
       count_if (\<lambda>q. 0 < q_running_count q \<and> int (running_in_queue (q_name q) (jobs s)) < q_running_count q) (queues s)))"

section \<open>Auxiliary lemmas\<close>

lemma single_count:
  assumes "distinct (map key t)" "r \<in> set t" "p r" "\<And>x. p x \<Longrightarrow> key x = k"
  shows "count_if (\<lambda>x. p x \<and> q x) t = (if q r then 1 else 0)"
proof -
  have "lookup_by key k t = Some r"
    unfolding lookup_by_Some_iff [OF assms(1)] using assms(2) assms(4) [OF assms(3)] by (rule conjI)
  from update_where_key [OF assms(1) this, of "\<lambda>x. p x \<and> q x"]
  have "count_if (\<lambda>x. key x = k \<and> p x \<and> q x) t = (if q r then 1 else 0)" using assms(3) by simp
  moreover have "count_if (\<lambda>x. key x = k \<and> p x \<and> q x) t = count_if (\<lambda>x. p x \<and> q x) t"
    by (rule count_if_cong) (use assms(4) in auto)
  ultimately show ?thesis by simp
qed

lemma settled_step_db_ok:
  assumes "settled_step s s'" "keys_ok s" "unique_index_ok (jobs s)" "counters_ok s" "checks_ok s"
    and "batches_mid (\<lambda>_. 0) {} s'"
  shows "db_ok s'"
  using settled_step_keys [OF assms(1,2)] settled_step_unique [OF assms(1,3)]
    settled_step_counters [OF assms(1,4)] settled_step_checks [OF assms(1,5,6)] assms(6)
  by (simp add: db_ok_def batches_ok_mid)

lemma release_drop:
  "release now j s =
     s\<lparr>groups := drop_groups now (\<lambda>k. if j_group_key j = Some k then 1 else 0) (groups s),
       queues := drop_queues now (\<lambda>k. if j_queue j = k then 1 else 0) (queues s)\<rparr>"
proof -
  have "(\<lambda>k. if k = k' then (1::nat) else 0) = (\<lambda>k. if k' = k then 1 else 0)" for k' :: string by auto
  then show ?thesis
    by (cases "j_group_key j") (simp_all add: release_def dec_group_drop dec_queue_drop)
qed

lemma owned_facts: "owned i worker j \<Longrightarrow> j_id j = i \<and> live (j_state j)" "owned i worker j \<Longrightarrow> running j"
  by (simp_all add: owned_def running_def)

section \<open>The contract of a transition out of the running or pending state\<close>

locale job_exit =
  fixes f :: "job \<Rightarrow> job"
  assumes keeps_id: "j_id (f j) = j_id j"
    and keeps_kind: "j_kind (f j) = j_kind j"
    and keeps_ukey: "j_unique_key (f j) = j_unique_key j"
    and keeps_group: "j_group_key (f j) = j_group_key j"
    and keeps_queue: "j_queue (f j) = j_queue j"
    and keeps_batch: "j_batch_id (f j) = j_batch_id j"
    and exits: "\<not> running (f j)"
begin

lemma exit_counted:
  assumes "\<And>j. owner (f j) = owner j"
  shows "counted owner k (update_where p f js) + count_if (\<lambda>j. p j \<and> running j \<and> owner j = Some k) js
    = counted owner k js"
  using exits by (induction js) (auto simp: counted_def assms)

lemma exit_outstanding:
  assumes "\<And>j. j \<in> set js \<Longrightarrow> p j \<Longrightarrow> live (j_state j)"
  shows "outstanding b (update_where p f js) +
      count_if (\<lambda>j. p j \<and> terminal (j_state (f j)) \<and> j_batch_id j = Some b) js = outstanding b js"
  using assms by (induction js) (auto simp: outstanding_def keeps_batch live_iff_not_terminal)

lemma exit_unique:
  assumes "unique_index_ok js" "\<And>j. j \<in> set js \<Longrightarrow> p j \<Longrightarrow> live (j_state j)"
  shows "unique_index_ok (update_where p f js)"
proof -
  have "update_where p f js = update_where (\<lambda>j. j \<in> set js \<and> p j) f js" by (simp add: update_where_def)
  also have "unique_index_ok \<dots>"
    by (rule unique_index_ok_update [OF assms(1)]) (use assms(2) keeps_kind keeps_ukey in auto)
  finally show ?thesis .
qed

text \<open>The state once the jobs have left and their slots have been given back: everything holds but the
  batch invariant, which is owed one settlement for each job that became terminal.\<close>

lemma exit_state:
  assumes ok: "db_ok s" and p: "\<And>j. j \<in> set (jobs s) \<Longrightarrow> p j \<Longrightarrow> live (j_state j)"
    and ng: "\<And>k. ng k = count_if (\<lambda>j. p j \<and> running j \<and> j_group_key j = Some k) (jobs s)"
    and nq: "\<And>k. nq k = count_if (\<lambda>j. p j \<and> running j \<and> j_queue j = k) (jobs s)"
    and s1: "s1 = s\<lparr>jobs := update_where p f (jobs s), groups := drop_groups now ng (groups s),
                    queues := drop_queues now nq (queues s)\<rparr>"
  shows "keys_ok s1" "unique_index_ok (jobs s1)" "counters_ok s1" "checks_ok s1"
    "batches_mid (\<lambda>b. count_if (\<lambda>j. p j \<and> terminal (j_state (f j)) \<and> j_batch_id j = Some b) (jobs s)) {} s1"
proof -
  note oks = db_okD [OF ok]
  have eqs: "jobs s1 = update_where p f (jobs s)" "groups s1 = drop_groups now ng (groups s)"
    "queues s1 = drop_queues now nq (queues s)" "batches s1 = batches s"
    by (simp_all add: s1)
  have ids: "map j_id (jobs s1) = map j_id (jobs s)"
    unfolding eqs by (rule map_update_where_stable) (rule keeps_id)
  have "\<forall>j \<in> set (jobs s1). j_id j < next_job_id s"
    using oks(1) set_map_image [OF ids] unfolding keys_ok_def by (metis (no_types, lifting) image_iff)
  then show "keys_ok s1" using oks(1) ids by (simp add: keys_ok_def s1)
  show "unique_index_ok (jobs s1)" unfolding eqs by (rule exit_unique [OF oks(2) p])
  have "rows_match g_key g_running_count j_group_key (groups s1) (jobs s1)"
    unfolding eqs drop_groups_def
    by (rule gc.rows_match_drop [of _ "jobs s"])
       (use oks(3) exit_counted [of j_group_key _ p "jobs s"] keeps_group in \<open>auto simp: counters_ok_iff ng\<close>)
  moreover have "rows_match q_name q_running_count queue_of (queues s1) (jobs s1)"
    unfolding eqs drop_queues_def
    by (rule qc.rows_match_drop [of _ "jobs s"])
       (use oks(3) exit_counted [of queue_of _ p "jobs s"] keeps_queue in \<open>auto simp: counters_ok_iff nq queue_of_def\<close>)
  moreover have "groups_present s1"
  proof (rule groups_present_weaken [of s])
    show "groups_present s" using oks(3) by (simp add: counters_ok_iff)
    show "g_key ` set (groups s) \<subseteq> g_key ` set (groups s1)"
      unfolding s1 using set_map_image [OF drop_groups_keys [of now ng "groups s"]] by simp
    show "\<exists>j \<in> set (jobs s). running j \<and> j_group_key j = j_group_key j'" if "j' \<in> set (jobs s1)" "running j'" for j'
      using that exits by (auto simp: s1 set_update_where)
  qed
  ultimately show "counters_ok s1" by (simp add: counters_ok_iff)
  show "checks_ok s1"
    using oks(4) by (auto simp: checks_ok_def s1 dest!: drop_max)
  show "batches_mid (\<lambda>b. count_if (\<lambda>j. p j \<and> terminal (j_state (f j)) \<and> j_batch_id j = Some b) (jobs s)) {} s1"
  proof -
    have "batch_row_ok (jobs s1) (\<lambda>b. count_if (\<lambda>j. p j \<and> terminal (j_state (f j)) \<and> j_batch_id j = Some b) (jobs s)) {} b"
      if "b \<in> set (batches s)" for b
    proof -
      have "batch_row_ok (jobs s) (\<lambda>_. 0) {} b" using oks(5) that by (simp add: batches_ok_mid batches_mid_def)
      moreover have "outstanding (b_id b) (jobs s1) +
          count_if (\<lambda>j. p j \<and> terminal (j_state (f j)) \<and> j_batch_id j = Some (b_id b)) (jobs s)
          = outstanding (b_id b) (jobs s)"
        unfolding s1 using exit_outstanding [of "jobs s" p, OF p] by simp
      ultimately show ?thesis by (auto simp: batch_row_ok_def)
    qed
    moreover have "batch_refs_ok s1"
      using oks(5) by (auto simp: batches_ok_mid batches_mid_def batch_refs_ok_def s1 set_update_where keeps_batch)
    ultimately show ?thesis by (simp add: batches_mid_def s1)
  qed
qed

text \<open>One job leaves and is settled with its batch.\<close>

lemma exit_one:
  assumes ok: "db_ok s" and j0: "j0 \<in> set (jobs s)" "p j0" and p: "\<And>j. p j \<Longrightarrow> j_id j = i \<and> live (j_state j)"
    and s1: "s1 = s\<lparr>jobs := update_where p f (jobs s),
        groups := drop_groups now (\<lambda>k. if running j0 \<and> j_group_key j0 = Some k then 1 else 0) (groups s),
        queues := drop_queues now (\<lambda>k. if running j0 \<and> j_queue j0 = k then 1 else 0) (queues s)\<rparr>"
    and tx: "settle_opt e (if terminal (j_state (f j0)) then j_batch_id j0 else None) oc s1 = Inr (s', u)"
  shows "db_ok s'"
proof -
  have one: "count_if (\<lambda>j. p j \<and> q j) (jobs s) = (if q j0 then 1 else 0)" for q
    using j0 p db_okD(1) [OF ok] by (intro single_count [of j_id]) (auto simp: keys_ok_def)
  let ?owe = "\<lambda>b. if terminal (j_state (f j0)) \<and> j_batch_id j0 = Some b then 1 else (0::nat)"
  note st = exit_state [OF ok _ _ _ s1, OF conjunct2 [OF p]]
  have s1_ok: "keys_ok s1" "unique_index_ok (jobs s1)" "counters_ok s1" "checks_ok s1" "batches_mid ?owe {} s1"
    using st by (simp_all add: one cong: if_cong)
  show ?thesis
  proof (cases "if terminal (j_state (f j0)) then j_batch_id j0 else None")
    case None
    then have "?owe = (\<lambda>_. 0)" by (auto split: if_splits)
    with s1_ok None tx show ?thesis by (simp add: db_ok_def batches_ok_mid settle_opt_def)
  next
    case (Some bid)
    then have owe: "?owe bid = Suc 0" "?owe(bid := 0) = (\<lambda>_. 0)" by (auto split: if_splits)
    have "settle_terminal e bid oc s1 = Inr (s', u)" using tx Some by (simp add: settle_opt_def)
    from settle_terminal_result [OF this s1_ok(1,5) owe(1)]
    have step: "settled_step s1 s'" and mid: "batches_mid (\<lambda>_. 0) {} s'" by (simp_all add: owe(2))
    show ?thesis by (rule settled_step_db_ok [OF step s1_ok(1-4) mid])
  qed
qed

lemma exit_owned:
  assumes "db_ok s" "j0 \<in> set (jobs s)" "owned i worker j0"
    and "settle_opt e (if terminal (j_state (f j0)) then j_batch_id j0 else None) oc
           (release now (f j0) (s\<lparr>jobs := update_where (owned i worker) f (jobs s)\<rparr>)) = Inr (s', u)"
  shows "db_ok s'"
proof -
  have "release now (f j0) (s\<lparr>jobs := update_where (owned i worker) f (jobs s)\<rparr>) =
      s\<lparr>jobs := update_where (owned i worker) f (jobs s),
        groups := drop_groups now (\<lambda>k. if running j0 \<and> j_group_key j0 = Some k then 1 else 0) (groups s),
        queues := drop_queues now (\<lambda>k. if running j0 \<and> j_queue j0 = k then 1 else 0) (queues s)\<rparr>"
    using owned_facts(2) [OF assms(3)] by (simp add: release_drop keeps_group keeps_queue)
  from exit_one [OF assms(1-3) owned_facts(1) this] assms(4) show ?thesis by simp
qed

end

interpretation completion: job_exit "complete_job now result"
  by unfold_locales (simp_all add: complete_job_def running_def)

interpretation retrying: job_exit "retry_job at_time entry"
  by unfold_locales (simp_all add: retry_job_def running_def)

interpretation failing: job_exit "fail_job now entry"
  by unfold_locales (simp_all add: fail_job_def running_def)

interpretation cancelling: job_exit "cancel_job now"
  by unfold_locales (simp_all add: cancel_job_def running_def)

interpretation recovering: job_exit "recover_job now entry"
  by unfold_locales (simp_all add: recover_job_def running_def)

section \<open>Every operation keeps the invariant\<close>

lemma returning_empty: "returning p f t = [] \<longleftrightarrow> (\<forall>r \<in> set t. \<not> p r)"
  by (auto simp: returning_def filter_empty_conv)

lemma returning_one:
  assumes "keys_ok s" "j \<in> set (jobs s)" "p j" "\<And>j. p j \<Longrightarrow> j_id j = i"
  shows "returning p f (jobs s) = [f j]"
  by (rule returning_unique [of j_id]) (use assms in \<open>auto simp: keys_ok_def\<close>)

lemma update_jobs_idle: "(\<And>j. j \<in> set (jobs s) \<Longrightarrow> \<not> p j) \<Longrightarrow> s\<lparr>jobs := update_where p f (jobs s)\<rparr> = s"
  by (simp add: update_where_id)

text \<open>A report on a job that no longer belongs to the worker changes nothing.\<close>

lemma mark_completed_idle:
  assumes "\<And>j. j \<in> set (jobs s) \<Longrightarrow> \<not> owned i worker j"
  shows "mark_completed e i worker result s = (s, Inr ())"
  using assms by (simp add: mark_completed_def mark_completed_in_tx_def returning_def filter_empty_conv update_jobs_idle Let_def)

lemma mark_failed_idle:
  assumes "\<And>j. j \<in> set (jobs s) \<Longrightarrow> \<not> owned i worker j"
  shows "mark_failed e i worker entry retry_at s = (s, Inr ())"
  using assms by (simp add: mark_failed_def mark_failed_in_tx_def returning_def filter_empty_conv update_jobs_idle Let_def)

lemma mark_completed_in_tx_ok:
  assumes "mark_completed_in_tx e i worker result s = Inr (s', u)" "db_ok s"
  shows "db_ok s'"
proof (cases "\<exists>j \<in> set (jobs s). owned i worker j")
  case False
  then show ?thesis
    using assms by (simp add: mark_completed_in_tx_def returning_def filter_empty_conv update_jobs_idle Let_def)
next
  case True
  then obtain j0 where j0: "j0 \<in> set (jobs s)" "owned i worker j0" by blast
  let ?f = "complete_job (e_now e) result"
  have ret: "returning (owned i worker) ?f (jobs s) = [?f j0]"
    by (rule returning_one [where p = "owned i worker", OF db_okD(1) [OF assms(2)] j0]) (simp add: owned_facts)
  have tx: "settle_opt e (if terminal (j_state (?f j0)) then j_batch_id j0 else None) OutCompleted
      (release (e_now e) (?f j0) (s\<lparr>jobs := update_where (owned i worker) ?f (jobs s)\<rparr>)) = Inr (s', u)"
    using assms(1) ret by (simp add: mark_completed_in_tx_def Let_def complete_job_def)
  show ?thesis by (rule completion.exit_owned [OF assms(2) j0 tx])
qed

lemma mark_failed_in_tx_ok:
  assumes "mark_failed_in_tx e i worker entry retry_at s = Inr (s', u)" "db_ok s"
  shows "db_ok s'"
proof (cases "\<exists>j \<in> set (jobs s). owned i worker j")
  case False
  then show ?thesis
    using assms by (simp add: mark_failed_in_tx_def returning_def filter_empty_conv update_jobs_idle Let_def)
next
  case True
  then obtain j0 where j0: "j0 \<in> set (jobs s)" "owned i worker j0" by blast
  note k = db_okD(1) [OF assms(2)]
  have ret: "returning (owned i worker) f (jobs s) = [f j0]" for f
    by (rule returning_one [where p = "owned i worker", OF k j0]) (simp add: owned_facts)
  show ?thesis
  proof (cases retry_at)
    case None
    let ?f = "fail_job (e_now e) entry"
    have tx: "settle_opt e (if terminal (j_state (?f j0)) then j_batch_id j0 else None) OutFailed
        (release (e_now e) (?f j0) (s\<lparr>jobs := update_where (owned i worker) ?f (jobs s)\<rparr>)) = Inr (s', u)"
      using assms(1) ret None by (simp add: mark_failed_in_tx_def Let_def fail_job_def)
    show ?thesis by (rule failing.exit_owned [OF assms(2) j0 tx])
  next
    case (Some at_time)
    let ?f = "retry_job at_time entry"
    have tx: "settle_opt e (if terminal (j_state (?f j0)) then j_batch_id j0 else None) OutFailed
        (release (e_now e) (?f j0) (s\<lparr>jobs := update_where (owned i worker) ?f (jobs s)\<rparr>)) = Inr (s', u)"
      using assms(1) ret Some by (simp add: mark_failed_in_tx_def Let_def retry_job_def)
    show ?thesis by (rule retrying.exit_owned [OF assms(2) j0 tx])
  qed
qed

lemma cancel_in_tx_ok:
  assumes "cancel_in_tx e i s = Inr (s', b)" "db_ok s"
  shows "db_ok s'"
proof (cases "\<exists>j \<in> set (jobs s). pending_id i j")
  case False
  then show ?thesis
    using assms by (simp add: cancel_in_tx_def returning_def filter_empty_conv update_jobs_idle Let_def)
next
  case True
  then obtain j0 where j0: "j0 \<in> set (jobs s)" "pending_id i j0" by blast
  let ?f = "cancel_job (e_now e)"
  have ret: "returning (pending_id i) ?f (jobs s) = [?f j0]"
    by (rule returning_one [where p = "pending_id i", OF db_okD(1) [OF assms(2)] j0]) (simp add: pending_id_def)
  obtain u where tx: "settle_opt e (j_batch_id j0) OutCancelled
      (s\<lparr>jobs := update_where (pending_id i) ?f (jobs s)\<rparr>) = Inr (s', u)"
    using assms(1) ret by (auto simp: cancel_in_tx_def Let_def cancelling.keeps_batch split: sum.splits)
  have t: "terminal (j_state (?f j0))" "\<not> running j0"
    using j0(2) by (simp_all add: cancel_job_def pending_id_def running_def)
  have "settle_opt e (if terminal (j_state (?f j0)) then j_batch_id j0 else None) OutCancelled
      (s\<lparr>jobs := update_where (pending_id i) ?f (jobs s),
        groups := drop_groups (e_now e) (\<lambda>k. if running j0 \<and> j_group_key j0 = Some k then 1 else 0) (groups s),
        queues := drop_queues (e_now e) (\<lambda>k. if running j0 \<and> j_queue j0 = k then 1 else 0) (queues s)\<rparr>)
      = Inr (s', u)"
    using tx t by simp
  then show ?thesis
    by (intro cancelling.exit_one [where p = "pending_id i", OF assms(2) j0 _ refl]) (simp_all add: pending_id_def)
qed

section \<open>Recovery\<close>

lemma add_failures_id [simp]: "b_id (add_failures n b) = b_id b"
  by (simp add: add_failures_def)

lemma add_failures_row_ok:
  assumes "batch_row_ok js owe pend b" "owe (b_id b) = n (b_id b)"
  shows "batch_row_ok js (\<lambda>_. 0) (insert (b_id b) pend) (add_failures n b)"
  using assms by (auto simp: batch_row_ok_def add_failures_def claimed_def batch_settled_def)

text \<open>Bumping the failed counters by what is owed leaves only claims to be made.\<close>

lemma add_failures_mid:
  assumes "batches_mid owe {} s" "\<And>b. b \<in> set (batches s) \<Longrightarrow> owe (b_id b) = n (b_id b)"
    and "\<And>b. b \<in> set (batches s) \<Longrightarrow> 0 < n (b_id b) \<Longrightarrow> b_id b \<in> pend"
  shows "batches_mid (\<lambda>_. 0) pend (s\<lparr>batches := update_where (\<lambda>b. 0 < n (b_id b)) (add_failures n) (batches s)\<rparr>)"
proof -
  let ?bs = "update_where (\<lambda>b. 0 < n (b_id b)) (add_failures n) (batches s)"
  have "batch_row_ok (jobs s) (\<lambda>_. 0) pend b" if b: "b \<in> set ?bs" for b
  proof -
    consider b' where "b' \<in> set (batches s)" "0 < n (b_id b')" "b = add_failures n b'"
      | "b \<in> set (batches s)" "n (b_id b) = 0"
      using b by (auto simp: set_update_where)
    then show ?thesis
    proof cases
      case 1
      have "batch_row_ok (jobs s) (\<lambda>_. 0) {b_id b'} b"
        using assms(1,2) 1 add_failures_row_ok [of "jobs s" owe "{}" b' n] by (simp add: batches_mid_def)
      with assms(3) [OF 1(1,2)] 1(3) show ?thesis by (auto simp: batch_row_ok_def)
    next
      case 2
      have "batch_row_ok (jobs s) owe {} b" using assms(1) 2(1) by (simp add: batches_mid_def)
      with assms(2) [OF 2(1)] 2(2) show ?thesis by (auto simp: batch_row_ok_def)
    qed
  qed
  moreover have "b_id ` set ?bs = b_id ` set (batches s)"
    by (rule set_map_image) (rule batches_update_ids, simp)
  ultimately show ?thesis using assms(1) by (simp add: batches_mid_def batch_refs_ok_def)
qed

lemma fire_all_ok:
  "fire_all e bs s = Inr (s', u) \<Longrightarrow> keys_ok s \<Longrightarrow> batches_mid owe pend s \<Longrightarrow>
   settled_step s s' \<and> batches_mid owe (pend - set bs) s'"
proof (induction e bs s arbitrary: pend rule: fire_all.induct)
  case (1 e s)
  then show ?case by (simp add: settled_step_refl)
next
  case (2 e b bs s)
  from 2(2) obtain s1 v where a: "try_claim_and_fire e b s = Inr (s1, v)" and rest: "fire_all e bs s1 = Inr (s', u)"
    by (auto split: sum.splits)
  have step: "settled_step s s1" by (rule try_claim_step [OF a 2(3) batches_mid_specs [OF 2(4)]])
  have mid: "batches_mid owe (pend - {b}) s1" by (rule try_claim_mid [OF a 2(3,4)])
  have "settled_step s1 s' \<and> batches_mid owe (pend - {b} - set bs) s'"
    by (rule 2(1) [OF a refl rest settled_step_keys [OF step 2(3)] mid])
  moreover have "pend - {b} - set bs = pend - set (b # bs)" by auto
  ultimately show ?case using settled_step_trans [OF step] by metis
qed

lemma recover_in_tx_effect:
  assumes "recover_in_tx e entry p s = Inr (s', n)" "db_ok s"
  shows "db_ok s' \<and> n = count_if (\<lambda>j. running j \<and> p j) (jobs s) \<and>
    (\<exists>new. jobs s' = update_where (\<lambda>j. running j \<and> p j) (recover_job (e_now e) entry) (jobs s) @ new \<and>
       (\<forall>j \<in> set new. j_state j = Pending))"
proof -
  let ?q = "\<lambda>j. running j \<and> p j" and ?f = "recover_job (e_now e) entry"
  let ?swept = "returning ?q ?f (jobs s)"
  let ?fl = "batch_failures ?swept"
  let ?bumped = "sort (map b_id (filter (\<lambda>b. 0 < ?fl (b_id b)) (batches s)))"
  let ?s0 = "s\<lparr>jobs := update_where ?q ?f (jobs s), groups := drop_groups (e_now e) (group_delta ?swept) (groups s),
               queues := drop_queues (e_now e) (queue_delta ?swept) (queues s)\<rparr>"
  let ?bs = "update_where (\<lambda>b. 0 < ?fl (b_id b)) (add_failures ?fl) (batches ?s0)"
  obtain u where fire: "fire_all e ?bumped (?s0\<lparr>batches := ?bs\<rparr>) = Inr (s', u)"
    and chk: "list_all batch_check ?bs"
    using assms(1) by (auto simp: recover_in_tx_def Let_def split: if_splits sum.splits)
  have s0: "keys_ok ?s0" "unique_index_ok (jobs ?s0)" "counters_ok ?s0" "checks_ok ?s0"
    "batches_mid (\<lambda>b. count_if (\<lambda>j. ?q j \<and> terminal (j_state (?f j)) \<and> j_batch_id j = Some b) (jobs s)) {} ?s0"
    by (rule recovering.exit_state [OF assms(2) _ _ _ refl];
        auto simp: running_def group_delta_def queue_delta_def count_if_returning recovering.keeps_group
          recovering.keeps_queue intro: count_if_cong)+
  have fl: "?fl b = count_if (\<lambda>j. ?q j \<and> terminal (j_state (?f j)) \<and> j_batch_id j = Some b) (jobs s)" for b
    unfolding batch_failures_def count_if_returning
    by (rule count_if_cong) (auto simp: recovering.keeps_batch recover_job_def)
  have mid: "batches_mid (\<lambda>_. 0) (set ?bumped) (?s0\<lparr>batches := ?bs\<rparr>)"
    by (rule add_failures_mid [OF s0(5)]) (use fl in auto)
  have ids: "map b_id ?bs = map b_id (batches ?s0)" by (rule batches_update_ids) simp
  have s1: "keys_ok (?s0\<lparr>batches := ?bs\<rparr>)" "unique_index_ok (jobs (?s0\<lparr>batches := ?bs\<rparr>))"
    "counters_ok (?s0\<lparr>batches := ?bs\<rparr>)" "checks_ok (?s0\<lparr>batches := ?bs\<rparr>)"
    using s0 chk keys_ok_batches [OF ids]
    by (simp_all add: counters_ok_iff groups_present_def checks_ok_def list_all_iff)
  note step = fire_all_ok [OF fire s1(1) mid]
  then have mid': "batches_mid (\<lambda>_. 0) {} s'" by simp
  have ok': "db_ok s'" by (rule settled_step_db_ok [OF conjunct1 [OF step] s1 mid'])
  have n: "n = count_if ?q (jobs s)"
    using assms(1) by (auto simp: recover_in_tx_def Let_def split: if_splits sum.splits)
  show ?thesis
  proof (rule settled_step_jobs [OF conjunct1 [OF step]])
    fix new assume "jobs s' = jobs (?s0\<lparr>batches := ?bs\<rparr>) @ new" "\<And>j. j \<in> set new \<Longrightarrow> j_state j = Pending"
    then have "jobs s' = update_where ?q ?f (jobs s) @ new \<and> (\<forall>j \<in> set new. j_state j = Pending)" by simp
    with ok' n show ?thesis by blast
  qed
qed

text \<open>After a recovery nothing that matched is running any more.\<close>

lemma recover_clears:
  assumes "recover_in_tx e entry p s = Inr (s', n)" "db_ok s" "j \<in> set (jobs s')" "running j"
  shows "j \<in> set (jobs s) \<and> \<not> p j"
proof -
  obtain new where js: "jobs s' = update_where (\<lambda>j. running j \<and> p j) (recover_job (e_now e) entry) (jobs s) @ new"
    and new: "\<forall>j \<in> set new. j_state j = Pending"
    using recover_in_tx_effect [OF assms(1,2)] by blast
  from assms(3,4) new show ?thesis
    using recovering.exits by (auto simp: js set_update_where running_def)
qed

section \<open>Heartbeats and reconciliation\<close>

lemma heartbeat_db_ok:
  assumes "db_ok s"
  shows "db_ok (fst (update_heartbeat_batch now ids s))"
proof (cases "ids = []")
  case True
  with assms show ?thesis by (simp add: update_heartbeat_batch_def)
next
  case False
  let ?p = "\<lambda>j. j_id j \<in> set ids \<and> running j" and ?f = "\<lambda>j. j\<lparr>j_heartbeat_at := Some now\<rparr>"
  let ?s' = "fst (update_heartbeat_batch now ids s)"
  have s': "?s' = s\<lparr>jobs := update_where ?p ?f (jobs s)\<rparr>" using False by (simp add: update_heartbeat_batch_def)
  note ok = db_okD [OF assms]
  have ids: "map j_id (update_where ?p ?f (jobs s)) = map j_id (jobs s)" by (rule map_update_where_stable) simp
  have "\<forall>j \<in> set (update_where ?p ?f (jobs s)). j_id j < next_job_id s"
    using ok(1) set_map_image [OF ids] unfolding keys_ok_def by (metis (no_types, lifting) image_iff)
  then have "keys_ok ?s'" using ok(1) ids by (simp add: keys_ok_def s')
  moreover have "unique_index_ok (jobs ?s')"
    unfolding s' by simp (rule unique_index_ok_update [OF ok(2)]; simp)
  moreover have "counted owner k (update_where ?p ?f (jobs s)) = counted owner k (jobs s)"
    if "\<And>j. owner (?f j) = owner j" for owner k
    by (rule counted_update_same) (simp add: that running_def)
  then have "counters_ok ?s'"
    using ok(3) by (auto simp: counters_ok_iff rows_match_def groups_present_def s' queue_of_def set_update_where running_def)
  moreover have "checks_ok ?s'" using ok(4) by (simp add: checks_ok_def s')
  moreover have "batches_ok ?s'"
    by (rule batches_ok_transfer [OF ok(5)])
       (use ok(5) in \<open>auto simp: s' outstanding_def batches_ok_def set_update_where intro: count_if_update_where_same\<close>)
  ultimately show ?thesis by (rule db_okI)
qed

lemma reconcile_as_locale:
  "reconcile_counters now s =
     (s\<lparr>groups := gc.reconciled now (jobs s) (groups s), queues := qc.reconciled now (jobs s) (queues s)\<rparr>,
      snd (reconcile_counters now s))"
  by (simp add: reconcile_counters_def gc.reconciled_def qc.reconciled_def)

lemma reconcile_idle:
  assumes "counters_ok s"
  shows "reconcile_counters now s = (s, (0, 0))"
proof -
  have "rows_match g_key g_running_count j_group_key (groups s) (jobs s)"
    "rows_match q_name q_running_count queue_of (queues s) (jobs s)"
    using assms by (simp_all add: counters_ok_iff)
  then show ?thesis
    by (simp add: reconcile_counters_def rows_match_def update_where_id count_if_zero_iff)
qed

lemma reconcile_upper:
  "g \<in> set (groups (fst (reconcile_counters now s))) \<Longrightarrow> g_running_count g \<le> int (running_in_group (g_key g) (jobs s))"
  "q \<in> set (queues (fst (reconcile_counters now s))) \<Longrightarrow> q_running_count q \<le> int (running_in_queue (q_name q) (jobs s))"
  using gc.reconciled_upper [of g now "jobs s" "groups s"] qc.reconciled_upper [of q now "jobs s" "queues s"]
  by (simp_all add: reconcile_counters_def gc.reconciled_def qc.reconciled_def)

section \<open>Whole operations\<close>

lemma mark_completed_db_ok:
  assumes "db_ok s"
  shows "db_ok (fst (mark_completed e i worker result s))"
  unfolding mark_completed_def
  by (rule run_tx_invariant [where P = db_ok, OF assms]) (rule mark_completed_in_tx_ok [OF _ assms])

lemma mark_failed_db_ok:
  assumes "db_ok s"
  shows "db_ok (fst (mark_failed e i worker entry retry_at s))"
  unfolding mark_failed_def
  by (rule run_tx_invariant [where P = db_ok, OF assms]) (rule mark_failed_in_tx_ok [OF _ assms])

lemma cancel_db_ok:
  assumes "db_ok s"
  shows "db_ok (fst (cancel e i s))"
  unfolding cancel_def by (rule run_tx_invariant [where P = db_ok, OF assms]) (rule cancel_in_tx_ok [OF _ assms])

lemma recover_db_ok:
  assumes "db_ok s"
  shows "db_ok (fst (run_tx (recover_in_tx e entry p) s))"
  by (rule run_tx_invariant [where P = db_ok, OF assms]) (use recover_in_tx_effect [OF _ assms] in blast)

lemma sweep_stale_db_ok: "db_ok s \<Longrightarrow> db_ok (fst (sweep_stale e clock stale_after s))"
  by (simp add: sweep_stale_def recover_db_ok)

lemma reclaim_db_ok: "db_ok s \<Longrightarrow> db_ok (fst (reclaim_in_flight e clock ids s))"
  by (simp add: reclaim_in_flight_def recover_db_ok)

lemma reconcile_db_ok: "db_ok s \<Longrightarrow> db_ok (fst (reconcile_counters now s))"
  by (simp add: reconcile_idle db_okD(3))

lemmas settle_db_ok =
  mark_completed_db_ok mark_failed_db_ok cancel_db_ok sweep_stale_db_ok reclaim_db_ok heartbeat_db_ok reconcile_db_ok

end
