(* ===== verification/Cleanup.thy ===== *)
theory Cleanup
  imports Enqueue
begin

text \<open>
  Retention (\<open>crates/eddyq-core/src/fetch.rs\<close>: \<open>Retention\<close>, \<open>cleanup\<close>, \<open>cleanup_jobs_state\<close>, \<open>cleanup_batches\<close>,
  \<open>clean_jobs\<close>): deletion of finalized jobs and batches by age, by count, or by either.
  \<open>ORDER BY finalized_at\<close> leaves the order of equal time stamps open; \<open>scan\<close> is the rearrangement of
  the rows from which the sort starts. Deleting a batch sets the \<open>batch_id\<close> of its jobs to \<open>NULL\<close>.
\<close>

section \<open>Definitions\<close>

record retention =
  rt_completed_secs :: "nat option"
  rt_failed_secs :: "nat option"
  rt_cancelled_secs :: "nat option"
  rt_batch_secs :: "nat option"
  rt_completed_count :: "int option"
  rt_failed_count :: "int option"
  rt_cancelled_count :: "int option"
  rt_batch_count :: "int option"

definition is_disabled :: "retention \<Rightarrow> bool" where
  "is_disabled r \<longleftrightarrow>
     rt_completed_secs r = None \<and> rt_failed_secs r = None \<and> rt_cancelled_secs r = None \<and>
     rt_batch_secs r = None \<and> rt_completed_count r = None \<and> rt_failed_count r = None \<and>
     rt_cancelled_count r = None \<and> rt_batch_count r = None"

text \<open>\<open>finalized_at < NOW() - make_interval(secs => n)\<close>; never true of \<open>NULL\<close>.\<close>

definition older_than :: "timestamp \<Rightarrow> nat \<Rightarrow> timestamp option \<Rightarrow> bool" where
  "older_than now age t = (case t of None \<Rightarrow> False | Some f \<Rightarrow> f < now - secs (sat_i64 (int age)))"

text \<open>\<open>row_number() OVER (ORDER BY finalized_at DESC) > n\<close>: all but the newest \<open>n\<close>.\<close>

definition beyond_newest :: "('r \<Rightarrow> timestamp option) \<Rightarrow> int \<Rightarrow> 'r list \<Rightarrow> 'r list" where
  "beyond_newest fin n rows = drop (nat (max n 0)) (sort_key (\<lambda>r. - the (fin r)) rows)"

definition finalized_in :: "job_state \<Rightarrow> job \<Rightarrow> bool" where
  "finalized_in st j \<longleftrightarrow> j_state j = st \<and> j_finalized_at j \<noteq> None"

definition expired_jobs ::
  "(job list \<Rightarrow> job list) \<Rightarrow> timestamp \<Rightarrow> job_state \<Rightarrow> nat option \<Rightarrow> int option \<Rightarrow> job list \<Rightarrow> job_id set" where
  "expired_jobs scan now st age keep js =
     (let rows = filter (finalized_in st) js;
          by_age = (case age of None \<Rightarrow> [] | Some a \<Rightarrow> filter (\<lambda>j. older_than now a (j_finalized_at j)) rows);
          by_count = (case keep of None \<Rightarrow> [] | Some n \<Rightarrow> beyond_newest j_finalized_at n (scan rows))
      in j_id ` set (by_age @ by_count))"

definition cleanup_jobs_state ::
  "(job list \<Rightarrow> job list) \<Rightarrow> timestamp \<Rightarrow> job_state \<Rightarrow> nat option \<Rightarrow> int option \<Rightarrow> db \<Rightarrow> db \<times> nat" where
  "cleanup_jobs_state scan now st age keep s =
     (let ids = expired_jobs scan now st age keep (jobs s)
      in (s\<lparr>jobs := delete_where (\<lambda>j. j_id j \<in> ids) (jobs s)\<rparr>, count_if (\<lambda>j. j_id j \<in> ids) (jobs s)))"

definition finished_batch :: "batch \<Rightarrow> bool" where
  "finished_batch b \<longleftrightarrow> b_state b = BatchComplete \<and> b_finalized_at b \<noteq> None"

definition expired_batches ::
  "(batch list \<Rightarrow> batch list) \<Rightarrow> timestamp \<Rightarrow> nat option \<Rightarrow> int option \<Rightarrow> batch list \<Rightarrow> batch_key set" where
  "expired_batches scan now age keep bs =
     (let rows = filter finished_batch bs;
          by_age = (case age of None \<Rightarrow> [] | Some a \<Rightarrow> filter (\<lambda>b. older_than now a (b_finalized_at b)) rows);
          by_count = (case keep of None \<Rightarrow> [] | Some n \<Rightarrow> beyond_newest b_finalized_at n (scan rows))
      in b_id ` set (by_age @ by_count))"

definition unlink_batches :: "batch_key set \<Rightarrow> job \<Rightarrow> job" where
  "unlink_batches ids j =
     (case j_batch_id j of None \<Rightarrow> j | Some b \<Rightarrow> if b \<in> ids then j\<lparr>j_batch_id := None\<rparr> else j)"

definition cleanup_batches ::
  "(batch list \<Rightarrow> batch list) \<Rightarrow> timestamp \<Rightarrow> nat option \<Rightarrow> int option \<Rightarrow> db \<Rightarrow> db \<times> nat" where
  "cleanup_batches scan now age keep s =
     (let ids = expired_batches scan now age keep (batches s)
      in (s\<lparr>batches := delete_where (\<lambda>b. b_id b \<in> ids) (batches s), jobs := map (unlink_batches ids) (jobs s)\<rparr>,
          count_if (\<lambda>b. b_id b \<in> ids) (batches s)))"

definition cleanup ::
  "(job list \<Rightarrow> job list) \<Rightarrow> (batch list \<Rightarrow> batch list) \<Rightarrow> timestamp \<Rightarrow> retention \<Rightarrow> db
     \<Rightarrow> db \<times> (nat \<times> nat \<times> nat \<times> nat)" where
  "cleanup jscan bscan now r s =
     (let (s1, c) = cleanup_jobs_state jscan now Completed (rt_completed_secs r) (rt_completed_count r) s;
          (s2, f) = cleanup_jobs_state jscan now Failed (rt_failed_secs r) (rt_failed_count r) s1;
          (s3, x) = cleanup_jobs_state jscan now Cancelled (rt_cancelled_secs r) (rt_cancelled_count r) s2;
          (s4, b) = cleanup_batches bscan now (rt_batch_secs r) (rt_batch_count r) s3
      in (s4, (c, f, x, b)))"

fun clean_job_state :: "clean_state \<Rightarrow> job_state" where
  "clean_job_state CleanCompleted = Completed"
| "clean_job_state CleanFailed = Failed"
| "clean_job_state CleanCancelled = Cancelled"

text \<open>\<open>clean_jobs\<close> takes the oldest first.\<close>

definition clean_victims ::
  "(job list \<Rightarrow> job list) \<Rightarrow> timestamp \<Rightarrow> job_state \<Rightarrow> nat \<Rightarrow> nat \<Rightarrow> job list \<Rightarrow> job list" where
  "clean_victims scan now st grace limit js =
     take limit (sort_key (\<lambda>j. the (j_finalized_at j))
       (scan (filter (\<lambda>j. finalized_in st j \<and> older_than now grace (j_finalized_at j)) js)))"

definition clean_jobs ::
  "(job list \<Rightarrow> job list) \<Rightarrow> timestamp \<Rightarrow> job_state \<Rightarrow> nat \<Rightarrow> nat \<Rightarrow> db \<Rightarrow> db \<times> nat" where
  "clean_jobs scan now st grace limit s =
     (if limit = 0 then (s, 0)
      else let ids = j_id ` set (clean_victims scan now st grace limit (jobs s))
           in (s\<lparr>jobs := delete_where (\<lambda>j. j_id j \<in> ids) (jobs s)\<rparr>, count_if (\<lambda>j. j_id j \<in> ids) (jobs s)))"

section \<open>Deletion keeps the invariant\<close>

definition scan_ok :: "('r list \<Rightarrow> 'r list) \<Rightarrow> bool" where
  "scan_ok scan \<longleftrightarrow> (\<forall>xs. mset (scan xs) = mset xs)"

lemma scan_set: "scan_ok scan \<Longrightarrow> set (scan xs) = set xs"
  unfolding scan_ok_def by (metis set_mset_mset)

lemma beyond_newest_subset: "set (beyond_newest fin n rows) \<subseteq> set rows"
  unfolding beyond_newest_def by (metis set_drop_subset set_sort)

text \<open>Only rows of the given finalized state are selected.\<close>

lemma expired_jobs_state:
  assumes "scan_ok scan" "i \<in> expired_jobs scan now st age keep js"
  shows "\<exists>j \<in> set js. j_id j = i \<and> finalized_in st j"
proof -
  have "set (beyond_newest j_finalized_at n (scan (filter (finalized_in st) js))) \<subseteq> set (filter (finalized_in st) js)" for n
    using beyond_newest_subset scan_set [OF assms(1)] by metis
  with assms(2) show ?thesis
    by (auto simp: expired_jobs_def Let_def split: option.splits)
qed

lemma clean_victims_state:
  assumes "scan_ok scan" "j \<in> set (clean_victims scan now st grace limit js)"
  shows "j \<in> set js \<and> finalized_in st j \<and> older_than now grace (j_finalized_at j)"
proof -
  have "j \<in> set (scan (filter (\<lambda>j. finalized_in st j \<and> older_than now grace (j_finalized_at j)) js))"
    using assms(2) unfolding clean_victims_def by (metis in_set_takeD set_sort)
  then show ?thesis unfolding scan_set [OF assms(1)] by simp
qed

text \<open>Deleting terminal jobs by their ids.\<close>

lemma delete_terminal_db_ok:
  assumes "db_ok s" "\<And>j. j \<in> set (jobs s) \<Longrightarrow> j_id j \<in> ids \<Longrightarrow> terminal (j_state j)"
  shows "db_ok (s\<lparr>jobs := delete_where (\<lambda>j. j_id j \<in> ids) (jobs s)\<rparr>)"
proof (rule db_okI)
  let ?s' = "s\<lparr>jobs := delete_where (\<lambda>j. j_id j \<in> ids) (jobs s)\<rparr>"
  note ok = db_okD [OF assms(1)]
  show "keys_ok ?s'" using ok(1) by (auto simp: keys_ok_def distinct_delete_where)
  show "unique_index_ok (jobs ?s')"
    using ok(2) unique_index_ok_filter by (simp add: delete_where_def)
  have "counted owner k (jobs ?s') = counted owner k (jobs s)" for owner k
  proof -
    have "\<not> running j" if "j \<in> set (jobs s)" "j_id j \<in> ids" for j
      using assms(2) [OF that] by (auto simp: running_def)
    then show ?thesis using counted_delete [of "jobs s" "\<lambda>j. j_id j \<in> ids"] by simp
  qed
  then show "counters_ok ?s'"
    using ok(3) by (auto simp: counters_ok_iff rows_match_def groups_present_def)
  show "checks_ok ?s'" using ok(4) by (simp add: checks_ok_def)
  show "batches_ok ?s'"
  proof (rule batches_ok_transfer [OF ok(5)])
    show "outstanding b (jobs ?s') = outstanding b (jobs s)" for b
      using assms(2) by (auto simp: outstanding_def count_if_delete_where live_iff_not_terminal intro!: count_if_cong)
    show "set_option (j_batch_id j) \<subseteq> b_id ` set (batches s)" if "j \<in> set (jobs ?s')" for j
      using that ok(5) by (auto simp: batches_ok_def)
  qed simp
qed

lemma expired_jobs_terminal:
  assumes "scan_ok scan" "distinct (map j_id js)" "terminal st" "j \<in> set js"
    and "j_id j \<in> expired_jobs scan now st age keep js"
  shows "terminal (j_state j)"
proof -
  obtain j' where "j' \<in> set js" "j_id j' = j_id j" "finalized_in st j'"
    using expired_jobs_state [OF assms(1,5)] by blast
  with assms(2-4) distinct_key_eq [of j_id js j' j] show ?thesis by (simp add: finalized_in_def)
qed

lemma cleanup_jobs_state_db_ok:
  assumes "scan_ok scan" "terminal st" "db_ok s"
  shows "db_ok (fst (cleanup_jobs_state scan now st age keep s))"
proof -
  have "distinct (map j_id (jobs s))" using db_okD(1) [OF assms(3)] by (simp add: keys_ok_def)
  then show ?thesis
    unfolding cleanup_jobs_state_def Let_def fst_conv
    using assms expired_jobs_terminal by (intro delete_terminal_db_ok) blast+
qed

lemma clean_jobs_db_ok:
  assumes "scan_ok scan" "terminal st" "db_ok s"
  shows "db_ok (fst (clean_jobs scan now st grace limit s))"
proof (cases "limit = 0")
  case True
  with assms(3) show ?thesis by (simp add: clean_jobs_def)
next
  case False
  have d: "distinct (map j_id (jobs s))" using db_okD(1) [OF assms(3)] by (simp add: keys_ok_def)
  have "terminal (j_state j)"
    if "j \<in> set (jobs s)" "j_id j \<in> j_id ` set (clean_victims scan now st grace limit (jobs s))" for j
  proof -
    from that(2) obtain j' where j': "j' \<in> set (clean_victims scan now st grace limit (jobs s))" "j_id j = j_id j'"
      by blast
    from clean_victims_state [OF assms(1) j'(1)] have "j' = j"
      using distinct_key_eq [OF d _ that(1)] j'(2) by metis
    with clean_victims_state [OF assms(1) j'(1)] assms(2) show ?thesis by (simp add: finalized_in_def)
  qed
  with False assms(3) show ?thesis
    by (simp add: clean_jobs_def Let_def delete_terminal_db_ok)
qed

text \<open>A deleted batch has no outstanding job.\<close>

lemma expired_batches_finished:
  assumes "scan_ok scan" "i \<in> expired_batches scan now age keep bs"
  shows "\<exists>b \<in> set bs. b_id b = i \<and> finished_batch b"
proof -
  have "set (beyond_newest b_finalized_at n (scan (filter finished_batch bs))) \<subseteq> set (filter finished_batch bs)" for n
    using beyond_newest_subset scan_set [OF assms(1)] by metis
  with assms(2) show ?thesis
    by (auto simp: expired_batches_def Let_def split: option.splits)
qed

lemma unlink_simps [simp]:
  "j_id (unlink_batches ids j) = j_id j" "j_state (unlink_batches ids j) = j_state j"
  "j_group_key (unlink_batches ids j) = j_group_key j" "j_queue (unlink_batches ids j) = j_queue j"
  "j_kind (unlink_batches ids j) = j_kind j" "j_unique_key (unlink_batches ids j) = j_unique_key j"
  "running (unlink_batches ids j) = running j" "queue_of (unlink_batches ids j) = queue_of j"
  "j_batch_id (unlink_batches ids j) = Some b \<longleftrightarrow> j_batch_id j = Some b \<and> b \<notin> ids"
  by (auto simp: unlink_batches_def running_def queue_of_def split: option.splits)

lemma unlink_unique: "unique_index_ok (map (unlink_batches ids) js) = unique_index_ok js"
  by (induction js) (auto simp: conflicts_def)

lemma cleanup_batches_db_ok:
  assumes "scan_ok scan" "db_ok s"
  shows "db_ok (fst (cleanup_batches scan now age keep s))"
proof (rule db_okI)
  let ?ids = "expired_batches scan now age keep (batches s)"
  let ?s' = "fst (cleanup_batches scan now age keep s)"
  note ok = db_okD [OF assms(2)]
  have s': "?s' = s\<lparr>batches := delete_where (\<lambda>b. b_id b \<in> ?ids) (batches s), jobs := map (unlink_batches ?ids) (jobs s)\<rparr>"
    by (simp add: cleanup_batches_def Let_def)
  have ids: "map j_id (map (unlink_batches ?ids) (jobs s)) = map j_id (jobs s)" by simp
  show "keys_ok ?s'" using ok(1) by (auto simp: keys_ok_def s' distinct_delete_where comp_def)
  show "unique_index_ok (jobs ?s')" using ok(2) by (simp add: s' unlink_unique)
  have "counted owner k (map (unlink_batches ?ids) (jobs s)) = counted owner k (jobs s)"
    if "\<And>j. owner (unlink_batches ?ids j) = owner j" for owner k
    by (simp add: counted_def count_if_map that)
  then show "counters_ok ?s'"
    using ok(3) by (auto simp: counters_ok_iff rows_match_def groups_present_def s')
  show "checks_ok ?s'" using ok(4) by (simp add: checks_ok_def s')
  have out: "outstanding b (jobs ?s') = outstanding b (jobs s)" if "b \<notin> ?ids" for b
    using that by (auto simp: s' outstanding_def count_if_map intro: count_if_cong)
  show "batches_ok ?s'"
    unfolding batches_ok_def
  proof (intro conjI ballI allI impI)
    fix j b assume "j \<in> set (jobs ?s')" "j_batch_id j = Some b"
    then have "b \<in> b_id ` set (batches s)" "b \<notin> ?ids" using ok(5) by (auto simp: s' batches_ok_def)
    then show "b \<in> b_id ` set (batches ?s')" by (auto simp: s')
  next
    fix b assume b: "b \<in> set (batches ?s')"
    then have mem: "b \<in> set (batches s)" "b_id b \<notin> ?ids" by (simp_all add: s')
    note o = out [OF mem(2)]
    from ok(5) mem(1) show "0 \<le> b_completed b" "0 \<le> b_failed b" "0 \<le> b_cancelled b"
      "batch_settled b + int (outstanding (b_id b) (jobs ?s')) = b_total b"
      "(b_callback_enqueued_at b \<noteq> None) = (outstanding (b_id b) (jobs ?s') = 0)"
      "(b_callback_enqueued_at b \<noteq> None) = (b_state b = BatchComplete)"
      "(b_callback_enqueued_at b \<noteq> None) = (b_finalized_at b \<noteq> None)"
      "\<And>spec. b_on_complete b = Some spec \<Longrightarrow> d_batch_id spec = None"
      unfolding batches_ok_def o by blast+
  qed
qed

lemma cleanup_db_ok:
  assumes "scan_ok jscan" "scan_ok bscan" "db_ok s"
  shows "db_ok (fst (cleanup jscan bscan now r s))"
proof -
  let ?c = "\<lambda>st age keep s. fst (cleanup_jobs_state jscan now st age keep s)"
  let ?s1 = "?c Completed (rt_completed_secs r) (rt_completed_count r) s"
  let ?s2 = "?c Failed (rt_failed_secs r) (rt_failed_count r) ?s1"
  let ?s3 = "?c Cancelled (rt_cancelled_secs r) (rt_cancelled_count r) ?s2"
  have "db_ok ?s3"
    using assms by (intro cleanup_jobs_state_db_ok) simp_all
  then have "db_ok (fst (cleanup_batches bscan now (rt_batch_secs r) (rt_batch_count r) ?s3))"
    by (rule cleanup_batches_db_ok [OF assms(2)])
  then show ?thesis by (simp add: cleanup_def Let_def split_beta)
qed

section \<open>What is kept\<close>

text \<open>With a count cap alone, exactly the newest rows of the state survive, at most \<open>n\<close> of them.\<close>

lemma cleanup_keeps_live:
  assumes "scan_ok scan" "keys_ok s" "j \<in> set (jobs s)" "\<not> finalized_in st j"
  shows "j \<in> set (jobs (fst (cleanup_jobs_state scan now st age keep s)))"
proof -
  have "j_id j \<notin> expired_jobs scan now st age keep (jobs s)"
  proof
    assume "j_id j \<in> expired_jobs scan now st age keep (jobs s)"
    then obtain j' where "j' \<in> set (jobs s)" "j_id j' = j_id j" "finalized_in st j'"
      using expired_jobs_state [OF assms(1)] by blast
    with assms(2-4) distinct_key_eq [of j_id "jobs s" j' j] show False by (simp add: keys_ok_def)
  qed
  with assms(3) show ?thesis by (simp add: cleanup_jobs_state_def Let_def)
qed

lemma count_not_dropped:
  assumes "distinct xs" "set ys = set xs"
  shows "count_if (\<lambda>x. x \<notin> set (drop n ys)) xs \<le> n"
proof -
  let ?zs = "filter (\<lambda>x. x \<notin> set (drop n ys)) xs"
  have "set ?zs \<subseteq> set (take n ys)"
  proof
    fix x assume "x \<in> set ?zs"
    then have "x \<in> set ys" and no: "x \<notin> set (drop n ys)" using assms(2) by simp_all
    then have "x \<in> set (take n ys @ drop n ys)" by (simp only: append_take_drop_id)
    with no show "x \<in> set (take n ys)" by (simp only: set_append Un_iff) blast
  qed
  then have "card (set ?zs) \<le> card (set (take n ys))" by (intro card_mono) simp_all
  also have "\<dots> \<le> n" using card_length [of "take n ys"] by simp
  finally show ?thesis
    using distinct_card [of ?zs] assms(1) by (simp only: count_if_def distinct_filter)
qed

lemma cleanup_keeps_at_most:
  assumes "scan_ok scan" "keys_ok s"
  shows "int (count_if (finalized_in st) (jobs (fst (cleanup_jobs_state scan now st age (Some n) s)))) \<le> max n 0"
proof -
  let ?rows = "filter (finalized_in st) (jobs s)"
  let ?ys = "sort_key (\<lambda>j. - the (j_finalized_at j)) (scan ?rows)"
  let ?ids = "expired_jobs scan now st age (Some n) (jobs s)"
  have d: "distinct (jobs s)" using assms(2) by (simp add: keys_ok_def distinct_map)
  have sub: "j_id ` set (drop (nat (max n 0)) ?ys) \<subseteq> ?ids"
    by (auto simp: expired_jobs_def beyond_newest_def Let_def)
  have "count_if (finalized_in st) (jobs (fst (cleanup_jobs_state scan now st age (Some n) s)))
      = count_if (\<lambda>j. j_id j \<notin> ?ids) ?rows"
    by (simp add: cleanup_jobs_state_def Let_def count_if_delete_where count_if_filter)
  also have "\<dots> \<le> count_if (\<lambda>j. j \<notin> set (drop (nat (max n 0)) ?ys)) ?rows"
    by (rule count_if_mono) (use sub in blast)
  also have "\<dots> \<le> nat (max n 0)"
    by (rule count_not_dropped) (use d scan_set [OF assms(1)] in simp_all)
  finally show ?thesis by simp
qed

text \<open>A count cap alone deletes no row that is newer than one it keeps.\<close>

lemma cleanup_drops_oldest:
  assumes "scan_ok scan" "keys_ok s" "j \<in> set (jobs s)" "j' \<in> set (jobs s)" "finalized_in st j"
    and "j \<in> set (jobs (fst (cleanup_jobs_state scan now st None (Some n) s)))"
    and "j' \<notin> set (jobs (fst (cleanup_jobs_state scan now st None (Some n) s)))"
  shows "the (j_finalized_at j') \<le> the (j_finalized_at j)"
proof -
  let ?rows = "filter (finalized_in st) (jobs s)" and ?f = "\<lambda>j. - the (j_finalized_at j)"
  let ?ys = "sort_key ?f (scan ?rows)"
  have "j_id j \<notin> j_id ` set (drop (nat (max n 0)) ?ys)" "j_id j' \<in> j_id ` set (drop (nat (max n 0)) ?ys)"
    using assms(3,4,6,7) by (simp_all add: cleanup_jobs_state_def expired_jobs_def beyond_newest_def Let_def)
  moreover have dr: "set (drop (nat (max n 0)) ?ys) \<subseteq> set (jobs s)"
    using scan_set [OF assms(1), of ?rows] set_drop_subset [of "nat (max n 0)" ?ys] by auto
  ultimately have "j \<notin> set (drop (nat (max n 0)) ?ys)" and j': "j' \<in> set (drop (nat (max n 0)) ?ys)"
    using assms(2,4) distinct_key_eq [of j_id "jobs s" j'] by (auto simp: keys_ok_def)
  moreover have "j \<in> set (take (nat (max n 0)) ?ys @ drop (nat (max n 0)) ?ys)"
    using assms(3,5) scan_set [OF assms(1), of ?rows] by (simp only: append_take_drop_id set_sort) simp
  ultimately have "j \<in> set (take (nat (max n 0)) ?ys)" by (simp only: set_append Un_iff) blast
  moreover have "sorted (map ?f (take (nat (max n 0)) ?ys @ drop (nat (max n 0)) ?ys))"
    by (simp only: append_take_drop_id sorted_sort_key)
  ultimately have "?f j \<le> ?f j'" using j' by (simp only: map_append sorted_append set_map) blast
  then show ?thesis by simp
qed

end
