(* ===== verification/Schedules.thy ===== *)
theory Schedules
  imports Enqueue
begin

text \<open>
  \<open>crates/eddyq-core/src/schedule.rs\<close>: recurring schedules and the scheduler tick. The cron crate is the
  parameter \<open>cron\<close>: \<open>from_str\<close> gives an error message or a schedule, and a schedule gives the first
  upcoming instant after a given time, if there is one. \<open>updated_at\<close>, which nothing reads, is left out.
\<close>

type_synonym cron_crate = "string \<Rightarrow> string + (timestamp \<Rightarrow> timestamp option)"

section \<open>Administration\<close>

definition next_fire :: "cron_crate \<Rightarrow> timestamp \<Rightarrow> string \<Rightarrow> timestamp res" where
  "next_fire cron utc expr =
     (case cron expr of
        Inl msg \<Rightarrow> Inl (Cron msg)
      | Inr sched \<Rightarrow> (case sched utc of None \<Rightarrow> Inl (Cron ''cron never fires'') | Some t \<Rightarrow> Inr t))"

record schedule_declaration =
  sd_name :: string
  sd_cron_expr :: string
  sd_kind :: string
  sd_payload :: json
  sd_priority :: int
  sd_max_attempts :: int
  sd_queue :: string

text \<open>The upsert of a cron-driven row; \<open>next_run_at\<close> survives when the expression is unchanged.\<close>

definition put_cron :: "schedule_declaration \<Rightarrow> timestamp \<Rightarrow> schedule list \<Rightarrow> schedule list" where
  "put_cron d next_at =
     upsert_by s_name
       \<lparr>s_name = sd_name d, s_kind = sd_kind d, s_payload = sd_payload d, s_cron_expr = Some (sd_cron_expr d),
        s_interval_ms = None, s_next_run_at = next_at, s_last_run_at = None, s_enabled = True,
        s_priority = sd_priority d, s_max_attempts = sd_max_attempts d, s_queue = sd_queue d\<rparr>
       (\<lambda>r. r\<lparr>s_kind := sd_kind d, s_payload := sd_payload d, s_cron_expr := Some (sd_cron_expr d),
          s_interval_ms := None,
          s_next_run_at := (if s_cron_expr r = Some (sd_cron_expr d) then s_next_run_at r else next_at),
          s_priority := sd_priority d, s_max_attempts := sd_max_attempts d, s_queue := sd_queue d\<rparr>)"

definition upsert_schedule_raw :: "cron_crate \<Rightarrow> timestamp \<Rightarrow> schedule_declaration \<Rightarrow> unit conn" where
  "upsert_schedule_raw cron utc d s =
     (case validate_queue_name (sd_queue d) of
        Inl err \<Rightarrow> (s, Inl err)
      | Inr _ \<Rightarrow>
          (case next_fire cron utc (sd_cron_expr d) of
             Inl err \<Rightarrow> (s, Inl err)
           | Inr t \<Rightarrow> (s\<lparr>schedules := put_cron d t (schedules s)\<rparr>, Inr ())))"

definition upsert_schedule :: "cron_crate \<Rightarrow> timestamp \<Rightarrow> string \<Rightarrow> string \<Rightarrow> typed_job \<Rightarrow> unit conn" where
  "upsert_schedule cron utc name expr job s =
     (case t_payload job of
        Inl err \<Rightarrow> (s, Inl err)
      | Inr payload \<Rightarrow>
          upsert_schedule_raw cron utc
            \<lparr>sd_name = name, sd_cron_expr = expr, sd_kind = t_kind job, sd_payload = payload,
             sd_priority = t_priority job, sd_max_attempts = t_max_attempts job, sd_queue = t_queue job\<rparr> s)"

definition upsert_interval_schedule_raw ::
  "timestamp \<Rightarrow> string \<Rightarrow> int \<Rightarrow> string \<Rightarrow> json \<Rightarrow> int \<Rightarrow> int \<Rightarrow> string \<Rightarrow> unit conn" where
  "upsert_interval_schedule_raw utc name interval_ms kind payload priority max_attempts queue s =
     (case validate_queue_name queue of
        Inl err \<Rightarrow> (s, Inl err)
      | Inr _ \<Rightarrow>
          if interval_ms \<le> 0 then (s, Inl (InvalidArgument ''interval_ms must be > 0''))
          else let next_at = utc + millis interval_ms in
            (s\<lparr>schedules := upsert_by s_name
                 \<lparr>s_name = name, s_kind = kind, s_payload = payload, s_cron_expr = None,
                  s_interval_ms = Some interval_ms, s_next_run_at = next_at, s_last_run_at = None,
                  s_enabled = True, s_priority = priority, s_max_attempts = max_attempts, s_queue = queue\<rparr>
                 (\<lambda>r. r\<lparr>s_kind := kind, s_payload := payload, s_cron_expr := None,
                    s_interval_ms := Some interval_ms,
                    s_next_run_at := (if s_interval_ms r = Some interval_ms then s_next_run_at r else next_at),
                    s_priority := priority, s_max_attempts := max_attempts, s_queue := queue\<rparr>)
                 (schedules s)\<rparr>, Inr ()))"

record sync_report =
  sr_upserted :: nat
  sr_deleted :: "string list"

text \<open>Validation and first firing of every declaration, before anything is written.\<close>

fun prepare :: "cron_crate \<Rightarrow> timestamp \<Rightarrow> schedule_declaration list \<Rightarrow> (schedule_declaration \<times> timestamp) list res" where
  "prepare cron utc [] = Inr []"
| "prepare cron utc (d # ds) =
     (case validate_queue_name (sd_queue d) of
        Inl (InvalidArgument msg) \<Rightarrow> Inl (InvalidArgument (sd_name d @ '': '' @ msg))
      | Inl err \<Rightarrow> Inl err
      | Inr _ \<Rightarrow>
          (case next_fire cron utc (sd_cron_expr d) of
             Inl (Cron msg) \<Rightarrow> Inl (Cron (sd_name d @ '': '' @ msg))
           | Inl err \<Rightarrow> Inl err
           | Inr t \<Rightarrow>
               (case prepare cron utc ds of Inl err \<Rightarrow> Inl err | Inr ps \<Rightarrow> Inr ((d, t) # ps))))"

definition sync_schedules :: "cron_crate \<Rightarrow> timestamp \<Rightarrow> schedule_declaration list \<Rightarrow> sync_report conn" where
  "sync_schedules cron utc declared s =
     (case prepare cron utc declared of
        Inl err \<Rightarrow> (s, Inl err)
      | Inr ps \<Rightarrow>
          (let rows = fold (\<lambda>(d, t). put_cron d t) ps (schedules s);
               names = map sd_name declared
           in (s\<lparr>schedules := delete_where (\<lambda>r. s_name r \<notin> set names) rows\<rparr>,
               Inr \<lparr>sr_upserted = length declared,
                    sr_deleted = map s_name (filter (\<lambda>r. s_name r \<notin> set names) rows)\<rparr>)))"

definition remove_schedule :: "string \<Rightarrow> db \<Rightarrow> db \<times> bool" where
  "remove_schedule name s =
     (s\<lparr>schedules := delete_where (\<lambda>r. s_name r = name) (schedules s)\<rparr>,
      0 < count_if (\<lambda>r. s_name r = name) (schedules s))"

definition set_enabled :: "string \<Rightarrow> bool \<Rightarrow> db \<Rightarrow> db \<times> bool" where
  "set_enabled name enabled s =
     (s\<lparr>schedules := update_where (\<lambda>r. s_name r = name) (\<lambda>r. r\<lparr>s_enabled := enabled\<rparr>) (schedules s)\<rparr>,
      0 < count_if (\<lambda>r. s_name r = name) (schedules s))"

definition list_schedules :: "db \<Rightarrow> schedule list" where
  "list_schedules s = sort_key s_name (schedules s)"

section \<open>The tick\<close>

text \<open>
  The advisory lock is held by another scheduler when \<open>got_lock\<close> is false. \<open>clock\<close> gives the reading of
  \<open>Utc::now()\<close> while a schedule is processed, and \<open>scan\<close> the order in which the due rows come.
\<close>

definition schedule_due :: "timestamp \<Rightarrow> schedule \<Rightarrow> bool" where
  "schedule_due now r \<longleftrightarrow> s_enabled r \<and> s_next_run_at r \<le> now"

text \<open>The columns of the insert, the others at their defaults.\<close>

definition schedule_request :: "schedule \<Rightarrow> dyn_enqueue" where
  "schedule_request r =
     \<lparr>d_kind = s_kind r, d_payload = s_payload r, d_max_attempts = s_max_attempts r, d_max_stalled_count = 1,
      d_priority = s_priority r, d_queue = s_queue r, d_scheduled_at = None, d_unique_key = None,
      d_group_key = None, d_tags = [], d_metadata = JObject [], d_batch_id = None,
      d_remove_on_complete = None, d_remove_on_fail = None\<rparr>"

definition next_run :: "cron_crate \<Rightarrow> timestamp \<Rightarrow> schedule \<Rightarrow> timestamp res" where
  "next_run cron utc r =
     (case s_interval_ms r of
        Some ms \<Rightarrow> Inr (utc + millis ms)
      | None \<Rightarrow>
          (case s_cron_expr r of
             Some expr \<Rightarrow> next_fire cron utc expr
           | None \<Rightarrow> Inl (Cron ''schedule has neither cron_expr nor interval_ms'')))"

definition fire_schedule :: "cron_crate \<Rightarrow> timestamp \<Rightarrow> (string \<Rightarrow> timestamp) \<Rightarrow> schedule \<Rightarrow> unit tx" where
  "fire_schedule cron now clock r s =
     (case insert_row now now (schedule_request r) s of
        Inl err \<Rightarrow> Inl err
      | Inr (s1, _) \<Rightarrow>
          (case next_run cron (clock (s_name r)) r of
             Inl err \<Rightarrow> Inl err
           | Inr t \<Rightarrow>
               Inr (s1\<lparr>schedules := update_where (\<lambda>x. s_name x = s_name r)
                      (\<lambda>x. x\<lparr>s_next_run_at := t, s_last_run_at := Some now\<rparr>) (schedules s1)\<rparr>, ())))"

fun fire_schedules :: "cron_crate \<Rightarrow> timestamp \<Rightarrow> (string \<Rightarrow> timestamp) \<Rightarrow> schedule list \<Rightarrow> nat tx" where
  "fire_schedules cron now clock [] s = Inr (s, 0)"
| "fire_schedules cron now clock (r # rs) s =
     (case fire_schedule cron now clock r s of
        Inl err \<Rightarrow> Inl err
      | Inr (s1, _) \<Rightarrow>
          (case fire_schedules cron now clock rs s1 of Inl err \<Rightarrow> Inl err | Inr (s2, n) \<Rightarrow> Inr (s2, Suc n)))"

definition tick_in_tx ::
  "cron_crate \<Rightarrow> (schedule list \<Rightarrow> schedule list) \<Rightarrow> timestamp \<Rightarrow> (string \<Rightarrow> timestamp) \<Rightarrow> nat tx" where
  "tick_in_tx cron scan now clock s =
     fire_schedules cron now clock (scan (filter (schedule_due now) (schedules s))) s"

definition tick ::
  "cron_crate \<Rightarrow> (schedule list \<Rightarrow> schedule list) \<Rightarrow> bool \<Rightarrow> timestamp \<Rightarrow> (string \<Rightarrow> timestamp) \<Rightarrow> nat conn" where
  "tick cron scan got_lock now clock s =
     (if \<not> got_lock then (s, Inr 0)
      else case run_tx (tick_in_tx cron scan now clock) s of
             (s1, Inr n) \<Rightarrow> (if 0 < n then pg_notify ''eddyq_job'' [] s1 else s1, Inr n)
           | (s1, Inl err) \<Rightarrow> (s1, Inl err))"

section \<open>Schedules and the invariant\<close>

lemma db_ok_schedules:
  assumes "distinct (map s_name rs)" "db_ok s"
  shows "db_ok (s\<lparr>schedules := rs\<rparr>)"
  by (rule db_ok_frame [OF assms(2)]) (use assms(1) db_ok_keys [OF assms(2)] in simp_all)

lemmas db_ok_names = db_ok_keys(1)

lemma put_cron_names: "distinct (map s_name rs) \<Longrightarrow> distinct (map s_name (put_cron d t rs))"
  unfolding put_cron_def by (rule distinct_upsert_by) simp_all

lemma fold_put_cron_names:
  "distinct (map s_name rs) \<Longrightarrow> distinct (map s_name (fold (\<lambda>(d, t). put_cron d t) ps rs))"
  by (induction ps arbitrary: rs) (auto simp: put_cron_names)

lemma upsert_schedule_raw_db_ok: "db_ok s \<Longrightarrow> db_ok (fst (upsert_schedule_raw cron utc d s))"
  by (auto simp: upsert_schedule_raw_def db_ok_schedules put_cron_names db_ok_names split: sum.splits)

lemma upsert_interval_db_ok:
  "db_ok s \<Longrightarrow> db_ok (fst (upsert_interval_schedule_raw utc name ms kind payload pr ma queue s))"
  by (auto simp: upsert_interval_schedule_raw_def Let_def db_ok_names intro!: db_ok_schedules distinct_upsert_by
      split: sum.splits)

lemma sync_schedules_db_ok: "db_ok s \<Longrightarrow> db_ok (fst (sync_schedules cron utc declared s))"
  by (auto simp: sync_schedules_def Let_def db_ok_names intro!: db_ok_schedules distinct_delete_where fold_put_cron_names
      split: sum.splits)

lemma remove_schedule_db_ok: "db_ok s \<Longrightarrow> db_ok (fst (remove_schedule name s))"
  by (simp add: remove_schedule_def db_ok_schedules distinct_delete_where db_ok_names)

lemma set_enabled_db_ok: "db_ok s \<Longrightarrow> db_ok (fst (set_enabled name b s))"
  by (simp add: set_enabled_def db_ok_schedules db_ok_names distinct_update_where)

section \<open>What a tick does\<close>

lemma schedule_request_simps [simp]:
  "d_unique_key (schedule_request r) = None" "d_batch_id (schedule_request r) = None"
  by (simp_all add: schedule_request_def)

lemma insert_row_schedule:
  "insert_row now t (schedule_request r) s =
     Inr (s\<lparr>next_job_id := next_job_id s + 1, jobs := jobs s @ [new_job now t (schedule_request r) (next_job_id s)]\<rparr>,
          Some (next_job_id s))"
  by (rule insert_row_fresh) (simp_all add: has_conflict_def conflicts_def batch_fk_ok_def)

text \<open>The effect of firing a list of schedules: one job each, and new firing times.\<close>

definition advance :: "timestamp \<Rightarrow> (string \<Rightarrow> timestamp option) \<Rightarrow> schedule \<Rightarrow> schedule" where
  "advance now nxt r = (case nxt (s_name r) of None \<Rightarrow> r | Some t \<Rightarrow> r\<lparr>s_next_run_at := t, s_last_run_at := Some now\<rparr>)"

lemma advance_simps [simp]:
  "s_name (advance now nxt r) = s_name r" "s_enabled (advance now nxt r) = s_enabled r"
  by (auto simp: advance_def split: option.splits)

fun next_times :: "cron_crate \<Rightarrow> (string \<Rightarrow> timestamp) \<Rightarrow> schedule list \<Rightarrow> string \<Rightarrow> timestamp option" where
  "next_times cron clock [] = Map.empty"
| "next_times cron clock (r # rs) =
     (\<lambda>k. if k = s_name r then (case next_run cron (clock k) r of Inl _ \<Rightarrow> None | Inr t \<Rightarrow> Some t)
          else next_times cron clock rs k)"

fun schedule_jobs :: "timestamp \<Rightarrow> job_id \<Rightarrow> schedule list \<Rightarrow> job list" where
  "schedule_jobs now i [] = []"
| "schedule_jobs now i (r # rs) = new_job now now (schedule_request r) i # schedule_jobs now (i + 1) rs"

lemma fire_schedules_result:
  "distinct (map s_name rs) \<Longrightarrow>
   fire_schedules cron now clock rs s =
     (case filter (\<lambda>r. \<exists>err. next_run cron (clock (s_name r)) r = Inl err) rs of
        r # _ \<Rightarrow> Inl (projl (next_run cron (clock (s_name r)) r))
      | [] \<Rightarrow> Inr (s\<lparr>jobs := jobs s @ schedule_jobs now (next_job_id s) rs,
                    next_job_id := next_job_id s + int (length rs),
                    schedules := map (advance now (next_times cron clock rs)) (schedules s)\<rparr>, length rs))"
proof (induction rs arbitrary: s)
  case Nil
  have "map (advance now Map.empty) xs = xs" for xs by (induction xs) (simp_all add: advance_def)
  then show ?case by simp
next
  case (Cons r rs)
  show ?case
  proof (cases "next_run cron (clock (s_name r)) r")
    case (Inl err)
    then show ?thesis by (simp add: fire_schedule_def insert_row_schedule)
  next
    case (Inr t)
    have notin: "s_name r \<notin> s_name ` set rs" using Cons.prems by simp
    have none: "next_times cron clock rs k = None" if "k \<notin> s_name ` set rs" for k
      using that by (induction rs) auto
    have adv: "map (advance now (next_times cron clock rs))
        (update_where (\<lambda>x. s_name x = s_name r) (\<lambda>x. x\<lparr>s_next_run_at := t, s_last_run_at := Some now\<rparr>) xs)
        = map (advance now (next_times cron clock (r # rs))) xs" for xs
      by (induction xs) (auto simp: advance_def Inr none [OF notin])
    have "(filter (\<lambda>r. \<exists>err. next_run cron (clock (s_name r)) r = Inl err) (r # rs)) =
        filter (\<lambda>r. \<exists>err. next_run cron (clock (s_name r)) r = Inl err) rs" using Inr by simp
    then show ?thesis
      using Cons Inr
      by (auto simp: fire_schedule_def insert_row_schedule adv split: list.splits)
  qed
qed

text \<open>The order in which the due rows come, and what is used of the cron crate: an upcoming instant is
  later than the time it is asked for.\<close>

definition due_scan_ok :: "(schedule list \<Rightarrow> schedule list) \<Rightarrow> bool" where
  "due_scan_ok scan \<longleftrightarrow> (\<forall>rs. mset (scan rs) = mset rs)"

definition cron_ok :: "cron_crate \<Rightarrow> bool" where
  "cron_ok cron \<longleftrightarrow> (\<forall>expr sched t t'. cron expr = Inr sched \<and> sched t = Some t' \<longrightarrow> t < t')"

lemma due_rows:
  assumes "due_scan_ok scan" "distinct (map s_name rs)"
  shows "set (scan (filter (schedule_due now) rs)) = {r \<in> set rs. schedule_due now r}"
    "length (scan (filter (schedule_due now) rs)) = count_if (schedule_due now) rs"
    "distinct (map s_name (scan (filter (schedule_due now) rs)))"
proof -
  have perm: "mset (scan (filter (schedule_due now) rs)) = mset (filter (schedule_due now) rs)"
    using assms(1) by (simp add: due_scan_ok_def)
  show "set (scan (filter (schedule_due now) rs)) = {r \<in> set rs. schedule_due now r}"
    using perm by (metis set_filter set_mset_mset)
  show "length (scan (filter (schedule_due now) rs)) = count_if (schedule_due now) rs"
    unfolding count_if_def using perm by (rule mset_eq_length)
  have "distinct (map s_name (filter (schedule_due now) rs))" using assms(2) by (rule distinct_map_filter)
  then show "distinct (map s_name (scan (filter (schedule_due now) rs)))"
    using perm by (metis mset_map mset_eq_imp_distinct_iff)
qed

lemma tick_success:
  assumes "due_scan_ok scan" "keys_ok s"
    and "\<And>r. r \<in> set (schedules s) \<Longrightarrow> schedule_due now r \<Longrightarrow> \<exists>t. next_run cron (clock (s_name r)) r = Inr t"
  shows "tick_in_tx cron scan now clock s =
    (let due = scan (filter (schedule_due now) (schedules s))
     in Inr (s\<lparr>jobs := jobs s @ schedule_jobs now (next_job_id s) due,
               next_job_id := next_job_id s + int (length due),
               schedules := map (advance now (next_times cron clock due)) (schedules s)\<rparr>, length due))"
proof -
  let ?due = "scan (filter (schedule_due now) (schedules s))"
  have d: "distinct (map s_name (schedules s))" using assms(2) by (simp add: keys_ok_def)
  note due = due_rows [OF assms(1) d, of now]
  have "filter (\<lambda>r. \<exists>err. next_run cron (clock (s_name r)) r = Inl err) ?due = []"
    using assms(3) unfolding filter_empty_conv due(1) by fastforce
  then show ?thesis unfolding tick_in_tx_def Let_def fire_schedules_result [OF due(3)] by simp
qed

lemma tick_failure:
  assumes "due_scan_ok scan" "keys_ok s"
    and "r \<in> set (schedules s)" "schedule_due now r" "next_run cron (clock (s_name r)) r = Inl err"
  shows "\<exists>err. tick_in_tx cron scan now clock s = Inl err"
proof -
  let ?due = "scan (filter (schedule_due now) (schedules s))"
  have d: "distinct (map s_name (schedules s))" using assms(2) by (simp add: keys_ok_def)
  note due = due_rows [OF assms(1) d, of now]
  have "r \<in> set (filter (\<lambda>r. \<exists>err. next_run cron (clock (s_name r)) r = Inl err) ?due)"
    using assms(3-5) due(1) by auto
  then obtain r' rest where "filter (\<lambda>r. \<exists>err. next_run cron (clock (s_name r)) r = Inl err) ?due = r' # rest"
    by (cases "filter (\<lambda>r. \<exists>err. next_run cron (clock (s_name r)) r = Inl err) ?due") auto
  then show ?thesis unfolding tick_in_tx_def fire_schedules_result [OF due(3)] by simp
qed

lemma schedule_job_row:
  "j \<in> set (schedule_jobs now i rs) \<Longrightarrow>
     j_state j = Pending \<and> j_batch_id j = None \<and> j_scheduled_at j = now \<and> i \<le> j_id j \<and> j_id j < i + int (length rs)"
  by (induction rs arbitrary: i) (fastforce simp: new_job_def schedule_request_def)+

lemma schedule_jobs_facts:
  "length (schedule_jobs now i rs) = length rs"
  "map j_kind (schedule_jobs now i rs) = map s_kind rs"
  "map j_queue (schedule_jobs now i rs) = map s_queue rs"
  "map j_payload (schedule_jobs now i rs) = map s_payload rs"
  "distinct (map j_id (schedule_jobs now i rs))"
proof -
  show "length (schedule_jobs now i rs) = length rs" by (induction rs arbitrary: i) simp_all
  show "map j_kind (schedule_jobs now i rs) = map s_kind rs" "map j_queue (schedule_jobs now i rs) = map s_queue rs"
    "map j_payload (schedule_jobs now i rs) = map s_payload rs"
    by (induction rs arbitrary: i) (simp_all add: new_job_def schedule_request_def)
  show "distinct (map j_id (schedule_jobs now i rs))"
  proof (induction rs arbitrary: i)
    case (Cons r rs)
    have "i < j_id j" if "j \<in> set (schedule_jobs now (i + 1) rs)" for j
    proof -
      have "i + 1 \<le> j_id j" using schedule_job_row [OF that] by simp
      then show ?thesis by simp
    qed
    then have "i \<notin> j_id ` set (schedule_jobs now (i + 1) rs)" by fastforce
    with Cons show ?case by (simp add: new_job_def)
  qed simp
qed

text \<open>After a tick nothing is due: every fired schedule has a later firing time.\<close>

lemma next_run_later:
  assumes "cron_ok cron" "next_run cron utc r = Inr t" "\<And>ms. s_interval_ms r = Some ms \<Longrightarrow> 0 < ms"
  shows "utc < t"
  using assms unfolding cron_ok_def
  by (auto simp: next_run_def next_fire_def millis_def split: option.splits sum.splits)

lemma next_times_due:
  "distinct (map s_name rs) \<Longrightarrow> r \<in> set rs \<Longrightarrow> next_run cron (clock (s_name r)) r = Inr t \<Longrightarrow>
   next_times cron clock rs (s_name r) = Some t"
  by (induction rs) (auto simp: image_iff)

lemma advance_fired:
  assumes "distinct (map s_name rs)" "r \<in> set rs" "next_run cron (clock (s_name r)) r = Inr t"
  shows "s_next_run_at (advance now (next_times cron clock rs) r) = t"
  using next_times_due [of rs r cron clock t] assms by (simp add: advance_def)

lemma next_times_none: "k \<notin> s_name ` set rs \<Longrightarrow> next_times cron clock rs k = None"
  by (induction rs) auto

lemma tick_idle_after:
  assumes "due_scan_ok scan" "keys_ok s" "cron_ok cron" "tick_in_tx cron scan now clock s = Inr (s', n)"
    and "\<And>r. r \<in> set (schedules s) \<Longrightarrow> now \<le> clock (s_name r)"
    and "\<And>r ms. r \<in> set (schedules s) \<Longrightarrow> s_interval_ms r = Some ms \<Longrightarrow> 0 < ms"
    and "r' \<in> set (schedules s')"
  shows "\<not> schedule_due now r'"
proof -
  let ?due = "scan (filter (schedule_due now) (schedules s))"
  have d: "distinct (map s_name (schedules s))" using assms(2) by (simp add: keys_ok_def)
  note due = due_rows [OF assms(1) d, of now]
  have ok: "\<exists>t. next_run cron (clock (s_name r)) r = Inr t" if "r \<in> set (schedules s)" "schedule_due now r" for r
    using tick_failure [OF assms(1,2) that, of cron clock] assms(4) by (cases "next_run cron (clock (s_name r)) r") auto
  have "schedules s' = map (advance now (next_times cron clock ?due)) (schedules s)"
    using assms(4) tick_success [OF assms(1,2) ok] by (auto simp: Let_def)
  then obtain r where r: "r \<in> set (schedules s)" "r' = advance now (next_times cron clock ?due) r"
    using assms(7) by auto
  show ?thesis
  proof (cases "schedule_due now r")
    case True
    then have mem: "r \<in> set ?due" using r(1) due(1) by simp
    obtain t where t: "next_run cron (clock (s_name r)) r = Inr t" using ok [OF r(1) True] by blast
    have "now < t" using next_run_later [OF assms(3) t] assms(5,6) [OF r(1)] by fastforce
    then show ?thesis
      using advance_fired [where clock = clock, OF due(3) mem t, of now] by (simp add: schedule_due_def r(2))
  next
    case False
    have "s_name r \<notin> s_name ` set ?due"
    proof
      assume "s_name r \<in> s_name ` set ?due"
      then obtain x where "x \<in> set (schedules s)" "schedule_due now x" "s_name x = s_name r"
        unfolding due(1) by auto
      with False distinct_key_eq [OF d _ r(1)] show False by metis
    qed
    then have "r' = r" using r(2) next_times_none by (simp add: advance_def)
    with False show ?thesis by simp
  qed
qed

lemma tick_in_tx_db_ok:
  assumes "due_scan_ok scan" "db_ok s" "tick_in_tx cron scan now clock s = Inr (s', n)"
  shows "db_ok s'"
proof -
  note k = db_okD(1) [OF assms(2)]
  let ?due = "scan (filter (schedule_due now) (schedules s))"
  have ok: "\<exists>t. next_run cron (clock (s_name r)) r = Inr t" if "r \<in> set (schedules s)" "schedule_due now r" for r
    using tick_failure [OF assms(1) k that, of cron clock] assms(3) by (cases "next_run cron (clock (s_name r)) r") auto
  have s': "s' = s\<lparr>jobs := jobs s @ schedule_jobs now (next_job_id s) ?due,
      next_job_id := next_job_id s + int (length ?due),
      schedules := map (advance now (next_times cron clock ?due)) (schedules s)\<rparr>"
    using assms(3) tick_success [OF assms(1) k ok] by (auto simp: Let_def)
  let ?s1 = "s\<lparr>jobs := jobs s @ schedule_jobs now (next_job_id s) ?due, next_job_id := next_job_id s + int (length ?due)\<rparr>"
  have uniq: "unique_index_ok js \<longrightarrow> unique_index_ok (js @ schedule_jobs now i rs)" for js i rs
  proof (induction rs arbitrary: js i)
    case (Cons r rs)
    from Cons [of "js @ [new_job now now (schedule_request r) i]" "i + 1"] show ?case
      by (simp add: unique_index_ok_append new_job_def conflicts_def)
  qed simp
  have "enqueue_step {None} s ?s1"
    unfolding enqueue_step_def
  proof (intro exI conjI)
    show "?s1 = s\<lparr>jobs := jobs s @ schedule_jobs now (next_job_id s) ?due, next_job_id := next_job_id ?s1,
        groups := groups ?s1, notified := notified s @ []\<rparr>" by simp
    show "fresh_rows {None} (batches s) (next_job_id s) (next_job_id ?s1) (schedule_jobs now (next_job_id s) ?due)"
      using schedule_jobs_facts(5) [of now "next_job_id s" ?due] schedule_job_row [of _ now "next_job_id s" ?due] by (auto simp: fresh_rows_def)
    show "rows_config (groups s) (groups ?s1)" using keys_ok_groups [OF k] by (simp add: rows_config_refl)
  qed (simp add: uniq)
  then have "db_ok ?s1" using assms(2) by (rule enqueue_step_db_ok)
  moreover have "distinct (map s_name (map (advance now (next_times cron clock ?due)) (schedules s)))"
    using db_ok_names [OF assms(2)] by (simp add: comp_def)
  ultimately have "db_ok (?s1\<lparr>schedules := map (advance now (next_times cron clock ?due)) (schedules s)\<rparr>)"
    by (rule db_ok_schedules [rotated])
  then show ?thesis by (simp add: s')
qed

end
