(* ===== verification/Leadership.thy ===== *)
theory Leadership
  imports Schema
begin

text \<open>
  \<open>crates/eddyq-core/src/leader.rs\<close>: the lease by which one process runs the maintenance loops. The
  elections of the processes are the steps of a relation on the database and its clock, so that the
  exclusion of two leaders is a statement about every interleaving of them.
\<close>

definition maintenance_role :: string where "maintenance_role = ''maintenance''"
definition leader_resign_channel :: string where "leader_resign_channel = ''eddyq_leader_resign''"

definition refresh_leader :: "timestamp \<Rightarrow> uuid \<Rightarrow> timestamp \<Rightarrow> leader \<Rightarrow> leader" where
  "refresh_leader now worker expires l =
     l\<lparr>l_worker_id := (if l_expires_at l < now then worker else l_worker_id l),
       l_expires_at := (if l_expires_at l < now then expires
                        else if l_worker_id l = worker then expires else l_expires_at l),
       l_elected_at := (if l_expires_at l < now then now else l_elected_at l)\<rparr>"

definition try_elect :: "timestamp \<Rightarrow> uuid \<Rightarrow> string \<Rightarrow> nat \<Rightarrow> db \<Rightarrow> db \<times> bool" where
  "try_elect now worker role lease_secs s =
     (let expires = now + secs (int lease_secs);
          rows = upsert_by l_role \<lparr>l_role = role, l_worker_id = worker, l_expires_at = expires, l_elected_at = now\<rparr>
                   (refresh_leader now worker expires) (leaders s)
      in (s\<lparr>leaders := rows\<rparr>,
          (case lookup_by l_role role rows of Some l \<Rightarrow> l_worker_id l = worker | None \<Rightarrow> False)))"

definition resign :: "timestamp \<Rightarrow> uuid \<Rightarrow> string \<Rightarrow> db \<Rightarrow> db" where
  "resign now worker role s =
     pg_notify leader_resign_channel role
       (s\<lparr>leaders := update_where (\<lambda>l. l_role l = role \<and> l_worker_id l = worker)
            (\<lambda>l. l\<lparr>l_expires_at := now\<rparr>) (leaders s)\<rparr>)"

section \<open>One election\<close>

definition leader_of :: "string \<Rightarrow> db \<Rightarrow> leader option" where
  "leader_of role s = lookup_by l_role role (leaders s)"

lemma refresh_leader_role [simp]: "l_role (refresh_leader now w x l) = l_role l"
  by (simp add: refresh_leader_def)

lemma leader_of_try_elect:
  "leader_of k (fst (try_elect now w role lease s)) =
     (if k = role
      then (case leader_of role s of
              None \<Rightarrow> Some \<lparr>l_role = role, l_worker_id = w, l_expires_at = now + secs (int lease), l_elected_at = now\<rparr>
            | Some l \<Rightarrow> Some (refresh_leader now w (now + secs (int lease)) l))
      else leader_of k s)"
  by (auto simp: try_elect_def leader_of_def Let_def lookup_by_upsert_by)

lemma try_elect_result:
  "snd (try_elect now w role lease s) =
     (case leader_of role s of None \<Rightarrow> True | Some l \<Rightarrow> l_expires_at l < now \<or> l_worker_id l = w)"
  by (auto simp: try_elect_def leader_of_def Let_def lookup_by_upsert_by refresh_leader_def split: option.splits)

lemma try_elect_wins:
  assumes "snd (try_elect now w role lease s)"
  shows "\<exists>l. leader_of role (fst (try_elect now w role lease s)) = Some l \<and> l_worker_id l = w \<and>
    l_expires_at l = now + secs (int lease)"
  using assms unfolding try_elect_result leader_of_try_elect
  by (auto simp: refresh_leader_def split: option.splits)

lemma try_elect_loses:
  assumes "\<not> snd (try_elect now w role lease s)"
  shows "leader_of role (fst (try_elect now w role lease s)) = leader_of role s"
  using assms unfolding try_elect_result leader_of_try_elect
  by (auto simp: refresh_leader_def split: option.splits)

lemma leader_of_resign:
  "leader_of k (resign now w role s) =
     map_option (\<lambda>l. if l_role l = role \<and> l_worker_id l = w then l\<lparr>l_expires_at := now\<rparr> else l) (leader_of k s)"
  by (simp add: resign_def leader_of_def lookup_by_update_where)

lemma try_elect_db_ok: "db_ok s \<Longrightarrow> db_ok (fst (try_elect now w role lease s))"
  by (rule db_ok_frame [of s]) (auto simp: try_elect_def Let_def db_ok_keys intro!: distinct_upsert_by)

lemma resign_db_ok: "db_ok s \<Longrightarrow> db_ok (resign now w role s)"
  by (rule db_ok_frame [of s]) (auto simp: resign_def db_ok_keys distinct_update_where)

section \<open>Elections by many processes\<close>

text \<open>
  A run from a state at one time to a state at a later one: any process may try to be elected or
  resign, at times that never go back. All use the same lease, and \<open>w\<close> does not resign.
\<close>

inductive leader_run :: "string \<Rightarrow> nat \<Rightarrow> uuid \<Rightarrow> db \<Rightarrow> timestamp \<Rightarrow> db \<Rightarrow> timestamp \<Rightarrow> bool"
  for role lease w where
  start: "leader_run role lease w s t s t"
| elect: "leader_run role lease w s t s1 t1 \<Longrightarrow> t1 \<le> t2 \<Longrightarrow>
    leader_run role lease w s t (fst (try_elect t2 w' role lease s1)) t2"
| resign: "leader_run role lease w s t s1 t1 \<Longrightarrow> t1 \<le> t2 \<Longrightarrow> w' \<noteq> w \<Longrightarrow>
    leader_run role lease w s t (resign t2 w' role s1) t2"

definition holds_lease :: "string \<Rightarrow> uuid \<Rightarrow> timestamp \<Rightarrow> db \<Rightarrow> bool" where
  "holds_lease role w until s \<longleftrightarrow>
     (\<exists>l. leader_of role s = Some l \<and> l_worker_id l = w \<and> until \<le> l_expires_at l)"

lemma leader_run_time: "leader_run role lease w s t s' t' \<Longrightarrow> t \<le> t'"
  by (induction rule: leader_run.induct) auto

lemma lease_kept:
  assumes "leader_run role lease w s t s' t'" "holds_lease role w (t + secs (int lease)) s" "t' \<le> t + secs (int lease)"
  shows "holds_lease role w (t + secs (int lease)) s'"
  using assms
proof (induction rule: leader_run.induct)
  case (elect s t s1 t1 t2 w')
  then have "holds_lease role w (t + secs (int lease)) s1" by simp
  moreover have "t + secs (int lease) \<le> t2 + secs (int lease)"
    using elect.hyps leader_run_time [OF elect.hyps(1)] by simp
  ultimately show ?case
    using elect.prems(2) by (auto simp: holds_lease_def leader_of_try_elect refresh_leader_def)
next
  case (resign s t s1 t1 t2 w')
  then have "holds_lease role w (t + secs (int lease)) s1" by simp
  then show ?case
    using resign.hyps(3) by (auto simp: holds_lease_def leader_of_resign)
qed

text \<open>While a lease runs, no other process is told that it leads.\<close>

lemma lease_exclusive:
  assumes "snd (try_elect t w role lease s0)" "leader_run role lease w (fst (try_elect t w role lease s0)) t s t'"
    and "t' \<le> t2" "t2 \<le> t + secs (int lease)" "w' \<noteq> w"
  shows "\<not> snd (try_elect t2 w' role lease s)"
proof -
  have "holds_lease role w (t + secs (int lease)) (fst (try_elect t w role lease s0))"
    using try_elect_wins [OF assms(1)] by (auto simp: holds_lease_def)
  then have "holds_lease role w (t + secs (int lease)) s"
    using lease_kept [OF assms(2)] assms(3,4) by simp
  with assms(4,5) show ?thesis by (auto simp: holds_lease_def try_elect_result)
qed

text \<open>An expired lease goes to whoever asks first, and a resignation frees it at once.\<close>

lemma expired_taken: "leader_of role s = Some l \<Longrightarrow> l_expires_at l < now \<Longrightarrow> snd (try_elect now w role lease s)"
  by (simp add: try_elect_result)

lemma resigned_taken:
  assumes "leader_of role s = Some l" "l_worker_id l = w" "now < t2"
  shows "snd (try_elect t2 w' role lease (resign now w role s))"
proof -
  have "l_role l = role" using assms(1) lookup_by_SomeD by (fastforce simp: leader_of_def)
  with assms show ?thesis by (simp add: try_elect_result leader_of_resign)
qed

end
