(* ===== verification/Samples.thy ===== *)
theory Samples
  imports Schema
begin

text \<open>
  A small database on which the statements of the development are exercised: one capped queue, one
  rate-limited group, an unfinished batch with a callback, an interval schedule and a leader. It satisfies
  the invariant.
\<close>

definition sample_job :: "job_id \<Rightarrow> job_state \<Rightarrow> job" where
  "sample_job i st =
     \<lparr>j_id = i, j_queue = ''default'', j_kind = ''mail'', j_payload = JNull, j_state = st, j_priority = 0,
      j_attempt = 0, j_max_attempts = 3, j_stalled_count = 0, j_max_stalled_count = 1, j_scheduled_at = 0,
      j_heartbeat_at = None, j_worker_id = None, j_errors = [], j_result = None, j_unique_key = None,
      j_group_key = None, j_tags = [], j_metadata = JObject [], j_batch_id = None, j_created_at = 0,
      j_finalized_at = None\<rparr>"

definition running_job :: job where
  "running_job = (sample_job 1 Running)\<lparr>j_attempt := 1, j_heartbeat_at := Some 0, j_worker_id := Some 7,
     j_group_key := Some ''acct'', j_batch_id := Some 1\<rparr>"

definition unique_job :: job where
  "unique_job = (sample_job 2 Pending)\<lparr>j_unique_key := Some ''u''\<rparr>"

definition grouped_job :: job where
  "grouped_job = (sample_job 3 Pending)\<lparr>j_group_key := Some ''acct''\<rparr>"

definition finished_job :: job where
  "finished_job = (sample_job 4 Completed)\<lparr>j_finalized_at := Some 5, j_batch_id := Some 1\<rparr>"

definition newer_finished_job :: job where
  "newer_finished_job = (sample_job 5 Completed)\<lparr>j_finalized_at := Some 9\<rparr>"

definition sample_queue :: named_queue where
  "sample_queue = \<lparr>q_name = ''default'', q_running_count = 1, q_max_concurrency = 2, q_paused = False,
     q_default_timeout_ms = Some 500, q_created_at = 0, q_updated_at = 0\<rparr>"

definition sample_group :: group where
  "sample_group = \<lparr>g_key = ''acct'', g_running_count = 1, g_max_concurrency = 3, g_paused = False,
     g_rate_count = Some 2, g_rate_period_ms = Some 1000, g_tokens = 1, g_tokens_refilled_at = Some 0,
     g_created_at = 0, g_updated_at = 0\<rparr>"

definition sample_rule :: stored_rule where
  "sample_rule = \<lparr>r_pattern = ''acct*'', r_max_concurrency = Some 3, r_rate_count = None,
     r_rate_period_ms = None, r_priority = 0, r_created_at = 0, r_updated_at = 0\<rparr>"

definition sample_callback :: dyn_enqueue where
  "sample_callback = \<lparr>d_kind = ''done'', d_payload = JNull, d_max_attempts = 3, d_max_stalled_count = 1,
     d_priority = 0, d_queue = ''default'', d_scheduled_at = None, d_unique_key = None, d_group_key = None,
     d_tags = [], d_metadata = JObject [], d_batch_id = None, d_remove_on_complete = None,
     d_remove_on_fail = None\<rparr>"

definition sample_batch :: batch where
  "sample_batch = \<lparr>b_id = 1, b_state = BatchPending, b_total = 2, b_completed = 1, b_failed = 0,
     b_cancelled = 0, b_on_complete = Some sample_callback, b_callback_enqueued_at = None,
     b_metadata = JObject [], b_created_at = 0, b_finalized_at = None\<rparr>"

definition sample_schedule :: schedule where
  "sample_schedule = \<lparr>s_name = ''hourly'', s_kind = ''report'', s_payload = JNull, s_cron_expr = None,
     s_interval_ms = Some 3600000, s_next_run_at = 10, s_last_run_at = None, s_enabled = True,
     s_priority = 0, s_max_attempts = 3, s_queue = ''default''\<rparr>"

definition sample_leader :: leader where
  "sample_leader = \<lparr>l_role = ''maintenance'', l_worker_id = 7, l_expires_at = 1000, l_elected_at = 0\<rparr>"

definition sample_db :: db where
  "sample_db = \<lparr>jobs = [running_job, unique_job, grouped_job, finished_job, newer_finished_job], next_job_id = 6,
     queues = [sample_queue], groups = [sample_group], rules = [sample_rule], batches = [sample_batch],
     next_batch_id = 2, schedules = [sample_schedule], leaders = [sample_leader], stats_cache = [],
     stats_computed_at = None, notified = []\<rparr>"

lemmas sample_row_defs =
  sample_job_def running_job_def unique_job_def grouped_job_def finished_job_def newer_finished_job_def
  sample_queue_def sample_group_def sample_rule_def sample_callback_def sample_batch_def
  sample_schedule_def sample_leader_def

lemma sample_db_simps [simp]:
  "jobs sample_db = [running_job, unique_job, grouped_job, finished_job, newer_finished_job]"
  "next_job_id sample_db = 6" "queues sample_db = [sample_queue]" "groups sample_db = [sample_group]"
  "rules sample_db = [sample_rule]" "batches sample_db = [sample_batch]" "next_batch_id sample_db = 2"
  "schedules sample_db = [sample_schedule]" "leaders sample_db = [sample_leader]"
  "stats_cache sample_db = []" "stats_computed_at sample_db = None" "notified sample_db = []"
  by (simp_all add: sample_db_def)

lemma sample_keys_ok: "keys_ok sample_db"
  by (simp add: keys_ok_def sample_row_defs)

lemma sample_counters_ok: "counters_ok sample_db"
  by (simp add: counters_ok_def counted_def running_def queue_of_def sample_row_defs)

lemma sample_batches_ok: "batches_ok sample_db"
  by (simp add: batches_ok_def outstanding_def batch_settled_def sample_row_defs)

lemma sample_ok: "db_ok sample_db"
  by (rule db_okI)
    (simp_all add: sample_keys_ok sample_counters_ok sample_batches_ok checks_ok_def conflicts_def batch_check_def
      sample_row_defs)

end
