(* ===== verification/Stats.thy ===== *)
theory Stats
  imports Samples
begin

text \<open>
  \<open>crates/eddyq-core/src/stats.rs\<close>: the histogram of jobs by queue and state, whose finished part is cached, and the
  paginated listing.

  A refresh of the cache is a transaction. \<open>before\<close> is the state its first read saw; \<open>s\<close> the state once the advisory
  lock was taken or refused, which another caller may have refreshed in between. The order in which the database returns
  the rows of a \<open>GROUP BY\<close> or of the cache does not matter: \<open>get_stats\<close> sorts them by their key.
\<close>

section \<open>Definitions\<close>

record queue_state_count =
  qs_queue :: string
  qs_state :: job_state
  qs_count :: int

type_synonym count_row = "string \<times> string \<times> int"

definition terminal_stats_ttl_secs :: int where
  "terminal_stats_ttl_secs = 60"

definition jobs_in :: "string \<Rightarrow> job_state \<Rightarrow> job list \<Rightarrow> nat" where
  "jobs_in q st js = count_if (\<lambda>j. j_queue j = q \<and> j_state j = st) js"

text \<open>\<open>SELECT queue, state, COUNT(*) ... WHERE state IN (sts) GROUP BY queue, state\<close>\<close>

definition group_count :: "job_state list \<Rightarrow> job list \<Rightarrow> count_row list" where
  "group_count sts js =
     map (\<lambda>(q, st). (q, as_str st, int (jobs_in q st js)))
       (remdups (map (\<lambda>j. (j_queue j, j_state j)) (filter (\<lambda>j. j_state j \<in> set sts) js)))"

definition snapshot_fresh :: "timestamp \<Rightarrow> db \<Rightarrow> bool option" where
  "snapshot_fresh clock s =
     (case stats_computed_at s of
        None \<Rightarrow> None
      | Some t \<Rightarrow> Some (clock - secs terminal_stats_ttl_secs < t))"

definition refresh_stats :: "timestamp \<Rightarrow> db \<Rightarrow> db" where
  "refresh_stats now s =
     s\<lparr>stats_cache := group_count [Completed, Failed, Cancelled] (jobs s), stats_computed_at := Some now\<rparr>"

text \<open>The first caller waits for the lock; later ones only try it (\<open>won\<close>).\<close>

definition terminal_counts ::
  "timestamp \<Rightarrow> timestamp \<Rightarrow> timestamp \<Rightarrow> bool \<Rightarrow> db \<Rightarrow> db \<Rightarrow> db \<times> count_row list" where
  "terminal_counts now clock1 clock2 won before s =
     (let fresh = snapshot_fresh clock1 before;
          s' = (if fresh \<noteq> Some True
                then let locked = (if fresh = None then True else won)
                     in if locked \<and> snapshot_fresh clock2 s \<noteq> Some True then refresh_stats now s else s
                else s)
      in (s', stats_cache s'))"

definition get_stats ::
  "timestamp \<Rightarrow> timestamp \<Rightarrow> timestamp \<Rightarrow> bool \<Rightarrow> db \<Rightarrow> db \<Rightarrow> db \<Rightarrow> db \<times> queue_state_count list" where
  "get_stats now clock1 clock2 won live_s before s =
     (let (s', cached) = terminal_counts now clock1 clock2 won before s;
          rows = sort_key (\<lambda>(q, st, n). (q, st)) (group_count [Pending, Running] (jobs live_s) @ cached)
      in (s', List.map_filter (\<lambda>(q, st, n).
                map_option (\<lambda>st. \<lparr>qs_queue = q, qs_state = st, qs_count = n\<rparr>) (parse_state st)) rows))"

record list_jobs_filter =
  lf_queue :: "string option"
  lf_state :: "job_state option"
  lf_kind :: "string option"
  lf_group_key :: "string option"
  lf_tag :: "string option"
  lf_id :: "job_id option"
  lf_before_created_at :: "timestamp option"

record pagination =
  pg_limit :: int
  pg_offset :: int

definition default_pagination :: pagination where
  "default_pagination = \<lparr>pg_limit = 50, pg_offset = 0\<rparr>"

record job_row =
  jr_id :: job_id
  jr_queue :: string
  jr_kind :: string
  jr_state :: string
  jr_priority :: int
  jr_attempt :: int
  jr_max_attempts :: int
  jr_scheduled_at :: timestamp
  jr_created_at :: timestamp
  jr_finalized_at :: "timestamp option"
  jr_group_key :: "string option"
  jr_tags :: "string list"
  jr_payload :: json
  jr_result :: "json option"
  jr_errors :: "json list"
  jr_metadata :: json

record job_list =
  jl_total :: int
  jl_rows :: "job_row list"

definition max_limit :: int where "max_limit = 500"

text \<open>An unset filter is no constraint; \<open>group_key = x\<close> is never true of \<open>NULL\<close>.\<close>

definition wanted :: "'a option \<Rightarrow> ('a \<Rightarrow> bool) \<Rightarrow> bool" where
  "wanted f p = (case f of None \<Rightarrow> True | Some x \<Rightarrow> p x)"

definition push_filters :: "list_jobs_filter \<Rightarrow> job \<Rightarrow> bool" where
  "push_filters f j \<longleftrightarrow>
     wanted (lf_id f) (\<lambda>i. j_id j = i) \<and>
     wanted (lf_queue f) (\<lambda>q. j_queue j = q) \<and>
     wanted (lf_state f) (\<lambda>st. as_str (j_state j) = as_str st) \<and>
     wanted (lf_kind f) (\<lambda>k. j_kind j = k) \<and>
     wanted (lf_group_key f) (\<lambda>g. j_group_key j = Some g) \<and>
     wanted (lf_tag f) (\<lambda>t. t \<in> set (j_tags j)) \<and>
     wanted (lf_before_created_at f) (\<lambda>t. j_created_at j < t)"

definition job_row_of :: "job \<Rightarrow> job_row" where
  "job_row_of j =
     \<lparr>jr_id = j_id j, jr_queue = j_queue j, jr_kind = j_kind j, jr_state = as_str (j_state j),
      jr_priority = j_priority j, jr_attempt = j_attempt j, jr_max_attempts = j_max_attempts j,
      jr_scheduled_at = j_scheduled_at j, jr_created_at = j_created_at j, jr_finalized_at = j_finalized_at j,
      jr_group_key = j_group_key j, jr_tags = j_tags j, jr_payload = j_payload j, jr_result = j_result j,
      jr_errors = j_errors j, jr_metadata = j_metadata j\<rparr>"

text \<open>The count and the page are two queries; \<open>s\<close> and \<open>s2\<close> are the states they see.\<close>

definition list_jobs :: "list_jobs_filter \<Rightarrow> pagination \<Rightarrow> db \<Rightarrow> db \<Rightarrow> job_list" where
  "list_jobs f p s s2 =
     (let limit = min (max (pg_limit p) 1) max_limit;
          offset = max (pg_offset p) 0;
          rows = sort_key (\<lambda>j. - j_id j) (filter (push_filters f) (jobs s2))
      in \<lparr>jl_total = int (count_if (push_filters f) (jobs s)),
          jl_rows = map job_row_of (take (nat limit) (drop (nat offset) rows))\<rparr>)"

section \<open>The histogram\<close>

lemma group_count_member:
  "(q, t, n) \<in> set (group_count sts js) \<longleftrightarrow>
     (\<exists>st \<in> set sts. t = as_str st \<and> n = int (jobs_in q st js) \<and> 0 < n)"
proof -
  have "(q, t, n) \<in> set (group_count sts js) \<longleftrightarrow>
      (\<exists>j \<in> set js. j_queue j = q \<and> j_state j \<in> set sts \<and> t = as_str (j_state j) \<and> n = int (jobs_in q (j_state j) js))"
    by (auto simp: group_count_def)
  also have "\<dots> \<longleftrightarrow> (\<exists>st \<in> set sts. t = as_str st \<and> n = int (jobs_in q st js) \<and> 0 < jobs_in q st js)"
    unfolding jobs_in_def count_if_pos_iff by blast
  finally show ?thesis by auto
qed

lemma as_str_inj: "as_str a = as_str b \<longleftrightarrow> a = b"
  by (metis option.inject parse_state_as_str)

lemma group_count_keys: "map (\<lambda>(q, t, n). (q, t)) (group_count sts js) =
    map (\<lambda>(q, st). (q, as_str st)) (remdups (map (\<lambda>j. (j_queue j, j_state j)) (filter (\<lambda>j. j_state j \<in> set sts) js)))"
  by (simp add: group_count_def split_beta)

lemma group_count_distinct: "distinct (map (\<lambda>(q, t, n). (q, t)) (group_count sts js))"
  unfolding group_count_keys by (auto simp: distinct_map inj_on_def as_str_inj)

text \<open>What the cache holds: one row per queue and state (its primary key), finished states only.\<close>

definition cache_ok :: "db \<Rightarrow> bool" where
  "cache_ok s \<longleftrightarrow>
     distinct (map (\<lambda>(q, t, n). (q, t)) (stats_cache s)) \<and>
     (\<forall>(q, t, n) \<in> set (stats_cache s). t \<in> as_str ` {Completed, Failed, Cancelled})"

lemma refresh_cache_ok: "cache_ok (refresh_stats now s)"
  unfolding cache_ok_def refresh_stats_def using group_count_distinct
  by (auto simp: group_count_member simp del: as_str.simps)

lemma terminal_counts_cache:
  assumes "cache_ok s"
  shows "cache_ok (fst (terminal_counts now clock1 clock2 won before s))"
    "snd (terminal_counts now clock1 clock2 won before s) = stats_cache (fst (terminal_counts now clock1 clock2 won before s))"
  using assms refresh_cache_ok by (auto simp: terminal_counts_def Let_def)

lemma terminal_counts_frame:
  "fst (terminal_counts now clock1 clock2 won before s) = s \<or>
   fst (terminal_counts now clock1 clock2 won before s) = refresh_stats now s"
  by (simp add: terminal_counts_def Let_def)

text \<open>A caller that holds the lock leaves a snapshot that is fresh by the clock it used, unless the database's own
  transaction time lies further back than that.\<close>

lemma terminal_counts_fresh:
  assumes "snapshot_fresh clock1 before \<noteq> Some True" "snapshot_fresh clock1 before = None \<or> won"
    and "clock2 - secs terminal_stats_ttl_secs < now"
  shows "snapshot_fresh clock2 (fst (terminal_counts now clock1 clock2 won before s)) = Some True"
  using assms by (auto simp: terminal_counts_def Let_def snapshot_fresh_def refresh_stats_def)


lemma sorted_distinct_keys:
  assumes "distinct (map key rows)"
  shows "sorted_wrt (<) (map key (sort_key key rows))"
  using assms by (simp add: strict_sorted_iff distinct_map_sort_key)

lemma parsed_rows:
  assumes "\<And>q t n. (q, t, n) \<in> set rows \<Longrightarrow> \<exists>st. t = as_str st"
  shows "map (\<lambda>r. (qs_queue r, as_str (qs_state r), qs_count r))
      (List.map_filter (\<lambda>(q, st, n). map_option (\<lambda>st. \<lparr>qs_queue = q, qs_state = st, qs_count = n\<rparr>) (parse_state st)) rows)
    = rows"
  using assms
proof (induction rows)
  case (Cons r rows)
  obtain q st n where r: "r = (q, as_str st, n)" using Cons.prems by (cases r) fastforce
  have "\<exists>st. t = as_str st" if "(q, t, n) \<in> set rows" for q t n using Cons.prems that by (meson list.set_intros(2))
  then show ?case using Cons.IH by (simp add: r map_filter_simps)
qed (simp add: map_filter_simps)

definition count_row_of :: "queue_state_count \<Rightarrow> count_row" where
  "count_row_of r = (qs_queue r, as_str (qs_state r), qs_count r)"

lemma count_row_of_inj: "count_row_of a = count_row_of b \<longleftrightarrow> a = b"
  by (cases a; cases b) (simp add: count_row_of_def as_str_inj)

lemma get_stats_rows:
  assumes "cache_ok s" "get_stats now clock1 clock2 won live_s before s = (s', r)"
  shows "map count_row_of r = sort_key (\<lambda>(q, st, n). (q, st)) (group_count [Pending, Running] (jobs live_s) @ stats_cache s')"
    and "cache_ok s'" "s' = s \<or> s' = refresh_stats now s"
proof -
  let ?t = "terminal_counts now clock1 clock2 won before s"
  have s': "s' = fst ?t" using assms(2) by (auto simp: get_stats_def Let_def split: prod.splits)
  then show "cache_ok s'" "s' = s \<or> s' = refresh_stats now s"
    using terminal_counts_cache(1) [OF assms(1)] terminal_counts_frame by simp_all
  have r: "r = List.map_filter (\<lambda>(q, st, n). map_option (\<lambda>st. \<lparr>qs_queue = q, qs_state = st, qs_count = n\<rparr>) (parse_state st))
      (sort_key (\<lambda>(q, st, n). (q, st)) (group_count [Pending, Running] (jobs live_s) @ stats_cache s'))"
    using assms(2) terminal_counts_cache(2) [OF assms(1)] s' by (auto simp: get_stats_def Let_def split_beta)
  show "map count_row_of r = sort_key (\<lambda>(q, st, n). (q, st)) (group_count [Pending, Running] (jobs live_s) @ stats_cache s')"
    unfolding r count_row_of_def
  proof (rule parsed_rows)
    show "\<exists>st. t = as_str st"
      if "(q, t, n) \<in> set (sort_key (\<lambda>(q, st, n). (q, st)) (group_count [Pending, Running] (jobs live_s) @ stats_cache s'))" for q t n
      using that \<open>cache_ok s'\<close> by (auto simp: group_count_member cache_ok_def simp del: as_str.simps)
  qed
qed

lemma live_keys_apart:
  assumes "cache_ok s"
  shows "distinct (map (\<lambda>(q, t, n). (q, t)) (group_count [Pending, Running] js @ stats_cache s))"
proof -
  let ?key = "\<lambda>(q::string, t::string, n::int). (q, t)"
  have "fst (snd r) \<in> as_str ` {Pending, Running}" if "r \<in> set (group_count [Pending, Running] js)" for r
    using that group_count_member [of "fst r" "fst (snd r)" "snd (snd r)"] by (auto simp del: as_str.simps)
  then have a: "t \<in> as_str ` {Pending, Running}" if "(q, t) \<in> ?key ` set (group_count [Pending, Running] js)" for q t
    using that by fastforce
  have "fst (snd r) \<in> as_str ` {Completed, Failed, Cancelled}" if "r \<in> set (stats_cache s)" for r
    using that assms unfolding cache_ok_def by (auto simp: split_beta simp del: as_str.simps)
  then have b: "t \<in> as_str ` {Completed, Failed, Cancelled}" if "(q, t) \<in> ?key ` set (stats_cache s)" for q t
    using that by fastforce
  have apart: "as_str ` {Pending, Running} \<inter> as_str ` {Completed, Failed, Cancelled} = {}" by simp
  have "k \<notin> ?key ` set (stats_cache s)" if "k \<in> ?key ` set (group_count [Pending, Running] js)" for k
    using a [of "fst k" "snd k"] b [of "fst k" "snd k"] apart that by (metis (no_types) disjoint_iff prod.collapse)
  then have "?key ` set (group_count [Pending, Running] js) \<inter> ?key ` set (stats_cache s) = {}"
    by (simp only: disjoint_iff) simp
  then show ?thesis using assms group_count_distinct by (simp add: cache_ok_def)
qed

text \<open>The histogram has one row per queue and state, in strictly increasing order of the two, and no row for a count of
  zero. The rows of pending and running jobs are exact; those of finished jobs are the cached ones, which are exact for the
  present when the call refreshes the cache, and otherwise untouched.\<close>

lemma get_stats_counts:
  assumes "cache_ok s" "get_stats now clock1 clock2 won live_s before s = (s', r)"
  shows "sorted_wrt (<) (map (\<lambda>x. (qs_queue x, as_str (qs_state x))) r) \<and>
    (\<forall>q n. \<lparr>qs_queue = q, qs_state = Pending, qs_count = n\<rparr> \<in> set r \<longleftrightarrow> n = int (jobs_in q Pending (jobs live_s)) \<and> 0 < n) \<and>
    (\<forall>q n. \<lparr>qs_queue = q, qs_state = Running, qs_count = n\<rparr> \<in> set r \<longleftrightarrow> n = int (jobs_in q Running (jobs live_s)) \<and> 0 < n) \<and>
    (\<forall>q st n. terminal st \<longrightarrow>
       (\<lparr>qs_queue = q, qs_state = st, qs_count = n\<rparr> \<in> set r \<longleftrightarrow>
        (if s' = s then (q, as_str st, n) \<in> set (stats_cache s) else n = int (jobs_in q st (jobs s)) \<and> 0 < n)))"
proof (intro conjI allI impI)
  note rows = get_stats_rows [OF assms]
  let ?rows = "group_count [Pending, Running] (jobs live_s) @ stats_cache s'"
  have "sorted_wrt (<) (map (\<lambda>(q, st, n). (q, st)) (map count_row_of r))"
    unfolding rows(1) by (rule sorted_distinct_keys) (rule live_keys_apart [OF rows(2)])
  then show "sorted_wrt (<) (map (\<lambda>x. (qs_queue x, as_str (qs_state x))) r)"
    by (simp add: comp_def count_row_of_def)
  have "x \<in> set r \<longleftrightarrow> count_row_of x \<in> set (map count_row_of r)" for x by (auto simp: count_row_of_inj)
  then have mem: "\<lparr>qs_queue = q, qs_state = st, qs_count = n\<rparr> \<in> set r \<longleftrightarrow> (q, as_str st, n) \<in> set ?rows" for q st n
    unfolding rows(1) by (simp add: count_row_of_def)
  have live: "(q, as_str st, n) \<in> set ?rows \<longleftrightarrow> n = int (jobs_in q st (jobs live_s)) \<and> 0 < n" if "st = Pending \<or> st = Running" for q st n
    using that rows(2) by (auto simp: group_count_member as_str_inj cache_ok_def simp del: as_str.simps)
  then show "\<lparr>qs_queue = q, qs_state = Pending, qs_count = n\<rparr> \<in> set r \<longleftrightarrow> n = int (jobs_in q Pending (jobs live_s)) \<and> 0 < n"
    "\<lparr>qs_queue = q, qs_state = Running, qs_count = n\<rparr> \<in> set r \<longleftrightarrow> n = int (jobs_in q Running (jobs live_s)) \<and> 0 < n" for q n
    unfolding mem by blast+
  show "\<lparr>qs_queue = q, qs_state = st, qs_count = n\<rparr> \<in> set r \<longleftrightarrow>
      (if s' = s then (q, as_str st, n) \<in> set (stats_cache s) else n = int (jobs_in q st (jobs s)) \<and> 0 < n)"
    if "terminal st" for q st n
    using that rows(3) unfolding mem
    by (auto simp: group_count_member as_str_inj refresh_stats_def terminal_def simp del: as_str.simps)
qed


section \<open>Pages\<close>

definition matching :: "list_jobs_filter \<Rightarrow> db \<Rightarrow> job_row list" where
  "matching f s = map job_row_of (sort_key (\<lambda>j. - j_id j) (filter (push_filters f) (jobs s)))"

lemma list_jobs_rows:
  "jl_rows (list_jobs f p s s2) = take (nat (min (max (pg_limit p) 1) max_limit)) (drop (nat (max (pg_offset p) 0)) (matching f s2))"
  by (simp add: list_jobs_def Let_def matching_def take_map drop_map)

lemma concat_pages:
  assumes "length xs \<le> n * l"
  shows "concat (map (\<lambda>k. take l (drop (k * l) xs)) [0..<n]) = xs"
proof -
  have "concat (map (\<lambda>k. take l (drop (k * l) xs)) [0..<m]) = take (m * l) xs" for m
    by (induction m) (simp_all add: take_add [symmetric] add.commute)
  then show ?thesis using assms by simp
qed

text \<open>A listing is newest first, its pages have between one row and five hundred whatever limit is asked for, and
  consecutive pages of an unchanging table show every job that matches the filter exactly once, in order of falling id.\<close>

lemma list_jobs_pages:
  assumes "1 \<le> l" "l \<le> 500" "length (matching f s) \<le> n * l"
  shows "concat (map (\<lambda>k. jl_rows (list_jobs f \<lparr>pg_limit = int l, pg_offset = int (k * l)\<rparr> s s)) [0..<n]) = matching f s \<and>
    jl_total (list_jobs f p s s) = int (length (matching f s)) \<and>
    length (jl_rows (list_jobs f p s s)) \<le> 500 \<and>
    set (matching f s) = job_row_of ` {j \<in> set (jobs s). push_filters f j} \<and>
    sorted_wrt (\<ge>) (map jr_id (matching f s))"
proof (intro conjI)
  have "jl_rows (list_jobs f \<lparr>pg_limit = int l, pg_offset = int (k * l)\<rparr> s s) = take l (drop (k * l) (matching f s))" for k
    using assms(1,2) by (simp add: list_jobs_rows max_limit_def del: of_nat_mult)
  then show "concat (map (\<lambda>k. jl_rows (list_jobs f \<lparr>pg_limit = int l, pg_offset = int (k * l)\<rparr> s s)) [0..<n]) = matching f s"
    using concat_pages [OF assms(3)] by simp
  show "jl_total (list_jobs f p s s) = int (length (matching f s))"
    by (simp add: list_jobs_def Let_def matching_def count_if_def)
  show "length (jl_rows (list_jobs f p s s)) \<le> 500" by (simp add: list_jobs_rows max_limit_def)
  show "set (matching f s) = job_row_of ` {j \<in> set (jobs s). push_filters f j}" by (auto simp: matching_def)
  have "sorted (map (\<lambda>j. - j_id j) (sort_key (\<lambda>j. - j_id j) (filter (push_filters f) (jobs s))))" by (rule sorted_sort_key)
  then show "sorted_wrt (\<ge>) (map jr_id (matching f s))"
    by (simp add: matching_def job_row_of_def sorted_wrt_map comp_def)
qed


end
