(* ===== verification/Migrate.thy ===== *)
theory Migrate
  imports Jobs "HOL-Library.Sublist"
begin

text \<open>
  \<open>crates/eddyq-core/src/migrate.rs\<close>: the migration runner. The effect of a migration's SQL is the
  parameter \<open>exec\<close>, a function of the version and the direction on the schema; it may fail. Each
  migration runs in its own transaction, so a failure keeps the ones before it. Advisory-lock keys are
  64-bit FNV-1a hashes.
\<close>

section \<open>Data\<close>

datatype direction = Up | Down

record migration =
  m_version :: int
  m_name :: string

definition migrations :: "migration list" where
  "migrations =
     [\<lparr>m_version = 20260421000001, m_name = ''init''\<rparr>,
      \<lparr>m_version = 20260509000001, m_name = ''batches''\<rparr>,
      \<lparr>m_version = 20260511000001, m_name = ''schedule_intervals''\<rparr>,
      \<lparr>m_version = 20260518000001, m_name = ''stalled_count''\<rparr>,
      \<lparr>m_version = 20260701000001, m_name = ''hot_row_fillfactor''\<rparr>,
      \<lparr>m_version = 20261028000001, m_name = ''stats_cache''\<rparr>,
      \<lparr>m_version = 20261028000002, m_name = ''group_queue_index''\<rparr>]"

record applied_row =
  a_line :: string
  a_version :: int
  a_name :: string
  a_applied_at :: timestamp

record 's mig_state =
  applied :: "applied_row list"
  schema :: 's

record migrate_report =
  mr_applied :: "(int \<times> string) list"
  mr_rolled_back :: "(int \<times> string) list"

type_synonym 's exec = "int \<Rightarrow> direction \<Rightarrow> 's \<Rightarrow> error + 's"

section \<open>Advisory-lock keys\<close>

definition fnv_offset :: "64 word" where "fnv_offset = 0xcbf29ce484222325"
definition fnv_prime :: "64 word" where "fnv_prime = 0x100000001B3"

definition fnv_step :: "64 word \<Rightarrow> char \<Rightarrow> 64 word" where
  "fnv_step hash byte = (xor hash (of_nat (of_char byte))) * fnv_prime"

definition advisory_key :: "string \<Rightarrow> int" where
  "advisory_key line = sint (foldl fnv_step (foldl fnv_step fnv_offset ''eddyq::migrate::'') line)"

definition stats_lock_key :: int where
  "stats_lock_key = sint (foldl fnv_step fnv_offset ''eddyq::stats'')"

definition scheduler_lock_key :: int where
  "scheduler_lock_key = sint (0x6564647971736368 :: 64 word)"

section \<open>The runner\<close>

definition list_applied :: "string \<Rightarrow> 's mig_state \<Rightarrow> applied_row list" where
  "list_applied line s = sort_key a_version (filter (\<lambda>r. a_line r = line) (applied s))"

text \<open>The loop of \<open>up\<close>; \<open>done_versions\<close> was read before it. An insert of a row that exists violates the primary key.\<close>

fun up_loop ::
  "'s exec \<Rightarrow> timestamp \<Rightarrow> string \<Rightarrow> int set \<Rightarrow> migration list \<Rightarrow> 's mig_state
     \<Rightarrow> 's mig_state \<times> (int \<times> string) list \<times> error option" where
  "up_loop exec now line done_versions [] s = (s, [], None)"
| "up_loop exec now line done_versions (m # ms) s =
     (if m_version m \<in> done_versions then up_loop exec now line done_versions ms s
      else case exec (m_version m) Up (schema s) of
             Inl err \<Rightarrow> (s, [], Some err)
           | Inr sch \<Rightarrow>
               if (line, m_version m) \<in> (\<lambda>r. (a_line r, a_version r)) ` set (applied s)
               then (s, [], Some (Database ''_eddyq_migrations_pkey''))
               else case up_loop exec now line done_versions ms
                           (s\<lparr>schema := sch,
                              applied := applied s @ [\<lparr>a_line = line, a_version = m_version m, a_name = m_name m, a_applied_at = now\<rparr>]\<rparr>) of
                      (s', reps, e) \<Rightarrow> (s', (m_version m, m_name m) # reps, e))"

definition up :: "'s exec \<Rightarrow> timestamp \<Rightarrow> string \<Rightarrow> 's mig_state \<Rightarrow> 's mig_state \<times> migrate_report res" where
  "up exec now line s =
     (let done_versions = a_version ` set (list_applied line s) in
      case up_loop exec now line done_versions migrations s of
        (s', reps, Some err) \<Rightarrow> (s', Inl err)
      | (s', reps, None) \<Rightarrow> (s', Inr \<lparr>mr_applied = reps, mr_rolled_back = []\<rparr>))"

definition find_migration :: "int \<Rightarrow> migration option" where
  "find_migration v = find (\<lambda>m. m_version m = v) migrations"

fun down_loop ::
  "'s exec \<Rightarrow> string \<Rightarrow> applied_row list \<Rightarrow> 's mig_state \<Rightarrow> 's mig_state \<times> (int \<times> string) list \<times> error option" where
  "down_loop exec line [] s = (s, [], None)"
| "down_loop exec line (r # rs) s =
     (case find_migration (a_version r) of
        None \<Rightarrow> down_loop exec line rs s
      | Some m \<Rightarrow>
          (case exec (m_version m) Down (schema s) of
             Inl err \<Rightarrow> (s, [], Some err)
           | Inr sch \<Rightarrow>
               (case down_loop exec line rs
                       (s\<lparr>schema := sch,
                          applied := delete_where (\<lambda>x. a_line x = line \<and> a_version x = m_version m) (applied s)\<rparr>) of
                  (s', reps, e) \<Rightarrow> (s', (m_version m, m_name m) # reps, e))))"

definition down :: "'s exec \<Rightarrow> string \<Rightarrow> nat \<Rightarrow> 's mig_state \<Rightarrow> 's mig_state \<times> migrate_report res" where
  "down exec line max_steps s =
     (case down_loop exec line (take max_steps (sort_key (\<lambda>r. - a_version r) (list_applied line s))) s of
        (s', reps, Some err) \<Rightarrow> (s', Inl err)
      | (s', reps, None) \<Rightarrow> (s', Inr \<lparr>mr_applied = [], mr_rolled_back = reps\<rparr>))"

text \<open>One entry per registered version, with the time it was applied.\<close>

definition status :: "string \<Rightarrow> 's mig_state \<Rightarrow> (int \<times> string \<times> timestamp option) list" where
  "status line s =
     (let applied_at = map_of (map (\<lambda>r. (a_version r, a_applied_at r)) (rev (list_applied line s)))
      in map (\<lambda>m. (m_version m, m_name m, applied_at (m_version m))) migrations)"

definition list_lines :: "'s mig_state \<Rightarrow> string list" where
  "list_lines s = sorted_list_of_set (a_line ` set (applied s))"

definition get_sql :: "(int \<Rightarrow> direction \<Rightarrow> string) \<Rightarrow> int \<Rightarrow> direction \<Rightarrow> string option" where
  "get_sql sql v dir = map_option (\<lambda>m. sql (m_version m) dir) (find_migration v)"

section \<open>Facts\<close>

lemma migrations_sorted: "sorted_wrt (<) (map m_version migrations)"
  by (simp add: migrations_def)

lemma migrations_distinct: "distinct (map m_version migrations)"
  using migrations_sorted by (simp add: strict_sorted_iff)

definition versions :: "string \<Rightarrow> 's mig_state \<Rightarrow> int set" where
  "versions line s = {v. \<exists>r \<in> set (applied s). a_line r = line \<and> a_version r = v}"

lemma versions_eq: "versions line s = a_version ` {r \<in> set (applied s). a_line r = line}"
  by (auto simp: versions_def)

lemma list_applied_versions: "a_version ` set (list_applied line s) = versions line s"
  by (auto simp: list_applied_def versions_def)

lemma versions_pk: "(line, v) \<in> (\<lambda>r. (a_line r, a_version r)) ` set (applied s) \<longleftrightarrow> v \<in> versions line s"
  by (auto simp: versions_def)

definition tracking_ok :: "'s mig_state \<Rightarrow> bool" where
  "tracking_ok s \<longleftrightarrow> distinct (map (\<lambda>r. (a_line r, a_version r)) (applied s))"

text \<open>What the loop leaves behind: the versions it reports are added, in order, and nothing else changes in
  the tracking table; without an error all given versions are present.\<close>

definition record_migration :: "timestamp \<Rightarrow> string \<Rightarrow> migration \<Rightarrow> applied_row" where
  "record_migration now line m = \<lparr>a_line = line, a_version = m_version m, a_name = m_name m, a_applied_at = now\<rparr>"

definition pending :: "int set \<Rightarrow> migration list \<Rightarrow> migration list" where
  "pending dn ms = filter (\<lambda>m. m_version m \<notin> dn) ms"

lemma up_loop_pending: "up_loop exec now line dn ms s = up_loop exec now line {} (pending dn ms) s"
  by (induction ms arbitrary: s) (auto simp: pending_def split: sum.splits)

lemma up_loop_prefix:
  assumes "up_loop exec now line {} ms s = (s', reps, e)" "distinct (map m_version ms)"
    and "m_version ` set ms \<inter> versions line s = {}"
  shows "\<exists>k. applied s' = applied s @ map (record_migration now line) (take k ms)
    \<and> reps = map (\<lambda>m. (m_version m, m_name m)) (take k ms)
    \<and> (case e of None \<Rightarrow> take k ms = ms
         | Some err \<Rightarrow> k < length ms \<and> exec (m_version (ms ! k)) Up (schema s') = Inl err)"
  using assms
proof (induction ms arbitrary: s s' reps)
  case Nil
  then show ?case by simp
next
  case (Cons m ms)
  show ?case
  proof (cases "exec (m_version m) Up (schema s)")
    case (Inl err)
    with Cons.prems(1) show ?thesis by (intro exI [of _ 0]) auto
  next
    case (Inr sch)
    let ?s = "s\<lparr>schema := sch, applied := applied s @ [record_migration now line m]\<rparr>"
    have nv: "m_version m \<notin> versions line s" using Cons.prems(3) by auto
    obtain reps' where r: "up_loop exec now line {} ms ?s = (s', reps', e)"
        and reps: "reps = (m_version m, m_name m) # reps'"
      using Cons.prems(1) Inr nv by (auto simp: versions_pk record_migration_def split: prod.splits)
    have "m_version ` set ms \<inter> versions line ?s = {}"
      using Cons.prems(2,3) by (auto simp: versions_def record_migration_def)
    with Cons.IH [OF r] Cons.prems(2) obtain k where k:
        "applied s' = applied ?s @ map (record_migration now line) (take k ms)"
        "reps' = map (\<lambda>m. (m_version m, m_name m)) (take k ms)" 
        "case e of None \<Rightarrow> take k ms = ms
         | Some err \<Rightarrow> k < length ms \<and> exec (m_version (ms ! k)) Up (schema s') = Inl err" by auto
    then show ?thesis using reps by (intro exI [of _ "Suc k"]) (auto split: option.splits)
  qed
qed

lemma pending_distinct: "distinct (map m_version (pending dn migrations))"
  using migrations_distinct by (simp add: pending_def distinct_map_filter)

text \<open>\<open>up\<close> records exactly the pending migrations on success, and on a failure exactly those before the
  one that failed.\<close>

lemma up_prefix:
  assumes "up exec now line s = (s', r)" "ps = pending (versions line s) migrations"
  shows "case r of
      Inr rep \<Rightarrow> applied s' = applied s @ map (record_migration now line) ps
        \<and> rep = \<lparr>mr_applied = map (\<lambda>m. (m_version m, m_name m)) ps, mr_rolled_back = []\<rparr>
    | Inl err \<Rightarrow> \<exists>k < length ps. applied s' = applied s @ map (record_migration now line) (take k ps)
        \<and> exec (m_version (ps ! k)) Up (schema s') = Inl err"
proof -
  obtain s'' reps e where u: "up_loop exec now line {} ps s = (s'', reps, e)" by (metis prod_cases3)
  have "m_version ` set ps \<inter> versions line s = {}" by (auto simp: assms(2) pending_def)
  from up_loop_prefix [OF u _ this] pending_distinct assms(2) obtain k where
    "applied s'' = applied s @ map (record_migration now line) (take k ps)"
    "reps = map (\<lambda>m. (m_version m, m_name m)) (take k ps)"
    "case e of None \<Rightarrow> take k ps = ps
       | Some err \<Rightarrow> k < length ps \<and> exec (m_version (ps ! k)) Up (schema s'') = Inl err" by auto
  moreover have "up exec now line s = (case (s'', reps, e) of
      (s', reps, Some err) \<Rightarrow> (s', Inl err)
    | (s', reps, None) \<Rightarrow> (s', Inr \<lparr>mr_applied = reps, mr_rolled_back = []\<rparr>))"
    unfolding up_def Let_def list_applied_versions up_loop_pending [of _ _ _ "versions line s"]
      assms(2) [symmetric] u ..
  ultimately show ?thesis using assms(1) by (cases e) auto
qed

lemma versions_recorded:
  assumes "applied s' = applied s @ map (record_migration now line) ms"
  shows "versions line s' = versions line s \<union> m_version ` set ms"
    "\<And>line'. line' \<noteq> line \<Longrightarrow> versions line' s' = versions line' s"
proof -
  have rec: "a_line (record_migration now line m) = line" "a_version (record_migration now line m) = m_version m" for m
    by (simp_all add: record_migration_def)
  show "versions line s' = versions line s \<union> m_version ` set ms"
    unfolding versions_def assms by (auto simp: rec bex_Un)
  show "versions line' s' = versions line' s" if "line' \<noteq> line" for line'
    using that rec unfolding versions_def assms by auto
qed

lemma up_all_applied:
  assumes "up exec now line s = (s', Inr rep)"
  shows "pending (versions line s') migrations = []"
proof -
  have "applied s' = applied s @ map (record_migration now line) (pending (versions line s) migrations)"
    using up_prefix [OF assms refl] by simp
  from versions_recorded(1) [OF this] show ?thesis by (auto simp: pending_def filter_empty_conv)
qed

lemma up_idempotent:
  assumes "up exec now line s = (s', Inr rep)"
  shows "up exec' now' line s' = (s', Inr \<lparr>mr_applied = [], mr_rolled_back = []\<rparr>)"
  using up_all_applied [OF assms] by (simp add: up_def list_applied_versions up_loop_pending [of _ _ _ "versions line s'"])

text \<open>The status list shows a version as applied exactly when the tracking table has it.\<close>

lemma status_versions:
  "map (\<lambda>(v, n, t). (v, n, t \<noteq> None)) (status line s) = map (\<lambda>m. (m_version m, m_name m, m_version m \<in> versions line s)) migrations"
proof -
  let ?r = "rev (list_applied line s)"
  have "map_of (map (\<lambda>r. (a_version r, a_applied_at r)) ?r) v \<noteq> None \<longleftrightarrow> v \<in> versions line s" for v
    unfolding map_of_eq_None_iff list_applied_versions [symmetric] by (simp add: image_image)
  then show ?thesis unfolding status_def Let_def by simp
qed

text \<open>\<open>down\<close> forgets what it reports, newest first.\<close>

lemma down_loop_versions:
  assumes "down_loop exec line rs s = (s', reps, e)"
  shows "versions line s' = versions line s - fst ` set reps"
    "\<And>line'. line' \<noteq> line \<Longrightarrow> versions line' s' = versions line' s"
    "subseq (map fst reps) (map a_version rs)"
  using assms
proof (atomize (full), induction rs arbitrary: s s' reps)
  case Nil
  then show ?case by auto
next
  case (Cons r rs)
  show ?case
  proof (cases "find_migration (a_version r)")
    case None
    with Cons.IH Cons.prems show ?thesis by (auto simp: list_emb_Cons)
  next
    case (Some m)
    then have v: "m_version m = a_version r" by (auto simp: find_migration_def find_Some_iff)
    show ?thesis
    proof (cases "exec (m_version m) Down (schema s)")
      case (Inl err)
      with Cons.prems Some show ?thesis by auto
    next
      case (Inr sch)
      let ?s = "s\<lparr>schema := sch, applied := delete_where (\<lambda>x. a_line x = line \<and> a_version x = m_version m) (applied s)\<rparr>"
      obtain reps' where r: "down_loop exec line rs ?s = (s', reps', e)" and reps: "reps = (m_version m, m_name m) # reps'"
        using Cons.prems Some Inr by (auto split: prod.splits)
      have "versions line ?s = versions line s - {m_version m}" "\<And>l. l \<noteq> line \<Longrightarrow> versions l ?s = versions l s"
        by (auto simp: versions_def delete_where_def)
      with Cons.IH [OF r] show ?thesis using reps v by auto
    qed
  qed
qed

end
