(* ===== verification/Backend.thy ===== *)
theory Backend
  imports Claim Settle Cleanup Schedules Leadership Stats Migrate
begin

text \<open>
  The interface between the runtime and a store: the trait \<open>Backend\<close> of \<open>crates/eddyq-core/src/backend/mod.rs\<close> as a
  record of operations on a state \<open>'s\<close>, and \<open>PgBackend\<close> of \<open>backend/pg.rs\<close>, whose methods delegate to the modules
  of this development.

  What a call to the database does besides the state it finds is in a record \<open>pg_ctx\<close>: the clocks, the choices of the
  claim and of the sorts, the answer of the advisory locks, the cron crate. \<open>pc_down\<close> is the error of a connection that
  could not be had or was lost before anything was committed; then the call changes nothing.
\<close>

section \<open>The trait\<close>

record backend_caps =
  bc_name :: string
  bc_transactional_enqueue :: bool
  bc_migrations :: bool
  bc_fast_wakeup :: bool
  bc_cancel_running :: bool
  bc_priority_range :: "int \<times> int"
  bc_cluster_safe :: bool

record 's backend =
  be_caps :: backend_caps
  be_enqueue :: "dyn_enqueue \<Rightarrow> 's \<Rightarrow> 's \<times> enqueue_result res"
  be_enqueue_many :: "dyn_enqueue list \<Rightarrow> 's \<Rightarrow> 's \<times> bulk_enqueue_result res"
  be_claim_batch :: "uuid \<Rightarrow> nat \<Rightarrow> string list \<Rightarrow> string list \<Rightarrow> 's \<Rightarrow> 's \<times> claimed_job list res"
  be_update_heartbeat_batch :: "job_id list \<Rightarrow> 's \<Rightarrow> 's \<times> nat res"
  be_mark_completed :: "job_id \<Rightarrow> uuid \<Rightarrow> json option \<Rightarrow> 's \<Rightarrow> 's \<times> unit res"
  be_mark_failed :: "job_id \<Rightarrow> uuid \<Rightarrow> json \<Rightarrow> timestamp option \<Rightarrow> 's \<Rightarrow> 's \<times> unit res"
  be_sweep_stale :: "duration \<Rightarrow> 's \<Rightarrow> 's \<times> nat res"
  be_reconcile_counters :: "'s \<Rightarrow> 's \<times> (nat \<times> nat) res"
  be_cleanup :: "retention \<Rightarrow> 's \<Rightarrow> 's \<times> (nat \<times> nat \<times> nat \<times> nat) res"
  be_clean :: "duration \<Rightarrow> nat \<Rightarrow> clean_state \<Rightarrow> 's \<Rightarrow> 's \<times> nat res"
  be_reclaim_in_flight :: "job_id list \<Rightarrow> 's \<Rightarrow> 's \<times> nat res"
  be_leader_try_elect :: "uuid \<Rightarrow> string \<Rightarrow> nat \<Rightarrow> 's \<Rightarrow> 's \<times> bool res"
  be_leader_resign :: "uuid \<Rightarrow> string \<Rightarrow> 's \<Rightarrow> 's \<times> unit res"
  be_upsert_schedule_raw :: "schedule_declaration \<Rightarrow> 's \<Rightarrow> 's \<times> unit res"
  be_upsert_interval_schedule_raw :: "string \<Rightarrow> int \<Rightarrow> string \<Rightarrow> json \<Rightarrow> int \<Rightarrow> int \<Rightarrow> string \<Rightarrow> 's \<Rightarrow> 's \<times> unit res"
  be_remove_schedule :: "string \<Rightarrow> 's \<Rightarrow> 's \<times> bool res"
  be_set_schedule_enabled :: "string \<Rightarrow> bool \<Rightarrow> 's \<Rightarrow> 's \<times> bool res"
  be_list_schedules :: "'s \<Rightarrow> 's \<times> schedule list res"
  be_sync_schedules :: "schedule_declaration list \<Rightarrow> 's \<Rightarrow> 's \<times> sync_report res"
  be_schedule_tick :: "'s \<Rightarrow> 's \<times> nat res"
  be_group_set_concurrency :: "string \<Rightarrow> int \<Rightarrow> 's \<Rightarrow> 's \<times> unit res"
  be_group_set_paused :: "string \<Rightarrow> bool \<Rightarrow> 's \<Rightarrow> 's \<times> unit res"
  be_group_get :: "string \<Rightarrow> 's \<Rightarrow> 's \<times> group option res"
  be_group_list :: "'s \<Rightarrow> 's \<times> group list res"
  be_group_set_rate :: "string \<Rightarrow> nat \<Rightarrow> duration \<Rightarrow> 's \<Rightarrow> 's \<times> unit res"
  be_group_clear_rate :: "string \<Rightarrow> 's \<Rightarrow> 's \<times> unit res"
  be_group_set_rule :: "string \<Rightarrow> group_rule \<Rightarrow> 's \<Rightarrow> 's \<times> unit res"
  be_group_remove_rule :: "string \<Rightarrow> 's \<Rightarrow> 's \<times> bool res"
  be_group_list_rules :: "'s \<Rightarrow> 's \<times> stored_rule list res"
  be_queue_set_concurrency :: "string \<Rightarrow> int \<Rightarrow> 's \<Rightarrow> 's \<times> unit res"
  be_queue_set_paused :: "string \<Rightarrow> bool \<Rightarrow> 's \<Rightarrow> 's \<times> unit res"
  be_queue_get :: "string \<Rightarrow> 's \<Rightarrow> 's \<times> named_queue option res"
  be_queue_list :: "'s \<Rightarrow> 's \<times> named_queue list res"
  be_queue_set_timeout :: "string \<Rightarrow> duration option \<Rightarrow> 's \<Rightarrow> 's \<times> unit res"
  be_get_stats :: "'s \<Rightarrow> 's \<times> queue_state_count list res"
  be_list_jobs :: "list_jobs_filter \<Rightarrow> pagination \<Rightarrow> 's \<Rightarrow> 's \<times> job_list res"
  be_cancel :: "job_id \<Rightarrow> 's \<Rightarrow> 's \<times> bool res"

text \<open>The default methods of the trait.\<close>

definition default_reconcile_counters :: "'s \<Rightarrow> 's \<times> (nat \<times> nat) res" where
  "default_reconcile_counters s = (s, Inr (0, 0))"

definition default_upsert_interval_schedule_raw ::
  "string \<Rightarrow> int \<Rightarrow> string \<Rightarrow> json \<Rightarrow> int \<Rightarrow> int \<Rightarrow> string \<Rightarrow> 's \<Rightarrow> 's \<times> unit res" where
  "default_upsert_interval_schedule_raw name interval_ms kind payload priority max_attempts queue s =
     (s, Inl (Unsupported ''upsert_interval_schedule_raw not supported by this backend''))"

section \<open>The Postgres backend\<close>

record pg_ctx =
  pc_down :: "error option"
  pc_env :: env
  pc_claim :: claim_env
  pc_entry_clock :: json
  pc_cron :: cron_crate
  pc_job_scan :: "job list \<Rightarrow> job list"
  pc_batch_scan :: "batch list \<Rightarrow> batch list"
  pc_due_scan :: "schedule list \<Rightarrow> schedule list"
  pc_got_lock :: bool
  pc_tick_clocks :: "string \<Rightarrow> timestamp"
  pc_stats_clock1 :: timestamp
  pc_stats_clock2 :: timestamp
  pc_stats_won :: bool
  pc_stats_live :: "db \<Rightarrow> db"
  pc_stats_before :: "db \<Rightarrow> db"
  pc_list_before :: "db \<Rightarrow> db"

definition over_pool :: "pg_ctx \<Rightarrow> 'a conn \<Rightarrow> 'a conn" where
  "over_pool p f s = (case pc_down p of Some err \<Rightarrow> (s, Inl err) | None \<Rightarrow> f s)"

definition fine :: "(db \<Rightarrow> db \<times> 'a) \<Rightarrow> 'a conn" where
  "fine f s = (case f s of (s', a) \<Rightarrow> (s', Inr a))"

definition done_by :: "(db \<Rightarrow> db) \<Rightarrow> unit conn" where
  "done_by f s = (f s, Inr ())"

definition reading :: "(db \<Rightarrow> 'a) \<Rightarrow> 'a conn" where
  "reading f s = (s, Inr (f s))"

definition pg_caps :: backend_caps where
  "pg_caps = \<lparr>bc_name = ''postgres'', bc_transactional_enqueue = True, bc_migrations = True, bc_fast_wakeup = True,
     bc_cancel_running = True, bc_priority_range = (i16_min, i16_max), bc_cluster_safe = False\<rparr>"

definition pg_enqueue :: "pg_ctx \<Rightarrow> dyn_enqueue \<Rightarrow> enqueue_result conn" where
  "pg_enqueue p req = over_pool p (enqueue_dyn (pc_env p) req)"

definition pg_enqueue_many :: "pg_ctx \<Rightarrow> dyn_enqueue list \<Rightarrow> bulk_enqueue_result conn" where
  "pg_enqueue_many p reqs = over_pool p (enqueue_many_dyn (pc_env p) reqs)"

definition pg_claim_batch :: "pg_ctx \<Rightarrow> uuid \<Rightarrow> nat \<Rightarrow> string list \<Rightarrow> string list \<Rightarrow> claimed_job list conn" where
  "pg_claim_batch p worker_id batch_size kinds qs =
     over_pool p (fine (claim_batch (pc_claim p) worker_id batch_size kinds qs))"

definition pg_update_heartbeat_batch :: "pg_ctx \<Rightarrow> job_id list \<Rightarrow> nat conn" where
  "pg_update_heartbeat_batch p ids = over_pool p (fine (update_heartbeat_batch (e_now (pc_env p)) ids))"

definition pg_mark_completed :: "pg_ctx \<Rightarrow> job_id \<Rightarrow> uuid \<Rightarrow> json option \<Rightarrow> unit conn" where
  "pg_mark_completed p i worker_id result = over_pool p (mark_completed (pc_env p) i worker_id result)"

definition pg_mark_failed :: "pg_ctx \<Rightarrow> job_id \<Rightarrow> uuid \<Rightarrow> json \<Rightarrow> timestamp option \<Rightarrow> unit conn" where
  "pg_mark_failed p i worker_id entry retry_at = over_pool p (mark_failed (pc_env p) i worker_id entry retry_at)"

definition pg_sweep_stale :: "pg_ctx \<Rightarrow> duration \<Rightarrow> nat conn" where
  "pg_sweep_stale p stale_after = over_pool p (sweep_stale (pc_env p) (pc_entry_clock p) stale_after)"

definition pg_reconcile_counters :: "pg_ctx \<Rightarrow> (nat \<times> nat) conn" where
  "pg_reconcile_counters p = over_pool p (fine (reconcile_counters (e_now (pc_env p))))"

definition pg_cleanup :: "pg_ctx \<Rightarrow> retention \<Rightarrow> (nat \<times> nat \<times> nat \<times> nat) conn" where
  "pg_cleanup p r = over_pool p (fine (cleanup (pc_job_scan p) (pc_batch_scan p) (e_now (pc_env p)) r))"

definition pg_clean :: "pg_ctx \<Rightarrow> duration \<Rightarrow> nat \<Rightarrow> clean_state \<Rightarrow> nat conn" where
  "pg_clean p grace limit st =
     over_pool p (fine (clean_jobs (pc_job_scan p) (e_now (pc_env p)) (clean_job_state st) (as_secs grace) limit))"

definition pg_reclaim_in_flight :: "pg_ctx \<Rightarrow> job_id list \<Rightarrow> nat conn" where
  "pg_reclaim_in_flight p ids = over_pool p (reclaim_in_flight (pc_env p) (pc_entry_clock p) ids)"

definition pg_leader_try_elect :: "pg_ctx \<Rightarrow> uuid \<Rightarrow> string \<Rightarrow> nat \<Rightarrow> bool conn" where
  "pg_leader_try_elect p worker_id role lease_secs =
     over_pool p (fine (try_elect (e_now (pc_env p)) worker_id role lease_secs))"

definition pg_leader_resign :: "pg_ctx \<Rightarrow> uuid \<Rightarrow> string \<Rightarrow> unit conn" where
  "pg_leader_resign p worker_id role = over_pool p (done_by (resign (e_now (pc_env p)) worker_id role))"

definition pg_upsert_schedule_raw :: "pg_ctx \<Rightarrow> schedule_declaration \<Rightarrow> unit conn" where
  "pg_upsert_schedule_raw p d = over_pool p (upsert_schedule_raw (pc_cron p) (e_utc (pc_env p)) d)"

definition pg_upsert_interval_schedule_raw ::
  "pg_ctx \<Rightarrow> string \<Rightarrow> int \<Rightarrow> string \<Rightarrow> json \<Rightarrow> int \<Rightarrow> int \<Rightarrow> string \<Rightarrow> unit conn" where
  "pg_upsert_interval_schedule_raw p name interval_ms kind payload priority max_attempts queue =
     over_pool p (upsert_interval_schedule_raw (e_utc (pc_env p)) name interval_ms kind payload priority max_attempts queue)"

definition pg_remove_schedule :: "pg_ctx \<Rightarrow> string \<Rightarrow> bool conn" where
  "pg_remove_schedule p name = over_pool p (fine (remove_schedule name))"

definition pg_set_schedule_enabled :: "pg_ctx \<Rightarrow> string \<Rightarrow> bool \<Rightarrow> bool conn" where
  "pg_set_schedule_enabled p name enabled = over_pool p (fine (set_enabled name enabled))"

definition pg_list_schedules :: "pg_ctx \<Rightarrow> schedule list conn" where
  "pg_list_schedules p = over_pool p (reading list_schedules)"

definition pg_sync_schedules :: "pg_ctx \<Rightarrow> schedule_declaration list \<Rightarrow> sync_report conn" where
  "pg_sync_schedules p declared = over_pool p (sync_schedules (pc_cron p) (e_utc (pc_env p)) declared)"

definition pg_schedule_tick :: "pg_ctx \<Rightarrow> nat conn" where
  "pg_schedule_tick p =
     over_pool p (tick (pc_cron p) (pc_due_scan p) (pc_got_lock p) (e_now (pc_env p)) (pc_tick_clocks p))"

definition pg_group_set_concurrency :: "pg_ctx \<Rightarrow> string \<Rightarrow> int \<Rightarrow> unit conn" where
  "pg_group_set_concurrency p k mx = over_pool p (done_by (group_set_concurrency (e_now (pc_env p)) k mx))"

definition pg_group_set_paused :: "pg_ctx \<Rightarrow> string \<Rightarrow> bool \<Rightarrow> unit conn" where
  "pg_group_set_paused p k paused = over_pool p (done_by (group_set_paused (e_now (pc_env p)) k paused))"

definition pg_group_get :: "pg_ctx \<Rightarrow> string \<Rightarrow> group option conn" where
  "pg_group_get p k = over_pool p (reading (group_get k))"

definition pg_group_list :: "pg_ctx \<Rightarrow> group list conn" where
  "pg_group_list p = over_pool p (reading group_list)"

definition pg_group_set_rate :: "pg_ctx \<Rightarrow> string \<Rightarrow> nat \<Rightarrow> duration \<Rightarrow> unit conn" where
  "pg_group_set_rate p k n period = over_pool p (group_set_rate (e_now (pc_env p)) k n period)"

definition pg_group_clear_rate :: "pg_ctx \<Rightarrow> string \<Rightarrow> unit conn" where
  "pg_group_clear_rate p k = over_pool p (done_by (group_clear_rate (e_now (pc_env p)) k))"

definition pg_group_set_rule :: "pg_ctx \<Rightarrow> string \<Rightarrow> group_rule \<Rightarrow> unit conn" where
  "pg_group_set_rule p pattern rule = over_pool p (set_rule (e_now (pc_env p)) pattern rule)"

definition pg_group_remove_rule :: "pg_ctx \<Rightarrow> string \<Rightarrow> bool conn" where
  "pg_group_remove_rule p pattern = over_pool p (fine (remove_rule pattern))"

definition pg_group_list_rules :: "pg_ctx \<Rightarrow> stored_rule list conn" where
  "pg_group_list_rules p = over_pool p (reading list_rules)"

definition pg_queue_set_concurrency :: "pg_ctx \<Rightarrow> string \<Rightarrow> int \<Rightarrow> unit conn" where
  "pg_queue_set_concurrency p name mx = over_pool p (done_by (queue_set_concurrency (e_now (pc_env p)) name mx))"

definition pg_queue_set_paused :: "pg_ctx \<Rightarrow> string \<Rightarrow> bool \<Rightarrow> unit conn" where
  "pg_queue_set_paused p name paused = over_pool p (done_by (queue_set_paused (e_now (pc_env p)) name paused))"

definition pg_queue_get :: "pg_ctx \<Rightarrow> string \<Rightarrow> named_queue option conn" where
  "pg_queue_get p name = over_pool p (reading (queue_get name))"

definition pg_queue_list :: "pg_ctx \<Rightarrow> named_queue list conn" where
  "pg_queue_list p = over_pool p (reading queue_list)"

definition pg_queue_set_timeout :: "pg_ctx \<Rightarrow> string \<Rightarrow> duration option \<Rightarrow> unit conn" where
  "pg_queue_set_timeout p name t = over_pool p (done_by (queue_set_timeout (e_now (pc_env p)) name t))"

definition pg_get_stats :: "pg_ctx \<Rightarrow> queue_state_count list conn" where
  "pg_get_stats p =
     over_pool p (fine (\<lambda>s. get_stats (e_now (pc_env p)) (pc_stats_clock1 p) (pc_stats_clock2 p) (pc_stats_won p)
       (pc_stats_live p s) (pc_stats_before p s) s))"

definition pg_list_jobs :: "pg_ctx \<Rightarrow> list_jobs_filter \<Rightarrow> pagination \<Rightarrow> job_list conn" where
  "pg_list_jobs p f pn = over_pool p (reading (\<lambda>s. list_jobs f pn (pc_list_before p s) s))"

definition pg_cancel :: "pg_ctx \<Rightarrow> job_id \<Rightarrow> bool conn" where
  "pg_cancel p i = over_pool p (cancel (pc_env p) i)"

definition pg_backend :: "pg_ctx \<Rightarrow> db backend" where
  "pg_backend p =
     \<lparr>be_caps = pg_caps, be_enqueue = pg_enqueue p, be_enqueue_many = pg_enqueue_many p,
      be_claim_batch = pg_claim_batch p, be_update_heartbeat_batch = pg_update_heartbeat_batch p,
      be_mark_completed = pg_mark_completed p, be_mark_failed = pg_mark_failed p,
      be_sweep_stale = pg_sweep_stale p, be_reconcile_counters = pg_reconcile_counters p,
      be_cleanup = pg_cleanup p, be_clean = pg_clean p, be_reclaim_in_flight = pg_reclaim_in_flight p,
      be_leader_try_elect = pg_leader_try_elect p, be_leader_resign = pg_leader_resign p,
      be_upsert_schedule_raw = pg_upsert_schedule_raw p,
      be_upsert_interval_schedule_raw = pg_upsert_interval_schedule_raw p,
      be_remove_schedule = pg_remove_schedule p, be_set_schedule_enabled = pg_set_schedule_enabled p,
      be_list_schedules = pg_list_schedules p, be_sync_schedules = pg_sync_schedules p,
      be_schedule_tick = pg_schedule_tick p, be_group_set_concurrency = pg_group_set_concurrency p,
      be_group_set_paused = pg_group_set_paused p, be_group_get = pg_group_get p, be_group_list = pg_group_list p,
      be_group_set_rate = pg_group_set_rate p, be_group_clear_rate = pg_group_clear_rate p,
      be_group_set_rule = pg_group_set_rule p, be_group_remove_rule = pg_group_remove_rule p,
      be_group_list_rules = pg_group_list_rules p, be_queue_set_concurrency = pg_queue_set_concurrency p,
      be_queue_set_paused = pg_queue_set_paused p, be_queue_get = pg_queue_get p, be_queue_list = pg_queue_list p,
      be_queue_set_timeout = pg_queue_set_timeout p, be_get_stats = pg_get_stats p, be_list_jobs = pg_list_jobs p,
      be_cancel = pg_cancel p\<rparr>"

text \<open>The methods of \<open>PgBackend\<close> outside the trait: enqueueing inside the caller's transaction, and migrations.\<close>

definition pg_enqueue_in_tx :: "pg_ctx \<Rightarrow> typed_job \<Rightarrow> enqueue_options \<Rightarrow> enqueue_result tx" where
  "pg_enqueue_in_tx p job opts = enqueue_in_tx (pc_env p) job opts"

definition pg_enqueue_many_in_tx :: "pg_ctx \<Rightarrow> typed_job list \<Rightarrow> bulk_enqueue_result tx" where
  "pg_enqueue_many_in_tx p js = enqueue_many_in_tx (pc_env p) js"

definition pg_enqueue_dyn_in_tx :: "pg_ctx \<Rightarrow> dyn_enqueue \<Rightarrow> enqueue_result tx" where
  "pg_enqueue_dyn_in_tx p req = enqueue_dyn_in_tx (pc_env p) req"

definition pg_enqueue_many_dyn_in_tx :: "pg_ctx \<Rightarrow> dyn_enqueue list \<Rightarrow> bulk_enqueue_result tx" where
  "pg_enqueue_many_dyn_in_tx p reqs = enqueue_many_dyn_in_tx (pc_env p) reqs"

definition pg_migrate_up :: "pg_ctx \<Rightarrow> 's exec \<Rightarrow> string \<Rightarrow> 's mig_state \<Rightarrow> 's mig_state \<times> migrate_report res" where
  "pg_migrate_up p exec line = up exec (e_now (pc_env p)) line"

definition pg_migrate_down :: "'s exec \<Rightarrow> string \<Rightarrow> nat \<Rightarrow> 's mig_state \<Rightarrow> 's mig_state \<times> migrate_report res" where
  "pg_migrate_down exec line max_steps = down exec line max_steps"

definition pg_migration_status :: "string \<Rightarrow> 's mig_state \<Rightarrow> (int \<times> string \<times> timestamp option) list" where
  "pg_migration_status line = status line"

end
