(* ===== verification/Backoff.thy ===== *)
theory Backoff
  imports Jobs
begin

text \<open>
  \<open>crates/eddyq-core/src/retry.rs\<close>: exponential backoff with jitter. A \<open>Duration\<close> is a number of
  nanoseconds up to \<open>Duration::MAX\<close>; an addition beyond it panics (\<open>None\<close>). \<open>rng n\<close> is what \<open>gen_range(0..n)\<close>
  returns. Time stamps beyond the range of \<open>chrono\<close> are not modelled.
\<close>

definition duration_max :: nat where
  "duration_max = u64_max * 1000000000 + 999999999"

definition saturating_mul :: "duration \<Rightarrow> nat \<Rightarrow> duration" where
  "saturating_mul d n = min (d * n) duration_max"

definition duration_add :: "duration \<Rightarrow> duration \<Rightarrow> duration option" where
  "duration_add a b = (if a + b \<le> duration_max then Some (a + b) else None)"

definition from_millis :: "nat \<Rightarrow> duration" where
  "from_millis ms = ms * 1000000"

definition backoff_capped :: "int \<Rightarrow> duration \<Rightarrow> duration \<Rightarrow> duration" where
  "backoff_capped attempt base mx =
     (let exp = min (nat (max attempt 1 - 1)) 20;
          multiplier = 2 ^ min exp 32
      in min (saturating_mul base (sat_u32 multiplier)) mx)"

definition backoff_delay :: "(nat \<Rightarrow> nat) \<Rightarrow> int \<Rightarrow> duration \<Rightarrow> duration \<Rightarrow> duration option" where
  "backoff_delay rng attempt base mx =
     (let capped = backoff_capped attempt base mx;
          jitter_range = as_millis capped div 4;
          jitter_ms = (if jitter_range = 0 then 0 else rng (sat_u64 jitter_range))
      in duration_add capped (from_millis jitter_ms))"

text \<open>\<open>chrono::Duration::from_std\<close> fails beyond \<open>i64::MAX\<close> milliseconds, and zero is used then. Database time
  stamps keep microseconds.\<close>

definition from_std_or_zero :: "duration \<Rightarrow> duration" where
  "from_std_or_zero d = (if int d \<le> i64_max * 1000000 then d else 0)"

definition backoff_until :: "(nat \<Rightarrow> nat) \<Rightarrow> timestamp \<Rightarrow> int \<Rightarrow> duration \<Rightarrow> duration \<Rightarrow> timestamp option" where
  "backoff_until rng utc attempt base mx =
     map_option (\<lambda>d. utc + int (from_std_or_zero d) div 1000) (backoff_delay rng attempt base mx)"

section \<open>Bounds\<close>

definition rng_ok :: "(nat \<Rightarrow> nat) \<Rightarrow> bool" where
  "rng_ok rng \<longleftrightarrow> (\<forall>n. 0 < n \<longrightarrow> rng n < n)"

lemma backoff_capped_le: "backoff_capped attempt base mx \<le> mx"
  by (simp add: backoff_capped_def Let_def)

lemma backoff_multiplier:
  assumes "1 \<le> attempt" "attempt \<le> 21"
  shows "backoff_capped attempt base mx = min (min (base * 2 ^ nat (attempt - 1)) duration_max) mx"
proof -
  have e: "min (min (nat (max attempt 1 - 1)) 20) 32 = nat (attempt - 1)" using assms by simp
  have "(2::nat) ^ nat (attempt - 1) \<le> 2 ^ 20" using assms by (intro power_increasing) simp_all
  then have "sat_u32 (2 ^ nat (attempt - 1)) = 2 ^ nat (attempt - 1)" by (simp add: sat_u32_def)
  then show ?thesis unfolding backoff_capped_def Let_def saturating_mul_def e by simp
qed

lemma backoff_mono:
  assumes "attempt \<le> attempt'"
  shows "backoff_capped attempt base mx \<le> backoff_capped attempt' base mx"
proof -
  have "min (min (nat (max attempt 1 - 1)) 20) 32 \<le> min (min (nat (max attempt' 1 - 1)) 20) 32"
    using assms by simp
  then have "(2::nat) ^ min (min (nat (max attempt 1 - 1)) 20) 32 \<le> 2 ^ min (min (nat (max attempt' 1 - 1)) 20) 32"
    by (intro power_increasing) simp_all
  then have "sat_u32 (2 ^ min (min (nat (max attempt 1 - 1)) 20) 32)
      \<le> sat_u32 (2 ^ min (min (nat (max attempt' 1 - 1)) 20) 32)"
    by (simp add: sat_u32_def min_le_iff_disj)
  then have "base * sat_u32 (2 ^ min (min (nat (max attempt 1 - 1)) 20) 32)
      \<le> base * sat_u32 (2 ^ min (min (nat (max attempt' 1 - 1)) 20) 32)" by simp
  then show ?thesis unfolding backoff_capped_def Let_def saturating_mul_def by (intro min.mono order_refl)
qed

text \<open>The jitter stays below a quarter of the capped delay, and the sum never overflows as long as the cap
  leaves room for it.\<close>

lemma backoff_bounds:
  assumes "rng_ok rng" "mx + mx div 4 \<le> duration_max"
  shows "\<exists>d. backoff_delay rng attempt base mx = Some d \<and>
    backoff_capped attempt base mx \<le> d \<and> d \<le> backoff_capped attempt base mx + backoff_capped attempt base mx div 4"
proof -
  let ?c = "backoff_capped attempt base mx"
  let ?r = "as_millis ?c div 4"
  let ?j = "if ?r = 0 then 0 else rng (sat_u64 ?r)"
  have "?j \<le> ?r"
  proof (cases "?r = 0")
    case False
    then have "0 < sat_u64 ?r" by (simp add: sat_u64_def)
    then have "rng (sat_u64 ?r) < sat_u64 ?r" using assms(1) by (simp add: rng_ok_def)
    with False show ?thesis by (simp add: sat_u64_def)
  qed simp
  then have "from_millis ?j \<le> (?c div 1000000 div 4) * 1000000" by (simp add: from_millis_def as_millis_def)
  also have "\<dots> \<le> ?c div 4" by (simp add: div_mult2_eq [symmetric] mult.commute)
  finally have j: "from_millis ?j \<le> ?c div 4" .
  moreover have "?c + ?c div 4 \<le> mx + mx div 4"
    using backoff_capped_le [of attempt base mx] by (intro add_mono div_le_mono) simp_all
  ultimately show ?thesis
    using assms(2) by (auto simp: backoff_delay_def Let_def duration_add_def)
qed

end
