(* ===== verification/Config.thy ===== *)
theory Config
  imports Backend Backoff
begin

text \<open>
  Configuration of a process: \<open>QueueConfig\<close> and \<open>QueueBuilder\<close> of \<open>crates/eddyq-core/src/queue.rs\<close> and the registry of
  handlers of \<open>worker.rs\<close>. A handler is the application's code: a function of the payload, the context and a seed
  that stands for everything else it depends on, with the outcomes a future can have.
\<close>

section \<open>Handlers\<close>

record job_context =
  jc_id :: job_id
  jc_kind :: string
  jc_attempt :: int
  jc_max_attempts :: int
  jc_stalled_count :: int
  jc_max_stalled_count :: int
  jc_worker_id :: uuid

text \<open>An \<open>anyhow::Error\<close> either holds a \<open>HandlerFailure\<close> or only a message; a panic payload is a static string, a
  \<open>String\<close> or anything else. \<open>Panicked_in_call\<close> is a panic before the future exists.\<close>

datatype raised = Structured handler_failure | Plain string

datatype panic_payload = Panic_str string | Panic_string string | Panic_any

datatype outcome = Returned json | Raised raised | Panicked panic_payload | Panicked_in_call

type_synonym handler = "json \<Rightarrow> job_context \<Rightarrow> nat \<Rightarrow> outcome"

record worker_registry =
  wr_handlers :: "(string \<times> handler) list"

definition registry_new :: worker_registry where
  "registry_new = \<lparr>wr_handlers = []\<rparr>"

definition insert_handler :: "string \<Rightarrow> handler \<Rightarrow> worker_registry \<Rightarrow> worker_registry" where
  "insert_handler kind h reg = \<lparr>wr_handlers = (kind, h) # filter (\<lambda>(k, _). k \<noteq> kind) (wr_handlers reg)\<rparr>"

text \<open>A typed worker decodes the payload and runs inside the future, so its panics are caught.\<close>

definition register ::
  "string \<Rightarrow> (json \<Rightarrow> string + 'j) \<Rightarrow> ('j \<Rightarrow> job_context \<Rightarrow> nat \<Rightarrow> outcome) \<Rightarrow> worker_registry \<Rightarrow> worker_registry" where
  "register kind from_value perform =
     insert_handler kind (\<lambda>payload ctx w.
       case from_value payload of
         Inl msg \<Rightarrow> Raised (Plain msg)
       | Inr job \<Rightarrow>
           (case perform job ctx w of
              Returned _ \<Rightarrow> Returned JNull
            | Panicked_in_call \<Rightarrow> Panicked Panic_any
            | out \<Rightarrow> out))"

definition register_dyn :: "string \<Rightarrow> handler \<Rightarrow> worker_registry \<Rightarrow> worker_registry" where
  "register_dyn kind f = insert_handler kind f"

definition get_handler :: "worker_registry \<Rightarrow> string \<Rightarrow> handler res" where
  "get_handler reg kind =
     (case map_of (wr_handlers reg) kind of Some h \<Rightarrow> Inr h | None \<Rightarrow> Inl (UnknownKind kind))"

definition registered_kinds :: "worker_registry \<Rightarrow> string list" where
  "registered_kinds reg = map fst (wr_handlers reg)"

section \<open>Configuration\<close>

definition from_secs :: "nat \<Rightarrow> duration" where
  "from_secs n = n * 1000000000"

record queue_config =
  fetch_poll_interval :: duration
  fetch_cooldown :: duration
  fetch_batch_size :: nat
  worker_concurrency :: nat
  heartbeat_interval :: duration
  sweep_interval :: duration
  stale_after :: duration
  retry_base :: duration
  retry_max :: duration
  scheduler_interval :: duration
  cleanup_interval :: duration
  completed_retention :: "duration option"
  failed_retention :: "duration option"
  cancelled_retention :: "duration option"
  batch_retention :: "duration option"
  completed_retention_count :: "int option"
  failed_retention_count :: "int option"
  cancelled_retention_count :: "int option"
  batch_retention_count :: "int option"
  poll_only :: bool
  leader_lease_secs :: nat
  default_job_timeout :: "duration option"

definition default_config :: queue_config where
  "default_config =
     \<lparr>fetch_poll_interval = from_secs 1, fetch_cooldown = from_millis 100, fetch_batch_size = 10,
      worker_concurrency = 10, heartbeat_interval = from_secs 15, sweep_interval = from_secs 30,
      stale_after = from_secs 60, retry_base = from_secs 1, retry_max = from_secs 300,
      scheduler_interval = from_secs 5, cleanup_interval = from_secs 300,
      completed_retention = Some (from_secs (24 * 60 * 60)), failed_retention = Some (from_secs (7 * 24 * 60 * 60)),
      cancelled_retention = Some (from_secs (7 * 24 * 60 * 60)), batch_retention = Some (from_secs (7 * 24 * 60 * 60)),
      completed_retention_count = None, failed_retention_count = None, cancelled_retention_count = None,
      batch_retention_count = None, poll_only = False, leader_lease_secs = 30,
      default_job_timeout = Some (from_secs (6 * 60 * 60))\<rparr>"

text \<open>The retention the cleanup task hands to the backend.\<close>

definition config_retention :: "queue_config \<Rightarrow> retention" where
  "config_retention c =
     \<lparr>rt_completed_secs = map_option as_secs (completed_retention c), rt_failed_secs = map_option as_secs (failed_retention c),
      rt_cancelled_secs = map_option as_secs (cancelled_retention c), rt_batch_secs = map_option as_secs (batch_retention c),
      rt_completed_count = completed_retention_count c, rt_failed_count = failed_retention_count c,
      rt_cancelled_count = cancelled_retention_count c, rt_batch_count = batch_retention_count c\<rparr>"

section \<open>The builder\<close>

definition default_line :: string where "default_line = ''main''"

record queue_builder =
  qb_registry :: worker_registry
  qb_config :: queue_config
  qb_line :: string
  qb_queues :: "string list"

definition with_backend :: queue_builder where
  "with_backend = \<lparr>qb_registry = registry_new, qb_config = default_config, qb_line = default_line, qb_queues = [default_queue]\<rparr>"

definition subscribe_to :: "string list \<Rightarrow> queue_builder \<Rightarrow> queue_builder" where
  "subscribe_to qs b = b\<lparr>qb_queues := (if qs = [] then [default_queue] else qs)\<rparr>"

definition set_line :: "string \<Rightarrow> queue_builder \<Rightarrow> queue_builder" where
  "set_line name b = b\<lparr>qb_line := name\<rparr>"

definition builder_register ::
  "string \<Rightarrow> (json \<Rightarrow> string + 'j) \<Rightarrow> ('j \<Rightarrow> job_context \<Rightarrow> nat \<Rightarrow> outcome) \<Rightarrow> queue_builder \<Rightarrow> queue_builder" where
  "builder_register kind from_value perform b = b\<lparr>qb_registry := register kind from_value perform (qb_registry b)\<rparr>"

definition builder_register_dyn :: "string \<Rightarrow> handler \<Rightarrow> queue_builder \<Rightarrow> queue_builder" where
  "builder_register_dyn kind f b = b\<lparr>qb_registry := register_dyn kind f (qb_registry b)\<rparr>"

definition set_config :: "queue_config \<Rightarrow> queue_builder \<Rightarrow> queue_builder" where
  "set_config c b = b\<lparr>qb_config := c\<rparr>"

definition set_worker_concurrency :: "nat \<Rightarrow> queue_builder \<Rightarrow> queue_builder" where
  "set_worker_concurrency n b = b\<lparr>qb_config := (qb_config b)\<lparr>worker_concurrency := max n 1\<rparr>\<rparr>"

definition set_fetch_poll_interval :: "duration \<Rightarrow> queue_builder \<Rightarrow> queue_builder" where
  "set_fetch_poll_interval d b = b\<lparr>qb_config := (qb_config b)\<lparr>fetch_poll_interval := d\<rparr>\<rparr>"

definition set_poll_only :: "bool \<Rightarrow> queue_builder \<Rightarrow> queue_builder" where
  "set_poll_only yes b = b\<lparr>qb_config := (qb_config b)\<lparr>poll_only := yes\<rparr>\<rparr>"

definition set_stale_after :: "duration \<Rightarrow> queue_builder \<Rightarrow> queue_builder" where
  "set_stale_after d b = b\<lparr>qb_config := (qb_config b)\<lparr>stale_after := d\<rparr>\<rparr>"

definition set_default_job_timeout :: "duration option \<Rightarrow> queue_builder \<Rightarrow> queue_builder" where
  "set_default_job_timeout d b = b\<lparr>qb_config := (qb_config b)\<lparr>default_job_timeout := d\<rparr>\<rparr>"

definition set_heartbeat_interval :: "duration \<Rightarrow> queue_builder \<Rightarrow> queue_builder" where
  "set_heartbeat_interval d b = b\<lparr>qb_config := (qb_config b)\<lparr>heartbeat_interval := d\<rparr>\<rparr>"

definition set_sweep_interval :: "duration \<Rightarrow> queue_builder \<Rightarrow> queue_builder" where
  "set_sweep_interval d b = b\<lparr>qb_config := (qb_config b)\<lparr>sweep_interval := d\<rparr>\<rparr>"

definition set_cleanup_interval :: "duration \<Rightarrow> queue_builder \<Rightarrow> queue_builder" where
  "set_cleanup_interval d b = b\<lparr>qb_config := (qb_config b)\<lparr>cleanup_interval := d\<rparr>\<rparr>"

definition set_scheduler_interval :: "duration \<Rightarrow> queue_builder \<Rightarrow> queue_builder" where
  "set_scheduler_interval d b = b\<lparr>qb_config := (qb_config b)\<lparr>scheduler_interval := d\<rparr>\<rparr>"

definition set_completed_retention :: "duration option \<Rightarrow> queue_builder \<Rightarrow> queue_builder" where
  "set_completed_retention d b = b\<lparr>qb_config := (qb_config b)\<lparr>completed_retention := d\<rparr>\<rparr>"

definition set_failed_retention :: "duration option \<Rightarrow> queue_builder \<Rightarrow> queue_builder" where
  "set_failed_retention d b = b\<lparr>qb_config := (qb_config b)\<lparr>failed_retention := d\<rparr>\<rparr>"

definition set_cancelled_retention :: "duration option \<Rightarrow> queue_builder \<Rightarrow> queue_builder" where
  "set_cancelled_retention d b = b\<lparr>qb_config := (qb_config b)\<lparr>cancelled_retention := d\<rparr>\<rparr>"

definition set_batch_retention :: "duration option \<Rightarrow> queue_builder \<Rightarrow> queue_builder" where
  "set_batch_retention d b = b\<lparr>qb_config := (qb_config b)\<lparr>batch_retention := d\<rparr>\<rparr>"

definition set_completed_retention_count :: "int option \<Rightarrow> queue_builder \<Rightarrow> queue_builder" where
  "set_completed_retention_count n b = b\<lparr>qb_config := (qb_config b)\<lparr>completed_retention_count := n\<rparr>\<rparr>"

definition set_failed_retention_count :: "int option \<Rightarrow> queue_builder \<Rightarrow> queue_builder" where
  "set_failed_retention_count n b = b\<lparr>qb_config := (qb_config b)\<lparr>failed_retention_count := n\<rparr>\<rparr>"

definition set_cancelled_retention_count :: "int option \<Rightarrow> queue_builder \<Rightarrow> queue_builder" where
  "set_cancelled_retention_count n b = b\<lparr>qb_config := (qb_config b)\<lparr>cancelled_retention_count := n\<rparr>\<rparr>"

definition set_batch_retention_count :: "int option \<Rightarrow> queue_builder \<Rightarrow> queue_builder" where
  "set_batch_retention_count n b = b\<lparr>qb_config := (qb_config b)\<lparr>batch_retention_count := n\<rparr>\<rparr>"

definition set_leader_lease_secs :: "nat \<Rightarrow> queue_builder \<Rightarrow> queue_builder" where
  "set_leader_lease_secs n b = b\<lparr>qb_config := (qb_config b)\<lparr>leader_lease_secs := n\<rparr>\<rparr>"

section \<open>Registry lemmas\<close>

lemma map_of_filter_key: "k \<noteq> kind \<Longrightarrow> map_of (filter (\<lambda>(k, _). k \<noteq> kind) hs) k = map_of hs k"
  by (induction hs) auto

lemma get_insert_handler:
  "get_handler (insert_handler kind h reg) k = (if k = kind then Inr h else get_handler reg k)"
  by (simp add: get_handler_def insert_handler_def map_of_filter_key)

lemma registered_kinds_distinct:
  "distinct (registered_kinds reg) \<Longrightarrow> distinct (registered_kinds (insert_handler kind h reg))"
  by (auto simp: registered_kinds_def insert_handler_def distinct_map_filter)

lemma registered_iff: "k \<in> set (registered_kinds reg) \<longleftrightarrow> (\<exists>h. get_handler reg k = Inr h)"
proof -
  have "k \<in> set (registered_kinds reg) \<longleftrightarrow> map_of (wr_handlers reg) k \<noteq> None"
    by (simp add: registered_kinds_def map_of_eq_None_iff)
  then show ?thesis by (auto simp: get_handler_def split: option.splits)
qed

end
