(* ===== verification/Runtime.thy ===== *)
theory Runtime
  imports Config
begin

text \<open>
  \<open>crates/eddyq-core/src/runtime.rs\<close>: the tasks of one process. Each loop body is cut at its await points into atomic
  steps on the state the tasks share (semaphore of idle workers, job channel, in-flight set, flags) and on a backend;
  any interleaving of them is a behaviour of the process. Sleeping takes no time in the model: a timer may fire whenever
  its task is scheduled, so every order of events the clocks allow is included.

  A step returns \<open>None\<close> when the task has to wait. Panics are states of their own.
\<close>

section \<open>Pacing\<close>

definition idle_backoff_max_factor :: nat where "idle_backoff_max_factor = 8"

definition idle_backoff_absolute_max :: duration where "idle_backoff_absolute_max = from_secs 30"

definition reconcile_interval :: duration where "reconcile_interval = from_secs 300"

definition idle_ceiling :: "duration \<Rightarrow> duration" where
  "idle_ceiling poll_interval = min (saturating_mul poll_interval idle_backoff_max_factor) idle_backoff_absolute_max"

definition escalate_idle :: "duration \<Rightarrow> duration \<Rightarrow> duration" where
  "escalate_idle current limit = min (saturating_mul current 2) limit"

text \<open>\<open>rng n\<close> is what \<open>gen_range(0..n)\<close> returns; a sum beyond \<open>Duration::MAX\<close> panics.\<close>

definition jitter :: "(nat \<Rightarrow> nat) \<Rightarrow> duration \<Rightarrow> duration option" where
  "jitter rng base =
     (let tenth = sat_u64 base div 10;
          extra = (if tenth = 0 then 0 else rng tenth)
      in duration_add base (max extra 10000000))"

definition leader_refresh_interval :: "queue_config \<Rightarrow> duration" where
  "leader_refresh_interval c = max (from_secs (leader_lease_secs c div 3)) (from_secs 5)"

section \<open>Reports\<close>

definition panic_message :: "panic_payload \<Rightarrow> string" where
  "panic_message p = (case p of Panic_str s \<Rightarrow> s | Panic_string s \<Rightarrow> s | Panic_any \<Rightarrow> ''job panicked'')"

text \<open>\<open>None\<close> when computing the backoff panics.\<close>

definition retry_schedule :: "(nat \<Rightarrow> nat) \<Rightarrow> timestamp \<Rightarrow> int \<Rightarrow> int \<Rightarrow> queue_config \<Rightarrow> timestamp option option" where
  "retry_schedule rng utc attempt max_attempts c =
     (if attempt \<ge> max_attempts then Some None
      else map_option Some (backoff_until rng utc attempt (retry_base c) (retry_max c)))"

text \<open>The \<open>Debug\<close> form of a \<open>Duration\<close>: seconds, milliseconds, microseconds or nanoseconds with the fraction as far as
  its last non-zero digit.\<close>

fun digits :: "nat \<Rightarrow> string" where
  "digits n = (if n < 10 then [char_of (n + 48)] else digits (n div 10) @ [char_of (n mod 10 + 48)])"

declare digits.simps [simp del]

fun fraction :: "nat \<Rightarrow> nat \<Rightarrow> string" where
  "fraction rest 0 = []"
| "fraction rest (Suc w) = (if rest = 0 then [] else char_of (rest div 10 ^ w + 48) # fraction (rest mod 10 ^ w) w)"

definition fmt_decimal :: "nat \<Rightarrow> nat \<Rightarrow> nat \<Rightarrow> string \<Rightarrow> string" where
  "fmt_decimal whole rest width unit =
     digits whole @ (if rest = 0 then [] else ''.'' @ fraction rest width) @ unit"

definition debug_duration :: "duration \<Rightarrow> string" where
  "debug_duration d =
     (if 10 ^ 9 \<le> d then fmt_decimal (d div 10 ^ 9) (d mod 10 ^ 9) 9 ''s''
      else if 10 ^ 6 \<le> d then fmt_decimal (d div 10 ^ 6) (d mod 10 ^ 6) 6 ''ms''
      else if 10 ^ 3 \<le> d then fmt_decimal (d div 10 ^ 3) (d mod 10 ^ 3) 3 [CHR 0xC2, CHR 0xB5, CHR 0x73]
      else fmt_decimal d 0 0 ''ns'')"

definition unknown_kind_failure :: "string \<Rightarrow> handler_failure" where
  "unknown_kind_failure kind =
     \<lparr>hf_message = ''no worker registered for job kind `'' @ kind @ ''`'', hf_name = Some ''UnknownKind'',
      hf_stack = None, hf_directive = None\<rparr>"

definition failure_of :: "raised \<Rightarrow> handler_failure" where
  "failure_of err = (case err of Structured f \<Rightarrow> f | Plain msg \<Rightarrow> from_message msg)"

text \<open>\<open>delay_ms as i64\<close> wraps.\<close>

definition as_i64 :: "nat \<Rightarrow> int" where
  "as_i64 n = sint (of_nat n :: 64 word)"

definition directed_retry ::
  "(nat \<Rightarrow> nat) \<Rightarrow> timestamp \<Rightarrow> queue_config \<Rightarrow> claimed_job \<Rightarrow> handler_failure \<Rightarrow> timestamp option option" where
  "directed_retry rng utc c job failure =
     (case hf_directive failure of
        Some Cancel \<Rightarrow> Some None
      | Some (Retry delay_ms) \<Rightarrow> Some (Some (utc + millis (as_i64 delay_ms)))
      | None \<Rightarrow> retry_schedule rng utc (cj_attempt job) (cj_max_attempts job) c)"

datatype report = Complete "json option" | Fail json "timestamp option"

text \<open>What a worker reports for an outcome; \<open>None\<close> when it panics itself.\<close>

definition report_of ::
  "(nat \<Rightarrow> nat) \<Rightarrow> timestamp \<Rightarrow> json \<Rightarrow> queue_config \<Rightarrow> claimed_job \<Rightarrow> outcome \<Rightarrow> report option" where
  "report_of rng utc clock c job out =
     (case out of
        Returned v \<Rightarrow> Some (Complete (if v = JNull then None else Some v))
      | Raised err \<Rightarrow>
          map_option (Fail (as_error_entry clock (failure_of err))) (directed_retry rng utc c job (failure_of err))
      | Panicked p \<Rightarrow>
          map_option (Fail (as_error_entry clock \<lparr>hf_message = panic_message p, hf_name = Some ''Panic'', hf_stack = None,
              hf_directive = None\<rparr>))
            (retry_schedule rng utc (cj_attempt job) (cj_max_attempts job) c)
      | Panicked_in_call \<Rightarrow> None)"

definition effective_timeout :: "queue_config \<Rightarrow> claimed_job \<Rightarrow> duration option" where
  "effective_timeout c job = or_else (cj_timeout job) (default_job_timeout c)"

text \<open>\<open>elapsed\<close>: the timeout, if there is one, ends the wait.\<close>

definition awaited :: "queue_config \<Rightarrow> claimed_job \<Rightarrow> bool \<Rightarrow> outcome \<Rightarrow> outcome" where
  "awaited c job elapsed out =
     (case effective_timeout c job of
        Some t \<Rightarrow> if elapsed then Raised (Plain (''job timed out after '' @ debug_duration t)) else out
      | None \<Rightarrow> out)"

section \<open>The state of a process\<close>

datatype fetcher =
    At_top
  | Claiming nat
  | Handing "claimed_job list" nat nat
  | Sending claimed_job "claimed_job list" nat nat
  | Sleeping duration
  | Cooling
  | Fetcher_done
  | Fetcher_panicked

datatype worker =
    Receiving
  | Working claimed_job
  | Reporting claimed_job report
  | Worker_done
  | Worker_panicked

record process =
  pr_config :: queue_config
  pr_registry :: worker_registry
  pr_queues :: "string list"
  pr_fetcher_id :: uuid
  pr_maintenance_id :: uuid
  pr_worker_ids :: "nat \<Rightarrow> uuid"

record runtime =
  rt_idle :: nat
  rt_in_flight :: "job_id list"
  rt_chan :: "claimed_job list"
  rt_fetcher :: fetcher
  rt_backoff :: duration
  rt_workers :: "worker list"
  rt_wakeup :: bool
  rt_shutdown :: bool
  rt_leader :: bool
  rt_resigned :: bool
  rt_swept :: bool
  rt_reconciled :: "duration option"

definition chan_capacity :: "process \<Rightarrow> nat" where
  "chan_capacity pr = max (worker_concurrency (pr_config pr)) 1"

definition rt_start :: "process \<Rightarrow> runtime" where
  "rt_start pr =
     \<lparr>rt_idle = worker_concurrency (pr_config pr), rt_in_flight = [], rt_chan = [], rt_fetcher = At_top,
      rt_backoff = fetch_poll_interval (pr_config pr), rt_workers = replicate (worker_concurrency (pr_config pr)) Receiving,
      rt_wakeup = False, rt_shutdown = False, rt_leader = False, rt_resigned = False, rt_swept = False,
      rt_reconciled = None\<rparr>"

fun stopped :: "worker \<Rightarrow> bool" where
  "stopped Worker_done = True"
| "stopped Worker_panicked = True"
| "stopped _ = False"

fun fetcher_stopped :: "fetcher \<Rightarrow> bool" where
  "fetcher_stopped Fetcher_done = True"
| "fetcher_stopped Fetcher_panicked = True"
| "fetcher_stopped _ = False"

section \<open>The fetcher\<close>

text \<open>After a claim: refetch at once on a full batch, otherwise sleep, longer and longer while nothing comes.\<close>

definition after_claim :: "process \<Rightarrow> (nat \<Rightarrow> nat) \<Rightarrow> nat \<Rightarrow> nat \<Rightarrow> runtime \<Rightarrow> runtime" where
  "after_claim pr rng got batch_size r =
     (let c = pr_config pr in
      if got = batch_size \<and> 0 < got then r\<lparr>rt_fetcher := At_top\<rparr>
      else if got = 0 then
        (case jitter rng (rt_backoff r) of
           None \<Rightarrow> r\<lparr>rt_fetcher := Fetcher_panicked\<rparr>
         | Some d \<Rightarrow> r\<lparr>rt_fetcher := Sleeping d,
               rt_backoff := escalate_idle (rt_backoff r) (idle_ceiling (fetch_poll_interval c))\<rparr>)
      else r\<lparr>rt_fetcher := Sleeping (fetch_cooldown c), rt_backoff := fetch_poll_interval c\<rparr>)"

text \<open>\<open>try_acquire\<close>, \<open>forget\<close> and the entry in the in-flight set, before the job is sent.\<close>

definition take_slot :: "claimed_job \<Rightarrow> claimed_job list \<Rightarrow> nat \<Rightarrow> nat \<Rightarrow> runtime \<Rightarrow> runtime" where
  "take_slot job rest got batch_size r =
     (if rt_idle r = 0 then r\<lparr>rt_fetcher := Fetcher_panicked\<rparr>
      else r\<lparr>rt_idle := rt_idle r - 1, rt_in_flight := List.insert (cj_id job) (rt_in_flight r),
             rt_fetcher := Sending job rest got batch_size\<rparr>)"

text \<open>The receiver is gone once every worker task has ended; a full channel blocks.\<close>

definition send_job :: "process \<Rightarrow> claimed_job \<Rightarrow> claimed_job list \<Rightarrow> nat \<Rightarrow> nat \<Rightarrow> runtime \<Rightarrow> runtime option" where
  "send_job pr job rest got batch_size r =
     (if list_all stopped (rt_workers r) then Some (r\<lparr>rt_fetcher := Fetcher_done\<rparr>)
      else if chan_capacity pr \<le> length (rt_chan r) then None
      else Some (r\<lparr>rt_chan := rt_chan r @ [job], rt_fetcher := Handing rest got batch_size\<rparr>))"

definition fetch_step :: "process \<Rightarrow> (nat \<Rightarrow> nat) \<Rightarrow> 's backend \<Rightarrow> 's \<times> runtime \<Rightarrow> ('s \<times> runtime) option" where
  "fetch_step pr rng B st =
     (case st of (s, r) \<Rightarrow>
      case rt_fetcher r of
        At_top \<Rightarrow>
          if rt_shutdown r then Some (s, r\<lparr>rt_fetcher := Fetcher_done\<rparr>)
          else if rt_idle r = 0 then None
          else Some (s, r\<lparr>rt_fetcher := Claiming (min (fetch_batch_size (pr_config pr)) (rt_idle r))\<rparr>)
      | Claiming n \<Rightarrow>
          (case be_claim_batch B (pr_fetcher_id pr) n (registered_kinds (pr_registry pr)) (pr_queues pr) s of
             (s', Inl err) \<Rightarrow> Some (s', r\<lparr>rt_fetcher := Cooling\<rparr>)
           | (s', Inr rows) \<Rightarrow> Some (s', r\<lparr>rt_fetcher := Handing rows (length rows) n\<rparr>))
      | Handing (job # rest) got n \<Rightarrow> Some (s, take_slot job rest got n r)
      | Handing [] got n \<Rightarrow> Some (s, after_claim pr rng got n r)
      | Sending job rest got n \<Rightarrow> map_option (Pair s) (send_job pr job rest got n r)
      | Sleeping d \<Rightarrow>
          if rt_shutdown r then Some (s, r\<lparr>rt_fetcher := Fetcher_done\<rparr>)
          else if rt_wakeup r
          then Some (s, r\<lparr>rt_wakeup := False, rt_backoff := fetch_poll_interval (pr_config pr), rt_fetcher := Cooling\<rparr>)
          else Some (s, r\<lparr>rt_fetcher := At_top\<rparr>)
      | Cooling \<Rightarrow> Some (s, r\<lparr>rt_fetcher := (if rt_shutdown r then Fetcher_done else At_top)\<rparr>)
      | _ \<Rightarrow> None)"

section \<open>Workers\<close>

definition set_worker :: "nat \<Rightarrow> worker \<Rightarrow> runtime \<Rightarrow> runtime" where
  "set_worker i w r = r\<lparr>rt_workers := (rt_workers r)[i := w]\<rparr>"

definition unregister :: "job_id \<Rightarrow> runtime \<Rightarrow> runtime" where
  "unregister i r = r\<lparr>rt_in_flight := removeAll i (rt_in_flight r)\<rparr>"

text \<open>\<open>IdleOnDrop\<close>: the end of an iteration, by whatever path, frees the slot.\<close>

definition idle_again :: "runtime \<Rightarrow> runtime" where
  "idle_again r = r\<lparr>rt_idle := rt_idle r + 1\<rparr>"

definition context_of :: "process \<Rightarrow> nat \<Rightarrow> claimed_job \<Rightarrow> job_context" where
  "context_of pr i job =
     \<lparr>jc_id = cj_id job, jc_kind = cj_kind job, jc_attempt = cj_attempt job, jc_max_attempts = cj_max_attempts job,
      jc_stalled_count = cj_stalled_count job, jc_max_stalled_count = cj_max_stalled_count job,
      jc_worker_id = pr_worker_ids pr i\<rparr>"

definition take_job :: "process \<Rightarrow> json \<Rightarrow> nat \<Rightarrow> runtime \<Rightarrow> runtime option" where
  "take_job pr clock i r =
     (if rt_shutdown r then Some (set_worker i Worker_done r)
      else case rt_chan r of
        [] \<Rightarrow> if fetcher_stopped (rt_fetcher r) then Some (set_worker i Worker_done r) else None
      | job # rest \<Rightarrow>
          (let r' = r\<lparr>rt_chan := rest\<rparr> in
           case get_handler (pr_registry pr) (cj_kind job) of
             Inl _ \<Rightarrow>
               Some (set_worker i (Reporting job (Fail (as_error_entry clock (unknown_kind_failure (cj_kind job))) None))
                 (unregister (cj_id job) r'))
           | Inr _ \<Rightarrow> Some (set_worker i (Working job) r')))"

text \<open>The handler's outcome arrives. A panic in the call itself kills the task before the job is unregistered.\<close>

definition finish_job ::
  "process \<Rightarrow> (nat \<Rightarrow> nat) \<Rightarrow> timestamp \<Rightarrow> json \<Rightarrow> bool \<Rightarrow> nat \<Rightarrow> nat \<Rightarrow> claimed_job \<Rightarrow> runtime \<Rightarrow> runtime" where
  "finish_job pr rng utc clock elapsed seed i job r =
     (case get_handler (pr_registry pr) (cj_kind job) of
        Inl _ \<Rightarrow> idle_again (set_worker i Worker_panicked r)
      | Inr h \<Rightarrow>
          (let out = h (cj_payload job) (context_of pr i job) seed in
           if out = Panicked_in_call then idle_again (set_worker i Worker_panicked r)
           else case report_of rng utc clock (pr_config pr) job (awaited (pr_config pr) job elapsed out) of
                  None \<Rightarrow> idle_again (set_worker i Worker_panicked (unregister (cj_id job) r))
                | Some rep \<Rightarrow> set_worker i (Reporting job rep) (unregister (cj_id job) r)))"

definition send_report :: "'s backend \<Rightarrow> claimed_job \<Rightarrow> report \<Rightarrow> 's \<Rightarrow> 's" where
  "send_report B job rep s =
     (case rep of
        Complete v \<Rightarrow> fst (be_mark_completed B (cj_id job) (cj_worker_id job) v s)
      | Fail entry retry_at \<Rightarrow> fst (be_mark_failed B (cj_id job) (cj_worker_id job) entry retry_at s))"

definition worker_step ::
  "process \<Rightarrow> (nat \<Rightarrow> nat) \<Rightarrow> timestamp \<Rightarrow> json \<Rightarrow> bool \<Rightarrow> nat \<Rightarrow> 's backend \<Rightarrow> nat \<Rightarrow> 's \<times> runtime \<Rightarrow> ('s \<times> runtime) option" where
  "worker_step pr rng utc clock elapsed seed B i st =
     (case st of (s, r) \<Rightarrow>
      if length (rt_workers r) \<le> i then None
      else case rt_workers r ! i of
        Receiving \<Rightarrow> map_option (Pair s) (take_job pr clock i r)
      | Working job \<Rightarrow> Some (s, finish_job pr rng utc clock elapsed seed i job r)
      | Reporting job rep \<Rightarrow> Some (send_report B job rep s, idle_again (set_worker i Receiving r))
      | _ \<Rightarrow> None)"

section \<open>Maintenance tasks\<close>

text \<open>Every loop ends at its next turn once the process shuts down.\<close>

definition heartbeat_step :: "'s backend \<Rightarrow> 's \<times> runtime \<Rightarrow> ('s \<times> runtime) option" where
  "heartbeat_step B st =
     (case st of (s, r) \<Rightarrow>
      if rt_shutdown r then None
      else if rt_in_flight r = [] then Some (s, r)
      else Some (fst (be_update_heartbeat_batch B (rt_in_flight r) s), r))"

definition try_elect_once :: "process \<Rightarrow> 's backend \<Rightarrow> 's \<times> runtime \<Rightarrow> 's \<times> runtime" where
  "try_elect_once pr B st =
     (case st of (s, r) \<Rightarrow>
      case be_leader_try_elect B (pr_maintenance_id pr) maintenance_role (leader_lease_secs (pr_config pr)) s of
        (s', Inr won) \<Rightarrow> (s', r\<lparr>rt_leader := won\<rparr>)
      | (s', Inl err) \<Rightarrow> (s', r))"

text \<open>\<open>resigned\<close>: woken by the resignation of a peer, instead of by the timer.\<close>

definition leader_step :: "process \<Rightarrow> bool \<Rightarrow> 's backend \<Rightarrow> 's \<times> runtime \<Rightarrow> ('s \<times> runtime) option" where
  "leader_step pr resigned B st =
     (case st of (s, r) \<Rightarrow>
      if rt_shutdown r then
        if rt_resigned r then None
        else Some (if rt_leader r then fst (be_leader_resign B (pr_maintenance_id pr) maintenance_role s) else s,
                   r\<lparr>rt_resigned := True\<rparr>)
      else if resigned \<and> rt_leader r then Some (s, r)
      else Some (try_elect_once pr B (s, r)))"

definition sweeper_step :: "process \<Rightarrow> duration \<Rightarrow> 's backend \<Rightarrow> 's \<times> runtime \<Rightarrow> ('s \<times> runtime) option" where
  "sweeper_step pr instant B st =
     (case st of (s, r) \<Rightarrow>
      if rt_swept r then
        if (case rt_reconciled r of None \<Rightarrow> True | Some t \<Rightarrow> reconcile_interval \<le> instant - t)
        then Some (fst (be_reconcile_counters B s), r\<lparr>rt_swept := False, rt_reconciled := Some instant\<rparr>)
        else Some (s, r\<lparr>rt_swept := False\<rparr>)
      else if rt_shutdown r then None
      else if \<not> rt_leader r then Some (s, r)
      else Some (fst (be_sweep_stale B (stale_after (pr_config pr)) s), r\<lparr>rt_swept := True\<rparr>))"

definition scheduler_step :: "'s backend \<Rightarrow> 's \<times> runtime \<Rightarrow> ('s \<times> runtime) option" where
  "scheduler_step B st =
     (case st of (s, r) \<Rightarrow>
      if rt_shutdown r then None
      else if \<not> rt_leader r then Some (s, r)
      else Some (fst (be_schedule_tick B s), r))"

definition cleanup_step :: "process \<Rightarrow> 's backend \<Rightarrow> 's \<times> runtime \<Rightarrow> ('s \<times> runtime) option" where
  "cleanup_step pr B st =
     (case st of (s, r) \<Rightarrow>
      if is_disabled (config_retention (pr_config pr)) \<or> rt_shutdown r then None
      else if \<not> rt_leader r then Some (s, r)
      else Some (fst (be_cleanup B (config_retention (pr_config pr)) s), r))"

text \<open>\<open>abort_all\<close>: every task is dropped at its next await point.\<close>

definition abort_all :: "runtime \<Rightarrow> runtime" where
  "abort_all r =
     r\<lparr>rt_fetcher := Fetcher_done, rt_workers := map (\<lambda>w. if stopped w then w else Worker_done) (rt_workers r),
       rt_shutdown := True, rt_resigned := True, rt_swept := False\<rparr>"

end
