(* ===== verification/Process.thy ===== *)
theory Process
  imports Runtime
begin

text \<open>
  One process as a transition system over a backend: \<open>rt_step\<close> interleaves the steps of its tasks with what other
  processes do to the store (\<open>env\<close>). The locale \<open>runtime_backend\<close> states what the tasks rely on, and its lemmas account
  for worker slots; \<open>runtime_store\<close> adds that a backend call changes the store only as \<open>env\<close> allows.
\<close>

section \<open>Steps\<close>

inductive rt_step ::
  "('o \<Rightarrow> 's backend) \<Rightarrow> ('o \<Rightarrow> bool) \<Rightarrow> ('s \<Rightarrow> 's \<Rightarrow> bool) \<Rightarrow> process \<Rightarrow> 's \<times> runtime \<Rightarrow> 's \<times> runtime \<Rightarrow> bool"
  for Bs :: "'o \<Rightarrow> 's backend" and ok :: "'o \<Rightarrow> bool" and env :: "'s \<Rightarrow> 's \<Rightarrow> bool" and pr :: process where
  fetch: "ok p \<Longrightarrow> rng_ok rng \<Longrightarrow> fetch_step pr rng (Bs p) st = Some st' \<Longrightarrow> rt_step Bs ok env pr st st'"
| work: "ok p \<Longrightarrow> rng_ok rng \<Longrightarrow> worker_step pr rng utc clock elapsed seed (Bs p) i st = Some st' \<Longrightarrow> rt_step Bs ok env pr st st'"
| heartbeat: "ok p \<Longrightarrow> heartbeat_step (Bs p) st = Some st' \<Longrightarrow> rt_step Bs ok env pr st st'"
| leader: "ok p \<Longrightarrow> leader_step pr resigned (Bs p) st = Some st' \<Longrightarrow> rt_step Bs ok env pr st st'"
| sweeper: "ok p \<Longrightarrow> sweeper_step pr instant (Bs p) st = Some st' \<Longrightarrow> rt_step Bs ok env pr st st'"
| scheduler: "ok p \<Longrightarrow> scheduler_step (Bs p) st = Some st' \<Longrightarrow> rt_step Bs ok env pr st st'"
| cleanup: "ok p \<Longrightarrow> cleanup_step pr (Bs p) st = Some st' \<Longrightarrow> rt_step Bs ok env pr st st'"
| wakeup: "\<not> poll_only (pr_config pr) \<Longrightarrow> rt_step Bs ok env pr (s, r) (s, r\<lparr>rt_wakeup := True\<rparr>)"
| others: "env s s' \<Longrightarrow> rt_step Bs ok env pr (s, r) (s', r)"
| shutdown: "rt_step Bs ok env pr (s, r) (s, r\<lparr>rt_shutdown := True\<rparr>)"

section \<open>Slots\<close>

fun busy :: "worker \<Rightarrow> bool" where
  "busy (Working job) = True"
| "busy (Reporting job rep) = True"
| "busy _ = False"

fun in_hand :: "fetcher \<Rightarrow> nat" where
  "in_hand (Sending job rest got n) = 1"
| "in_hand _ = 0"

fun promised :: "fetcher \<Rightarrow> nat" where
  "promised (Claiming n) = n"
| "promised (Handing rows got n) = length rows"
| "promised (Sending job rest got n) = length rest"
| "promised _ = 0"

definition slots_taken :: "runtime \<Rightarrow> nat" where
  "slots_taken r = in_hand (rt_fetcher r) + length (rt_chan r) + count_if busy (rt_workers r)"

definition slots_ok :: "process \<Rightarrow> runtime \<Rightarrow> bool" where
  "slots_ok pr r \<longleftrightarrow>
     length (rt_workers r) = worker_concurrency (pr_config pr) \<and>
     rt_idle r + slots_taken r \<le> worker_concurrency (pr_config pr) \<and>
     (\<not> fetcher_stopped (rt_fetcher r) \<longrightarrow> rt_idle r + slots_taken r = worker_concurrency (pr_config pr)) \<and>
     promised (rt_fetcher r) \<le> rt_idle r"

lemma slots_start: "slots_ok pr (rt_start pr)"
  by (simp add: slots_ok_def slots_taken_def rt_start_def count_if_def)

lemma count_busy_update:
  assumes "i < length ws"
  shows "count_if busy (ws[i := w]) + (if busy (ws ! i) then 1 else 0) = count_if busy ws + (if busy w then 1 else 0)"
proof -
  have ws: "ws = take i ws @ ws ! i # drop (Suc i) ws" using assms by (rule id_take_nth_drop)
  have "ws[i := w] = take i ws @ w # drop (Suc i) ws" using assms by (rule upd_conv_take_nth_drop)
  then have "count_if busy (ws[i := w]) = count_if busy (take i ws) + (if busy w then 1 else 0) + count_if busy (drop (Suc i) ws)"
    by simp
  moreover have "count_if busy ws = count_if busy (take i ws) + (if busy (ws ! i) then 1 else 0) + count_if busy (drop (Suc i) ws)"
    by (subst ws) simp
  ultimately show ?thesis by simp
qed

lemma after_claim_slots: "slots_ok pr r \<Longrightarrow> rt_fetcher r = Handing [] got n \<Longrightarrow> slots_ok pr (after_claim pr rng got n r)"
  by (auto simp: slots_ok_def slots_taken_def after_claim_def Let_def split: option.splits)

lemma take_slot_slots:
  "slots_ok pr r \<Longrightarrow> rt_fetcher r = Handing (job # rest) got n \<Longrightarrow> slots_ok pr (take_slot job rest got n r)"
  by (auto simp: slots_ok_def slots_taken_def take_slot_def)

lemma send_job_slots:
  "slots_ok pr r \<Longrightarrow> rt_fetcher r = Sending job rest got n \<Longrightarrow> send_job pr job rest got n r = Some r' \<Longrightarrow> slots_ok pr r'"
  by (auto simp: slots_ok_def slots_taken_def send_job_def split: if_splits)

lemma unregister_slots [simp]: "slots_ok pr (unregister k r) = slots_ok pr r"
  by (simp add: slots_ok_def slots_taken_def unregister_def)

lemma worker_free_slots:
  assumes "slots_ok pr r" "i < length (rt_workers r)" "busy (rt_workers r ! i)" "\<not> busy w"
  shows "slots_ok pr (idle_again (set_worker i w r))"
  using assms count_busy_update [OF assms(2), of w]
  by (auto simp: slots_ok_def slots_taken_def set_worker_def idle_again_def)

lemma worker_keep_slots:
  assumes "slots_ok pr r" "i < length (rt_workers r)" "busy (rt_workers r ! i) = busy w"
  shows "slots_ok pr (set_worker i w r)"
  using assms count_busy_update [OF assms(2), of w]
  by (auto simp: slots_ok_def slots_taken_def set_worker_def split: if_splits)

lemma worker_take_slots:
  assumes "slots_ok pr r" "i < length (rt_workers r)" "\<not> busy (rt_workers r ! i)" "busy w" "rt_chan r = job # rest"
  shows "slots_ok pr (set_worker i w (r\<lparr>rt_chan := rest\<rparr>))"
  using assms count_busy_update [OF assms(2), of w]
  by (auto simp: slots_ok_def slots_taken_def set_worker_def)

lemma set_worker_unregister: "set_worker i w (unregister k r) = unregister k (set_worker i w r)"
  by (simp add: set_worker_def unregister_def)

lemma take_job_slots:
  assumes "slots_ok pr r" "i < length (rt_workers r)" "rt_workers r ! i = Receiving" "take_job pr clock i r = Some r'"
  shows "slots_ok pr r'"
proof -
  have quit: "slots_ok pr (set_worker i Worker_done r)" using assms by (simp add: worker_keep_slots)
  have start: "slots_ok pr (set_worker i w (r\<lparr>rt_chan := rest\<rparr>))" if "busy w" "rt_chan r = job # rest" for w job rest
    using assms that by (simp add: worker_take_slots)
  show ?thesis
    using assms(4) quit start by (auto simp: take_job_def Let_def set_worker_unregister split: if_splits list.splits sum.splits)
qed

lemma finish_job_slots:
  assumes "slots_ok pr r" "i < length (rt_workers r)" "rt_workers r ! i = Working job"
  shows "slots_ok pr (finish_job pr rng utc clock elapsed seed i job r)"
proof -
  have "i < length (rt_workers (unregister (cj_id job) r))" "rt_workers (unregister (cj_id job) r) ! i = Working job"
    using assms by (simp_all add: unregister_def)
  then show ?thesis
    using assms by (auto simp: finish_job_def Let_def split: sum.splits option.splits intro!: worker_keep_slots worker_free_slots)
qed

lemma worker_step_slots:
  assumes "slots_ok pr r" "worker_step pr rng utc clock elapsed seed B i (s, r) = Some (s', r')"
  shows "slots_ok pr r'"
  using assms take_job_slots [OF assms(1)] finish_job_slots [OF assms(1)] worker_free_slots [OF assms(1)]
  by (auto simp: worker_step_def not_le split: if_splits worker.splits)

text \<open>The other tasks leave slots, channel, fetcher and workers alone.\<close>

definition same_work :: "runtime \<Rightarrow> runtime \<Rightarrow> bool" where
  "same_work r r' \<longleftrightarrow>
     rt_idle r' = rt_idle r \<and> rt_in_flight r' = rt_in_flight r \<and> rt_chan r' = rt_chan r \<and> rt_fetcher r' = rt_fetcher r \<and>
     rt_workers r' = rt_workers r \<and> rt_backoff r' = rt_backoff r"

lemma same_work_slots: "same_work r r' \<Longrightarrow> slots_ok pr r \<Longrightarrow> slots_ok pr r'"
  by (simp add: same_work_def slots_ok_def slots_taken_def)

lemma maintenance_same_work:
  "heartbeat_step B (s, r) = Some (s', r') \<Longrightarrow> same_work r r'"
  "leader_step pr resigned B (s, r) = Some (s', r') \<Longrightarrow> same_work r r'"
  "sweeper_step pr instant B (s, r) = Some (s', r') \<Longrightarrow> same_work r r'"
  "scheduler_step B (s, r) = Some (s', r') \<Longrightarrow> same_work r r'"
  "cleanup_step pr B (s, r) = Some (s', r') \<Longrightarrow> same_work r r'"
  by (auto simp: heartbeat_step_def leader_step_def try_elect_once_def sweeper_step_def scheduler_step_def cleanup_step_def
      same_work_def split: if_splits prod.splits sum.splits)

text \<open>Case analysis on a step: a fetch step, a worker step, or one that keeps the work of the process as it is.\<close>

lemma rt_step_cases:
  assumes "rt_step Bs ok env pr (s, r) (s', r')"
  obtains (fetch) p rng where "ok p" "rng_ok rng" "fetch_step pr rng (Bs p) (s, r) = Some (s', r')"
  | (work) p rng utc clock elapsed seed i where "ok p" "rng_ok rng"
      "worker_step pr rng utc clock elapsed seed (Bs p) i (s, r) = Some (s', r')"
  | (other) "same_work r r'"
  using assms
  by (cases rule: rt_step.cases) (auto simp: same_work_def dest: maintenance_same_work)

section \<open>What the tasks rely on\<close>

locale runtime_backend =
  fixes Bs :: "'o \<Rightarrow> 's backend" and ok :: "'o \<Rightarrow> bool" and env :: "'s \<Rightarrow> 's \<Rightarrow> bool" and inv :: "'s \<Rightarrow> bool"
  assumes claim_bounded: "ok p \<Longrightarrow> inv s \<Longrightarrow> be_claim_batch (Bs p) w n ks qs s = (s', Inr rows) \<Longrightarrow> length rows \<le> n"
    and env_inv: "env s s' \<Longrightarrow> inv s \<Longrightarrow> inv s'"
begin

lemma fetch_step_slots:
  assumes "slots_ok pr r" "ok p" "fetch_step pr rng (Bs p) (s, r) = Some (s', r')" "inv s"
  shows "slots_ok pr r'"
proof (cases "rt_fetcher r")
  case (Claiming n)
  then show ?thesis
    using assms claim_bounded [OF assms(2,4)]
    by (fastforce simp: fetch_step_def slots_ok_def slots_taken_def split: prod.splits sum.splits)
next
  case (Handing rows got n)
  then show ?thesis using assms
    by (cases rows) (auto simp: fetch_step_def intro: take_slot_slots after_claim_slots)
next
  case (Sending job rest got n)
  then show ?thesis using assms by (auto simp: fetch_step_def intro: send_job_slots)
qed (use assms in \<open>auto simp: fetch_step_def slots_ok_def slots_taken_def split: if_splits\<close>)

lemma rt_step_slots:
  assumes "rt_step Bs ok env pr (s, r) (s', r')" "slots_ok pr r" "inv s"
  shows "slots_ok pr r'"
  using assms(1)
proof (cases rule: rt_step_cases)
  case (fetch p rng)
  then show ?thesis using fetch_step_slots assms(2,3) by blast
next
  case (work p rng utc clock elapsed seed i)
  from worker_step_slots [OF assms(2) work(3)] show ?thesis .
next
  case other
  then show ?thesis using same_work_slots assms(2) by blast
qed

end

section \<open>Heartbeats cover the jobs a process holds\<close>

text \<open>A job is held from the moment it has a slot until its handler has ended.\<close>

fun sending :: "fetcher \<Rightarrow> claimed_job list" where
  "sending (Sending job rest got n) = [job]"
| "sending _ = []"

fun unsent :: "fetcher \<Rightarrow> claimed_job list" where
  "unsent (Handing rows got n) = rows"
| "unsent (Sending job rest got n) = rest"
| "unsent _ = []"

fun working :: "worker \<Rightarrow> claimed_job list" where
  "working (Working job) = [job]"
| "working _ = []"

definition held :: "runtime \<Rightarrow> claimed_job list" where
  "held r = sending (rt_fetcher r) @ rt_chan r @ concat (map working (rt_workers r))"

definition held_ids :: "runtime \<Rightarrow> job_id set" where
  "held_ids r = cj_id ` set (held r)"

text \<open>A calm run: no claim returns a job this process still holds. A job it holds is running, so another claim of it takes
  a recovery in between, although its heartbeat was due.\<close>

definition calm :: "'s \<times> runtime \<Rightarrow> 's \<times> runtime \<Rightarrow> bool" where
  "calm st st' \<longleftrightarrow>
     (\<forall>n rows. rt_fetcher (snd st) = Claiming n \<and> unsent (rt_fetcher (snd st')) = rows \<longrightarrow>
        distinct (map cj_id rows) \<and> cj_id ` set rows \<inter> held_ids (snd st) = {})"

definition covered :: "runtime \<Rightarrow> bool" where
  "covered r \<longleftrightarrow> distinct (map cj_id (unsent (rt_fetcher r) @ held r)) \<and> held_ids r \<subseteq> set (rt_in_flight r)"

lemma covered_start: "covered (rt_start pr)"
  by (simp add: covered_def held_def held_ids_def rt_start_def)

lemma concat_working_update:
  assumes "i < length ws"
  shows "mset (concat (map working (ws[i := w]))) + mset (working (ws ! i)) = mset (concat (map working ws)) + mset (working w)"
proof -
  have ws: "ws = take i ws @ ws ! i # drop (Suc i) ws" using assms by (rule id_take_nth_drop)
  have "ws[i := w] = take i ws @ w # drop (Suc i) ws" using assms by (rule upd_conv_take_nth_drop)
  then have "mset (concat (map working (ws[i := w]))) =
      mset (concat (map working (take i ws))) + mset (working w) + mset (concat (map working (drop (Suc i) ws)))"
    by simp
  moreover have "mset (concat (map working ws)) =
      mset (concat (map working (take i ws))) + mset (working (ws ! i)) + mset (concat (map working (drop (Suc i) ws)))"
    by (subst ws) simp
  ultimately show ?thesis by simp
qed

lemma covered_mset:
  assumes "covered r" "mset (unsent (rt_fetcher r') @ held r') \<subseteq># mset (unsent (rt_fetcher r) @ held r)"
    and "held_ids r' \<subseteq> set (rt_in_flight r')"
  shows "covered r'"
proof -
  obtain M where "mset (unsent (rt_fetcher r) @ held r) = mset (unsent (rt_fetcher r') @ held r') + M"
    using assms(2) mset_subset_eq_exists_conv by blast
  then obtain xs where "mset (unsent (rt_fetcher r) @ held r) = mset ((unsent (rt_fetcher r') @ held r') @ xs)"
    by (metis ex_mset mset_append)
  then have "mset (map cj_id (unsent (rt_fetcher r) @ held r)) = mset (map cj_id ((unsent (rt_fetcher r') @ held r') @ xs))"
    by (simp only: mset_map)
  then have "distinct (map cj_id ((unsent (rt_fetcher r') @ held r') @ xs))"
    using assms(1) unfolding covered_def by (metis mset_eq_imp_distinct_iff)
  then have "distinct (map cj_id (unsent (rt_fetcher r') @ held r'))" by (simp only: map_append distinct_append)
  with assms(3) show ?thesis by (simp add: covered_def)
qed


text \<open>A job that leaves takes its entry along; the others have other ids.\<close>

lemma covered_drop:
  assumes "covered r" "rt_fetcher r' = rt_fetcher r" "mset (held r) = add_mset job (mset (held r'))"
    and "rt_in_flight r' = removeAll (cj_id job) (rt_in_flight r)"
  shows "covered r'"
proof (rule covered_mset [OF assms(1)])
  show "mset (unsent (rt_fetcher r') @ held r') \<subseteq># mset (unsent (rt_fetcher r) @ held r)"
    using assms(2,3) by simp
  have "distinct (map cj_id (held r))" using assms(1) by (simp add: covered_def)
  moreover have "mset (map cj_id (held r)) = mset (cj_id job # map cj_id (held r'))" using assms(3) by simp
  ultimately have "distinct (cj_id job # map cj_id (held r'))" by (metis mset_eq_imp_distinct_iff)
  then have "cj_id job \<notin> held_ids r'" by (simp add: held_ids_def)
  moreover have "set (held r') \<subseteq> set (held r)" using assms(3) by (metis set_mset_add_mset_insert set_mset_mset subset_insertI)
  then have "held_ids r' \<subseteq> held_ids r" unfolding held_ids_def by (rule image_mono)
  ultimately show "held_ids r' \<subseteq> set (rt_in_flight r')" using assms(1) by (auto simp: covered_def assms(4))
qed

lemma held_set_worker:
  assumes "i < length (rt_workers r)"
  shows "mset (held (set_worker i w r)) + mset (working (rt_workers r ! i)) = mset (held r) + mset (working w)"
  using concat_working_update [OF assms, of w] by (simp add: held_def set_worker_def)

lemma held_frames [simp]:
  "held (unregister k r) = held r" "held (idle_again r) = held r"
  "rt_fetcher (unregister k r) = rt_fetcher r" "rt_fetcher (idle_again r) = rt_fetcher r" "rt_fetcher (set_worker i w r) = rt_fetcher r"
  "rt_in_flight (idle_again r) = rt_in_flight r" "rt_in_flight (set_worker i w r) = rt_in_flight r"
  "rt_in_flight (unregister k r) = removeAll k (rt_in_flight r)"
  "rt_workers (unregister k r) = rt_workers r" "rt_workers (idle_again r) = rt_workers r"
  by (simp_all add: held_def unregister_def idle_again_def set_worker_def)

lemma covered_same:
  assumes "covered r" "rt_fetcher r' = rt_fetcher r" "mset (held r') \<subseteq># mset (held r)" "rt_in_flight r' = rt_in_flight r"
  shows "covered r'"
proof (rule covered_mset [OF assms(1)])
  show "mset (unsent (rt_fetcher r') @ held r') \<subseteq># mset (unsent (rt_fetcher r) @ held r)" using assms(2,3) by simp
  have "set (held r') \<subseteq> set (held r)" using assms(3) by (metis set_mset_mono set_mset_mset)
  then have "held_ids r' \<subseteq> held_ids r" unfolding held_ids_def by (rule image_mono)
  then show "held_ids r' \<subseteq> set (rt_in_flight r')" using assms(1,4) by (auto simp: covered_def)
qed

lemma held_chan: "rt_chan r = job # rest \<Longrightarrow> mset (held r) = add_mset job (mset (held (r\<lparr>rt_chan := rest\<rparr>)))"
  by (simp add: held_def)

lemma sub_add_mset: "X \<subseteq># add_mset x X"
  by (metis add_mset_add_single mset_subset_eq_add_left)

lemma take_job_covered:
  assumes "covered r" "i < length (rt_workers r)" "rt_workers r ! i = Receiving" "take_job pr clock i r = Some r'"
  shows "covered r'"
proof -
  have quit: "covered (set_worker i Worker_done r)"
    using held_set_worker [OF assms(2), of Worker_done] assms(3) by (intro covered_same [OF assms(1)]) simp_all
  have start: "covered (set_worker i (Working job) (r\<lparr>rt_chan := rest\<rparr>))" if "rt_chan r = job # rest" for job rest
    using held_set_worker [of i "r\<lparr>rt_chan := rest\<rparr>" "Working job"] assms(2,3) held_chan [OF that]
    by (intro covered_same [OF assms(1)]) simp_all
  have unknown: "covered (set_worker i (Reporting job rep) (unregister (cj_id job) (r\<lparr>rt_chan := rest\<rparr>)))"
    if "rt_chan r = job # rest" for job rest rep
    using held_set_worker [of i "unregister (cj_id job) (r\<lparr>rt_chan := rest\<rparr>)" "Reporting job rep"] assms(2,3) held_chan [OF that]
    by (intro covered_drop [OF assms(1), where job = job]) simp_all
  show ?thesis
    using assms(4) quit start unknown by (auto simp: take_job_def Let_def split: if_splits list.splits sum.splits)
qed

lemma finish_job_covered:
  assumes "covered r" "i < length (rt_workers r)" "rt_workers r ! i = Working job"
  shows "covered (finish_job pr rng utc clock elapsed seed i job r)"
proof -
  have "mset (held r) = add_mset job (mset (held (set_worker i Worker_panicked r)))"
    using held_set_worker [OF assms(2), of Worker_panicked] assms(3) by simp
  then have crash: "covered (idle_again (set_worker i Worker_panicked r))"
    by (intro covered_same [OF assms(1)]) (simp_all add: sub_add_mset)
  have leave: "covered (set_worker i w (unregister (cj_id job) r))" "covered (idle_again (set_worker i w (unregister (cj_id job) r)))"
    if "working w = []" for w
    using held_set_worker [of i "unregister (cj_id job) r" w] assms(2,3) that
    by (intro covered_drop [OF assms(1), where job = job]; simp)+
  show ?thesis using crash leave by (simp add: finish_job_def Let_def split: sum.splits option.splits)
qed

lemma worker_step_covered:
  assumes "covered r" "worker_step pr rng utc clock elapsed seed B i (s, r) = Some (s', r')"
  shows "covered r'"
proof -
  have "covered (idle_again (set_worker i Receiving r))" if "i < length (rt_workers r)" "rt_workers r ! i = Reporting job rep" for job rep
    using held_set_worker [OF that(1), of Receiving] that(2) by (intro covered_same [OF assms(1)]) simp_all
  then show ?thesis
    using assms(2) take_job_covered [OF assms(1)] finish_job_covered [OF assms(1)]
    by (auto simp: worker_step_def not_le split: if_splits worker.splits)
qed

lemma claim_covered:
  assumes "covered r" "rt_fetcher r = Claiming n" "calm (s, r) (s', r\<lparr>rt_fetcher := Handing rows got n\<rparr>)"
  shows "covered (r\<lparr>rt_fetcher := Handing rows got n\<rparr>)"
proof -
  have "distinct (map cj_id rows)" "cj_id ` set rows \<inter> held_ids r = {}"
    using assms(2,3) by (simp_all add: calm_def)
  moreover have "held (r\<lparr>rt_fetcher := Handing rows got n\<rparr>) = held r" using assms(2) by (simp add: held_def)
  ultimately show ?thesis using assms(1,2) by (simp add: covered_def held_ids_def)
qed

lemma covered_quiet:
  assumes "covered r" "sending (rt_fetcher r) = []" "sending (rt_fetcher r') = []" "unsent (rt_fetcher r') = []"
    "rt_chan r' = rt_chan r" "rt_workers r' = rt_workers r" "rt_in_flight r' = rt_in_flight r"
  shows "covered r'"
proof -
  have "held r' = held r" using assms(2-6) by (simp add: held_def)
  then show ?thesis using assms(1,4,7) by (simp add: covered_def held_ids_def)
qed

lemma take_slot_covered:
  assumes "covered r" "rt_fetcher r = Handing (job # rest) got n"
  shows "covered (take_slot job rest got n r)"
proof (cases "rt_idle r = 0")
  case True
  then show ?thesis using assms(2) by (intro covered_quiet [OF assms(1)]) (simp_all add: take_slot_def)
next
  case False
  then have "held (take_slot job rest got n r) = job # held r" using assms(2) by (simp add: take_slot_def held_def)
  with False show ?thesis using assms by (auto simp: take_slot_def covered_def held_ids_def)
qed

lemma send_job_covered:
  assumes "covered r" "rt_fetcher r = Sending job rest got n" "send_job pr job rest got n r = Some r'"
  shows "covered r'"
proof -
  let ?w = "concat (map working (rt_workers r))"
  have held: "held r = job # rt_chan r @ ?w" using assms(2) by (simp add: held_def)
  have ids: "cj_id job \<in> set (rt_in_flight r)" "cj_id ` set (rt_chan r @ ?w) \<subseteq> set (rt_in_flight r)"
    using assms(1) by (simp_all add: covered_def held_ids_def held del: set_append)
  have "covered (r\<lparr>rt_fetcher := Fetcher_done\<rparr>)"
  proof (rule covered_mset [OF assms(1)])
    have "held (r\<lparr>rt_fetcher := Fetcher_done\<rparr>) = rt_chan r @ ?w" by (simp add: held_def)
    then show "held_ids (r\<lparr>rt_fetcher := Fetcher_done\<rparr>) \<subseteq> set (rt_in_flight (r\<lparr>rt_fetcher := Fetcher_done\<rparr>))"
      using ids(2) by (simp add: held_ids_def)
  qed (simp add: held_def assms(2))
  moreover have "covered (r\<lparr>rt_chan := rt_chan r @ [job], rt_fetcher := Handing rest got n\<rparr>)" (is "covered ?r")
  proof (rule covered_mset [OF assms(1)])
    have "held ?r = rt_chan r @ job # ?w" by (simp add: held_def)
    then show "held_ids ?r \<subseteq> set (rt_in_flight ?r)" using ids by (simp add: held_ids_def)
  qed (simp add: held_def assms(2))
  ultimately show ?thesis using assms(3) by (auto simp: send_job_def split: if_splits)
qed

lemma fetch_step_covered:
  assumes "covered r" "fetch_step pr rng B (s, r) = Some (s', r')" "calm (s, r) (s', r')"
  shows "covered r'"
proof (cases "rt_fetcher r")
  case (Claiming n)
  have "covered (r\<lparr>rt_fetcher := Cooling\<rparr>)" using Claiming by (intro covered_quiet [OF assms(1)]) simp_all
  then show ?thesis using assms(2,3) claim_covered [OF assms(1) Claiming] Claiming
    by (auto simp: fetch_step_def split: prod.splits sum.splits)
next
  case (Handing rows got n)
  show ?thesis
  proof (cases rows)
    case Nil
    then show ?thesis using assms(2) Handing
      by (intro covered_quiet [OF assms(1)])
        (auto simp: fetch_step_def after_claim_def Let_def split: if_splits option.splits)
  next
    case (Cons job rest)
    then show ?thesis using take_slot_covered [OF assms(1)] assms(2) Handing by (simp add: fetch_step_def)
  qed
next
  case (Sending job rest got n)
  then show ?thesis using send_job_covered [OF assms(1) Sending] assms(2) by (auto simp: fetch_step_def)
qed (use assms(2) in \<open>auto simp: fetch_step_def split: if_splits intro!: covered_quiet [OF assms(1)]\<close>)

lemma same_work_covered: "same_work r r' \<Longrightarrow> covered r \<Longrightarrow> covered r'"
  by (simp add: same_work_def covered_def held_def held_ids_def)

lemma calm_step_covered:
  assumes "rt_step Bs ok env pr (s, r) (s', r')" "calm (s, r) (s', r')" "covered r"
  shows "covered r'"
  using assms(1)
proof (cases rule: rt_step_cases)
  case (fetch p rng)
  from fetch_step_covered [OF assms(3) fetch(3) assms(2)] show ?thesis .
next
  case (work p rng utc clock elapsed seed i)
  from worker_step_covered [OF assms(3) work(3)] show ?thesis .
next
  case other
  then show ?thesis using same_work_covered assms(3) by blast
qed

lemma calm_run_covered:
  "(\<lambda>st st'. rt_step Bs ok env pr st st' \<and> calm st st')\<^sup>*\<^sup>* (s0, rt_start pr) st \<Longrightarrow> covered (snd st)"
  by (induction rule: rtranclp_induct) (auto simp: covered_start dest: calm_step_covered)


section \<open>Draining\<close>

text \<open>The steps left to fetcher and workers once the process is shutting down; a handler counts as one step.\<close>

fun fetcher_work :: "fetcher \<Rightarrow> nat" where
  "fetcher_work At_top = 1"
| "fetcher_work (Claiming n) = 2 * n + 3"
| "fetcher_work (Handing rows got n) = 2 * length rows + 2"
| "fetcher_work (Sending job rest got n) = 2 * length rest + 3"
| "fetcher_work (Sleeping d) = 1"
| "fetcher_work Cooling = 1"
| "fetcher_work _ = 0"

fun worker_work :: "worker \<Rightarrow> nat" where
  "worker_work Receiving = 1"
| "worker_work (Working job) = 3"
| "worker_work (Reporting job rep) = 2"
| "worker_work _ = 0"

definition work_left :: "runtime \<Rightarrow> nat" where
  "work_left r = fetcher_work (rt_fetcher r) + sum_list (map worker_work (rt_workers r))"

definition all_stopped :: "runtime \<Rightarrow> bool" where
  "all_stopped r \<longleftrightarrow> fetcher_stopped (rt_fetcher r) \<and> list_all stopped (rt_workers r)"

inductive drain_step :: "('o \<Rightarrow> 's backend) \<Rightarrow> ('o \<Rightarrow> bool) \<Rightarrow> process \<Rightarrow> 's \<times> runtime \<Rightarrow> 's \<times> runtime \<Rightarrow> bool"
  for Bs :: "'o \<Rightarrow> 's backend" and ok :: "'o \<Rightarrow> bool" and pr :: process where
  drain_fetch: "ok p \<Longrightarrow> rng_ok rng \<Longrightarrow> fetch_step pr rng (Bs p) st = Some st' \<Longrightarrow> drain_step Bs ok pr st st'"
| drain_work: "ok p \<Longrightarrow> rng_ok rng \<Longrightarrow> worker_step pr rng utc clock elapsed seed (Bs p) i st = Some st' \<Longrightarrow> drain_step Bs ok pr st st'"

lemma set_worker_work:
  assumes "i < length (rt_workers r)"
  shows "work_left (set_worker i w r) + worker_work (rt_workers r ! i) = work_left r + worker_work w"
proof -
  let ?ws = "rt_workers r"
  have ws: "?ws = take i ?ws @ ?ws ! i # drop (Suc i) ?ws" using assms by (rule id_take_nth_drop)
  have "?ws[i := w] = take i ?ws @ w # drop (Suc i) ?ws" using assms by (rule upd_conv_take_nth_drop)
  moreover have "sum_list (map worker_work ?ws) =
      sum_list (map worker_work (take i ?ws)) + worker_work (?ws ! i) + sum_list (map worker_work (drop (Suc i) ?ws))"
    by (subst ws) simp
  ultimately show ?thesis by (simp add: work_left_def set_worker_def)
qed

lemma work_frames [simp]:
  "work_left (unregister k r) = work_left r" "work_left (idle_again r) = work_left r" "work_left (r\<lparr>rt_chan := c\<rparr>) = work_left r"
  by (simp_all add: work_left_def unregister_def idle_again_def)

lemma worker_step_work:
  assumes "rt_shutdown r" "worker_step pr rng utc clock elapsed seed B i (s, r) = Some (s', r')"
  shows "work_left r' < work_left r"
proof -
  have i: "i < length (rt_workers r)" using assms(2) by (auto simp: worker_step_def split: if_splits)
  show ?thesis
  proof (cases "rt_workers r ! i")
    case Receiving
    then show ?thesis using assms i set_worker_work [OF i, of Worker_done] by (auto simp: worker_step_def take_job_def)
  next
    case (Working job)
    have "work_left (set_worker i w (unregister (cj_id job) r)) < work_left r" if "worker_work w < 3" for w
      using set_worker_work [of i "unregister (cj_id job) r" w] i Working that by simp
    moreover have "work_left (set_worker i Worker_panicked r) < work_left r"
      using set_worker_work [OF i, of Worker_panicked] Working by simp
    ultimately show ?thesis using assms(2) i Working
      by (auto simp: worker_step_def finish_job_def Let_def split: sum.splits option.splits)
  next
    case (Reporting job rep)
    then show ?thesis using assms(2) i set_worker_work [OF i, of Receiving] by (auto simp: worker_step_def)
  qed (use assms(2) in \<open>auto simp: worker_step_def split: if_splits\<close>)
qed

context runtime_backend
begin

lemma fetch_step_work:
  assumes "rt_shutdown r" "ok p" "fetch_step pr rng (Bs p) (s, r) = Some (s', r')" "inv s"
  shows "work_left r' < work_left r"
proof (cases "rt_fetcher r")
  case (Claiming n)
  then show ?thesis
    using assms(3) claim_bounded [OF assms(2,4)]
    by (fastforce simp: fetch_step_def work_left_def split: prod.splits sum.splits)
next
  case (Handing rows got n)
  then show ?thesis using assms(3)
    by (cases rows) (auto simp: fetch_step_def take_slot_def after_claim_def work_left_def Let_def split: if_splits option.splits)
next
  case (Sending job rest got n)
  then show ?thesis using assms(3) by (auto simp: fetch_step_def send_job_def work_left_def split: if_splits)
qed (use assms(1,3) in \<open>auto simp: fetch_step_def work_left_def split: if_splits\<close>)

lemma drain_step_work:
  assumes "rt_shutdown r" "drain_step Bs ok pr (s, r) (s', r')" "inv s"
  shows "work_left r' < work_left r"
  using assms(2)
proof (cases rule: drain_step.cases)
  case (drain_fetch p rng)
  then show ?thesis using fetch_step_work assms(1,3) by blast
next
  case (drain_work p rng utc clock elapsed seed i)
  from worker_step_work [OF assms(1) drain_work(3)] show ?thesis .
qed

text \<open>Nothing blocks while the process drains: the fetcher finds room in the channel and a worker with nothing to do ends.\<close>

lemma drain_progress:
  assumes "slots_ok pr r" "rt_shutdown r" "\<not> all_stopped r" "ok p"
  shows "\<exists>st'. drain_step Bs ok pr (s, r) st'"
proof (cases "fetcher_stopped (rt_fetcher r)")
  case False
  have rng: "rng_ok (\<lambda>_. 0)" by (simp add: rng_ok_def)
  have "\<exists>st'. fetch_step pr (\<lambda>_. 0) (Bs p) (s, r) = Some st'"
  proof (cases "rt_fetcher r")
    case (Sending job rest got n)
    then have "length (rt_chan r) < chan_capacity pr"
      using assms(1) by (simp add: slots_ok_def slots_taken_def chan_capacity_def)
    then show ?thesis using Sending by (simp add: fetch_step_def send_job_def)
  next
    case (Handing rows got n)
    then show ?thesis by (cases rows) (simp_all add: fetch_step_def)
  next
    case (Claiming n)
    then show ?thesis by (simp add: fetch_step_def split: prod.splits sum.splits)
  qed (use assms(2) False in \<open>simp_all add: fetch_step_def\<close>)
  then show ?thesis using drain_step.drain_fetch [where Bs = Bs and ok = ok and p = p] assms(4) rng by blast
next
  case True
  then obtain w where "w \<in> set (rt_workers r)" "\<not> stopped w" using assms(3) by (auto simp: all_stopped_def list_all_iff)
  then obtain i where i: "i < length (rt_workers r)" "\<not> stopped (rt_workers r ! i)" by (auto simp: in_set_conv_nth)
  have rng: "rng_ok (\<lambda>_. 0)" by (simp add: rng_ok_def)
  have "\<exists>st'. worker_step pr (\<lambda>_. 0) utc clock elapsed seed (Bs p) i (s, r) = Some st'" for utc clock elapsed seed
    using i assms(2) by (cases "rt_workers r ! i") (simp_all add: worker_step_def take_job_def)
  then show ?thesis using drain_step.drain_work [where Bs = Bs and ok = ok and p = p] assms(4) rng by blast
qed

end

section \<open>Pacing\<close>

definition pace :: "process \<Rightarrow> duration" where
  "pace pr = max (fetch_poll_interval (pr_config pr)) (idle_ceiling (fetch_poll_interval (pr_config pr)))"

definition longest_sleep :: "process \<Rightarrow> duration" where
  "longest_sleep pr = max (fetch_cooldown (pr_config pr)) (pace pr + max (pace pr div 10) 10000000)"

definition pace_ok :: "process \<Rightarrow> runtime \<Rightarrow> bool" where
  "pace_ok pr r \<longleftrightarrow>
     rt_backoff r \<le> pace pr \<and> rt_fetcher r \<noteq> Fetcher_panicked \<and> (\<forall>d. rt_fetcher r = Sleeping d \<longrightarrow> d \<le> longest_sleep pr)"

lemma jitter_bounds:
  assumes "rng_ok rng" "base + max (base div 10) 10000000 \<le> duration_max"
  shows "\<exists>d. jitter rng base = Some d \<and> base < d \<and> d \<le> base + max (base div 10) 10000000"
proof -
  let ?tenth = "sat_u64 base div 10"
  have "?tenth \<le> base div 10" by (simp add: sat_u64_def div_le_mono)
  moreover have "(if ?tenth = 0 then 0 else rng ?tenth) \<le> ?tenth" using assms(1) by (auto simp: rng_ok_def intro: less_imp_le)
  ultimately have x: "max (if ?tenth = 0 then 0 else rng ?tenth) 10000000 \<le> max (base div 10) 10000000"
    (is "?x \<le> _") by simp
  then have "base + ?x \<le> duration_max" using assms(2) by linarith
  then have "jitter rng base = Some (base + ?x)" by (simp add: jitter_def duration_add_def Let_def del: max_less_iff_conj)
  moreover have "base < base + ?x" by simp
  ultimately show ?thesis using x by (metis add_le_cancel_left)
qed

lemma escalate_le: "escalate_idle d (idle_ceiling p) \<le> idle_ceiling p"
  by (simp add: escalate_idle_def)

context runtime_backend
begin

lemma fetch_step_pace:
  assumes "slots_ok pr r" "pace_ok pr r" "rng_ok rng" "fetch_step pr rng (Bs p) (s, r) = Some (s', r')"
    and "pace pr + max (pace pr div 10) 10000000 \<le> duration_max"
  shows "pace_ok pr r'"
proof (cases "rt_fetcher r")
  case (Handing rows got n)
  show ?thesis
  proof (cases rows)
    case Nil
    have b: "rt_backoff r \<le> pace pr" using assms(2) by (simp add: pace_ok_def)
    then have "rt_backoff r div 10 \<le> pace pr div 10" by (rule div_le_mono)
    with b have le: "rt_backoff r + max (rt_backoff r div 10) 10000000 \<le> pace pr + max (pace pr div 10) 10000000" by simp
    then obtain d where d: "jitter rng (rt_backoff r) = Some d" "d \<le> pace pr + max (pace pr div 10) 10000000"
      using jitter_bounds [OF assms(3), of "rt_backoff r"] assms(5) by (meson order_trans)
    have "escalate_idle (rt_backoff r) (idle_ceiling (fetch_poll_interval (pr_config pr))) \<le> pace pr"
      using escalate_le by (simp add: pace_def le_max_iff_disj)
    then show ?thesis using assms(2,4) Handing Nil d
      by (auto simp: fetch_step_def after_claim_def pace_ok_def longest_sleep_def Let_def pace_def le_max_iff_disj split: if_splits)
  next
    case (Cons job rest)
    then have "0 < rt_idle r" using assms(1) Handing by (simp add: slots_ok_def)
    then show ?thesis using assms(2,4) Handing Cons by (auto simp: fetch_step_def take_slot_def pace_ok_def)
  qed
next
  case (Claiming n)
  then show ?thesis using assms(2,4) by (auto simp: fetch_step_def pace_ok_def split: prod.splits sum.splits)
next
  case (Sending job rest got n)
  then show ?thesis using assms(2,4) by (auto simp: fetch_step_def send_job_def pace_ok_def split: if_splits)
qed (use assms(2,4) in \<open>auto simp: fetch_step_def pace_ok_def pace_def split: if_splits\<close>)

lemma worker_step_pace:
  assumes "pace_ok pr r" "worker_step pr rng utc clock elapsed seed B i (s, r) = Some (s', r')"
  shows "pace_ok pr r'"
proof -
  have "rt_fetcher r' = rt_fetcher r" "rt_backoff r' = rt_backoff r"
    using assms(2)
    by (auto simp: worker_step_def take_job_def finish_job_def set_worker_def unregister_def idle_again_def Let_def
        split: if_splits worker.splits list.splits sum.splits option.splits)
  then show ?thesis using assms(1) by (simp add: pace_ok_def)
qed

end

section \<open>Calls change the store as the environment may\<close>

definition stays_in :: "('s \<Rightarrow> 's \<Rightarrow> bool) \<Rightarrow> 's \<Rightarrow> 's \<Rightarrow> bool" where
  "stays_in env s s' \<longleftrightarrow> s' = s \<or> env s s'"

locale runtime_store = runtime_backend +
  assumes claim_within: "ok p \<Longrightarrow> stays_in env s (fst (be_claim_batch (Bs p) w n ks qs s))"
    and heartbeat_within: "ok p \<Longrightarrow> stays_in env s (fst (be_update_heartbeat_batch (Bs p) ids s))"
    and completed_within: "ok p \<Longrightarrow> stays_in env s (fst (be_mark_completed (Bs p) i w res s))"
    and failed_within: "ok p \<Longrightarrow> stays_in env s (fst (be_mark_failed (Bs p) i w entry retry_at s))"
    and sweep_within: "ok p \<Longrightarrow> stays_in env s (fst (be_sweep_stale (Bs p) d s))"
    and reconcile_within: "ok p \<Longrightarrow> stays_in env s (fst (be_reconcile_counters (Bs p) s))"
    and cleanup_within: "ok p \<Longrightarrow> stays_in env s (fst (be_cleanup (Bs p) ret s))"
    and elect_within: "ok p \<Longrightarrow> stays_in env s (fst (be_leader_try_elect (Bs p) w role lease s))"
    and resign_within: "ok p \<Longrightarrow> stays_in env s (fst (be_leader_resign (Bs p) w role s))"
    and tick_within: "ok p \<Longrightarrow> stays_in env s (fst (be_schedule_tick (Bs p) s))"
begin

lemma stays_refl: "stays_in env s s"
  by (simp add: stays_in_def)

lemma fetch_within:
  assumes "ok p" "fetch_step pr rng (Bs p) (s, r) = Some (s', r')"
  shows "stays_in env s s'"
proof (cases "rt_fetcher r")
  case (Claiming n)
  then have "s' = fst (be_claim_batch (Bs p) (pr_fetcher_id pr) n (registered_kinds (pr_registry pr)) (pr_queues pr) s)"
    using assms(2) by (auto simp: fetch_step_def split: prod.splits sum.splits)
  then show ?thesis by (simp add: claim_within [OF assms(1)])
next
  case (Handing rows got n)
  then show ?thesis using assms(2) by (cases rows) (auto simp: fetch_step_def stays_refl)
qed (use assms(2) in \<open>auto simp: fetch_step_def stays_refl split: if_splits\<close>)

lemma report_within: "ok p \<Longrightarrow> stays_in env s (send_report (Bs p) job rep s)"
  by (cases rep) (simp_all add: send_report_def completed_within failed_within)

lemma worker_within:
  assumes "ok p" "worker_step pr rng utc clock elapsed seed (Bs p) i (s, r) = Some (s', r')"
  shows "stays_in env s s'"
  using assms(2) report_within [OF assms(1)] by (auto simp: worker_step_def stays_refl split: if_splits worker.splits)

lemma elect_once_within: "ok p \<Longrightarrow> stays_in env s (fst (try_elect_once pr (Bs p) (s, r)))"
proof -
  assume "ok p"
  moreover have "fst (try_elect_once pr (Bs p) (s, r)) =
      fst (be_leader_try_elect (Bs p) (pr_maintenance_id pr) maintenance_role (leader_lease_secs (pr_config pr)) s)"
    by (auto simp: try_elect_once_def split: prod.splits sum.splits)
  ultimately show ?thesis by (simp add: elect_within)
qed

lemma maintenance_within:
  assumes "ok p"
  shows "heartbeat_step (Bs p) (s, r) = Some (s', r') \<Longrightarrow> stays_in env s s'"
    and "leader_step pr resigned (Bs p) (s, r) = Some (s', r') \<Longrightarrow> stays_in env s s'"
    and "sweeper_step pr instant (Bs p) (s, r) = Some (s', r') \<Longrightarrow> stays_in env s s'"
    and "scheduler_step (Bs p) (s, r) = Some (s', r') \<Longrightarrow> stays_in env s s'"
    and "cleanup_step pr (Bs p) (s, r) = Some (s', r') \<Longrightarrow> stays_in env s s'"
proof -
  show "stays_in env s s'" if "leader_step pr resigned (Bs p) (s, r) = Some (s', r')"
    using that elect_once_within [OF assms, of s pr r] resign_within [OF assms]
    by (auto simp: leader_step_def stays_refl split: if_splits)
qed (auto simp: heartbeat_step_def sweeper_step_def scheduler_step_def cleanup_step_def stays_refl
    heartbeat_within sweep_within reconcile_within tick_within cleanup_within assms split: if_splits)

text \<open>The store sees a process as one more participant.\<close>

lemma rt_step_within:
  assumes "rt_step Bs ok env pr (s, r) (s', r')"
  shows "stays_in env s s'"
  using assms
proof (cases rule: rt_step.cases)
  case others
  then show ?thesis by (simp add: stays_in_def)
qed (auto simp: stays_refl dest: fetch_within worker_within maintenance_within)

lemma rt_step_inv: "rt_step Bs ok env pr (s, r) (s', r') \<Longrightarrow> inv s \<Longrightarrow> inv s'"
  using rt_step_within env_inv unfolding stays_in_def by blast

lemma run_within: "(rt_step Bs ok env pr)\<^sup>*\<^sup>* st st' \<Longrightarrow> env\<^sup>*\<^sup>* (fst st) (fst st')"
proof (induction rule: rtranclp_induct)
  case (step st' st'')
  then have "stays_in env (fst st') (fst st'')" using rt_step_within by (metis prod.collapse)
  then show ?case using step.IH by (auto simp: stays_in_def intro: rtranclp.rtrancl_into_rtrancl)
qed simp

lemma run_slots:
  assumes "(rt_step Bs ok env pr)\<^sup>*\<^sup>* (s0, rt_start pr) st" "inv s0"
  shows "slots_ok pr (snd st) \<and> inv (fst st)"
  using assms(1)
proof (induction rule: rtranclp_induct)
  case base
  show ?case by (simp add: slots_start assms(2))
next
  case (step st st')
  then show ?case using rt_step_slots rt_step_inv by (metis prod.collapse)
qed

text \<open>A job that is handed over finds a slot and room in the channel, and while no worker has ended there are as many
  waiting workers as slots that are not taken by a running job.\<close>

lemma run_handover:
  assumes "(rt_step Bs ok env pr)\<^sup>*\<^sup>* (s0, rt_start pr) (s, r)" "inv s0"
  shows "rt_fetcher r = Handing (job # rest) got n \<Longrightarrow> 0 < rt_idle r"
    and "rt_fetcher r = Sending job rest got n \<Longrightarrow> length (rt_chan r) < chan_capacity pr"
    and "rt_fetcher r = Claiming n \<Longrightarrow> n \<le> rt_idle r"
  using run_slots [OF assms] by (auto simp: slots_ok_def slots_taken_def chan_capacity_def)

lemma run_pace:
  assumes "(rt_step Bs ok env pr)\<^sup>*\<^sup>* (s0, rt_start pr) st" "inv s0" "pace pr + max (pace pr div 10) 10000000 \<le> duration_max"
  shows "pace_ok pr (snd st)"
  using assms(1)
proof (induction rule: rtranclp_induct)
  case base
  show ?case by (simp add: pace_ok_def rt_start_def pace_def)
next
  case (step st st')
  obtain s r s' r' where st: "st = (s, r)" "st' = (s', r')" by (cases st; cases st') blast
  have ok: "slots_ok pr r" using run_slots [OF step.hyps(1) assms(2)] st by simp
  from step.hyps(2) [unfolded st] show ?case
  proof (cases rule: rt_step_cases)
    case (fetch p rng)
    then show ?thesis using fetch_step_pace [OF ok _ fetch(2,3) assms(3)] step.IH st by simp
  next
    case (work p rng utc clock elapsed seed i)
    then show ?thesis using worker_step_pace [OF _ work(3)] step.IH st by simp
  next
    case other
    then show ?thesis using step.IH st by (simp add: same_work_def pace_ok_def)
  qed
qed

end

end
