(* ===== verification/Eddy_Queue.thy ===== *)
theory Eddy_Queue
  imports Process
begin

text \<open>
  \<open>Queue\<close> of \<open>crates/eddyq-core/src/queue.rs\<close>: the handle an application holds. It builds requests for the backend,
  starts the runtime and stops it in one of three ways. Waiting for the tasks to end is an argument of the shutdown
  functions: \<open>await\<close> is the run of the process from the moment the token fires.
\<close>

section \<open>The handle\<close>

datatype queue_state = Q_idle | Q_running runtime

record eddy_queue =
  eq_process :: process
  eq_line :: string
  eq_state :: queue_state

text \<open>The identifiers that \<open>Uuid::new_v4\<close> makes up when the runtime starts are part of the process.\<close>

definition build :: "uuid \<Rightarrow> uuid \<Rightarrow> (nat \<Rightarrow> uuid) \<Rightarrow> queue_builder \<Rightarrow> eddy_queue" where
  "build fetcher_id maintenance_id worker_ids b =
     \<lparr>eq_process = \<lparr>pr_config = qb_config b, pr_registry = qb_registry b, pr_queues = qb_queues b,
        pr_fetcher_id = fetcher_id, pr_maintenance_id = maintenance_id, pr_worker_ids = worker_ids\<rparr>,
      eq_line = qb_line b, eq_state = Q_idle\<rparr>"

definition q_start :: "eddy_queue \<Rightarrow> eddy_queue \<times> unit res" where
  "q_start q =
     (case eq_state q of
        Q_running _ \<Rightarrow> (q, Inl AlreadyRunning)
      | Q_idle \<Rightarrow> (q\<lparr>eq_state := Q_running (rt_start (eq_process q))\<rparr>, Inr ()))"

text \<open>\<open>mem::replace(&mut *state, Idle)\<close>, and the token fires.\<close>

definition take_running :: "eddy_queue \<Rightarrow> eddy_queue \<times> runtime res" where
  "take_running q =
     (q\<lparr>eq_state := Q_idle\<rparr>,
      (case eq_state q of Q_idle \<Rightarrow> Inl NotRunning | Q_running r \<Rightarrow> Inr (r\<lparr>rt_shutdown := True\<rparr>)))"

section \<open>Shutdown\<close>

datatype shutdown_mode = Drain | Force | Abandon

datatype drain_outcome = Clean | Escalated nat

definition reclaimed :: "'s \<times> nat res \<Rightarrow> 's \<times> nat" where
  "reclaimed x = (case x of (s, Inr n) \<Rightarrow> (s, n) | (s, Inl err) \<Rightarrow> (s, 0))"

definition shutdown_with ::
  "shutdown_mode \<Rightarrow> 's backend \<Rightarrow> ('s \<times> runtime \<Rightarrow> 's \<times> runtime) \<Rightarrow> eddy_queue \<Rightarrow> 's \<Rightarrow> 's \<times> eddy_queue \<times> runtime option res" where
  "shutdown_with mode B await q s =
     (case take_running q of
        (q', Inl err) \<Rightarrow> (s, q', Inl err)
      | (q', Inr r) \<Rightarrow>
          (case mode of
             Drain \<Rightarrow> (case await (s, r) of (s', r') \<Rightarrow> (s', q', Inr (Some r')))
           | Force \<Rightarrow> (case reclaimed (be_reclaim_in_flight B (rt_in_flight r) s) of (s', n) \<Rightarrow> (s', q', Inr (Some (abort_all r))))
           | Abandon \<Rightarrow> (s, q', Inr (Some (abort_all r)))))"

text \<open>The bounded drain takes its snapshot of the in-flight set before it waits; \<open>await\<close> also says whether all tasks
  ended in time.\<close>

definition shutdown_drain_bounded ::
  "'s backend \<Rightarrow> ('s \<times> runtime \<Rightarrow> ('s \<times> runtime) \<times> bool) \<Rightarrow> eddy_queue \<Rightarrow> 's \<Rightarrow> 's \<times> eddy_queue \<times> drain_outcome res" where
  "shutdown_drain_bounded B await q s =
     (case take_running q of
        (q', Inl err) \<Rightarrow> (s, q', Inl err)
      | (q', Inr r) \<Rightarrow>
          (let snapshot = rt_in_flight r in
           case await (s, r) of
             ((s', r'), True) \<Rightarrow> (s', q', Inr Clean)
           | ((s', r'), False) \<Rightarrow>
               (case reclaimed (be_reclaim_in_flight B snapshot s') of (s'', n) \<Rightarrow> (s'', q', Inr (Escalated n)))))"

section \<open>Requests\<close>

definition q_enqueue_with :: "'s backend \<Rightarrow> typed_job \<Rightarrow> enqueue_options \<Rightarrow> 's \<Rightarrow> 's \<times> enqueue_result res" where
  "q_enqueue_with B job opts s =
     (case build_dyn_enqueue job opts of Inl err \<Rightarrow> (s, Inl err) | Inr req \<Rightarrow> be_enqueue B req s)"

definition q_enqueue :: "'s backend \<Rightarrow> typed_job \<Rightarrow> 's \<Rightarrow> 's \<times> enqueue_result res" where
  "q_enqueue B job = q_enqueue_with B job default_options"

fun build_all :: "typed_job list \<Rightarrow> dyn_enqueue list res" where
  "build_all [] = Inr []"
| "build_all (j # js) =
     (case build_dyn_enqueue j default_options of
        Inl err \<Rightarrow> Inl err
      | Inr req \<Rightarrow> (case build_all js of Inl err \<Rightarrow> Inl err | Inr reqs \<Rightarrow> Inr (req # reqs)))"

definition q_enqueue_many :: "'s backend \<Rightarrow> typed_job list \<Rightarrow> 's \<Rightarrow> 's \<times> bulk_enqueue_result res" where
  "q_enqueue_many B js s = (case build_all js of Inl err \<Rightarrow> (s, Inl err) | Inr reqs \<Rightarrow> be_enqueue_many B reqs s)"

definition q_cancel :: "'s backend \<Rightarrow> job_id \<Rightarrow> 's \<Rightarrow> 's \<times> bool res" where
  "q_cancel B i = be_cancel B i"

definition add_schedule :: "'s backend \<Rightarrow> string \<Rightarrow> string \<Rightarrow> typed_job \<Rightarrow> 's \<Rightarrow> 's \<times> unit res" where
  "add_schedule B name cron_expr job s =
     (case t_payload job of
        Inl err \<Rightarrow> (s, Inl err)
      | Inr payload \<Rightarrow>
          be_upsert_schedule_raw B
            \<lparr>sd_name = name, sd_cron_expr = cron_expr, sd_kind = t_kind job, sd_payload = payload,
             sd_priority = t_priority job, sd_max_attempts = t_max_attempts job, sd_queue = t_queue job\<rparr> s)"

definition add_interval_schedule :: "'s backend \<Rightarrow> string \<Rightarrow> duration \<Rightarrow> typed_job \<Rightarrow> 's \<Rightarrow> 's \<times> unit res" where
  "add_interval_schedule B name interval job s =
     (case t_payload job of
        Inl err \<Rightarrow> (s, Inl err)
      | Inr payload \<Rightarrow>
          if i64_max < int (as_millis interval) then (s, Inl (InvalidArgument ''interval too large''))
          else be_upsert_interval_schedule_raw B name (int (as_millis interval)) (t_kind job) payload (t_priority job)
                 (t_max_attempts job) (t_queue job) s)"

definition pause_group :: "'s backend \<Rightarrow> string \<Rightarrow> 's \<Rightarrow> 's \<times> unit res" where
  "pause_group B k = be_group_set_paused B k True"

definition resume_group :: "'s backend \<Rightarrow> string \<Rightarrow> 's \<Rightarrow> 's \<times> unit res" where
  "resume_group B k = be_group_set_paused B k False"

definition pause_queue :: "'s backend \<Rightarrow> string \<Rightarrow> 's \<Rightarrow> 's \<times> unit res" where
  "pause_queue B name = be_queue_set_paused B name True"

definition resume_queue :: "'s backend \<Rightarrow> string \<Rightarrow> 's \<Rightarrow> 's \<times> unit res" where
  "resume_queue B name = be_queue_set_paused B name False"

definition q_remove_schedule :: "'s backend \<Rightarrow> string \<Rightarrow> 's \<Rightarrow> 's \<times> bool res" where
  "q_remove_schedule B name = be_remove_schedule B name"

definition q_set_schedule_enabled :: "'s backend \<Rightarrow> string \<Rightarrow> bool \<Rightarrow> 's \<Rightarrow> 's \<times> bool res" where
  "q_set_schedule_enabled B name enabled = be_set_schedule_enabled B name enabled"

definition q_list_schedules :: "'s backend \<Rightarrow> 's \<Rightarrow> 's \<times> schedule list res" where
  "q_list_schedules B = be_list_schedules B"

definition q_sync_schedules :: "'s backend \<Rightarrow> schedule_declaration list \<Rightarrow> 's \<Rightarrow> 's \<times> sync_report res" where
  "q_sync_schedules B declared = be_sync_schedules B declared"

definition set_group_concurrency :: "'s backend \<Rightarrow> string \<Rightarrow> int \<Rightarrow> 's \<Rightarrow> 's \<times> unit res" where
  "set_group_concurrency B k mx = be_group_set_concurrency B k mx"

definition get_group :: "'s backend \<Rightarrow> string \<Rightarrow> 's \<Rightarrow> 's \<times> group option res" where
  "get_group B k = be_group_get B k"

definition list_groups :: "'s backend \<Rightarrow> 's \<Rightarrow> 's \<times> group list res" where
  "list_groups B = be_group_list B"

definition set_group_rate :: "'s backend \<Rightarrow> string \<Rightarrow> nat \<Rightarrow> duration \<Rightarrow> 's \<Rightarrow> 's \<times> unit res" where
  "set_group_rate B k n period = be_group_set_rate B k n period"

definition clear_group_rate :: "'s backend \<Rightarrow> string \<Rightarrow> 's \<Rightarrow> 's \<times> unit res" where
  "clear_group_rate B k = be_group_clear_rate B k"

definition set_group_rule :: "'s backend \<Rightarrow> string \<Rightarrow> group_rule \<Rightarrow> 's \<Rightarrow> 's \<times> unit res" where
  "set_group_rule B pattern rule = be_group_set_rule B pattern rule"

definition remove_group_rule :: "'s backend \<Rightarrow> string \<Rightarrow> 's \<Rightarrow> 's \<times> bool res" where
  "remove_group_rule B pattern = be_group_remove_rule B pattern"

definition list_group_rules :: "'s backend \<Rightarrow> 's \<Rightarrow> 's \<times> stored_rule list res" where
  "list_group_rules B = be_group_list_rules B"

definition set_queue_concurrency :: "'s backend \<Rightarrow> string \<Rightarrow> int \<Rightarrow> 's \<Rightarrow> 's \<times> unit res" where
  "set_queue_concurrency B name mx = be_queue_set_concurrency B name mx"

definition get_queue :: "'s backend \<Rightarrow> string \<Rightarrow> 's \<Rightarrow> 's \<times> named_queue option res" where
  "get_queue B name = be_queue_get B name"

definition list_named_queues :: "'s backend \<Rightarrow> 's \<Rightarrow> 's \<times> named_queue list res" where
  "list_named_queues B = be_queue_list B"

definition q_get_stats :: "'s backend \<Rightarrow> 's \<Rightarrow> 's \<times> queue_state_count list res" where
  "q_get_stats B = be_get_stats B"

definition q_list_jobs :: "'s backend \<Rightarrow> list_jobs_filter \<Rightarrow> pagination \<Rightarrow> 's \<Rightarrow> 's \<times> job_list res" where
  "q_list_jobs B f pg = be_list_jobs B f pg"

definition set_queue_timeout :: "'s backend \<Rightarrow> string \<Rightarrow> duration option \<Rightarrow> 's \<Rightarrow> 's \<times> unit res" where
  "set_queue_timeout B name timeout = be_queue_set_timeout B name timeout"

definition q_clean :: "'s backend \<Rightarrow> duration \<Rightarrow> nat \<Rightarrow> clean_state \<Rightarrow> 's \<Rightarrow> 's \<times> nat res" where
  "q_clean B grace limit st = be_clean B grace limit st"

definition q_migrate :: "pg_ctx \<Rightarrow> 'm exec \<Rightarrow> eddy_queue \<Rightarrow> 'm mig_state \<Rightarrow> 'm mig_state \<times> migrate_report res" where
  "q_migrate p exec q = pg_migrate_up p exec (eq_line q)"

definition q_migrate_down :: "'m exec \<Rightarrow> nat \<Rightarrow> eddy_queue \<Rightarrow> 'm mig_state \<Rightarrow> 'm mig_state \<times> migrate_report res" where
  "q_migrate_down exec max_steps q = pg_migrate_down exec (eq_line q) max_steps"

definition q_migration_status :: "eddy_queue \<Rightarrow> 'm mig_state \<Rightarrow> (int \<times> string \<times> timestamp option) list" where
  "q_migration_status q = pg_migration_status (eq_line q)"

definition q_enqueue_in_tx_with :: "pg_ctx \<Rightarrow> typed_job \<Rightarrow> enqueue_options \<Rightarrow> enqueue_result tx" where
  "q_enqueue_in_tx_with p job opts = pg_enqueue_in_tx p job opts"

definition q_enqueue_in_tx :: "pg_ctx \<Rightarrow> typed_job \<Rightarrow> enqueue_result tx" where
  "q_enqueue_in_tx p job = pg_enqueue_in_tx p job default_options"

definition q_enqueue_many_in_tx :: "pg_ctx \<Rightarrow> typed_job list \<Rightarrow> bulk_enqueue_result tx" where
  "q_enqueue_many_in_tx p js = pg_enqueue_many_in_tx p js"

section \<open>Starting and stopping\<close>

text \<open>A queue can be stopped only while it runs, and is idle afterwards whatever the mode and whatever the outcome. An idle
  queue can be started: nothing prevents a stopped queue from running again.\<close>

lemma take_running_result:
  "take_running q = (q', Inr r) \<longleftrightarrow>
     q' = q\<lparr>eq_state := Q_idle\<rparr> \<and> (\<exists>r0. eq_state q = Q_running r0 \<and> r = r0\<lparr>rt_shutdown := True\<rparr>)"
  by (auto simp: take_running_def split: queue_state.splits)

lemma shutdown_leaves_idle:
  assumes "shutdown_with mode B await q s = (s', q', res)"
  shows "q' = q\<lparr>eq_state := Q_idle\<rparr>" "(\<exists>err. res = Inl err) \<longleftrightarrow> eq_state q = Q_idle"
  using assms
  by (auto simp: shutdown_with_def take_running_def split: queue_state.splits shutdown_mode.splits prod.splits)

lemma stopped_queue_starts_again:
  assumes "shutdown_with mode B await q s = (s', q', res)"
  shows "q_start q' = (q'\<lparr>eq_state := Q_running (rt_start (eq_process q))\<rparr>, Inr ())"
  using shutdown_leaves_idle(1) [OF assms] by (simp add: q_start_def)

text \<open>Starting twice is refused and leaves the running queue alone; stopping an idle one is refused.\<close>

lemma start_stop_errors:
  "eq_state q = Q_running r \<Longrightarrow> q_start q = (q, Inl AlreadyRunning)"
  "eq_state q = Q_idle \<Longrightarrow> shutdown_with mode B await q s = (s, q, Inl NotRunning)"
  "eq_state q = Q_idle \<Longrightarrow> shutdown_drain_bounded B await' q s = (s, q, Inl NotRunning)"
  by (simp_all add: q_start_def shutdown_with_def shutdown_drain_bounded_def take_running_def)

section \<open>A panic before the future exists\<close>

text \<open>The handler is called outside \<open>catch_unwind\<close>: when the call itself panics the worker task is gone for good, its slot
  is free all the same, and the job stays in the set the heartbeat refreshes, so that no sweep finds it stale.\<close>

lemma panic_in_call:
  assumes "get_handler (pr_registry pr) (cj_kind job) = Inr h" "h (cj_payload job) (context_of pr i job) seed = Panicked_in_call"
    and "i < length (rt_workers r)"
  shows "rt_workers (finish_job pr rng utc clock elapsed seed i job r) ! i = Worker_panicked"
    "rt_in_flight (finish_job pr rng utc clock elapsed seed i job r) = rt_in_flight r"
    "rt_idle (finish_job pr rng utc clock elapsed seed i job r) = rt_idle r + 1"
  using assms by (simp_all add: finish_job_def Let_def idle_again_def set_worker_def)

text \<open>The lease is refreshed no more often than every five seconds: a lease of at most five seconds can lapse between two
  refreshes of a healthy leader.\<close>

lemma short_lease_lapses:
  "leader_lease_secs c \<le> 5 \<Longrightarrow> from_secs (leader_lease_secs c) \<le> leader_refresh_interval c"
  by (simp add: leader_refresh_interval_def from_secs_def)

end
