(* ===== verification/Claim_Safety.thy ===== *)
theory Claim_Safety
  imports Claim
begin

text \<open>
  What a claim guarantees: which jobs it selects, that the selection respects the batch size, the
  queue budgets and the group slots, and that taking the selected jobs keeps the counters.
\<close>

section \<open>The group walks\<close>

lemma walk_from_sorted: "sorted_wrt (<) (walk_from ks k) \<and> (\<forall>x \<in> set (walk_from ks k). k \<le> x)"
proof (induction ks k rule: walk_from.induct)
  case (1 ks k)
  show ?case
  proof (cases "next_after ks k")
    case None
    then show ?thesis by (simp add: walk_from.simps [of ks k])
  next
    case (Some x)
    from next_after_SomeD(2) [OF Some] have "k < x" .
    with 1 [OF Some] Some show ?thesis by (auto simp: walk_from.simps [of ks k])
  qed
qed

lemma walk_from_set: "set (walk_from ks k) = insert k {x \<in> set ks. k < x}"
proof (induction ks k rule: walk_from.induct)
  case (1 ks k)
  show ?case
  proof (cases "next_after ks k")
    case None
    then show ?thesis
      using next_after_NoneD [OF None] by (auto simp: walk_from.simps [of ks k] not_less dest: leD)
  next
    case (Some x)
    note x = next_after_SomeD [OF Some]
    have "set (walk_from ks k) = insert k (insert x {y \<in> set ks. x < y})"
      using 1 [OF Some] Some by (simp add: walk_from.simps [of ks k])
    also have "\<dots> = insert k {y \<in> set ks. k < y}"
      using x by (auto simp: order.strict_iff_order dest: order.strict_trans)
    finally show ?thesis .
  qed
qed

text \<open>A walk lists every key once, in increasing order: it is \<open>SELECT DISTINCT\<close> without reading every
  row.\<close>

lemma walk_set: "set (walk ks) = set ks"
proof (cases "sort ks")
  case Nil
  then have "ks = []" by (metis length_0_conv length_sort)
  then show ?thesis by (simp add: walk_def)
next
  case (Cons k rest)
  have k: "k \<in> set ks" "\<And>x. x \<in> set ks \<Longrightarrow> k \<le> x"
    using Cons sorted_sort [of ks] by (metis list.set_intros(1) set_sort)
      (metis Cons set_ConsD set_sort sorted_simps(2) sorted_sort order_refl)
  then show ?thesis by (auto simp: walk_def Cons walk_from_set order.strict_iff_order)
qed

lemma walk_sorted: "sorted_wrt (<) (walk ks)"
  by (auto simp: walk_def walk_from_sorted split: list.splits)

lemma walk_eq: "walk ks = sorted_list_of_set (set ks)"
  by (rule strict_sorted_equal) (simp_all add: walk_sorted walk_set)

lemma map_filter_set: "set (List.map_filter f xs) = {y. \<exists>x \<in> set xs. f x = Some y}"
  by (force simp: List.map_filter_def)

lemma group_walk_set:
  "k \<in> set (group_walk c kinds open_qs s) \<longleftrightarrow> (\<exists>j \<in> set (grouped_due c kinds open_qs s). j_group_key j = Some k)"
  by (simp add: group_walk_def walk_set map_filter_set)

lemma group_walk_by_queue_set:
  "set (group_walk_by_queue c kinds open_qs s) = set (group_walk c kinds open_qs s)"
  by (force simp: group_walk_by_queue_def group_walk_def walk_set map_filter_set)

lemma active_group_keys_distinct: "distinct (active_group_keys c n kinds qs open_qs s)"
  using walk_sorted
  by (auto simp: active_group_keys_def group_walk_by_queue_def group_walk_def strict_sorted_iff)

section \<open>Selection: sources and batch size\<close>

text \<open>An accepted entry names a claimable job with its group and queue.\<close>

definition entry_ok :: "claim_env \<Rightarrow> string list \<Rightarrow> string list \<Rightarrow> db \<Rightarrow> accepted \<Rightarrow> bool" where
  "entry_ok c kinds qs s a \<longleftrightarrow>
     (\<exists>j \<in> set (jobs s). a = (j_id j, j_group_key j, j_queue j) \<and> due (c_now c) kinds j \<and>
        j_queue j \<in> set qs \<and> \<not> c_job_locked c (j_id j))"

definition picked_ok :: "claim_env \<Rightarrow> nat \<Rightarrow> string list \<Rightarrow> string list \<Rightarrow> db \<Rightarrow> accepted list \<Rightarrow> bool" where
  "picked_ok c batch_size kinds qs s acc \<longleftrightarrow>
     length acc \<le> batch_size \<and> (\<forall>a \<in> set acc. entry_ok c kinds qs s a)"

lemma set_ungrouped_candidates:
  "j \<in> set (ungrouped_candidates c kinds q s) \<longleftrightarrow>
     j \<in> set (jobs s) \<and> due (c_now c) kinds j \<and> j_group_key j = None \<and> j_queue j = q \<and> \<not> c_job_locked c (j_id j)"
  by (auto simp: ungrouped_candidates_def)

lemma set_group_candidates:
  "j \<in> set (group_candidates c kinds open_qs k s) \<longleftrightarrow>
     j \<in> set (jobs s) \<and> due (c_now c) kinds j \<and> j_group_key j = Some k \<and> j_queue j \<in> set open_qs \<and>
     \<not> c_job_locked c (j_id j)"
  by (auto simp: group_candidates_def)

text \<open>One iteration of phase 1, as the rows it takes.\<close>

lemma take_ungrouped_cases:
  obtains "take_ungrouped c batch_size kinds s q st = st"
  | rows where "rows = take (nat (min (budget_for q (snd st)) (sat_i64 (int (batch_size - length (fst st))))))
                         (ungrouped_candidates c kinds q s)"
      "0 < budget_for q (snd st)" "length rows \<le> batch_size - length (fst st)"
      "int (length rows) \<le> budget_for q (snd st)"
      "take_ungrouped c batch_size kinds s q st =
         (fst st @ map (\<lambda>j. (j_id j, None, q)) rows, spend q (sat_i32 (int (length rows))) (snd st))"
proof (cases "budget_for q (snd st) \<le> 0 \<or> min (budget_for q (snd st)) (sat_i64 (int (batch_size - length (fst st)))) \<le> 0")
  case True
  then show ?thesis by (intro that(1)) (auto simp: take_ungrouped_def Let_def)
next
  case False
  then show ?thesis by (intro that(2) [OF refl]) (auto simp: take_ungrouped_def Let_def sat_i64_def)
qed

lemma picked_ok_append:
  "picked_ok c batch_size kinds qs s acc \<Longrightarrow> length acc + length extra \<le> batch_size \<Longrightarrow>
   (\<And>a. a \<in> set extra \<Longrightarrow> entry_ok c kinds qs s a) \<Longrightarrow> picked_ok c batch_size kinds qs s (acc @ extra)"
  by (auto simp: picked_ok_def)

lemma take_ungrouped_picked:
  assumes "picked_ok c batch_size kinds qs s (fst st)" "q \<in> set qs"
  shows "picked_ok c batch_size kinds qs s (fst (take_ungrouped c batch_size kinds s q st))"
proof (cases rule: take_ungrouped_cases [of c batch_size kinds s q st])
  case 1
  with assms show ?thesis by simp
next
  case (2 rows)
  have "entry_ok c kinds qs s (j_id j, None, q)" if "j \<in> set rows" for j
  proof -
    have "j \<in> set (ungrouped_candidates c kinds q s)" using that 2(1) by (auto dest: in_set_takeD)
    with assms(2) show ?thesis by (auto simp: entry_ok_def set_ungrouped_candidates)
  qed
  then have "picked_ok c batch_size kinds qs s (fst st @ map (\<lambda>j. (j_id j, None, q)) rows)"
    by (intro picked_ok_append [OF assms(1)]) (use 2(3) assms(1) in \<open>auto simp: picked_ok_def\<close>)
  then show ?thesis by (simp add: 2(5))
qed

lemma phase1_picked:
  "picked_ok c batch_size kinds qs s (fst st) \<Longrightarrow> set qs' \<subseteq> set qs \<Longrightarrow>
   picked_ok c batch_size kinds qs s (fst (phase1 c batch_size kinds s qs' st))"
  by (induction qs' arbitrary: st) (simp_all add: take_ungrouped_picked)

lemma accept_rows_picked:
  "picked_ok c batch_size kinds qs s (fst st) \<Longrightarrow>
   (\<And>i q. (i, q) \<in> set rows \<Longrightarrow> entry_ok c kinds qs s (i, Some k, q)) \<Longrightarrow>
   picked_ok c batch_size kinds qs s (fst (accept_rows batch_size k rows slots st))"
proof (induction rows arbitrary: slots st)
  case (Cons r rows)
  have r: "entry_ok c kinds qs s (fst r, Some k, snd r)" using Cons.prems(2) by (cases r) simp
  have "picked_ok c batch_size kinds qs s (fst st @ [(fst r, Some k, snd r)])" if "\<not> batch_size \<le> length (fst st)"
    by (rule picked_ok_append [OF Cons.prems(1)]) (use that r in auto)
  with Cons show ?case by simp
qed simp

lemma take_group_picked:
  assumes "picked_ok c batch_size kinds qs s (fst st)" "set open_qs \<subseteq> set qs"
  shows "picked_ok c batch_size kinds qs s (fst (take_group c batch_size kinds open_qs s g st))"
proof -
  have "entry_ok c kinds qs s (i, Some (fst g), q)"
    if iq: "(i, q) \<in> set (map (\<lambda>j. (j_id j, j_queue j)) (take n (group_candidates c kinds open_qs (fst g) s)))" for i q n
  proof -
    obtain j where j: "j \<in> set (group_candidates c kinds open_qs (fst g) s)" "i = j_id j" "q = j_queue j"
      using iq by (auto dest: in_set_takeD)
    with assms(2) show ?thesis by (auto simp: entry_ok_def set_group_candidates)
  qed
  with assms(1) show ?thesis
    by (auto simp: take_group_def Let_def intro: accept_rows_picked)
qed

lemma phase3_picked:
  "picked_ok c batch_size kinds qs s (fst st) \<Longrightarrow> set open_qs \<subseteq> set qs \<Longrightarrow>
   picked_ok c batch_size kinds qs s (fst (phase3 c batch_size kinds open_qs s tbl st))"
  by (induction tbl arbitrary: st) (simp_all add: take_group_picked)

section \<open>Selection: queue budgets\<close>

definition in_queue :: "string \<Rightarrow> accepted list \<Rightarrow> nat" where
  "in_queue q acc = count_if (\<lambda>a. snd (snd a) = q) acc"

definition in_group :: "string \<Rightarrow> accepted list \<Rightarrow> nat" where
  "in_group k acc = count_if (\<lambda>a. fst (snd a) = Some k) acc"

text \<open>The table of budgets is the initial one less what was accepted, and never negative.\<close>

definition spent :: "budget \<Rightarrow> accepted list \<times> budget \<Rightarrow> bool" where
  "spent bud0 st \<longleftrightarrow>
     (\<forall>q. snd st q = map_option (\<lambda>b. b - int (in_queue q (fst st))) (bud0 q) \<and>
          (\<forall>b. snd st q = Some b \<longrightarrow> 0 \<le> b))"

lemma spent_D: "spent bud0 st \<Longrightarrow> bud0 q = Some b \<Longrightarrow> int (in_queue q (fst st)) \<le> b"
  by (auto simp: spent_def dest!: spec [of _ q])

lemma spent_extend:
  assumes "spent bud0 (acc, bud)" "\<And>a. a \<in> set extra \<Longrightarrow> snd (snd a) = q"
    and "int (length extra) \<le> budget_for q bud"
  shows "spent bud0 (acc @ extra, spend q (int (length extra)) bud)"
proof -
  have "in_queue q' extra = (if q' = q then length extra else 0)" for q'
    using assms(2) by (induction extra) (auto simp: in_queue_def)
  then have n: "in_queue q' (acc @ extra) = in_queue q' acc + (if q' = q then length extra else 0)" for q'
    by (simp add: in_queue_def)
  show ?thesis
    using assms(1,3) by (auto simp: spent_def n spend_def budget_for_def split: option.splits)
qed

lemma take_ungrouped_spent:
  assumes "spent bud0 st" "int batch_size \<le> i32_max"
  shows "spent bud0 (take_ungrouped c batch_size kinds s q st)"
proof (cases rule: take_ungrouped_cases [of c batch_size kinds s q st])
  case 1
  with assms show ?thesis by simp
next
  case (2 rows)
  have "sat_i32 (int (length rows)) = int (length (map (\<lambda>j. (j_id j, None :: string option, q)) rows))"
    using 2(3) assms(2) by (simp add: sat_i32_def)
  moreover have "spent bud0 (fst st @ map (\<lambda>j. (j_id j, None, q)) rows,
      spend q (int (length (map (\<lambda>j. (j_id j, None :: string option, q)) rows))) (snd st))"
    by (rule spent_extend) (use assms(1) 2(4) in auto)
  ultimately show ?thesis by (simp add: 2(5))
qed

lemma phase1_spent:
  "spent bud0 st \<Longrightarrow> int batch_size \<le> i32_max \<Longrightarrow> spent bud0 (phase1 c batch_size kinds s qs st)"
  by (induction qs arbitrary: st) (simp_all add: take_ungrouped_spent)

lemma accept_rows_spent:
  "spent bud0 st \<Longrightarrow> spent bud0 (accept_rows batch_size k rows slots st)"
proof (induction rows arbitrary: slots st)
  case (Cons r rows)
  have "spent bud0 (fst st @ [(fst r, Some k, snd r)], spend (snd r) 1 (snd st))" if "0 < budget_for (snd r) (snd st)"
    using spent_extend [of bud0 "fst st" "snd st" "[(fst r, Some k, snd r)]" "snd r"] Cons.prems that by simp
  with Cons show ?case by simp
qed simp

lemma take_group_spent: "spent bud0 st \<Longrightarrow> spent bud0 (take_group c batch_size kinds open_qs s g st)"
  by (simp add: take_group_def Let_def accept_rows_spent)

lemma phase3_spent: "spent bud0 st \<Longrightarrow> spent bud0 (phase3 c batch_size kinds open_qs s tbl st)"
  by (induction tbl arbitrary: st) (simp_all add: take_group_spent)

section \<open>Selection: group slots\<close>

definition slots_of :: "slot_table \<Rightarrow> string \<Rightarrow> nat" where
  "slots_of tbl k = (\<Sum>(k', st) \<leftarrow> tbl. if k' = k then nat (gs_slots st) else 0)"

lemma take_ungrouped_in_group: "in_group k (fst (take_ungrouped c batch_size kinds s q st)) = in_group k (fst st)"
  by (cases rule: take_ungrouped_cases [of c batch_size kinds s q st])
     (simp_all add: in_group_def count_if_zero_iff)

lemma phase1_in_group: "in_group k (fst (phase1 c batch_size kinds s qs st)) = in_group k (fst st)"
  by (induction qs arbitrary: st) (simp_all add: take_ungrouped_in_group)

lemma accept_rows_in_group:
  "in_group k' (fst (accept_rows batch_size k rows slots st))
     \<le> in_group k' (fst st) + (if k' = k then nat slots else 0)"
proof (induction rows arbitrary: slots st)
  case (Cons r rows)
  let ?st = "(fst st @ [(fst r, Some k, snd r)], spend (snd r) 1 (snd st))"
  have "in_group k' (fst ?st) = in_group k' (fst st) + (if k' = k then 1 else 0)"
    by (auto simp: in_group_def)
  with Cons [of slots st] Cons [of "slots - 1" ?st] show ?case
    by (cases "k' = k") (auto simp: nat_diff_distrib)
qed simp

lemma take_group_in_group:
  "in_group k (fst (take_group c batch_size kinds open_qs s g st))
     \<le> in_group k (fst st) + (if fst g = k then nat (gs_slots (snd g)) else 0)"
  using accept_rows_in_group [of k batch_size "fst g" _ "gs_slots (snd g)" st]
  by (auto simp: take_group_def Let_def)

lemma phase3_in_group:
  "in_group k (fst (phase3 c batch_size kinds open_qs s tbl st)) \<le> in_group k (fst st) + slots_of tbl k"
proof (induction tbl arbitrary: st)
  case (Cons g tbl)
  show ?case
    using Cons [of "take_group c batch_size kinds open_qs s g st"]
      take_group_in_group [of k c batch_size kinds open_qs s g st]
    by (cases g) (auto simp: slots_of_def)
qed (simp add: slots_of_def)

lemma slots_of_perm: "mset tbl = mset tbl' \<Longrightarrow> slots_of tbl k = slots_of tbl' k"
  unfolding slots_of_def sum_mset_sum_list [symmetric] mset_map by simp

lemma slots_of_distinct:
  "distinct (map fst tbl) \<Longrightarrow>
   slots_of tbl k = (case map_of tbl k of None \<Rightarrow> 0 | Some st \<Rightarrow> nat (gs_slots st))"
proof (induction tbl)
  case (Cons g tbl)
  obtain k' st where g: "g = (k', st)" by (cases g)
  show ?case
  proof (cases "k' = k")
    case True
    with Cons.prems have "map_of tbl k = None" by (simp add: g map_of_eq_None_iff)
    with True Cons show ?thesis by (simp add: g slots_of_def)
  next
    case False
    with Cons show ?thesis by (simp add: g slots_of_def)
  qed
qed (simp add: slots_of_def)

section \<open>The budgets phase 0 computes\<close>

lemma lookup_by_Cons: "lookup_by key k (r # t) = (if key r = k then Some r else lookup_by key k t)"
  by (simp add: lookup_by_def)

lemma record_slots_get:
  "distinct (map q_name rows) \<Longrightarrow>
   record_slots m rows q = (case lookup_by q_name q rows of Some r \<Rightarrow> Some (queue_slots r) | None \<Rightarrow> m q)"
proof (induction rows arbitrary: m)
  case (Cons r rows)
  show ?case
  proof (cases "q_name r = q")
    case True
    with Cons.prems have "lookup_by q_name q rows = None" by (auto simp: lookup_by_None_iff)
    with True Cons show ?thesis by (simp add: record_slots_def lookup_by_Cons)
  next
    case False
    with Cons show ?thesis by (simp add: record_slots_def lookup_by_Cons cong: option.case_cong)
  qed
qed (simp add: record_slots_def lookup_by_def)

lemma zeroed_get: "foldl (\<lambda>m name. m(name \<mapsto> 0)) m names q = (if q \<in> set names then Some 0 else m q)"
  by (induction names arbitrary: m) auto

lemma lookup_sorted_filter:
  assumes "distinct (map key t)"
  shows "lookup_by key k (sort_key key (filter p t)) =
    (case lookup_by key k t of Some r \<Rightarrow> if p r then Some r else None | None \<Rightarrow> None)"
proof -
  have d: "distinct (map key (sort_key key (filter p t)))"
    using assms by (simp add: distinct_map_sort_key distinct_map_filter)
  show ?thesis
  proof (cases "lookup_by key k t")
    case None
    then have "k \<notin> key ` set (sort_key key (filter p t))" unfolding lookup_by_None_iff by auto
    then have "lookup_by key k (sort_key key (filter p t)) = None" unfolding lookup_by_None_iff .
    with None show ?thesis by simp
  next
    case (Some r)
    have r: "r \<in> set t" "key r = k" using lookup_by_SomeD [OF Some] by blast+
    show ?thesis
    proof (cases "p r")
      case True
      have "lookup_by key k (sort_key key (filter p t)) = Some r"
        unfolding lookup_by_Some_iff [OF d] using True r by simp
      with Some True show ?thesis by simp
    next
      case False
      have "k \<notin> key ` set (sort_key key (filter p t))"
      proof
        assume "k \<in> key ` set (sort_key key (filter p t))"
        then obtain r' where "r' \<in> set t" "p r'" "key r' = k" by auto
        with r False distinct_key_eq [OF assms, of r r'] show False by simp
      qed
      then have "lookup_by key k (sort_key key (filter p t)) = None" unfolding lookup_by_None_iff .
      with Some False show ?thesis by simp
    qed
  qed
qed

lemma distinct_sorted_filter: "distinct (map key t) \<Longrightarrow> distinct (map key (sort_key key (filter p t)))"
  by (simp add: distinct_map_sort_key distinct_map_filter)

text \<open>The budget of a subscribed queue, by the row the unlocked read saw and the row in the state.\<close>

lemma phase0_budget_get:
  assumes "distinct (map q_name (c_seen_queues c))" "distinct (map q_name (queues s))" "q \<in> set qs"
  shows "phase0_budget c qs s q =
    (case lookup_by q_name q (c_seen_queues c) of
       None \<Rightarrow> None
     | Some r0 \<Rightarrow>
         if queue_row_needs_lock (q_running_count r0) (q_max_concurrency r0) (q_paused r0)
         then (case lookup_by q_name q (queues s) of
                 Some r \<Rightarrow> if c_queue_locked c q then Some 0 else Some (queue_slots r)
               | None \<Rightarrow> Some 0)
         else Some (queue_slots r0))"
proof -
  let ?seen = "c_seen_queues c" and ?b = "binding_queues c qs"
  have ds: "distinct (map q_name (seen_rows c qs))"
    unfolding seen_rows_def by (rule distinct_sorted_filter [OF assms(1)])
  have dl: "distinct (map q_name (locked_rows c ?b s))"
    unfolding locked_rows_def by (rule distinct_sorted_filter [OF assms(2)])
  have seen: "lookup_by q_name q (seen_rows c qs) = lookup_by q_name q ?seen"
    unfolding seen_rows_def lookup_sorted_filter [OF assms(1)]
    using assms(3) by (auto split: option.splits dest: lookup_by_SomeD)
  have inb: "q \<in> set ?b \<longleftrightarrow> (\<exists>r0. lookup_by q_name q ?seen = Some r0 \<and>
      queue_row_needs_lock (q_running_count r0) (q_max_concurrency r0) (q_paused r0))"
    using assms(3) by (auto simp: binding_queues_def seen_rows_def lookup_by_Some_iff [OF assms(1)])
  have locked: "lookup_by q_name q (locked_rows c ?b s) =
      (case lookup_by q_name q (queues s) of
         Some r \<Rightarrow> if q \<in> set ?b \<and> \<not> c_queue_locked c q then Some r else None | None \<Rightarrow> None)"
    unfolding locked_rows_def lookup_sorted_filter [OF assms(2)]
    by (auto split: option.splits dest: lookup_by_SomeD)
  show ?thesis
  proof (cases "?b = []")
    case True
    with inb show ?thesis
      by (auto simp: phase0_budget_def Let_def record_slots_get [OF ds] seen split: option.splits)
  next
    case False
    then show ?thesis
      using inb
      by (auto simp: phase0_budget_def Let_def record_slots_get [OF ds] record_slots_get [OF dl] seen locked
          zeroed_get split: option.splits)
  qed
qed

lemma queue_slots_nonneg: "0 \<le> queue_slots q"
  by (simp add: queue_slots_def)

lemma record_slots_nonneg:
  "record_slots m rows q = Some b \<Longrightarrow> (\<And>b. m q = Some b \<Longrightarrow> 0 \<le> b) \<Longrightarrow> 0 \<le> b"
proof (induction rows arbitrary: m)
  case (Cons r rows)
  have "record_slots (m(q_name r \<mapsto> queue_slots r)) rows q = Some b"
    using Cons.prems(1) by (simp add: record_slots_def)
  moreover have "0 \<le> b'" if "(m(q_name r \<mapsto> queue_slots r)) q = Some b'" for b'
    using that Cons.prems(2) queue_slots_nonneg by (auto split: if_splits)
  ultimately show ?case by (rule Cons.IH)
qed (simp add: record_slots_def)

lemma phase0_budget_nonneg:
  assumes "phase0_budget c qs s q = Some b"
  shows "0 \<le> b"
proof -
  have u: "0 \<le> b'" if "record_slots Map.empty (seen_rows c qs) q = Some b'" for b'
    by (rule record_slots_nonneg [OF that]) simp
  show ?thesis
  proof (cases "binding_queues c qs = []")
    case True
    with assms u show ?thesis by (simp add: phase0_budget_def Let_def)
  next
    case False
    with assms have "record_slots (foldl (\<lambda>m name. m(name \<mapsto> 0)) (record_slots Map.empty (seen_rows c qs))
        (binding_queues c qs)) (locked_rows c (binding_queues c qs) s) q = Some b"
      by (simp add: phase0_budget_def Let_def)
    then show ?thesis
      by (rule record_slots_nonneg) (use u in \<open>auto simp: zeroed_get split: if_splits\<close>)
  qed
qed

lemma phase0_spent: "spent (phase0_budget c qs s) ([], phase0_budget c qs s)"
proof -
  have "map_option (\<lambda>b. b - int (in_queue q [])) x = x" for q x
    by (cases x) (simp_all add: in_queue_def)
  then show ?thesis by (simp add: spent_def phase0_budget_nonneg)
qed

text \<open>A cap that the unlocked read saw is respected: at most the free slots of the row in the state.\<close>

lemma phase0_budget_capped:
  assumes "distinct (map q_name (c_seen_queues c))" "distinct (map q_name (queues s))" "q_name r \<in> set qs"
    and "r \<in> set (queues s)" "r0 \<in> set (c_seen_queues c)"
    and "q_name r0 = q_name r" "q_max_concurrency r0 = q_max_concurrency r" "q_paused r0 = q_paused r"
    and "q_max_concurrency r < i32_max"
  shows "\<exists>b. phase0_budget c qs s (q_name r) = Some b \<and> b \<le> queue_slots r"
proof -
  have "lookup_by q_name (q_name r) (c_seen_queues c) = Some r0" "lookup_by q_name (q_name r) (queues s) = Some r"
    using assms by (simp_all add: lookup_by_Some_iff)
  with assms(6-9) show ?thesis
    unfolding phase0_budget_get [OF assms(1-3)]
    by (auto simp: queue_slots_nonneg queue_row_needs_lock_def queue_slots_def)
qed

section \<open>The whole selection\<close>

lemma group_slots_distinct:
  assumes "distinct (map g_key (groups s))" "distinct keys"
  shows "distinct (map fst (group_slots c keys s))"
proof -
  let ?rows = "sort_key g_key (filter (\<lambda>g. g_key g \<in> set keys \<and> \<not> c_group_locked c (g_key g)) (groups s))"
  have "map fst (group_slots c keys s) = map g_key ?rows @ filter (\<lambda>k. k \<notin> g_key ` set (groups s)) keys"
    by (simp add: group_slots_def comp_def)
  moreover have "distinct (map g_key ?rows)" by (rule distinct_sorted_filter [OF assms(1)])
  ultimately show ?thesis using assms(2) by auto
qed

lemma group_slots_get:
  assumes "map_of (group_slots c keys s) k = Some st"
  shows "(\<exists>g \<in> set (groups s). g_key g = k \<and> \<not> c_group_locked c k \<and> st = group_state_of (c_utc c) g) \<or>
    (k \<notin> g_key ` set (groups s) \<and> st = unlimited_state)"
  using map_of_SomeD [OF assms] by (auto simp: group_slots_def)

lemma select_jobs_unfold:
  obtains acc1 bud1 where "phase1 c batch_size kinds s qs ([], phase0_budget c qs s) = (acc1, bud1)"
    "fst (select_jobs c batch_size kinds qs s) =
       group_slots c (active_group_keys c (batch_size - length acc1) kinds qs
         (filter (\<lambda>q. 0 < budget_for q bud1) qs) s) s"
    "snd (select_jobs c batch_size kinds qs s) =
       fst (phase3 c batch_size kinds (filter (\<lambda>q. 0 < budget_for q bud1) qs) s
         (c_order c (fst (select_jobs c batch_size kinds qs s))) (acc1, bud1))"
  by (cases "phase1 c batch_size kinds s qs ([], phase0_budget c qs s)") (simp add: select_jobs_def Let_def)

lemma select_picked: "picked_ok c batch_size kinds qs s (snd (select_jobs c batch_size kinds qs s))"
proof (rule select_jobs_unfold [of c batch_size kinds s qs])
  fix acc1 bud1
  assume p1: "phase1 c batch_size kinds s qs ([], phase0_budget c qs s) = (acc1, bud1)"
    and sel: "snd (select_jobs c batch_size kinds qs s) =
       fst (phase3 c batch_size kinds (filter (\<lambda>q. 0 < budget_for q bud1) qs) s
         (c_order c (fst (select_jobs c batch_size kinds qs s))) (acc1, bud1))"
  have "picked_ok c batch_size kinds qs s (fst (phase1 c batch_size kinds s qs ([], phase0_budget c qs s)))"
    by (rule phase1_picked) (simp_all add: picked_ok_def)
  then show ?thesis unfolding sel by (intro phase3_picked) (auto simp: p1)
qed

lemma select_queue_bound:
  assumes "int batch_size \<le> i32_max" "phase0_budget c qs s q = Some b"
  shows "int (in_queue q (snd (select_jobs c batch_size kinds qs s))) \<le> b"
proof (rule select_jobs_unfold [of c batch_size kinds s qs])
  fix acc1 bud1
  assume p1: "phase1 c batch_size kinds s qs ([], phase0_budget c qs s) = (acc1, bud1)"
    and sel: "snd (select_jobs c batch_size kinds qs s) =
       fst (phase3 c batch_size kinds (filter (\<lambda>q. 0 < budget_for q bud1) qs) s
         (c_order c (fst (select_jobs c batch_size kinds qs s))) (acc1, bud1))"
  have "spent (phase0_budget c qs s) (acc1, bud1)"
    using phase1_spent [OF phase0_spent assms(1)] unfolding p1 [symmetric] .
  then have "spent (phase0_budget c qs s)
      (phase3 c batch_size kinds (filter (\<lambda>q. 0 < budget_for q bud1) qs) s
         (c_order c (fst (select_jobs c batch_size kinds qs s))) (acc1, bud1))"
    by (rule phase3_spent)
  then show ?thesis unfolding sel using assms(2) by (rule spent_D)
qed

text \<open>The order in which a \<open>HashMap\<close> is iterated: some rearrangement of its entries.\<close>

definition order_ok :: "claim_env \<Rightarrow> bool" where
  "order_ok c \<longleftrightarrow> (\<forall>tbl. mset (c_order c tbl) = mset tbl)"

lemma select_group_bound:
  assumes "order_ok c" "distinct (map g_key (groups s))"
  shows "in_group k (snd (select_jobs c batch_size kinds qs s)) \<le>
    (case map_of (fst (select_jobs c batch_size kinds qs s)) k of None \<Rightarrow> 0 | Some st \<Rightarrow> nat (gs_slots st))"
proof (rule select_jobs_unfold [of c batch_size kinds s qs])
  fix acc1 bud1
  let ?tbl = "fst (select_jobs c batch_size kinds qs s)"
  assume p1: "phase1 c batch_size kinds s qs ([], phase0_budget c qs s) = (acc1, bud1)"
    and tbl: "?tbl = group_slots c (active_group_keys c (batch_size - length acc1) kinds qs
         (filter (\<lambda>q. 0 < budget_for q bud1) qs) s) s"
    and sel: "snd (select_jobs c batch_size kinds qs s) =
       fst (phase3 c batch_size kinds (filter (\<lambda>q. 0 < budget_for q bud1) qs) s (c_order c ?tbl) (acc1, bud1))"
  have "in_group k acc1 = 0"
    using phase1_in_group [of k c batch_size kinds s qs "([], phase0_budget c qs s)"] p1 by (simp add: in_group_def)
  then have "in_group k (snd (select_jobs c batch_size kinds qs s)) \<le> slots_of (c_order c ?tbl) k"
    using phase3_in_group [of k c batch_size kinds _ s "c_order c ?tbl" "(acc1, bud1)"] unfolding sel by simp
  also have "\<dots> = slots_of ?tbl k" by (rule slots_of_perm) (use assms(1) in \<open>simp add: order_ok_def\<close>)
  also have "\<dots> = (case map_of ?tbl k of None \<Rightarrow> 0 | Some st \<Rightarrow> nat (gs_slots st))"
    unfolding tbl
    by (rule slots_of_distinct [OF group_slots_distinct [OF assms(2) active_group_keys_distinct]])
  finally show ?thesis .
qed

section \<open>Taking the selected jobs\<close>

text \<open>The jobs an accepted list names.\<close>

definition taken :: "accepted list \<Rightarrow> job \<Rightarrow> bool" where
  "taken acc j \<longleftrightarrow> j_id j \<in> fst ` set acc"

lemma taken_entry:
  assumes "picked_ok c batch_size kinds qs s acc" "keys_ok s" "j \<in> set (jobs s)" "taken acc j"
  shows "(j_id j, j_group_key j, j_queue j) \<in> set acc \<and> due (c_now c) kinds j \<and> j_queue j \<in> set qs \<and>
    \<not> c_job_locked c (j_id j)"
proof -
  obtain a where a: "a \<in> set acc" "fst a = j_id j" using assms(4) by (auto simp: taken_def)
  with assms(1) obtain j' where j': "j' \<in> set (jobs s)" "a = (j_id j', j_group_key j', j_queue j')"
    "due (c_now c) kinds j'" "j_queue j' \<in> set qs" "\<not> c_job_locked c (j_id j')"
    by (auto simp: picked_ok_def entry_ok_def)
  moreover have "j' = j"
    by (rule distinct_key_eq [of j_id "jobs s"]) (use assms(2,3) a j' in \<open>auto simp: keys_ok_def\<close>)
  ultimately show ?thesis using a(1) by simp
qed

lemma taken_count:
  assumes "picked_ok c batch_size kinds qs s acc" "keys_ok s"
    and "\<And>j. p j \<Longrightarrow> q (j_id j, j_group_key j, j_queue j)"
  shows "count_if (\<lambda>j. taken acc j \<and> p j) (jobs s) \<le> count_if q acc"
proof (rule count_if_key_le [where key = j_id and k = fst])
  show "distinct (map j_id (jobs s))" using assms(2) by (simp add: keys_ok_def)
  fix j assume j: "j \<in> set (jobs s)" "taken acc j \<and> p j"
  with taken_entry [OF assms(1,2)] assms(3) show "\<exists>a \<in> set acc. q a \<and> fst a = j_id j"
    by (intro bexI [of _ "(j_id j, j_group_key j, j_queue j)"]) simp_all
qed

lemma taken_queue_le:
  assumes "picked_ok c batch_size kinds qs s acc" "keys_ok s"
  shows "count_if (\<lambda>j. taken acc j \<and> j_queue j = q) (jobs s) \<le> in_queue q acc"
  unfolding in_queue_def by (rule taken_count [OF assms]) simp

lemma taken_group_le:
  assumes "picked_ok c batch_size kinds qs s acc" "keys_ok s"
  shows "count_if (\<lambda>j. taken acc j \<and> j_group_key j = Some k) (jobs s) \<le> in_group k acc"
  unfolding in_group_def by (rule taken_count [OF assms]) simp

lemma taken_le:
  assumes "picked_ok c batch_size kinds qs s acc" "keys_ok s"
  shows "count_if (taken acc) (jobs s) \<le> batch_size"
  using taken_count [OF assms, of "\<lambda>_. True" "\<lambda>_. True"] assms(1)
  by (simp add: picked_ok_def count_if_def)

section \<open>The counters after a claim\<close>

context counter
begin

text \<open>Raising the rows of distinct keys one after the other, creating a row that is missing.\<close>

lemma fold_raise:
  assumes "distinct ks"
    and step: "\<And>k rows r'. r' \<in> set (f k rows) \<Longrightarrow>
        (\<exists>r \<in> set rows. key r = key r' \<and> cnt r' = cnt r + (if key r = k then n k else 0)) \<or>
        (key r' = k \<and> cnt r' = n k \<and> k \<notin> key ` set rows)"
    and sup: "\<And>k rows. key ` set rows \<subseteq> key ` set (f k rows)"
    and base: "\<And>r. r \<in> set rows \<Longrightarrow> cnt r = c (key r)"
    and absent: "\<And>k. k \<in> set ks \<Longrightarrow> k \<notin> key ` set rows \<Longrightarrow> c k = 0"
    and r: "r \<in> set (fold f ks rows)"
  shows "cnt r = c (key r) + (if key r \<in> set ks then n (key r) else 0)"
  using assms(1) base absent r
proof (induction ks arbitrary: rows c)
  case (Cons k ks)
  let ?c = "c(k := c k + n k)"
  have 1: "cnt r' = ?c (key r')" if "r' \<in> set (f k rows)" for r'
    using step [OF that] Cons.prems(2,3) by auto
  have 2: "?c k' = 0" if "k' \<in> set ks" "k' \<notin> key ` set (f k rows)" for k'
  proof -
    have "k' \<notin> key ` set rows" using that(2) sup [of rows k] by blast
    with that(1) Cons.prems(1) Cons.prems(3) [of k'] show ?thesis by auto
  qed
  have "cnt r = ?c (key r) + (if key r \<in> set ks then n (key r) else 0)"
    by (rule Cons.IH [of "f k rows"]) (use Cons.prems(1,4) 1 2 in auto)
  then show ?case using Cons.prems(1) by auto
qed simp

end

lemma bump_group_cases:
  obtains row f where "\<And>gs. bump_group c slots rows k gs = upsert_by g_key row f gs"
    "g_key row = k" "g_running_count row = int (group_delta rows k)" "0 \<le> g_max_concurrency row"
    "\<And>g. g_key (f g) = g_key g" "\<And>g. g_running_count (f g) = g_running_count g + int (group_delta rows k)"
    "\<And>g. g_max_concurrency (f g) = g_max_concurrency g"
proof (cases "\<exists>st. map_of slots k = Some st \<and> gs_rate_limited st")
  case True
  then obtain st where st: "map_of slots k = Some st" "gs_rate_limited st" by blast
  show ?thesis
    by (rule that, simp add: bump_group_def st Let_def) (simp_all add: fresh_group_def)
next
  case False
  then have "bump_group c slots rows k gs = upsert_by g_key
      ((fresh_group (c_now c) k)\<lparr>g_running_count := int (group_delta rows k)\<rparr>)
      (\<lambda>g. g\<lparr>g_running_count := g_running_count g + int (group_delta rows k), g_updated_at := c_now c\<rparr>) gs" for gs
    by (auto simp: bump_group_def Let_def split: option.splits)
  then show ?thesis by (rule that) (simp_all add: fresh_group_def)
qed

lemma bump_group_row:
  assumes "g' \<in> set (bump_group c slots rows k gs)"
  shows "(\<exists>g \<in> set gs. g_key g = g_key g' \<and> g_max_concurrency g' = g_max_concurrency g \<and>
       g_running_count g' = g_running_count g + (if g_key g = k then int (group_delta rows k) else 0)) \<or>
    (g_key g' = k \<and> g_running_count g' = int (group_delta rows k) \<and> 0 \<le> g_max_concurrency g' \<and>
       k \<notin> g_key ` set gs)"
proof (rule bump_group_cases [of c slots rows k])
  fix row f
  assume "\<And>gs. bump_group c slots rows k gs = upsert_by g_key row f gs"
    and row: "g_key row = k" "g_running_count row = int (group_delta rows k)" "0 \<le> g_max_concurrency row"
    and f: "\<And>g. g_key (f g) = g_key g" "\<And>g. g_running_count (f g) = g_running_count g + int (group_delta rows k)"
      "\<And>g. g_max_concurrency (f g) = g_max_concurrency g"
  with assms have "g' \<in> set (upsert_by g_key row f gs)" by simp
  then show ?thesis
    by (auto simp: upsert_by_def set_update_where row f split: if_splits)
qed

lemma bump_group_keys:
  "g_key ` set (bump_group c slots rows k gs) = insert k (g_key ` set gs)"
  "distinct (map g_key gs) \<Longrightarrow> distinct (map g_key (bump_group c slots rows k gs))"
proof -
  obtain row f where up: "\<And>gs. bump_group c slots rows k gs = upsert_by g_key row f gs" and row: "g_key row = k"
    and f: "\<And>g. g_key (f g) = g_key g"
    by (rule bump_group_cases [of c slots rows k]) (rule that)
  have "g_key ` set (update_where (\<lambda>g. g_key g = k) f gs) = g_key ` set gs"
    by (rule set_map_image) (rule map_update_where_stable, rule f)
  then show "g_key ` set (bump_group c slots rows k gs) = insert k (g_key ` set gs)"
    by (auto simp: up upsert_by_def row)
  show "distinct (map g_key gs) \<Longrightarrow> distinct (map g_key (bump_group c slots rows k gs))"
    unfolding up using f by (intro distinct_upsert_by)
qed

lemma fold_bump_group_keys:
  "g_key ` set (fold (bump_group c slots rows) ks gs) = set ks \<union> g_key ` set gs"
  "distinct (map g_key gs) \<Longrightarrow> distinct (map g_key (fold (bump_group c slots rows) ks gs))"
  by (induction ks arbitrary: gs) (simp_all add: bump_group_keys)

lemma fold_bump_group_max:
  "(\<forall>g \<in> set gs. 0 \<le> g_max_concurrency g) \<Longrightarrow>
   (\<forall>g \<in> set (fold (bump_group c slots rows) ks gs). 0 \<le> g_max_concurrency g)"
proof (induction ks arbitrary: gs)
  case (Cons k ks)
  have "\<forall>g \<in> set (bump_group c slots rows k gs). 0 \<le> g_max_concurrency g"
    using Cons.prems by (auto dest: bump_group_row)
  then show ?case using Cons.IH by simp
qed simp

lemma bump_queue_row:
  "q' \<in> set (bump_queue now rows k qs) \<Longrightarrow>
   \<exists>q \<in> set qs. q_name q = q_name q' \<and> q_max_concurrency q' = q_max_concurrency q \<and>
     q_running_count q' = q_running_count q + (if q_name q = k then int (queue_delta rows k) else 0)"
  by (auto simp: bump_queue_def set_update_where)

lemma bump_queue_names: "map q_name (bump_queue now rows k qs) = map q_name qs"
  unfolding bump_queue_def by (rule map_update_where_stable) simp

lemma fold_bump_queue_names: "map q_name (fold (bump_queue now rows) ks qs) = map q_name qs"
  by (induction ks arbitrary: qs) (simp_all add: bump_queue_names)

lemma fold_bump_queue_max:
  "(\<forall>q \<in> set qs. 0 \<le> q_max_concurrency q) \<Longrightarrow>
   (\<forall>q \<in> set (fold (bump_queue now rows) ks qs). 0 \<le> q_max_concurrency q)"
proof (induction ks arbitrary: qs)
  case (Cons k ks)
  have "\<forall>q \<in> set (bump_queue now rows k qs). 0 \<le> q_max_concurrency q"
    using Cons.prems by (fastforce dest: bump_queue_row)
  then show ?case using Cons.IH by simp
qed simp

section \<open>The state after a claim\<close>

lemma phase4_state:
  fixes c worker timeouts slots acc s
  defines "s' \<equiv> fst (phase4 c worker timeouts slots acc s)"
    and "rows \<equiv> returning (taken acc) (start_job (c_now c) worker) (jobs s)"
  shows "jobs s' = update_where (taken acc) (start_job (c_now c) worker) (jobs s)"
    "groups s' = fold (bump_group c slots rows) (remdups (List.map_filter j_group_key rows)) (groups s)"
    "queues s' = fold (bump_queue (c_now c) rows) (remdups (map j_queue rows)) (queues s)"
    "rules s' = rules s" "batches s' = batches s" "schedules s' = schedules s" "leaders s' = leaders s"
    "next_job_id s' = next_job_id s" "next_batch_id s' = next_batch_id s" "notified s' = notified s"
    "snd (phase4 c worker timeouts slots acc s) = map (claimed_of worker timeouts) rows"
proof -
  have "(\<lambda>j. j_id j \<in> fst ` set acc) = taken acc" by (rule ext) (simp add: taken_def)
  then show "jobs s' = update_where (taken acc) (start_job (c_now c) worker) (jobs s)"
    "groups s' = fold (bump_group c slots rows) (remdups (List.map_filter j_group_key rows)) (groups s)"
    "queues s' = fold (bump_queue (c_now c) rows) (remdups (map j_queue rows)) (queues s)"
    "rules s' = rules s" "batches s' = batches s" "schedules s' = schedules s" "leaders s' = leaders s"
    "next_job_id s' = next_job_id s" "next_batch_id s' = next_batch_id s" "notified s' = notified s"
    "snd (phase4 c worker timeouts slots acc s) = map (claimed_of worker timeouts) rows"
    by (simp_all add: s'_def rows_def phase4_def Let_def)
qed

lemma start_job_simps [simp]:
  "j_id (start_job now w j) = j_id j" "j_group_key (start_job now w j) = j_group_key j"
  "j_queue (start_job now w j) = j_queue j" "j_state (start_job now w j) = Running"
  "j_kind (start_job now w j) = j_kind j" "j_unique_key (start_job now w j) = j_unique_key j"
  "j_batch_id (start_job now w j) = j_batch_id j" "queue_of (start_job now w j) = queue_of j"
  "running (start_job now w j)" "j_attempt (start_job now w j) = j_attempt j + 1"
  "j_worker_id (start_job now w j) = Some w" "j_heartbeat_at (start_job now w j) = Some now"
  by (simp_all add: start_job_def queue_of_def running_def)

lemma due_pending: "due now kinds j \<Longrightarrow> j_state j = Pending \<and> \<not> running j"
  by (simp add: due_def running_def)

lemma group_delta_rows:
  "group_delta (returning (taken acc) (start_job now w) js) k = count_if (\<lambda>j. taken acc j \<and> j_group_key j = Some k) js"
  by (simp add: group_delta_def count_if_returning)

lemma queue_delta_rows:
  "queue_delta (returning (taken acc) (start_job now w) js) q = count_if (\<lambda>j. taken acc j \<and> j_queue j = q) js"
  by (simp add: queue_delta_def count_if_returning)

lemma phase4_counted:
  assumes "picked_ok c batch_size kinds qs s acc" "keys_ok s" "\<And>j. owner (start_job (c_now c) worker j) = owner j"
  shows "counted owner k (jobs (fst (phase4 c worker timeouts slots acc s))) =
    counted owner k (jobs s) + count_if (\<lambda>j. taken acc j \<and> owner j = Some k) (jobs s)"
  unfolding phase4_state
  by (rule counted_update_enter) (use taken_entry [OF assms(1,2)] due_pending assms(3) in auto)

lemma phase4_group_match:
  assumes "picked_ok c batch_size kinds qs s acc" "keys_ok s" "counters_ok s"
  shows "rows_match g_key g_running_count j_group_key (groups (fst (phase4 c worker timeouts slots acc s)))
           (jobs (fst (phase4 c worker timeouts slots acc s)))"
  unfolding rows_match_def
proof
  let ?s' = "fst (phase4 c worker timeouts slots acc s)"
  let ?rows = "returning (taken acc) (start_job (c_now c) worker) (jobs s)"
  let ?ks = "remdups (List.map_filter j_group_key ?rows)"
  fix g assume g: "g \<in> set (groups ?s')"
  have pres: "groups_present s" using assms(3) by (simp add: counters_ok_iff)
  have "g_running_count g = int (running_in_group (g_key g) (jobs s)) +
      (if g_key g \<in> set ?ks then int (group_delta ?rows (g_key g)) else 0)"
  proof (rule gc.fold_raise [where f = "bump_group c slots ?rows" and n = "\<lambda>k. int (group_delta ?rows k)"
        and c = "\<lambda>k. int (running_in_group k (jobs s))"])
    show "distinct ?ks" by simp
    show "g \<in> set (fold (bump_group c slots ?rows) ?ks (groups s))" using g by (simp only: phase4_state)
    show "(\<exists>r \<in> set gs. g_key r = g_key r' \<and>
          g_running_count r' = g_running_count r + (if g_key r = k then int (group_delta ?rows k) else 0)) \<or>
        (g_key r' = k \<and> g_running_count r' = int (group_delta ?rows k) \<and> k \<notin> g_key ` set gs)"
      if "r' \<in> set (bump_group c slots ?rows k gs)" for k gs r'
      using bump_group_row [OF that] by blast
    show "g_key ` set gs \<subseteq> g_key ` set (bump_group c slots ?rows k gs)" for k gs
      by (auto simp: bump_group_keys)
    show "g_running_count r = int (running_in_group (g_key r) (jobs s))" if "r \<in> set (groups s)" for r
      using counters_ok_group [OF assms(3) that] .
    show "int (running_in_group k (jobs s)) = 0" if "k \<notin> g_key ` set (groups s)" for k
      using no_row_no_running [OF pres that] by simp
  qed
  moreover have "group_delta ?rows (g_key g) = 0" if "g_key g \<notin> set ?ks"
    using that by (auto simp: group_delta_def count_if_zero_iff map_filter_set)
  ultimately show "g_running_count g = int (running_in_group (g_key g) (jobs ?s'))"
    using phase4_counted [OF assms(1,2), of j_group_key worker "g_key g" timeouts slots]
    by (auto simp: group_delta_rows)
qed

lemma phase4_queue_match:
  assumes "picked_ok c batch_size kinds qs s acc" "keys_ok s" "counters_ok s"
  shows "rows_match q_name q_running_count queue_of (queues (fst (phase4 c worker timeouts slots acc s)))
           (jobs (fst (phase4 c worker timeouts slots acc s)))"
  unfolding rows_match_def
proof
  let ?s' = "fst (phase4 c worker timeouts slots acc s)"
  let ?rows = "returning (taken acc) (start_job (c_now c) worker) (jobs s)"
  let ?all = "remdups (map j_queue ?rows)"
  fix q assume q: "q \<in> set (queues ?s')"
  have names: "q_name ` set (queues ?s') = q_name ` set (queues s)"
    unfolding phase4_state by (rule set_map_image) (rule fold_bump_queue_names)
  let ?c = "\<lambda>k. if k \<in> q_name ` set (queues s) then int (running_in_queue k (jobs s)) else 0"
  have "q_running_count q = ?c (q_name q) + (if q_name q \<in> set ?all then int (queue_delta ?rows (q_name q)) else 0)"
  proof (rule qc.fold_raise [where f = "bump_queue (c_now c) ?rows" and n = "\<lambda>k. int (queue_delta ?rows k)" and c = ?c])
    show "distinct ?all" by simp
    show "q \<in> set (fold (bump_queue (c_now c) ?rows) ?all (queues s))" using q by (simp only: phase4_state)
    show "(\<exists>r \<in> set gs. q_name r = q_name r' \<and>
          q_running_count r' = q_running_count r + (if q_name r = k then int (queue_delta ?rows k) else 0)) \<or>
        (q_name r' = k \<and> q_running_count r' = int (queue_delta ?rows k) \<and> k \<notin> q_name ` set gs)"
      if "r' \<in> set (bump_queue (c_now c) ?rows k gs)" for k gs r'
      using bump_queue_row [OF that] by blast
    show "q_name ` set gs \<subseteq> q_name ` set (bump_queue (c_now c) ?rows k gs)" for k gs
      using set_map_image [OF bump_queue_names [of "c_now c" ?rows k gs]] by simp
    show "q_running_count r = ?c (q_name r)" if "r \<in> set (queues s)" for r
      using counters_ok_queue [OF assms(3) that] that by simp
    show "?c k = 0" if "k \<notin> q_name ` set (queues s)" for k
      using that by simp
  qed
  moreover have "q_name q \<in> q_name ` set (queues s)" using q names by blast
  moreover have "queue_delta ?rows (q_name q) = 0" if "q_name q \<notin> set ?all"
    using that unfolding queue_delta_def count_if_zero_iff by (metis image_eqI set_map set_remdups)
  ultimately show "q_running_count q = int (running_in_queue (q_name q) (jobs ?s'))"
    using phase4_counted [OF assms(1,2), of queue_of worker "q_name q" timeouts slots]
    by (auto simp: queue_delta_rows queue_of_def)
qed

lemma phase4_keys:
  assumes "keys_ok s"
  shows "keys_ok (fst (phase4 c worker timeouts slots acc s))"
proof -
  let ?s' = "fst (phase4 c worker timeouts slots acc s)"
  have ids: "map j_id (jobs ?s') = map j_id (jobs s)"
    unfolding phase4_state by (rule map_update_where_stable) simp
  have "\<forall>j \<in> set (jobs ?s'). j_id j < next_job_id s"
    using assms set_map_image [OF ids] unfolding keys_ok_def by (metis (no_types, lifting) image_iff)
  moreover have "map q_name (queues ?s') = map q_name (queues s)"
    unfolding phase4_state by (rule fold_bump_queue_names)
  moreover have "distinct (map g_key (groups ?s'))"
    unfolding phase4_state by (rule fold_bump_group_keys) (use assms in \<open>simp add: keys_ok_def\<close>)
  ultimately show ?thesis using assms ids unfolding keys_ok_def by (simp add: phase4_state(4-9))
qed

lemma phase4_present:
  assumes "groups_present s"
  shows "groups_present (fst (phase4 c worker timeouts slots acc s))"
proof -
  let ?s' = "fst (phase4 c worker timeouts slots acc s)"
  let ?rows = "returning (taken acc) (start_job (c_now c) worker) (jobs s)"
  have keys: "g_key ` set (groups ?s') = {k. \<exists>j \<in> set ?rows. j_group_key j = Some k} \<union> g_key ` set (groups s)"
    unfolding phase4_state fold_bump_group_keys by (simp add: map_filter_set)
  show ?thesis
    unfolding groups_present_def
  proof (intro ballI allI impI)
    fix j k assume j: "j \<in> set (jobs ?s')" "running j \<and> j_group_key j = Some k"
    then consider "j \<in> set ?rows" | "j \<in> set (jobs s)"
      by (auto simp: phase4_state set_update_where set_returning)
    then show "k \<in> g_key ` set (groups ?s')"
      using j(2) assms unfolding keys groups_present_def by cases blast+
  qed
qed

lemma phase4_db_ok:
  assumes "picked_ok c batch_size kinds qs s acc" "db_ok s"
  shows "db_ok (fst (phase4 c worker timeouts slots acc s))"
proof (rule db_okI)
  note ok = db_okD [OF assms(2)]
  let ?s' = "fst (phase4 c worker timeouts slots acc s)"
  have pend: "j_state j = Pending" if "taken acc j" "j \<in> set (jobs s)" for j
    using taken_entry [OF assms(1) ok(1) that(2,1)] by (simp add: due_def)
  show "keys_ok ?s'" by (rule phase4_keys [OF ok(1)])
  show "counters_ok ?s'"
    using ok(3) phase4_group_match [OF assms(1) ok(1,3)] phase4_queue_match [OF assms(1) ok(1,3)] phase4_present
    unfolding counters_ok_iff by blast
  show "checks_ok ?s'"
    using ok(4) unfolding checks_ok_def phase4_state
    by (intro conjI fold_bump_group_max fold_bump_queue_max) simp_all
  have upd: "jobs ?s' = update_where (\<lambda>j. j \<in> set (jobs s) \<and> taken acc j) (start_job (c_now c) worker) (jobs s)"
    by (simp add: phase4_state update_where_def)
  show "unique_index_ok (jobs ?s')"
    unfolding upd by (rule unique_index_ok_update [OF ok(2)]) (simp_all add: pend)
  show "batches_ok ?s'"
  proof (rule batches_ok_transfer [OF ok(5)])
    show "batches ?s' = batches s" by (simp only: phase4_state)
    show "outstanding b (jobs ?s') = outstanding b (jobs s)" for b
      unfolding outstanding_def phase4_state by (rule count_if_update_where_same) (simp add: pend)
    show "set_option (j_batch_id j) \<subseteq> b_id ` set (batches s)" if "j \<in> set (jobs ?s')" for j
      using that ok(5) by (auto simp: batches_ok_def phase4_state set_update_where)
  qed
qed

text \<open>A claim ends early with nothing, or takes what was selected.\<close>

lemma claim_batch_cases:
  obtains "claim_batch c worker batch_size kinds qs s = (s, [])"
  | slots acc where "select_jobs c batch_size kinds qs s = (slots, acc)" "acc \<noteq> []"
      "claim_batch c worker batch_size kinds qs s = phase4 c worker (seen_timeouts c qs) slots acc s"
proof (cases "claim_batch c worker batch_size kinds qs s = (s, [])")
  case True
  then show ?thesis by (rule that(1))
next
  case False
  obtain slots acc where sel: "select_jobs c batch_size kinds qs s = (slots, acc)" by fastforce
  with False have "acc \<noteq> []" "claim_batch c worker batch_size kinds qs s = phase4 c worker (seen_timeouts c qs) slots acc s"
    by (auto simp: claim_batch_def split: if_splits)
  with sel show ?thesis by (rule that(2))
qed

lemma claim_batch_db_ok: "db_ok s \<Longrightarrow> db_ok (fst (claim_batch c worker batch_size kinds qs s))"
  using select_picked [of c batch_size kinds qs s] phase4_db_ok
  by (cases rule: claim_batch_cases [of c worker batch_size kinds qs s]) auto

lemma claim_batch_length:
  assumes "keys_ok s"
  shows "length (snd (claim_batch c worker batch_size kinds qs s)) \<le> batch_size"
proof (cases rule: claim_batch_cases [of c worker batch_size kinds qs s])
  case (2 slots acc)
  have "picked_ok c batch_size kinds qs s acc" using select_picked [of c batch_size kinds qs s] 2(1) by simp
  from taken_le [OF this assms] 2(3) show ?thesis by (simp add: phase4_state)
qed simp

text \<open>The rows of the result: claimable jobs of the subscribed queues and kinds, now running under this
  worker with one more attempt.\<close>

lemma claim_batch_jobs:
  assumes "keys_ok s" "cj \<in> set (snd (claim_batch c worker batch_size kinds qs s))"
  shows "\<exists>j \<in> set (jobs s). due (c_now c) kinds j \<and> j_queue j \<in> set qs \<and> \<not> c_job_locked c (j_id j) \<and>
    start_job (c_now c) worker j \<in> set (jobs (fst (claim_batch c worker batch_size kinds qs s))) \<and>
    cj = claimed_of worker (seen_timeouts c qs) (start_job (c_now c) worker j)"
proof (cases rule: claim_batch_cases [of c worker batch_size kinds qs s])
  case (2 slots acc)
  have p: "picked_ok c batch_size kinds qs s acc" using select_picked [of c batch_size kinds qs s] 2(1) by simp
  obtain j where j: "j \<in> set (jobs s)" "taken acc j"
    "cj = claimed_of worker (seen_timeouts c qs) (start_job (c_now c) worker j)"
    using assms(2) unfolding 2(3) by (auto simp: phase4_state set_returning)
  with taken_entry [OF p assms(1) j(1,2)] show ?thesis
    unfolding 2(3) by (intro bexI [of _ j]) (auto simp: phase4_state set_update_where)
qed (use assms in simp)

text \<open>Every other job is left as it was.\<close>

lemma claim_batch_others:
  assumes "keys_ok s" "j \<in> set (jobs s)" "j_id j \<notin> cj_id ` set (snd (claim_batch c worker batch_size kinds qs s))"
  shows "j \<in> set (jobs (fst (claim_batch c worker batch_size kinds qs s)))"
proof (cases rule: claim_batch_cases [of c worker batch_size kinds qs s])
  case (2 slots acc)
  have "\<not> taken acc j"
    using assms(2,3) unfolding 2(3) by (force simp: phase4_state set_returning claimed_of_def image_iff)
  then show ?thesis using assms(2) unfolding 2(3) by (auto simp: phase4_state set_update_where)
qed (use assms in simp)

end
