(* ===== verification/Claim_Limits.thy ===== *)
theory Claim_Limits
  imports Claim_Safety
begin

text \<open>
  The limits a claim respects (queue caps, group caps, token buckets), the order in which it takes
  jobs, and that it makes progress: if some job can be taken, the claim returns a job.
\<close>

section \<open>Caps\<close>

lemma claim_batch_counted:
  assumes "keys_ok s" "\<And>now w j. owner (start_job now w j) = owner j"
  obtains acc where "picked_ok c batch_size kinds qs s acc"
    "acc = [] \<or> acc = snd (select_jobs c batch_size kinds qs s)"
    "\<And>k. counted owner k (jobs (fst (claim_batch c worker batch_size kinds qs s))) =
       counted owner k (jobs s) + count_if (\<lambda>j. taken acc j \<and> owner j = Some k) (jobs s)"
proof (cases rule: claim_batch_cases [of c worker batch_size kinds qs s])
  case 1
  show ?thesis by (rule that [of "[]"]) (simp_all add: 1 picked_ok_def taken_def)
next
  case (2 slots acc)
  have p: "picked_ok c batch_size kinds qs s acc" using select_picked [of c batch_size kinds qs s] 2(1) by simp
  have "counted owner k (jobs (fst (phase4 c worker (seen_timeouts c qs) slots acc s))) =
      counted owner k (jobs s) + count_if (\<lambda>j. taken acc j \<and> owner j = Some k) (jobs s)" for k
    by (rule phase4_counted [OF p assms(1)]) (rule assms(2))
  with p 2(1) show ?thesis by (intro that [of acc]) (simp_all add: 2(3))
qed

text \<open>The number of jobs a claim starts on a queue is within the budget of the queue.\<close>

lemma claim_queue_delta:
  assumes "keys_ok s" "int batch_size \<le> i32_max" "phase0_budget c qs s q = Some b"
  shows "int (running_in_queue q (jobs (fst (claim_batch c worker batch_size kinds qs s))))
    \<le> int (running_in_queue q (jobs s)) + b"
proof (rule claim_batch_counted [OF assms(1), of queue_of c batch_size kinds qs worker])
  show "queue_of (start_job now w j) = queue_of j" for now w j by simp
  fix acc assume p: "picked_ok c batch_size kinds qs s acc"
    and acc: "acc = [] \<or> acc = snd (select_jobs c batch_size kinds qs s)"
    and cnt: "\<And>k. running_in_queue k (jobs (fst (claim_batch c worker batch_size kinds qs s))) =
       running_in_queue k (jobs s) + count_if (\<lambda>j. taken acc j \<and> queue_of j = Some k) (jobs s)"
  have "int (in_queue q acc) \<le> b"
    using acc select_queue_bound [OF assms(2,3), of kinds] phase0_budget_nonneg [OF assms(3)]
    by (auto simp: in_queue_def)
  moreover have "count_if (\<lambda>j. taken acc j \<and> queue_of j = Some q) (jobs s) \<le> in_queue q acc"
    using taken_queue_le [OF p assms(1)] by (simp add: queue_of_def)
  ultimately show ?thesis using cnt [of q] by linarith
qed

lemma claim_queue_unsubscribed:
  assumes "keys_ok s" "q \<notin> set qs"
  shows "running_in_queue q (jobs (fst (claim_batch c worker batch_size kinds qs s))) = running_in_queue q (jobs s)"
proof (rule claim_batch_counted [OF assms(1), of queue_of c batch_size kinds qs worker])
  show "queue_of (start_job now w j) = queue_of j" for now w j by simp
  fix acc assume p: "picked_ok c batch_size kinds qs s acc"
    and cnt: "\<And>k. running_in_queue k (jobs (fst (claim_batch c worker batch_size kinds qs s))) =
       running_in_queue k (jobs s) + count_if (\<lambda>j. taken acc j \<and> queue_of j = Some k) (jobs s)"
  have "count_if (\<lambda>j. taken acc j \<and> queue_of j = Some q) (jobs s) = 0"
    using taken_entry [OF p assms(1)] assms(2) by (auto simp: count_if_zero_iff queue_of_def)
  with cnt [of q] show ?thesis by simp
qed

lemma claim_group_delta:
  assumes "keys_ok s" "order_ok c" "g \<in> set (groups s)"
  shows "int (running_in_group (g_key g) (jobs (fst (claim_batch c worker batch_size kinds qs s))))
    \<le> int (running_in_group (g_key g) (jobs s)) +
      (if c_group_locked c (g_key g) then 0 else max (gs_slots (group_state_of (c_utc c) g)) 0)"
proof (rule claim_batch_counted [OF assms(1), of j_group_key c batch_size kinds qs worker])
  show "j_group_key (start_job now w j) = j_group_key j" for now w j by simp
  let ?tbl = "fst (select_jobs c batch_size kinds qs s)"
  fix acc assume p: "picked_ok c batch_size kinds qs s acc"
    and acc: "acc = [] \<or> acc = snd (select_jobs c batch_size kinds qs s)"
    and cnt: "\<And>k. running_in_group k (jobs (fst (claim_batch c worker batch_size kinds qs s))) =
       running_in_group k (jobs s) + count_if (\<lambda>j. taken acc j \<and> j_group_key j = Some k) (jobs s)"
  have gd: "distinct (map g_key (groups s))" using assms(1) by (rule keys_ok_groups)
  have "in_group (g_key g) acc \<le> (case map_of ?tbl (g_key g) of None \<Rightarrow> 0 | Some st \<Rightarrow> nat (gs_slots st))"
    using acc select_group_bound [OF assms(2) gd, of "g_key g" batch_size kinds qs] by (auto simp: in_group_def)
  also have "\<dots> \<le> (if c_group_locked c (g_key g) then 0 else nat (gs_slots (group_state_of (c_utc c) g)))"
  proof (cases "map_of ?tbl (g_key g)")
    case (Some st)
    obtain keys where "?tbl = group_slots c keys s"
      by (rule select_jobs_unfold [of c batch_size kinds s qs]) blast
    with Some have "map_of (group_slots c keys s) (g_key g) = Some st" by simp
    from group_slots_get [OF this] assms(3) obtain g' where
      "g' \<in> set (groups s)" "g_key g' = g_key g" "\<not> c_group_locked c (g_key g)" "st = group_state_of (c_utc c) g'"
      by auto
    moreover from this have "g' = g" using distinct_key_eq [OF gd _ assms(3)] by blast
    ultimately show ?thesis using Some by simp
  qed simp
  finally have "in_group (g_key g) acc \<le>
      (if c_group_locked c (g_key g) then 0 else nat (gs_slots (group_state_of (c_utc c) g)))" .
  moreover have "count_if (\<lambda>j. taken acc j \<and> j_group_key j = Some (g_key g)) (jobs s) \<le> in_group (g_key g) acc"
    using taken_group_le [OF p assms(1)] .
  ultimately show ?thesis using cnt [of "g_key g"] by (auto split: if_splits)
qed

lemma gs_slots_conc: "gs_slots (group_state_of utc g) \<le> group_conc_slots g"
  by (auto simp: group_state_of_def Let_def split: option.splits)

lemma gs_slots_rate:
  assumes "g_rate_count g = Some rc" "g_rate_period_ms g = Some rp" "0 < rc" "0 < rp"
  shows "gs_slots (group_state_of utc g) \<le> \<lfloor>refilled utc rc rp (g_tokens g) (g_tokens_refilled_at g)\<rfloor>"
proof -
  have "0 \<le> refilled utc rc rp (g_tokens g) (g_tokens_refilled_at g)" by (simp add: refilled_def Let_def)
  with assms show ?thesis by (simp add: group_state_of_def Let_def sat_i32_def)
qed

lemma refilled_range:
  assumes "0 < rc"
  shows "0 \<le> refilled utc rc rp tokens at_time" "refilled utc rc rp tokens at_time \<le> real_of_int rc"
  using assms by (simp_all add: refilled_def Let_def)

section \<open>Token buckets\<close>

lemma lookup_bump_group_other: "k' \<noteq> k \<Longrightarrow> lookup_by g_key k' (bump_group c slots rows k gs) = lookup_by g_key k' gs"
proof (rule bump_group_cases [of c slots rows k])
  fix row f
  assume "k' \<noteq> k" "\<And>gs. bump_group c slots rows k gs = upsert_by g_key row f gs" "g_key row = k"
    "\<And>g. g_key (f g) = g_key g"
  then show ?thesis by (simp add: lookup_by_upsert_by)
qed

lemma lookup_fold_bump_group_other:
  "k \<notin> set ks \<Longrightarrow> lookup_by g_key k (fold (bump_group c slots rows) ks gs) = lookup_by g_key k gs"
  by (induction ks arbitrary: gs) (simp_all add: lookup_bump_group_other)

lemma lookup_fold_bump_group:
  assumes "distinct ks" "k \<in> set ks"
  shows "lookup_by g_key k (fold (bump_group c slots rows) ks gs) = lookup_by g_key k (bump_group c slots rows k gs)"
  using assms
proof (induction ks arbitrary: gs)
  case (Cons k' ks)
  show ?case
  proof (cases "k' = k")
    case True
    with Cons.prems show ?thesis by (simp add: lookup_fold_bump_group_other)
  next
    case False
    have "lookup_by g_key k (bump_group c slots rows k (bump_group c slots rows k' gs))
        = lookup_by g_key k (bump_group c slots rows k gs)"
    proof (rule bump_group_cases [of c slots rows k])
      fix row f
      assume "\<And>gs. bump_group c slots rows k gs = upsert_by g_key row f gs" "g_key row = k"
        "\<And>g. g_key (f g) = g_key g"
      then show ?thesis
        using lookup_bump_group_other [OF False [symmetric]] by (simp add: lookup_by_upsert_by)
    qed
    with Cons False show ?thesis by simp
  qed
qed simp

text \<open>The result of a claim accounts for the change of the running jobs of a group.\<close>

definition taken_from :: "string \<Rightarrow> claimed_job list \<Rightarrow> nat" where
  "taken_from k cjs = count_if (\<lambda>cj. cj_group_key cj = Some k) cjs"

lemma phase4_taken_from:
  "taken_from k (snd (phase4 c worker timeouts slots acc s)) =
     group_delta (returning (taken acc) (start_job (c_now c) worker) (jobs s)) k"
  by (simp add: phase4_state taken_from_def group_delta_def count_if_map claimed_of_def)

lemma claim_taken_from:
  assumes "keys_ok s"
  shows "running_in_group k (jobs (fst (claim_batch c worker batch_size kinds qs s))) =
    running_in_group k (jobs s) + taken_from k (snd (claim_batch c worker batch_size kinds qs s))"
proof (cases rule: claim_batch_cases [of c worker batch_size kinds qs s])
  case (2 slots acc)
  have p: "picked_ok c batch_size kinds qs s acc" using select_picked [of c batch_size kinds qs s] 2(1) by simp
  have "running_in_group k (jobs (fst (phase4 c worker (seen_timeouts c qs) slots acc s))) =
      running_in_group k (jobs s) + count_if (\<lambda>j. taken acc j \<and> j_group_key j = Some k) (jobs s)"
    by (rule phase4_counted [OF p assms]) simp
  then show ?thesis by (simp add: 2(3) phase4_taken_from group_delta_rows)
qed (simp add: taken_from_def)

definition rate_limited :: "group \<Rightarrow> int \<Rightarrow> int \<Rightarrow> bool" where
  "rate_limited g rc rp \<longleftrightarrow> g_rate_count g = Some rc \<and> g_rate_period_ms g = Some rp \<and> 0 < rc \<and> 0 < rp"

definition bucket :: "timestamp \<Rightarrow> group \<Rightarrow> int \<Rightarrow> int \<Rightarrow> real" where
  "bucket utc g rc rp = refilled utc rc rp (g_tokens g) (g_tokens_refilled_at g)"

lemma rate_limited_state:
  assumes "rate_limited g rc rp"
  shows "gs_rate_limited (group_state_of utc g)" "gs_refilled (group_state_of utc g) = bucket utc g rc rp"
    "0 \<le> bucket utc g rc rp" "bucket utc g rc rp \<le> real_of_int rc"
  using assms refilled_range
  by (simp_all add: rate_limited_def group_state_of_def bucket_def Let_def)

lemma claim_within_bucket:
  assumes "keys_ok s" "order_ok c" "g \<in> set (groups s)" "rate_limited g rc rp"
  shows "real (taken_from (g_key g) (snd (claim_batch c worker batch_size kinds qs s))) \<le> bucket (c_utc c) g rc rp"
proof -
  let ?n = "taken_from (g_key g) (snd (claim_batch c worker batch_size kinds qs s))"
  have "int ?n \<le> max (gs_slots (group_state_of (c_utc c) g)) 0"
    using claim_group_delta [OF assms(1-3), of worker batch_size kinds qs]
    unfolding claim_taken_from [OF assms(1)] by (auto split: if_splits)
  also have "\<dots> \<le> \<lfloor>bucket (c_utc c) g rc rp\<rfloor>"
    using gs_slots_rate [of g rc rp "c_utc c"] rate_limited_state(3) [OF assms(4), of "c_utc c"] assms(4)
    by (simp add: bucket_def rate_limited_def)
  finally show ?thesis by (simp add: le_floor_iff)
qed

text \<open>The slot table entry of a group from which a job was taken.\<close>

lemma taken_slots:
  assumes "keys_ok s" "order_ok c" "g \<in> set (groups s)"
    and "select_jobs c batch_size kinds qs s = (slots, acc)" "in_group (g_key g) acc \<noteq> 0"
  shows "map_of slots (g_key g) = Some (group_state_of (c_utc c) g)"
proof -
  have gd: "distinct (map g_key (groups s))" using assms(1) by (rule keys_ok_groups)
  obtain st where st: "map_of slots (g_key g) = Some st"
    using select_group_bound [OF assms(2) gd, of "g_key g" batch_size kinds qs] assms(4,5)
    by (cases "map_of slots (g_key g)") auto
  obtain keys where "slots = group_slots c keys s"
    by (rule select_jobs_unfold [of c batch_size kinds s qs]) (use assms(4) in simp)
  with st group_slots_get [of c keys s "g_key g" st] assms(3) obtain g' where
    "g' \<in> set (groups s)" "g_key g' = g_key g" "st = group_state_of (c_utc c) g'" by auto
  with st distinct_key_eq [OF gd _ assms(3), of g'] show ?thesis by simp
qed

text \<open>A rate-limited group after a claim: untouched when nothing was taken from it, and otherwise left
  with the refilled balance less the jobs taken.\<close>

lemma claim_group_row:
  assumes "keys_ok s" "order_ok c" "g \<in> set (groups s)" "rate_limited g rc rp"
    and n: "n = taken_from (g_key g) (snd (claim_batch c worker batch_size kinds qs s))"
  shows "group_get (g_key g) (fst (claim_batch c worker batch_size kinds qs s)) =
    Some (if n = 0 then g
          else g\<lparr>g_running_count := g_running_count g + int n, g_tokens := bucket (c_utc c) g rc rp - real n,
                 g_tokens_refilled_at := Some (c_utc c), g_updated_at := c_now c\<rparr>)"
proof (cases rule: claim_batch_cases [of c worker batch_size kinds qs s])
  case 1
  with assms show ?thesis
    by (simp add: group_get_def lookup_by_Some_iff keys_ok_groups taken_from_def)
next
  case (2 slots acc)
  let ?rows = "returning (taken acc) (start_job (c_now c) worker) (jobs s)"
  let ?ks = "remdups (List.map_filter j_group_key ?rows)"
  have look: "lookup_by g_key (g_key g) (groups s) = Some g"
    using assms(1,3) by (simp add: lookup_by_Some_iff keys_ok_groups)
  have p: "picked_ok c batch_size kinds qs s acc" using select_picked [of c batch_size kinds qs s] 2(1) by simp
  have nd: "n = group_delta ?rows (g_key g)" by (simp add: n 2(3) phase4_taken_from)
  have ks: "g_key g \<in> set ?ks \<longleftrightarrow> n \<noteq> 0"
    by (auto simp: nd group_delta_def map_filter_set count_if_zero_iff)
  have get: "group_get (g_key g) (fst (claim_batch c worker batch_size kinds qs s)) =
      lookup_by g_key (g_key g) (fold (bump_group c slots ?rows) ?ks (groups s))"
    by (simp add: 2(3) group_get_def phase4_state)
  show ?thesis
  proof (cases "n = 0")
    case True
    with ks look show ?thesis by (simp add: get lookup_fold_bump_group_other)
  next
    case False
    have "in_group (g_key g) acc \<noteq> 0"
      using False taken_group_le [OF p assms(1), of "g_key g"] by (simp add: nd group_delta_rows)
    then have slots: "map_of slots (g_key g) = Some (group_state_of (c_utc c) g)"
      by (rule taken_slots [OF assms(1-3) 2(1)])
    have "real n \<le> bucket (c_utc c) g rc rp" unfolding n by (rule claim_within_bucket [OF assms(1-4)])
    then have "lookup_by g_key (g_key g) (bump_group c slots ?rows (g_key g) (groups s)) =
        Some (g\<lparr>g_running_count := g_running_count g + int n, g_tokens := bucket (c_utc c) g rc rp - real n,
                 g_tokens_refilled_at := Some (c_utc c), g_updated_at := c_now c\<rparr>)"
      using look rate_limited_state [OF assms(4), of "c_utc c"]
      by (simp add: bump_group_def slots Let_def lookup_by_upsert_by fresh_group_def nd)
    moreover have "lookup_by g_key (g_key g) (fold (bump_group c slots ?rows) ?ks (groups s)) =
        lookup_by g_key (g_key g) (bump_group c slots ?rows (g_key g) (groups s))"
      by (rule lookup_fold_bump_group) (use ks False in auto)
    ultimately show ?thesis using False by (simp add: get)
  qed
qed

section \<open>Order\<close>

lemma take_sorted_prefix:
  assumes "x \<in> set (take n (sort_key f xs))" "y \<in> set xs" "f y < f x"
  shows "y \<in> set (take n (sort_key f xs))"
proof (rule ccontr)
  let ?ys = "sort_key f xs"
  assume "y \<notin> set (take n ?ys)"
  moreover have "y \<in> set (take n ?ys @ drop n ?ys)" using assms(2) by (simp only: append_take_drop_id set_sort)
  ultimately have "y \<in> set (drop n ?ys)" by (simp only: set_append Un_iff) blast
  moreover have "sorted (map f (take n ?ys @ drop n ?ys))" by (simp only: append_take_drop_id sorted_sort_key)
  ultimately have "f x \<le> f y" using assms(1) by (simp only: map_append sorted_append set_map) blast
  with assms(3) show False by simp
qed

text \<open>The ungrouped jobs accepted from a queue are the first ones in claim order.\<close>

definition prefix_taken :: "claim_env \<Rightarrow> string list \<Rightarrow> db \<Rightarrow> accepted list \<Rightarrow> bool" where
  "prefix_taken c kinds s acc \<longleftrightarrow>
     (\<forall>q. \<forall>j \<in> set (ungrouped_candidates c kinds q s). \<forall>j' \<in> set (ungrouped_candidates c kinds q s).
        taken acc j \<and> claim_order j' < claim_order j \<longrightarrow> taken acc j')"

lemma take_ungrouped_prefix:
  assumes "prefix_taken c kinds s (fst st)" "keys_ok s"
  shows "prefix_taken c kinds s (fst (take_ungrouped c batch_size kinds s q st))"
proof (cases rule: take_ungrouped_cases [of c batch_size kinds s q st])
  case 1
  with assms show ?thesis by simp
next
  case (2 rows)
  let ?cand = "\<lambda>q. ungrouped_candidates c kinds q s"
  have ids: "j = j'" if "j \<in> set (?cand q1)" "j' \<in> set (?cand q2)" "j_id j = j_id j'" for j j' q1 q2
    using that assms(2) distinct_key_eq [of j_id "jobs s" j j'] by (simp add: set_ungrouped_candidates keys_ok_def)
  have sub: "set rows \<subseteq> set (?cand q)" unfolding 2(1) by (rule set_take_subset)
  have tk: "taken (fst st @ map (\<lambda>j. (j_id j, None, q)) rows) j \<longleftrightarrow> taken (fst st) j \<or> j \<in> set rows"
    if "j \<in> set (?cand q')" for j q'
  proof -
    have "j_id j \<in> j_id ` set rows \<longleftrightarrow> j \<in> set rows"
    proof
      assume "j_id j \<in> j_id ` set rows"
      then obtain j' where j': "j' \<in> set rows" "j_id j = j_id j'" by blast
      then have "j = j'" using sub by (intro ids [OF that, of _ q]) auto
      with j'(1) show "j \<in> set rows" by simp
    qed simp
    moreover have "fst ` set (map (\<lambda>j. (j_id j, None :: string option, q)) rows) = j_id ` set rows" by force
    ultimately show ?thesis by (simp only: taken_def set_append image_Un Un_iff)
  qed
  have "taken (fst st @ map (\<lambda>j. (j_id j, None, q)) rows) j'"
    if j: "j \<in> set (?cand q')" "j' \<in> set (?cand q')" "claim_order j' < claim_order j"
      and t: "taken (fst st @ map (\<lambda>j. (j_id j, None, q)) rows) j" for j j' q'
  proof (cases "j \<in> set rows")
    case False
    with t tk [OF j(1)] have "taken (fst st) j" by blast
    with assms(1) j have "taken (fst st) j'" unfolding prefix_taken_def by metis
    then show ?thesis unfolding tk [OF j(2)] by blast
  next
    case True
    have "j_queue j = q" "j_queue j = q'" using True sub j(1) by (auto simp: set_ungrouped_candidates)
    then have "j' \<in> set (?cand q)" using j(2) by simp
    then have "j' \<in> set rows"
      using True j(3) take_sorted_prefix [of j _ claim_order _ j'] unfolding 2(1) ungrouped_candidates_def
      by (simp only: set_sort)
    then show ?thesis unfolding tk [OF j(2)] by simp
  qed
  then show ?thesis unfolding prefix_taken_def 2(5) by simp
qed

lemma phase1_prefix:
  "prefix_taken c kinds s (fst st) \<Longrightarrow> keys_ok s \<Longrightarrow> prefix_taken c kinds s (fst (phase1 c batch_size kinds s qs st))"
  by (induction qs arbitrary: st) (simp_all add: take_ungrouped_prefix)

text \<open>Phase 3 adds entries of grouped jobs only.\<close>

definition only_groups_added :: "accepted list \<Rightarrow> accepted list \<Rightarrow> bool" where
  "only_groups_added acc acc' \<longleftrightarrow> (\<exists>extra. acc' = acc @ extra \<and> (\<forall>a \<in> set extra. fst (snd a) \<noteq> None))"

lemma only_groups_added_refl: "only_groups_added acc acc"
  unfolding only_groups_added_def by (rule exI [of _ "[]"]) simp

lemma only_groups_added_trans:
  "only_groups_added acc acc' \<Longrightarrow> only_groups_added acc' acc'' \<Longrightarrow> only_groups_added acc acc''"
  unfolding only_groups_added_def by (elim exE conjE, rule exI, rule conjI, simp, auto)

lemma accept_rows_added: "only_groups_added (fst st) (fst (accept_rows batch_size k rows slots st))"
proof (induction rows arbitrary: slots st)
  case (Cons r rows)
  let ?st = "(fst st @ [(fst r, Some k, snd r)], spend (snd r) 1 (snd st))"
  have "only_groups_added (fst st) (fst ?st)" by (auto simp: only_groups_added_def)
  then have "only_groups_added (fst st) (fst (accept_rows batch_size k rows (slots - 1) ?st))"
    using Cons.IH by (rule only_groups_added_trans)
  then show ?case using Cons.IH by (simp add: only_groups_added_refl)
qed (simp add: only_groups_added_refl)

lemma take_group_added: "only_groups_added (fst st) (fst (take_group c batch_size kinds open_qs s g st))"
  by (simp add: take_group_def Let_def accept_rows_added only_groups_added_refl)

lemma phase3_added: "only_groups_added (fst st) (fst (phase3 c batch_size kinds open_qs s tbl st))"
proof (induction tbl arbitrary: st)
  case (Cons g tbl)
  show ?case
    using only_groups_added_trans [OF take_group_added Cons] by (simp add: only_groups_added_refl)
qed (simp add: only_groups_added_refl)

lemma select_prefix:
  assumes "keys_ok s"
  shows "prefix_taken c kinds s (snd (select_jobs c batch_size kinds qs s))"
proof (rule select_jobs_unfold [of c batch_size kinds s qs])
  fix acc1 bud1
  let ?acc = "snd (select_jobs c batch_size kinds qs s)"
  assume p1: "phase1 c batch_size kinds s qs ([], phase0_budget c qs s) = (acc1, bud1)"
    and sel: "?acc = fst (phase3 c batch_size kinds (filter (\<lambda>q. 0 < budget_for q bud1) qs) s
         (c_order c (fst (select_jobs c batch_size kinds qs s))) (acc1, bud1))"
  have pre: "prefix_taken c kinds s acc1"
  proof -
    have "prefix_taken c kinds s (fst ([] :: accepted list, phase0_budget c qs s))"
      by (simp add: prefix_taken_def taken_def)
    from phase1_prefix [OF this assms, of batch_size qs] show ?thesis unfolding p1 by simp
  qed
  have "only_groups_added acc1 ?acc" unfolding sel using phase3_added [of "(acc1, bud1)"] unfolding fst_conv .
  then obtain extra where acc: "?acc = acc1 @ extra" and new: "\<And>a. a \<in> set extra \<Longrightarrow> fst (snd a) \<noteq> None"
    unfolding only_groups_added_def by blast
  have same: "taken ?acc j \<longleftrightarrow> taken acc1 j" if "j \<in> set (ungrouped_candidates c kinds q s)" for j q
  proof
    assume "taken ?acc j"
    have j: "j \<in> set (jobs s)" "j_group_key j = None" using that by (simp_all add: set_ungrouped_candidates)
    have "(j_id j, None, j_queue j) \<in> set ?acc"
      using taken_entry [OF select_picked assms j(1) \<open>taken ?acc j\<close>] j(2) by simp
    then consider "(j_id j, None, j_queue j) \<in> set acc1" | "(j_id j, None, j_queue j) \<in> set extra"
      unfolding acc by (simp only: set_append Un_iff) blast
    then show "taken acc1 j"
    proof cases
      case 1
      then show ?thesis unfolding taken_def by (metis fst_conv image_eqI)
    next
      case 2
      then show ?thesis using new [OF 2] by simp
    qed
  next
    assume "taken acc1 j"
    then show "taken ?acc j" unfolding taken_def acc by (simp only: set_append image_Un Un_iff) blast
  qed
  show ?thesis
    unfolding prefix_taken_def
  proof (intro allI ballI impI)
    fix q j j'
    assume j: "j \<in> set (ungrouped_candidates c kinds q s)" and j': "j' \<in> set (ungrouped_candidates c kinds q s)"
      and t: "taken ?acc j \<and> claim_order j' < claim_order j"
    have "taken acc1 j" using t unfolding same [OF j] by blast
    with pre j j' t have "taken acc1 j'" unfolding prefix_taken_def by metis
    then show "taken ?acc j'" unfolding same [OF j'] .
  qed
qed

lemma phase4_ids:
  "j \<in> set (jobs s) \<Longrightarrow> j_id j \<in> cj_id ` set (snd (phase4 c worker timeouts slots acc s)) \<longleftrightarrow> taken acc j"
proof -
  assume j: "j \<in> set (jobs s)"
  have "cj_id ` set (snd (phase4 c worker timeouts slots acc s)) = j_id ` {j \<in> set (jobs s). taken acc j}"
    by (simp add: phase4_state set_returning image_image claimed_of_def)
  also have "j_id j \<in> \<dots> \<longleftrightarrow> taken acc j" 
  proof
    assume "j_id j \<in> j_id ` {j \<in> set (jobs s). taken acc j}"
    then show "taken acc j" unfolding taken_def by (metis (mono_tags, lifting) imageE mem_Collect_eq)
  qed (use j in blast)
  finally show ?thesis .
qed

section \<open>Progress\<close>

lemma spend_nonpos: "(\<And>b. bud q = Some b \<Longrightarrow> 0 \<le> b) \<Longrightarrow> spend q 0 bud = bud"
  by (auto simp: spend_def split: option.splits)

lemma ungrouped_progress_step:
  assumes "0 < batch_size" "spent bud0 ([], bud)"
  shows "take_ungrouped c batch_size kinds s q ([], bud) = ([], bud) \<or>
    fst (take_ungrouped c batch_size kinds s q ([], bud)) \<noteq> []"
proof (cases rule: take_ungrouped_cases [of c batch_size kinds s q "([], bud)"])
  case (2 rows)
  then show ?thesis
    using assms(2) by (cases "rows = []") (auto simp: spent_def sat_i32_def intro!: spend_nonpos)
qed simp

lemma take_ungrouped_keeps: "fst st \<noteq> [] \<Longrightarrow> fst (take_ungrouped c batch_size kinds s q st) \<noteq> []"
  by (cases rule: take_ungrouped_cases [of c batch_size kinds s q st]) simp_all

lemma phase1_keeps: "fst st \<noteq> [] \<Longrightarrow> fst (phase1 c batch_size kinds s qs st) \<noteq> []"
  by (induction qs arbitrary: st) (simp_all add: take_ungrouped_keeps)

text \<open>Phase 1 leaves the budgets alone as long as it finds nothing.\<close>

lemma phase1_idle:
  assumes "0 < batch_size" "spent bud0 ([], bud)"
  shows "phase1 c batch_size kinds s qs ([], bud) = ([], bud) \<or> fst (phase1 c batch_size kinds s qs ([], bud)) \<noteq> []"
proof (induction qs)
  case (Cons q qs)
  let ?st = "take_ungrouped c batch_size kinds s q ([], bud)"
  have unf: "phase1 c batch_size kinds s (q # qs) ([], bud) = phase1 c batch_size kinds s qs ?st"
    using assms(1) by simp
  from ungrouped_progress_step [OF assms, of c kinds s q] show ?case
  proof
    assume "?st = ([], bud)"
    with Cons show ?thesis unfolding unf by simp
  next
    assume "fst ?st \<noteq> []"
    then show ?thesis unfolding unf by (intro disjI2 phase1_keeps)
  qed
qed simp

lemma phase1_progress:
  assumes "0 < batch_size" "spent bud0 ([], bud)" "q \<in> set qs" "0 < budget_for q bud"
    and "j \<in> set (ungrouped_candidates c kinds q s)"
  shows "fst (phase1 c batch_size kinds s qs ([], bud)) \<noteq> []"
  using assms(3)
proof (induction qs)
  case (Cons q' qs)
  let ?st = "take_ungrouped c batch_size kinds s q' ([], bud)"
  have unf: "phase1 c batch_size kinds s (q' # qs) ([], bud) = phase1 c batch_size kinds s qs ?st"
    using assms(1) by simp
  show ?case
  proof (cases "fst ?st = []")
    case False
    then show ?thesis unfolding unf by (rule phase1_keeps)
  next
    case True
    then have st: "?st = ([], bud)" using ungrouped_progress_step [OF assms(1,2)] by metis
    have "q' \<noteq> q"
    proof
      assume "q' = q"
      moreover have "0 < min (budget_for q bud) (sat_i64 (int batch_size))"
        using assms(1,4) by (simp add: sat_i64_def)
      moreover have "ungrouped_candidates c kinds q s \<noteq> []" using assms(5) by auto
      ultimately have "fst ?st \<noteq> []" by (auto simp: take_ungrouped_def Let_def)
      with True show False by simp
    qed
    with Cons show ?thesis unfolding unf st by simp
  qed
qed simp

text \<open>Phase 3 takes something as soon as it reaches a group with free slots and a candidate on an open
  queue.\<close>

lemma accept_rows_keeps: "fst st \<noteq> [] \<Longrightarrow> fst (accept_rows batch_size k rows slots st) \<noteq> []"
  by (induction rows arbitrary: slots st) simp_all

lemma take_group_keeps: "fst st \<noteq> [] \<Longrightarrow> fst (take_group c batch_size kinds open_qs s g st) \<noteq> []"
  by (simp add: take_group_def Let_def accept_rows_keeps)

lemma phase3_keeps: "fst st \<noteq> [] \<Longrightarrow> fst (phase3 c batch_size kinds open_qs s tbl st) \<noteq> []"
  by (induction tbl arbitrary: st) (simp_all add: take_group_keeps)

lemma take_group_idle:
  assumes "0 < batch_size" "\<And>q. q \<in> set open_qs \<Longrightarrow> 0 < budget_for q bud"
    and "fst (take_group c batch_size kinds open_qs s g ([], bud)) = []"
  shows "take_group c batch_size kinds open_qs s g ([], bud) = ([], bud) \<and>
    (gs_slots (snd g) \<le> 0 \<or> group_candidates c kinds open_qs (fst g) s = [])"
proof (cases "gs_slots (snd g) \<le> 0")
  case True
  then show ?thesis by (simp add: take_group_def)
next
  case False
  let ?n = "min (gs_slots (snd g)) (sat_i64 (int batch_size))"
  have n: "0 < ?n" using False assms(1) by (simp add: sat_i64_def)
  show ?thesis
  proof (cases "group_candidates c kinds open_qs (fst g) s")
    case Nil
    with False n show ?thesis by (simp add: take_group_def Let_def)
  next
    case (Cons j rest)
    then have "j \<in> set (group_candidates c kinds open_qs (fst g) s)" by simp
    then have "0 < budget_for (j_queue j) bud" using assms(2) by (simp add: set_group_candidates)
    moreover obtain m where "nat ?n = Suc m" using n by (metis gr0_implies_Suc zero_less_nat_eq)
    ultimately have "fst (take_group c batch_size kinds open_qs s g ([], bud)) \<noteq> []"
      using False n assms(1) Cons accept_rows_keeps by (simp add: take_group_def Let_def)
    with assms(3) show ?thesis by simp
  qed
qed

lemma phase3_progress:
  assumes "0 < batch_size" "\<And>q. q \<in> set open_qs \<Longrightarrow> 0 < budget_for q bud"
    and "(k, st) \<in> set tbl" "0 < gs_slots st" "group_candidates c kinds open_qs k s \<noteq> []"
  shows "fst (phase3 c batch_size kinds open_qs s tbl ([], bud)) \<noteq> []"
  using assms(3)
proof (induction tbl)
  case (Cons g tbl)
  let ?st = "take_group c batch_size kinds open_qs s g ([], bud)"
  have unf: "phase3 c batch_size kinds open_qs s (g # tbl) ([], bud) = phase3 c batch_size kinds open_qs s tbl ?st"
    using assms(1) by simp
  show ?case
  proof (cases "fst ?st = []")
    case False
    then show ?thesis unfolding unf by (rule phase3_keeps)
  next
    case True
    have idle: "?st = ([], bud)" "gs_slots (snd g) \<le> 0 \<or> group_candidates c kinds open_qs (fst g) s = []"
      using take_group_idle [OF assms(1,2) True] by simp_all
    then have "g \<noteq> (k, st)" using assms(4,5) by auto
    with Cons show ?thesis unfolding unf idle(1) by simp
  qed
qed simp

text \<open>A job that a claim could take: due, unlocked, on a queue with budget, and ungrouped or in a group
  that admits it.\<close>

definition group_admits :: "claim_env \<Rightarrow> db \<Rightarrow> string \<Rightarrow> bool" where
  "group_admits c s k \<longleftrightarrow>
     (case group_get k s of
        None \<Rightarrow> True
      | Some g \<Rightarrow> \<not> c_group_locked c k \<and> 0 < gs_slots (group_state_of (c_utc c) g))"

definition claimable :: "claim_env \<Rightarrow> string list \<Rightarrow> string list \<Rightarrow> db \<Rightarrow> job \<Rightarrow> bool" where
  "claimable c kinds qs s j \<longleftrightarrow>
     j \<in> set (jobs s) \<and> due (c_now c) kinds j \<and> \<not> c_job_locked c (j_id j) \<and> j_queue j \<in> set qs \<and>
     0 < budget_for (j_queue j) (phase0_budget c qs s) \<and>
     (case j_group_key j of None \<Rightarrow> True | Some k \<Rightarrow> group_admits c s k)"

lemma active_keys_set:
  assumes "0 < n" "j \<in> set (grouped_due c kinds open_qs s)" "j_group_key j = Some k"
  shows "k \<in> set (active_group_keys c n kinds qs open_qs s)"
proof -
  have "open_qs \<noteq> []" using assms(2) by (auto simp: grouped_due_def)
  moreover have "k \<in> set (group_walk c kinds open_qs s)" using assms(2,3) by (auto simp: group_walk_set)
  ultimately show ?thesis using assms(1) by (simp add: active_group_keys_def group_walk_by_queue_set)
qed

lemma group_slots_entry:
  assumes "k \<in> set keys" "group_admits c s k" "distinct (map g_key (groups s))"
  shows "\<exists>st. (k, st) \<in> set (group_slots c keys s) \<and> 0 < gs_slots st"
proof (cases "group_get k s")
  case None
  then have "k \<notin> g_key ` set (groups s)" by (simp add: group_get_def lookup_by_None_iff)
  with assms(1) have "(k, unlimited_state) \<in> set (group_slots c keys s)" by (simp add: group_slots_def)
  moreover have "0 < gs_slots unlimited_state" by (simp add: unlimited_state_def)
  ultimately show ?thesis by blast
next
  case (Some g)
  then have "g \<in> set (groups s)" "g_key g = k" by (auto simp: group_get_def dest: lookup_by_SomeD)
  with assms(1,2) Some have "(k, group_state_of (c_utc c) g) \<in> set (group_slots c keys s)"
    by (auto simp: group_slots_def group_admits_def)
  with assms(2) Some show ?thesis by (auto simp: group_admits_def)
qed

lemma select_progress:
  assumes "keys_ok s" "order_ok c" "0 < batch_size" "claimable c kinds qs s j"
  shows "snd (select_jobs c batch_size kinds qs s) \<noteq> []"
proof (rule select_jobs_unfold [of c batch_size kinds s qs])
  fix acc1 bud1
  let ?bud0 = "phase0_budget c qs s" and ?tbl = "fst (select_jobs c batch_size kinds qs s)"
  let ?open = "filter (\<lambda>q. 0 < budget_for q bud1) qs"
  assume p1: "phase1 c batch_size kinds s qs ([], ?bud0) = (acc1, bud1)"
    and tbl: "?tbl = group_slots c (active_group_keys c (batch_size - length acc1) kinds qs ?open s) s"
    and sel: "snd (select_jobs c batch_size kinds qs s) =
       fst (phase3 c batch_size kinds ?open s (c_order c ?tbl) (acc1, bud1))"
  show ?thesis
  proof (cases "acc1 = []")
    case False
    then show ?thesis unfolding sel by (intro phase3_keeps) simp
  next
    case True
    have bud: "bud1 = ?bud0"
      using True p1 phase1_idle [OF assms(3) phase0_spent [of c qs s], of c kinds s qs] by auto
    have "j_group_key j \<noteq> None"
    proof
      assume "j_group_key j = None"
      then have "j \<in> set (ungrouped_candidates c kinds (j_queue j) s)" "j_queue j \<in> set qs"
        "0 < budget_for (j_queue j) ?bud0"
        using assms(4) by (simp_all add: claimable_def set_ungrouped_candidates)
      with phase1_progress [OF assms(3) phase0_spent] p1 True show False by fastforce
    qed
    then obtain k where k: "j_group_key j = Some k" by blast
    have op: "j_queue j \<in> set ?open" using assms(4) by (simp add: claimable_def bud)
    have "j \<in> set (grouped_due c kinds ?open s)"
      using assms(4) op k by (auto simp: claimable_def grouped_due_def)
    then have "k \<in> set (active_group_keys c (batch_size - length acc1) kinds qs ?open s)"
      using assms(3) True k by (intro active_keys_set) simp_all
    moreover have "group_admits c s k" using assms(4) k by (simp add: claimable_def)
    ultimately obtain st where st: "(k, st) \<in> set ?tbl" "0 < gs_slots st"
      using group_slots_entry [OF _ _ keys_ok_groups [OF assms(1)]] unfolding tbl by blast
    have "(k, st) \<in> set (c_order c ?tbl)"
      using st(1) assms(2) by (metis order_ok_def set_mset_mset)
    moreover have "j \<in> set (group_candidates c kinds ?open k s)"
      using assms(4) op k by (auto simp: claimable_def set_group_candidates)
    then have "group_candidates c kinds ?open k s \<noteq> []" by auto
    ultimately show ?thesis
      unfolding sel True using phase3_progress [OF assms(3), of ?open bud1 k st] st(2) by simp
  qed
qed

lemma claim_progress:
  assumes "keys_ok s" "order_ok c" "0 < batch_size" "claimable c kinds qs s j"
  shows "snd (claim_batch c worker batch_size kinds qs s) \<noteq> []"
proof -
  obtain slots acc where sel: "select_jobs c batch_size kinds qs s = (slots, acc)" by fastforce
  have acc: "acc \<noteq> []" using select_progress [OF assms] sel by simp
  have "kinds \<noteq> []" "qs \<noteq> []" "\<not> list_all (\<lambda>q. budget_for q (phase0_budget c qs s) \<le> 0) qs"
    using assms(4) by (auto simp: claimable_def due_def list_all_iff intro!: bexI [of _ "j_queue j"])
  then have eq: "claim_batch c worker batch_size kinds qs s = phase4 c worker (seen_timeouts c qs) slots acc s"
    using assms(3) sel acc by (simp add: claim_batch_def)
  obtain a where a: "a \<in> set acc" using acc by (cases acc) auto
  have "picked_ok c batch_size kinds qs s acc" using select_picked [of c batch_size kinds qs s] sel by simp
  with a obtain j' where "j' \<in> set (jobs s)" "fst a = j_id j'" by (auto simp: picked_ok_def entry_ok_def)
  with a have "j' \<in> {j \<in> set (jobs s). taken acc j}" by (metis (mono_tags) image_eqI mem_Collect_eq taken_def)
  then have "set (snd (claim_batch c worker batch_size kinds qs s)) \<noteq> {}"
    unfolding eq by (auto simp: phase4_state set_returning)
  then show ?thesis by auto
qed

section \<open>The rows a claim changes\<close>

text \<open>The returned ids are distinct, and exactly their rows were started.\<close>

lemma claim_batch_taken:
  assumes "keys_ok s"
  shows "jobs (fst (claim_batch c worker batch_size kinds qs s)) =
      update_where (\<lambda>j. j_id j \<in> cj_id ` set (snd (claim_batch c worker batch_size kinds qs s)))
        (start_job (c_now c) worker) (jobs s)"
    "distinct (map cj_id (snd (claim_batch c worker batch_size kinds qs s)))"
proof -
  have "jobs (fst (claim_batch c worker batch_size kinds qs s)) =
      update_where (\<lambda>j. j_id j \<in> cj_id ` set (snd (claim_batch c worker batch_size kinds qs s)))
        (start_job (c_now c) worker) (jobs s) \<and>
    distinct (map cj_id (snd (claim_batch c worker batch_size kinds qs s)))"
  proof (cases rule: claim_batch_cases [of c worker batch_size kinds qs s])
    case 1
    then show ?thesis by (simp add: update_where_def)
  next
    case (2 slots acc)
    have ids: "map cj_id (snd (phase4 c worker (seen_timeouts c qs) slots acc s)) = map j_id (filter (taken acc) (jobs s))"
      by (simp add: phase4_state returning_def claimed_of_def)
    have "distinct (map j_id (filter (taken acc) (jobs s)))"
      using assms by (simp add: keys_ok_def distinct_map_filter)
    moreover have "update_where (\<lambda>j. j_id j \<in> cj_id ` set (snd (phase4 c worker (seen_timeouts c qs) slots acc s)))
          (start_job (c_now c) worker) (jobs s) = update_where (taken acc) (start_job (c_now c) worker) (jobs s)"
      unfolding update_where_def by (rule map_cong) (simp_all add: phase4_ids)
    ultimately show ?thesis using 2 ids by (simp add: phase4_state)
  qed
  then show "jobs (fst (claim_batch c worker batch_size kinds qs s)) =
      update_where (\<lambda>j. j_id j \<in> cj_id ` set (snd (claim_batch c worker batch_size kinds qs s)))
        (start_job (c_now c) worker) (jobs s)"
    "distinct (map cj_id (snd (claim_batch c worker batch_size kinds qs s)))" by simp_all
qed

end
