(* ===== verification/System.thy ===== *)
theory System
  imports Claim_Limits Settle Cleanup Schedules Leadership Stats
begin

text \<open>
  The Postgres backend as a whole: every operation that any process may run on the database is a step, and a
  state is reachable when a sequence of such steps, in any order and by any number of workers, leads to it from the
  empty database. The theory proves that the steps keep the invariant and that jobs and batches move only along
  their life cycles; \<open>Spec2Isabelle\<close> draws the conclusions.
\<close>

section \<open>Steps\<close>

text \<open>Administration: it leaves jobs and batches alone.\<close>

inductive admin_step :: "db \<Rightarrow> db \<Rightarrow> bool" where
  "admin_step s (queue_set_concurrency now q mx s)"
| "admin_step s (queue_set_paused now q b s)"
| "admin_step s (queue_set_timeout now q t s)"
| "admin_step s (group_set_concurrency now k mx s)"
| "admin_step s (group_set_paused now k b s)"
| "admin_step s (fst (group_set_rate now k n period s))"
| "admin_step s (group_clear_rate now k s)"
| "admin_step s (fst (set_rule now pattern rule s))"
| "admin_step s (fst (remove_rule pattern s))"
| "admin_step s (fst (upsert_schedule_raw cron utc d s))"
| "admin_step s (fst (upsert_schedule cron utc name expr job s))"
| "admin_step s (fst (upsert_interval_schedule_raw utc name ms kind payload pr ma queue s))"
| "admin_step s (fst (sync_schedules cron utc declared s))"
| "admin_step s (fst (remove_schedule name s))"
| "admin_step s (fst (set_enabled name b s))"
| "admin_step s (fst (try_elect now w role lease s))"
| "admin_step s (resign now w role s)"

inductive sys_step :: "db \<Rightarrow> db \<Rightarrow> bool" where
  typed: "sys_step s (fst (enqueue e job opts s))"
| dynamic: "d_batch_id d = None \<Longrightarrow> sys_step s (fst (enqueue_dyn e d s))"
| typed_many: "sys_step s (fst (enqueue_many e js s))"
| dynamic_many: "\<forall>d \<in> set ds. d_batch_id d = None \<Longrightarrow> sys_step s (fst (enqueue_many_dyn e ds s))"
| batch: "\<forall>spec. bo_on_complete opts = Some spec \<longrightarrow> d_batch_id spec = None \<Longrightarrow>
    sys_step s (fst (enqueue_batch e items opts s))"
| claim: "sys_step s (fst (claim_batch c worker batch_size kinds qs s))"
| complete: "sys_step s (fst (mark_completed e i worker result s))"
| failed: "sys_step s (fst (mark_failed e i worker entry retry_at s))"
| cancelled: "sys_step s (fst (cancel e i s))"
| heartbeat: "sys_step s (fst (update_heartbeat_batch now ids s))"
| sweep: "sys_step s (fst (sweep_stale e clock stale_after s))"
| reclaim: "sys_step s (fst (reclaim_in_flight e clock ids s))"
| reconcile: "sys_step s (fst (reconcile_counters now s))"
| retention: "scan_ok jscan \<Longrightarrow> scan_ok bscan \<Longrightarrow> sys_step s (fst (cleanup jscan bscan now r s))"
| clean: "scan_ok jscan \<Longrightarrow> sys_step s (fst (clean_jobs jscan now (clean_job_state st) grace limit s))"
| tick: "due_scan_ok dscan \<Longrightarrow> sys_step s (fst (tick cron dscan got_lock now clocks s))"
| stats: "sys_step s (fst (get_stats now clock1 clock2 won live_s before s))"
| admin: "admin_step s s' \<Longrightarrow> sys_step s s'"

definition reachable :: "db \<Rightarrow> bool" where
  "reachable s \<longleftrightarrow> sys_step\<^sup>*\<^sup>* empty_db s"

section \<open>The invariant\<close>

lemma group_config_db_ok:
  assumes "group_config_step s s'" "db_ok s"
  shows "db_ok s'"
proof -
  note f = group_config_step_frame [OF assms(1)]
  have "batches_ok s'" using db_okD(5) [OF assms(2)] unfolding batches_ok_def f by blast
  then show ?thesis
    using assms group_config_step_keys group_config_step_counters group_config_step_checks
    by (auto simp: db_ok_def f)
qed

lemma queue_config_db_ok:
  assumes "db_ok s" "keys_ok s'" "counters_ok s'" "checks_ok s'" "jobs s' = jobs s" "batches s' = batches s"
  shows "db_ok s'"
  using assms unfolding db_ok_def batches_ok_def by presburger

lemma rules_db_ok: "db_ok s \<Longrightarrow> distinct (map r_pattern rs) \<Longrightarrow> db_ok (s\<lparr>rules := rs\<rparr>)"
  by (rule db_ok_frame) (auto dest: db_ok_keys)

lemma set_rule_db_ok: "db_ok s \<Longrightarrow> db_ok (fst (set_rule now pattern rule s))"
  by (auto simp: set_rule_def Let_def intro!: rules_db_ok distinct_upsert_by dest: db_ok_keys(3))

lemma remove_rule_db_ok: "db_ok s \<Longrightarrow> db_ok (fst (remove_rule pattern s))"
  by (auto simp: remove_rule_def intro!: rules_db_ok distinct_delete_where dest: db_ok_keys(3))

lemma upsert_schedule_db_ok: "db_ok s \<Longrightarrow> db_ok (fst (upsert_schedule cron utc name expr job s))"
  by (auto simp: upsert_schedule_def upsert_schedule_raw_db_ok split: sum.splits)

lemma queue_set_db_ok:
  assumes "db_ok s"
  shows "db_ok (queue_set_concurrency now q mx s)" "db_ok (queue_set_paused now q b s)" "db_ok (queue_set_timeout now q t s)"
  using assms
  by (auto intro!: queue_config_db_ok [OF assms] simp: qconc.frame qpause.frame qtimeout.frame
      intro: qconc.keeps_keys qconc.keeps_counters qconc.keeps_checks qpause.keeps_keys qpause.keeps_counters
        qpause.keeps_checks qtimeout.keeps_keys qtimeout.keeps_counters qtimeout.keeps_checks dest: db_okD)

lemma group_set_db_ok:
  assumes "db_ok s"
  shows "db_ok (group_set_concurrency now k mx s)" "db_ok (group_set_paused now k b s)"
    "db_ok (fst (group_set_rate now k n period s))" "db_ok (group_clear_rate now k s)"
  using group_set_concurrency_step group_set_paused_step group_set_rate_step group_clear_rate_step
    group_config_db_ok [OF _ assms] db_okD(1) [OF assms] by blast+

lemma tick_db_ok:
  assumes "due_scan_ok dscan" "db_ok s"
  shows "db_ok (fst (tick cron dscan got_lock now clocks s))"
proof (cases "tick_in_tx cron dscan now clocks s")
  case (Inl err)
  with assms(2) show ?thesis by (simp add: tick_def)
next
  case (Inr r)
  obtain s1 n where r: "r = (s1, n)" by (cases r)
  have ok: "db_ok s1" using tick_in_tx_db_ok [OF assms(1,2)] Inr r by blast
  have "db_ok (pg_notify c p s1)" for c p
    by (rule db_ok_frame [OF ok]) (use db_ok_keys [OF ok] in simp_all)
  with assms(2) ok Inr r show ?thesis by (simp add: tick_def)
qed

lemma admin_step_db_ok: "admin_step s s' \<Longrightarrow> db_ok s \<Longrightarrow> db_ok s'"
  by (induction rule: admin_step.induct)
    (simp_all add: queue_set_db_ok group_set_db_ok set_rule_db_ok remove_rule_db_ok upsert_schedule_raw_db_ok
      upsert_schedule_db_ok upsert_interval_db_ok sync_schedules_db_ok remove_schedule_db_ok set_enabled_db_ok
      try_elect_db_ok resign_db_ok)

lemma enqueue_batch_db_ok:
  assumes "db_ok s" "\<forall>spec. bo_on_complete opts = Some spec \<longrightarrow> d_batch_id spec = None"
  shows "db_ok (fst (enqueue_batch e items opts s))"
  unfolding enqueue_batch_def
  by (rule run_tx_invariant [where P = db_ok, OF assms(1)])
    (use enqueue_batch_in_tx_ok [OF _ assms(1)] assms(2) in blast)

lemma enqueues_db_ok:
  assumes "db_ok s"
  shows "db_ok (fst (enqueue e job opts s))" "d_batch_id d = None \<Longrightarrow> db_ok (fst (enqueue_dyn e d s))"
    "db_ok (fst (enqueue_many e js s))"
    "\<forall>d \<in> set ds. d_batch_id d = None \<Longrightarrow> db_ok (fst (enqueue_many_dyn e ds s))"
  using typed_source.submit_db_ok [OF assms, where e = e and a = "(job, opts)"]
    dyn_source.submit_db_ok [OF assms, where e = e and a = d]
    many_source.submit_db_ok [OF assms, where e = e and a = js]
    many_dyn_source.submit_db_ok [OF assms, where e = e and a = ds] by auto

lemma clean_terminal: "terminal (clean_job_state st)"
  by (cases st) simp_all

lemma get_stats_frame:
  "fst (get_stats now clock1 clock2 won live_s before s) = s \<or>
   fst (get_stats now clock1 clock2 won live_s before s) = refresh_stats now s"
  using terminal_counts_frame by (simp add: get_stats_def Let_def split_beta)

lemma refresh_stats_db_ok: "db_ok s \<Longrightarrow> db_ok (refresh_stats now s)"
  by (rule db_ok_frame) (auto simp: refresh_stats_def keys_ok_def dest: db_okD(1))

lemma get_stats_db_ok: "db_ok s \<Longrightarrow> db_ok (fst (get_stats now clock1 clock2 won live_s before s))"
  using get_stats_frame refresh_stats_db_ok by metis

lemma sys_step_db_ok: "sys_step s s' \<Longrightarrow> db_ok s \<Longrightarrow> db_ok s'"
  by (induction rule: sys_step.induct)
    (simp_all add: enqueues_db_ok enqueue_batch_db_ok claim_batch_db_ok settle_db_ok cleanup_db_ok clean_terminal
      clean_jobs_db_ok tick_db_ok get_stats_db_ok admin_step_db_ok)

lemma reachable_db_ok: "reachable s \<Longrightarrow> db_ok s"
  unfolding reachable_def by (induction rule: rtranclp_induct) (auto simp: db_ok_empty sys_step_db_ok)

section \<open>Rows that only get added to\<close>

text \<open>What a batch row keeps: its identity and, once its callback is claimed, everything about that.\<close>

definition batch_kept :: "batch \<Rightarrow> batch \<Rightarrow> bool" where
  "batch_kept b b' \<longleftrightarrow> b_id b' = b_id b \<and> b_on_complete b' = b_on_complete b \<and>
     (claimed b \<longrightarrow> b_callback_enqueued_at b' = b_callback_enqueued_at b \<and> b_state b' = b_state b \<and>
        b_finalized_at b' = b_finalized_at b)"

lemma batch_kept_refl: "batch_kept b b"
  by (simp add: batch_kept_def)

lemma batch_kept_trans: "batch_kept a b \<Longrightarrow> batch_kept b c \<Longrightarrow> batch_kept a c"
  by (auto simp: batch_kept_def claimed_def)

lemma batches_kept_trans:
  assumes "list_all2 batch_kept xs ys" "list_all2 batch_kept ys zs"
  shows "list_all2 batch_kept xs zs"
  using batch_kept_trans assms by (rule list_all2_trans)

text \<open>The tail of a settling transaction: pending callback jobs are added and batch rows move on.\<close>

definition appends :: "db \<Rightarrow> db \<Rightarrow> bool" where
  "appends s s' \<longleftrightarrow>
     (\<exists>new. jobs s' = jobs s @ new \<and> (\<forall>j \<in> set new. j_state j = Pending \<and> next_job_id s \<le> j_id j)) \<and>
     next_job_id s \<le> next_job_id s' \<and> next_batch_id s' = next_batch_id s \<and>
     list_all2 batch_kept (batches s) (batches s')"

lemma appends_trans:
  assumes "appends s s1" "appends s1 s2"
  shows "appends s s2"
proof -
  obtain n1 n2 where n: "jobs s1 = jobs s @ n1" "jobs s2 = jobs s1 @ n2"
    "\<forall>j \<in> set n1. j_state j = Pending \<and> next_job_id s \<le> j_id j"
    "\<forall>j \<in> set n2. j_state j = Pending \<and> next_job_id s1 \<le> j_id j"
    using assms unfolding appends_def by blast
  have "list_all2 batch_kept (batches s) (batches s2)"
    using assms unfolding appends_def by (blast intro: batches_kept_trans)
  moreover have "next_job_id s \<le> next_job_id s1" using assms(1) by (simp add: appends_def)
  ultimately show ?thesis
    using assms n unfolding appends_def by (auto intro!: exI [of _ "n1 @ n2"])
qed

lemma list_all2_batch_kept_refl: "list_all2 batch_kept bs bs"
  by (simp add: list_all2_refl batch_kept_refl)

lemma appends_refl: "appends s s"
  by (simp add: appends_def list_all2_batch_kept_refl)

lemma appends_batches:
  assumes "\<And>b. b \<in> set (batches s) \<Longrightarrow> p b \<Longrightarrow> batch_kept b (f b)"
  shows "appends s (s\<lparr>batches := update_where p f (batches s)\<rparr>)"
  using assms
  by (auto simp: appends_def update_where_def list_all2_map2 intro!: list.rel_refl_strong batch_kept_refl)

lemma insert_row_appends: "insert_row now t d s = Inr (s', r) \<Longrightarrow> appends s s'"
  by (auto simp: insert_row_def appends_def new_job_def list_all2_batch_kept_refl Let_def split: if_splits)

lemma materialize_opt_same:
  "materialize_opt e k s = Inr s' \<Longrightarrow>
   jobs s' = jobs s \<and> next_job_id s' = next_job_id s \<and> batches s' = batches s \<and> next_batch_id s' = next_batch_id s"
  by (auto simp: materialize_opt_def materialize_from_rule_def split: option.splits if_splits)

lemma appends_same:
  assumes "appends s s1" "jobs s' = jobs s1" "next_job_id s' = next_job_id s1" "batches s' = batches s1"
    "next_batch_id s' = next_batch_id s1"
  shows "appends s s'"
  using assms by (simp add: appends_def)

lemma appends_insert_and_materialize: "appends s (fst (insert_and_materialize e t due_now d s))"
proof (cases "insert_row (e_now e) t d s")
  case (Inl err)
  then show ?thesis by (simp add: insert_and_materialize_def appends_refl)
next
  case (Inr r)
  obtain s1 i where r: "r = (s1, i)" by (cases r)
  have a: "appends s s1" using Inr r insert_row_appends by blast
  show ?thesis
  proof (cases i)
    case None
    with Inr r a show ?thesis by (simp add: insert_and_materialize_def)
  next
    case (Some k)
    with Inr r a appends_same [OF a] show ?thesis
      by (auto simp: insert_and_materialize_def dest!: materialize_opt_same split: sum.splits)
  qed
qed

lemma appends_enqueue_dyn: "appends s (fst (enqueue_dyn e d s))"
proof -
  have "appends s (fst (insert_dyn e d s))"
    by (auto simp: insert_dyn_def appends_insert_and_materialize appends_refl Let_def split: sum.splits)
  moreover have "appends s (fst (notify_if_due r s1))" if "appends s s1" for r s1
    by (rule appends_same [OF that]) (auto simp: notify_if_due_def split: prod.splits enqueue_result.splits bool.splits)
  ultimately show ?thesis
    by (auto simp: enqueue_dyn_def split: prod.splits sum.splits)
qed

lemma appends_enqueue_dyn_in_tx: "enqueue_dyn_in_tx e d s = Inr (s', r) \<Longrightarrow> appends s s'"
  using appends_enqueue_dyn [of s e d] by (auto simp: enqueue_dyn_in_tx_def in_tx_def split: prod.splits sum.splits)

lemma finish_kept: "claimable_batch bid b \<Longrightarrow> batch_kept b (finish_batch now b)"
  by (auto simp: batch_kept_def claimable_batch_def claimed_def finish_batch_def)

lemma bump_kept: "batch_kept b (bump oc b)"
  by (auto simp: batch_kept_def)

lemma appends_try_claim:
  assumes "try_claim_and_fire e bid s = Inr (s', u)"
  shows "appends s s'"
proof -
  let ?s1 = "s\<lparr>batches := update_where (claimable_batch bid) (finish_batch (e_now e)) (batches s)\<rparr>"
  have a: "appends s ?s1" by (rule appends_batches) (rule finish_kept)
  show ?thesis
    using assms a appends_trans [OF a appends_enqueue_dyn_in_tx]
    by (auto simp: try_claim_and_fire_def Let_def split: list.splits option.splits sum.splits prod.splits)
qed

lemma appends_settle_terminal:
  assumes "settle_terminal e bid oc s = Inr (s', u)"
  shows "appends s s'"
proof -
  let ?s1 = "s\<lparr>batches := update_where (\<lambda>b. b_id b = bid) (bump oc) (batches s)\<rparr>"
  have a: "appends s ?s1" by (rule appends_batches) (rule bump_kept)
  show ?thesis
    using assms a appends_trans [OF a appends_try_claim]
    by (auto simp: settle_terminal_def Let_def appends_refl split: option.splits if_splits)
qed

lemma appends_settle_opt: "settle_opt e b oc s = Inr (s', u) \<Longrightarrow> appends s s'"
  by (auto simp: settle_opt_def appends_refl split: option.splits dest: appends_settle_terminal)

lemma appends_fire_all: "fire_all e bs s = Inr (s', u) \<Longrightarrow> appends s s'"
proof (induction bs arbitrary: s)
  case (Cons b bs)
  then show ?case by (auto split: sum.splits prod.splits dest: appends_try_claim intro: appends_trans)
qed (simp add: appends_refl)

lemma enqueue_step_appends: "enqueue_step B s s' \<Longrightarrow> appends s s'"
  unfolding enqueue_step_def fresh_rows_def appends_def
  by (elim exE conjE) (force simp: list_all2_batch_kept_refl dest: arg_cong [where f = jobs] arg_cong [where f = batches]
      arg_cong [where f = next_batch_id])

lemma fire_schedules_appends: "fire_schedules cron now clocks rs s = Inr (s', n) \<Longrightarrow> appends s s'"
proof (induction rs arbitrary: s n)
  case (Cons r rs)
  have fire: "appends s s1" if "fire_schedule cron now clocks r s = Inr (s1, u)" for s1 u
    using that by (auto simp: fire_schedule_def split: sum.splits prod.splits dest!: insert_row_appends elim!: appends_same)
  from Cons.prems Cons.IH fire show ?case
    by (auto split: sum.splits prod.splits intro: appends_trans)
qed (simp add: appends_refl)

lemma tick_appends: "appends s (fst (tick cron dscan got_lock now clocks s))"
proof (cases "tick_in_tx cron dscan now clocks s")
  case (Inl err)
  then show ?thesis by (simp add: tick_def appends_refl)
next
  case (Inr r)
  obtain s1 n where r: "r = (s1, n)" by (cases r)
  have a: "appends s s1" using Inr r fire_schedules_appends by (simp add: tick_in_tx_def)
  with Inr r appends_same [OF a, of "pg_notify _ _ s1"] show ?thesis by (simp add: tick_def appends_refl)
qed

section \<open>Life cycles\<close>

fun moves :: "job_state \<Rightarrow> job_state \<Rightarrow> bool" where
  "moves Pending st \<longleftrightarrow> st = Pending \<or> st = Running \<or> st = Cancelled"
| "moves Running st \<longleftrightarrow> st = Running \<or> st = Pending \<or> st = Completed \<or> st = Failed"
| "moves st st' \<longleftrightarrow> st' = st"

definition same_but_batch :: "job \<Rightarrow> job \<Rightarrow> bool" where
  "same_but_batch j j' \<longleftrightarrow> j' = j\<lparr>j_batch_id := j_batch_id j'\<rparr>"

definition evolves :: "job \<Rightarrow> job \<Rightarrow> bool" where
  "evolves j j' \<longleftrightarrow> j_id j' = j_id j \<and> j_kind j' = j_kind j \<and> j_queue j' = j_queue j \<and> j_payload j' = j_payload j \<and>
     j_group_key j' = j_group_key j \<and> j_unique_key j' = j_unique_key j \<and> moves (j_state j) (j_state j') \<and>
     (terminal (j_state j) \<longrightarrow> same_but_batch j j')"

lemma moves_refl: "moves st st"
  by (cases st) simp_all

lemma same_but_batch_refl: "same_but_batch j j"
  by (simp add: same_but_batch_def)

lemma same_but_batch_fields:
  assumes "same_but_batch j j'"
  shows "j_id j' = j_id j" "j_kind j' = j_kind j" "j_queue j' = j_queue j" "j_payload j' = j_payload j"
    "j_group_key j' = j_group_key j" "j_unique_key j' = j_unique_key j" "j_state j' = j_state j"
proof -
  have "j' = j\<lparr>j_batch_id := j_batch_id j'\<rparr>" using assms by (simp add: same_but_batch_def)
  then obtain x where "j' = j\<lparr>j_batch_id := x\<rparr>" by blast
  then show "j_id j' = j_id j" "j_kind j' = j_kind j" "j_queue j' = j_queue j" "j_payload j' = j_payload j"
    "j_group_key j' = j_group_key j" "j_unique_key j' = j_unique_key j" "j_state j' = j_state j" by simp_all
qed

lemma same_but_batch_evolves: "same_but_batch j j' \<Longrightarrow> evolves j j'"
  using same_but_batch_fields by (simp add: evolves_def moves_refl)

lemma same_but_batch_trans:
  assumes "same_but_batch a b" "same_but_batch b c"
  shows "same_but_batch a c"
proof -
  obtain x where b: "b = a\<lparr>j_batch_id := x\<rparr>" using assms(1) unfolding same_but_batch_def by blast
  have "c = b\<lparr>j_batch_id := j_batch_id c\<rparr>" using assms(2) by (simp add: same_but_batch_def)
  also have "\<dots> = a\<lparr>j_batch_id := j_batch_id c\<rparr>" by (simp add: b)
  finally show ?thesis by (simp add: same_but_batch_def)
qed

text \<open>How one step relates the job rows before and after it.\<close>

definition jobs_evolve :: "db \<Rightarrow> db \<Rightarrow> bool" where
  "jobs_evolve s s' \<longleftrightarrow>
     (\<forall>j \<in> set (jobs s). (\<exists>j' \<in> set (jobs s'). evolves j j') \<or> (terminal (j_state j) \<and> j_id j \<notin> j_id ` set (jobs s'))) \<and>
     (\<forall>j' \<in> set (jobs s'). j_id j' \<notin> j_id ` set (jobs s) \<longrightarrow> j_state j' = Pending \<and> next_job_id s \<le> j_id j') \<and>
     next_job_id s \<le> next_job_id s'"

definition batches_evolve :: "db \<Rightarrow> db \<Rightarrow> bool" where
  "batches_evolve s s' \<longleftrightarrow>
     (\<forall>b \<in> set (batches s). (\<exists>b' \<in> set (batches s'). batch_kept b b') \<or> (claimed b \<and> b_id b \<notin> b_id ` set (batches s'))) \<and>
     (\<forall>b' \<in> set (batches s'). b_id b' \<notin> b_id ` set (batches s) \<longrightarrow> next_batch_id s \<le> b_id b') \<and>
     next_batch_id s \<le> next_batch_id s'"

definition history :: "db \<Rightarrow> db \<Rightarrow> bool" where
  "history s s' \<longleftrightarrow> jobs_evolve s s' \<and> batches_evolve s s'"

lemma kept_members:
  assumes "list_all2 batch_kept bs bs'"
  shows "b \<in> set bs \<Longrightarrow> \<exists>b' \<in> set bs'. batch_kept b b'" "map b_id bs' = map b_id bs"
  using assms by (induction) (auto simp: batch_kept_def)

lemma kept_evolve:
  assumes "list_all2 batch_kept (batches s) (batches s')" "next_batch_id s \<le> next_batch_id s'"
  shows "batches_evolve s s'"
proof -
  have "b_id ` set (batches s') = b_id ` set (batches s)" by (rule set_map_image) (rule kept_members(2) [OF assms(1)])
  with kept_members(1) [OF assms(1)] assms(2) show ?thesis unfolding batches_evolve_def by blast
qed

text \<open>Every update in place followed by an append is a piece of history.\<close>

lemma update_history:
  assumes "appends s1 s'" "jobs s1 = update_where p f (jobs s)" "next_job_id s1 = next_job_id s"
    "next_batch_id s1 = next_batch_id s" "list_all2 batch_kept (batches s) (batches s1)"
    and ev: "\<And>j. j \<in> set (jobs s) \<Longrightarrow> p j \<Longrightarrow> evolves j (f j)"
  shows "history s s'"
proof -
  obtain new where new: "jobs s' = update_where p f (jobs s) @ new"
      "\<And>j. j \<in> set new \<Longrightarrow> j_state j = Pending \<and> next_job_id s \<le> j_id j" "next_job_id s \<le> next_job_id s'"
    using assms(1-3) unfolding appends_def by auto
  have ids: "j_id ` set (update_where p f (jobs s)) = j_id ` set (jobs s)"
  proof (rule set_map_image)
    show "map j_id (update_where p f (jobs s)) = map j_id (jobs s)"
      using ev by (simp add: update_where_def evolves_def)
  qed
  have "\<exists>j' \<in> set (jobs s'). evolves j j'" if "j \<in> set (jobs s)" for j
  proof (cases "p j")
    case True
    then have "f j \<in> set (jobs s')" using that by (simp add: new set_update_where)
    with ev [OF that True] show ?thesis by blast
  next
    case False
    then have "j \<in> set (jobs s')" using that by (simp add: new set_update_where)
    then show ?thesis using same_but_batch_evolves [OF same_but_batch_refl] by blast
  qed
  moreover have "j_state j' = Pending \<and> next_job_id s \<le> j_id j'"
    if "j' \<in> set (jobs s')" "j_id j' \<notin> j_id ` set (jobs s)" for j'
    using that new ids by auto
  ultimately have "jobs_evolve s s'" using new(3) by (auto simp: jobs_evolve_def)
  moreover have "list_all2 batch_kept (batches s) (batches s')" "next_batch_id s \<le> next_batch_id s'"
    using assms(1,4,5) batches_kept_trans by (auto simp: appends_def)
  then have "batches_evolve s s'" by (rule kept_evolve)
  ultimately show ?thesis by (simp add: history_def)
qed

lemma appends_history: "appends s s' \<Longrightarrow> history s s'"
  by (rule update_history [where p = "\<lambda>_. False" and f = id and ?s1.0 = s])
    (simp_all add: update_where_def list_all2_batch_kept_refl)

lemma run_tx_history:
  assumes "\<And>s' a. body s = Inr (s', a) \<Longrightarrow> history s s'"
  shows "history s (fst (run_tx body s))"
  by (cases "body s") (use assms appends_history [OF appends_refl] in \<open>auto simp: run_tx_def\<close>)

text \<open>The in-place transitions.\<close>

lemma start_evolves: "due now kinds j \<Longrightarrow> evolves j (start_job now' w j)"
  by (auto simp: evolves_def due_def start_job_def)

lemma exits_evolve:
  assumes "running j"
  shows "evolves j (complete_job now result j)" "evolves j (retry_job t entry j)" "evolves j (fail_job now entry j)"
    "evolves j (recover_job now entry j)" "evolves j (j\<lparr>j_heartbeat_at := h\<rparr>)"
  using assms by (simp_all add: evolves_def running_def complete_job_def retry_job_def fail_job_def recover_job_def)

lemma cancel_evolves: "j_state j = Pending \<Longrightarrow> evolves j (cancel_job now j)"
  by (simp add: evolves_def cancel_job_def)

lemma claim_batch_frame:
  "next_job_id (fst (claim_batch c worker batch_size kinds qs s)) = next_job_id s"
  "next_batch_id (fst (claim_batch c worker batch_size kinds qs s)) = next_batch_id s"
  "batches (fst (claim_batch c worker batch_size kinds qs s)) = batches s"
  by (cases rule: claim_batch_cases [of c worker batch_size kinds qs s]; simp add: phase4_state)+

lemma claim_history:
  assumes "keys_ok s"
  shows "history s (fst (claim_batch c worker batch_size kinds qs s))"
proof (rule update_history [OF appends_refl])
  let ?r = "claim_batch c worker batch_size kinds qs s"
  show "jobs (fst ?r) = update_where (\<lambda>j. j_id j \<in> cj_id ` set (snd ?r)) (start_job (c_now c) worker) (jobs s)"
    by (rule claim_batch_taken(1) [OF assms])
  show "evolves j (start_job (c_now c) worker j)" if "j \<in> set (jobs s)" "j_id j \<in> cj_id ` set (snd ?r)" for j
  proof -
    from that(2) obtain cj where cj: "cj \<in> set (snd ?r)" "cj_id cj = j_id j" by force
    from claim_batch_jobs [OF assms cj(1)] obtain j0 where j0: "j0 \<in> set (jobs s)" "due (c_now c) kinds j0"
        "cj = claimed_of worker (seen_timeouts c qs) (start_job (c_now c) worker j0)" by blast
    then have "j_id j0 = j_id j" using cj(2) by (simp add: claimed_of_def)
    then have "j0 = j" using assms j0(1) that(1) by (auto simp: keys_ok_def dest: distinct_key_eq)
    with j0(2) show ?thesis by (simp add: start_evolves)
  qed
qed (simp_all add: claim_batch_frame list_all2_batch_kept_refl)

lemma release_frame [simp]:
  "jobs (release now j s) = jobs s" "batches (release now j s) = batches s"
  "next_job_id (release now j s) = next_job_id s" "next_batch_id (release now j s) = next_batch_id s"
  by (simp_all add: release_def)

lemma report_history:
  assumes "settle_opt e b oc (release now j0 (s\<lparr>jobs := update_where (owned i w) f (jobs s)\<rparr>)) = Inr (s', u)"
    and "\<And>j. running j \<Longrightarrow> evolves j (f j)"
  shows "history s s'"
  by (rule update_history [where p = "owned i w" and f = f, OF appends_settle_opt [OF assms(1)]])
    (auto simp: list_all2_batch_kept_refl dest: owned_facts(2) intro: assms(2))

lemma mark_completed_history: "history s (fst (mark_completed e i w result s))"
  unfolding mark_completed_def
proof (rule run_tx_history)
  show "history s s'" if "mark_completed_in_tx e i w result s = Inr (s', a)" for s' a
    using that
    by (auto simp: mark_completed_in_tx_def Let_def returning_empty update_jobs_idle appends_history [OF appends_refl]
        split: list.splits dest: report_history [OF _ exits_evolve(1)])
qed

lemma mark_failed_history: "history s (fst (mark_failed e i w entry retry_at s))"
  unfolding mark_failed_def
proof (rule run_tx_history)
  fix s' a
  assume tx: "mark_failed_in_tx e i w entry retry_at s = Inr (s', a)"
  let ?f = "case retry_at of Some t \<Rightarrow> retry_job t entry | None \<Rightarrow> fail_job (e_now e) entry"
  have "evolves j (?f j)" if "running j" for j using exits_evolve [OF that] by (simp split: option.splits)
  with tx show "history s s'"
    by (auto simp: mark_failed_in_tx_def Let_def returning_empty update_jobs_idle appends_history [OF appends_refl]
        simp del: option.case_eq_if split: list.splits dest!: report_history)
qed

lemma cancel_history: "history s (fst (cancel e i s))"
  unfolding cancel_def
proof (rule run_tx_history)
  fix s' a
  assume tx: "cancel_in_tx e i s = Inr (s', a)"
  let ?s1 = "s\<lparr>jobs := update_where (pending_id i) (cancel_job (e_now e)) (jobs s)\<rparr>"
  have "history s s2" if "appends ?s1 s2" for s2
    by (rule update_history [where p = "pending_id i" and f = "cancel_job (e_now e)", OF that]) (auto simp: list_all2_batch_kept_refl pending_id_def intro: cancel_evolves)
  with tx show "history s s'"
    by (auto simp: cancel_in_tx_def Let_def appends_refl split: list.splits sum.splits prod.splits dest: appends_settle_opt)
qed

lemma recover_history: "history s (fst (run_tx (recover_in_tx e entry p) s))"
proof (rule run_tx_history)
  fix s' a
  assume tx: "recover_in_tx e entry p s = Inr (s', a)"
  let ?q = "\<lambda>j. running j \<and> p j" and ?f = "recover_job (e_now e) entry"
  let ?swept = "returning ?q ?f (jobs s)"
  let ?s1 = "s\<lparr>jobs := update_where ?q ?f (jobs s), groups := drop_groups (e_now e) (group_delta ?swept) (groups s),
      queues := drop_queues (e_now e) (queue_delta ?swept) (queues s),
      batches := update_where (\<lambda>b. 0 < batch_failures ?swept (b_id b)) (add_failures (batch_failures ?swept)) (batches s)\<rparr>"
  have "appends s (s\<lparr>batches := batches ?s1\<rparr>)"
    by (simp, rule appends_batches) (simp add: batch_kept_def add_failures_def)
  then have kept: "list_all2 batch_kept (batches s) (batches ?s1)" by (simp add: appends_def)
  have "appends ?s1 s'" using tx by (auto simp: recover_in_tx_def Let_def split: if_splits sum.splits prod.splits dest: appends_fire_all)
  then show "history s s'"
    by (rule update_history [OF _ _ _ _ kept, where p = ?q and f = ?f]) (auto intro: exits_evolve)
qed


lemma heartbeat_history: "history s (fst (update_heartbeat_batch now ids s))"
proof (cases "ids = []")
  case True
  then show ?thesis by (simp add: update_heartbeat_batch_def appends_history [OF appends_refl])
next
  case False
  then show ?thesis
    by (intro update_history [where p = "\<lambda>j. j_id j \<in> set ids \<and> running j" and
          f = "\<lambda>j. j\<lparr>j_heartbeat_at := Some now\<rparr>", OF appends_refl])
      (auto simp: update_heartbeat_batch_def list_all2_batch_kept_refl intro: exits_evolve)
qed

lemma recovery_history:
  "history s (fst (sweep_stale e clock stale_after s))" "history s (fst (reclaim_in_flight e clock ids s))"
  by (simp_all add: sweep_stale_def reclaim_in_flight_def recover_history appends_history [OF appends_refl])

lemma unchanged_history:
  assumes "jobs s' = jobs s" "batches s' = batches s" "next_job_id s' = next_job_id s" "next_batch_id s' = next_batch_id s"
  shows "history s s'"
  by (rule appends_history) (rule appends_same [OF appends_refl]; use assms in simp)

text \<open>A new batch: the rows before it are kept, whatever happens to its own.\<close>

definition one_more :: "batch_key \<Rightarrow> batch list \<Rightarrow> batch list \<Rightarrow> bool" where
  "one_more bid bs bs' \<longleftrightarrow> (\<exists>ys x. bs' = ys @ [x] \<and> list_all2 batch_kept bs ys \<and> b_id x = bid)"

lemma one_more_kept:
  assumes "one_more bid bs bs'" "list_all2 batch_kept bs' bs''"
  shows "one_more bid bs bs''"
proof -
  obtain ys x where bs': "bs' = ys @ [x]" "list_all2 batch_kept bs ys" "b_id x = bid"
    using assms(1) unfolding one_more_def by blast
  obtain us z where bs'': "bs'' = us @ [z]" "list_all2 batch_kept ys us" "batch_kept x z"
    using assms(2) unfolding bs'(1) by (auto simp: list_all2_append1 list_all2_Cons1)
  show ?thesis using bs'' bs' batches_kept_trans by (auto simp: one_more_def batch_kept_def)
qed

lemma one_more_update:
  assumes "one_more bid bs bs'" "bid \<notin> b_id ` set bs" "\<And>b. b_id (f b) = b_id b"
  shows "one_more bid bs (update_where (\<lambda>b. b_id b = bid) f bs')"
proof -
  obtain ys x where bs': "bs' = ys @ [x]" "list_all2 batch_kept bs ys" "b_id x = bid"
    using assms(1) unfolding one_more_def by blast
  have "b_id ` set ys = b_id ` set bs" by (rule set_map_image) (rule kept_members(2) [OF bs'(2)])
  then have "b_id y \<noteq> bid" if "y \<in> set ys" for y using assms(2) that by blast
  then have "update_where (\<lambda>b. b_id b = bid) f ys = ys" by (auto simp: update_where_def intro!: map_idI)
  then show ?thesis using bs' assms(3) by (simp add: one_more_def update_where_def)
qed

definition adds_jobs :: "db \<Rightarrow> db \<Rightarrow> bool" where
  "adds_jobs s s' \<longleftrightarrow>
     (\<exists>new. jobs s' = jobs s @ new \<and> (\<forall>j \<in> set new. j_state j = Pending \<and> next_job_id s \<le> j_id j)) \<and>
     next_job_id s \<le> next_job_id s'"

lemma adds_jobs_trans: "adds_jobs s s1 \<Longrightarrow> adds_jobs s1 s2 \<Longrightarrow> adds_jobs s s2"
  unfolding adds_jobs_def by (fastforce dest: bspec)

lemma appends_adds: "appends s s' \<Longrightarrow> adds_jobs s s'"
  by (simp add: appends_def adds_jobs_def)

lemma adds_jobs_history:
  assumes "adds_jobs s s'" "one_more (next_batch_id s) (batches s) (batches s')" "next_batch_id s \<le> next_batch_id s'"
  shows "history s s'"
proof -
  have "appends s (s'\<lparr>batches := batches s, next_batch_id := next_batch_id s\<rparr>)"
    using assms(1) by (simp add: adds_jobs_def appends_def list_all2_batch_kept_refl)
  then have "jobs_evolve s (s'\<lparr>batches := batches s, next_batch_id := next_batch_id s\<rparr>)"
    using appends_history by (simp add: history_def)
  then have "jobs_evolve s s'" by (simp add: jobs_evolve_def)
  moreover have "batches_evolve s s'"
  proof -
    obtain ys x where bs': "batches s' = ys @ [x]" "list_all2 batch_kept (batches s) ys" "b_id x = next_batch_id s"
      using assms(2) unfolding one_more_def by blast
    have "b_id ` set ys = b_id ` set (batches s)" by (rule set_map_image) (rule kept_members(2) [OF bs'(2)])
    then show ?thesis using kept_members(1) [OF bs'(2)] bs' assms(3) unfolding batches_evolve_def by auto
  qed
  ultimately show ?thesis by (simp add: history_def)
qed

lemma finish_empty_adds:
  assumes "finish_empty e opts bid s = Inr (s', u)"
  shows "adds_jobs s s'" "next_batch_id s' = next_batch_id s"
    "list_all2 batch_kept (update_where (\<lambda>b. b_id b = bid) (finish_batch (e_now e)) (batches s)) (batches s')"
proof -
  have "appends (s\<lparr>batches := update_where (\<lambda>b. b_id b = bid) (finish_batch (e_now e)) (batches s)\<rparr>) s'"
    using assms by (auto simp: finish_empty_def Let_def appends_refl split: option.splits sum.splits prod.splits
        dest: appends_enqueue_dyn_in_tx)
  then show "adds_jobs s s'" "next_batch_id s' = next_batch_id s"
    "list_all2 batch_kept (update_where (\<lambda>b. b_id b = bid) (finish_batch (e_now e)) (batches s)) (batches s')"
    by (auto simp: appends_def adds_jobs_def)
qed

lemma enqueue_batch_history:
  assumes "keys_ok s"
  shows "history s (fst (enqueue_batch e items opts s))"
  unfolding enqueue_batch_def
proof (rule run_tx_history)
  fix s' a
  assume tx: "enqueue_batch_in_tx e items opts s = Inr (s', a)"
  let ?bid = "next_batch_id s"
  let ?s1 = "s\<lparr>batches := batches s @ [new_batch (e_now e) opts ?bid], next_batch_id := ?bid + 1\<rparr>"
  have fresh: "?bid \<notin> b_id ` set (batches s)" using assms by (auto simp: keys_ok_def)
  have keys: "keys_ok ?s1" using assms fresh by (auto simp: keys_ok_def new_batch_def less_Suc_eq)
  obtain s2 n where items: "insert_items e items ?bid ?s1 = Inr (s2, n)"
    using tx by (auto simp: enqueue_batch_in_tx_def Let_def split: sum.splits)
  let ?s3 = "s2\<lparr>batches := update_where (\<lambda>b. b_id b = ?bid) (\<lambda>b. b\<lparr>b_total := int n\<rparr>) (batches s2)\<rparr>"
  have s2: "appends ?s1 s2" using insert_items_step [OF items keys] enqueue_step_appends by blast
  have "one_more ?bid (batches s) (batches ?s1)"
    by (simp add: one_more_def new_batch_def list_all2_batch_kept_refl)
  then have "one_more ?bid (batches s) (batches s2)" using s2 by (auto simp: appends_def intro: one_more_kept)
  then have b3: "one_more ?bid (batches s) (batches ?s3)" using fresh by (simp add: one_more_update)
  have s3: "adds_jobs s ?s3" "?bid \<le> next_batch_id ?s3" using s2 by (auto simp: appends_def adds_jobs_def)
  show "history s s'"
  proof (cases "n = 0")
    case True
    then have "finish_empty e opts ?bid ?s3 = Inr (s', ())"
      using tx items by (auto simp: enqueue_batch_in_tx_def Let_def split: sum.splits)
    note fin = finish_empty_adds [OF this]
    have "one_more ?bid (batches s) (batches s')"
      by (rule one_more_kept [OF one_more_update [OF b3 fresh] fin(3)]) simp
    then show ?thesis using s3 fin(1,2) by (intro adds_jobs_history) (auto intro: adds_jobs_trans)
  next
    case False
    then have "s' = ?s3" using tx items by (auto simp: enqueue_batch_in_tx_def Let_def)
    then show ?thesis using s3 b3 by (simp add: adds_jobs_history)
  qed
qed


text \<open>Pruning: finished jobs and claimed batches disappear, and jobs lose their link to a deleted batch.\<close>

definition prunes :: "db \<Rightarrow> db \<Rightarrow> bool" where
  "prunes s s' \<longleftrightarrow>
     (\<forall>j \<in> set (jobs s). (\<exists>j' \<in> set (jobs s'). same_but_batch j j') \<or> (terminal (j_state j) \<and> j_id j \<notin> j_id ` set (jobs s'))) \<and>
     (\<forall>b \<in> set (batches s). b \<in> set (batches s') \<or> (claimed b \<and> b_id b \<notin> b_id ` set (batches s'))) \<and>
     j_id ` set (jobs s') \<subseteq> j_id ` set (jobs s) \<and> set (batches s') \<subseteq> set (batches s) \<and>
     next_job_id s' = next_job_id s \<and> next_batch_id s' = next_batch_id s"

lemma prunes_refl: "prunes s s"
  using same_but_batch_refl unfolding prunes_def by blast

lemma prunes_rows:
  assumes "prunes s s'"
  shows "j \<in> set (jobs s) \<Longrightarrow> (\<exists>j' \<in> set (jobs s'). same_but_batch j j') \<or> (terminal (j_state j) \<and> j_id j \<notin> j_id ` set (jobs s'))"
    and "b \<in> set (batches s) \<Longrightarrow> b \<in> set (batches s') \<or> (claimed b \<and> b_id b \<notin> b_id ` set (batches s'))"
    and "j_id ` set (jobs s') \<subseteq> j_id ` set (jobs s)" "set (batches s') \<subseteq> set (batches s)"
    and "next_job_id s' = next_job_id s" "next_batch_id s' = next_batch_id s"
  using assms by (auto simp only: prunes_def)

lemma prunes_trans:
  assumes "prunes s s1" "prunes s1 s2"
  shows "prunes s s2"
proof -
  note a = prunes_rows [OF assms(1)] and b = prunes_rows [OF assms(2)]
  have "(\<exists>j' \<in> set (jobs s2). same_but_batch j j') \<or> (terminal (j_state j) \<and> j_id j \<notin> j_id ` set (jobs s2))"
    if j: "j \<in> set (jobs s)" for j
  proof (cases "\<exists>j1 \<in> set (jobs s1). same_but_batch j j1")
    case True
    then obtain j1 where j1: "j1 \<in> set (jobs s1)" "same_but_batch j j1" by blast
    show ?thesis
      using b(1) [OF j1(1)] same_but_batch_trans [OF j1(2)] same_but_batch_fields(1,7) [OF j1(2)] by auto
  next
    case False
    then show ?thesis using a(1) [OF j] b(3) by blast
  qed
  moreover have "c \<in> set (batches s2) \<or> (claimed c \<and> b_id c \<notin> b_id ` set (batches s2))" if c: "c \<in> set (batches s)" for c
    using a(2) [OF c] b(2) [of c] b(4) by blast
  moreover have "j_id ` set (jobs s2) \<subseteq> j_id ` set (jobs s)" "set (batches s2) \<subseteq> set (batches s)"
    using a(3,4) b(3,4) by simp_all
  ultimately show ?thesis using a(5,6) b(5,6) by (simp add: prunes_def)
qed

lemma prunes_history:
  assumes "prunes s s'"
  shows "history s s'"
proof -
  note p = prunes_rows [OF assms]
  have "(\<exists>j' \<in> set (jobs s'). evolves j j') \<or> (terminal (j_state j) \<and> j_id j \<notin> j_id ` set (jobs s'))"
    if "j \<in> set (jobs s)" for j
    using p(1) [OF that] same_but_batch_evolves by blast
  moreover have "j_id j' \<in> j_id ` set (jobs s)" if "j' \<in> set (jobs s')" for j' using p(3) that by blast
  ultimately have "jobs_evolve s s'" using p(5) by (auto simp only: jobs_evolve_def order_refl)
  moreover have "(\<exists>b' \<in> set (batches s'). batch_kept b b') \<or> (claimed b \<and> b_id b \<notin> b_id ` set (batches s'))"
    if "b \<in> set (batches s)" for b
    using p(2) [OF that] batch_kept_refl by blast
  then have "batches_evolve s s'" using p(4,6) by (auto simp only: batches_evolve_def order_refl)
  ultimately show ?thesis by (simp add: history_def)
qed

lemma delete_prunes:
  assumes "\<And>j. j \<in> set (jobs s) \<Longrightarrow> j_id j \<in> ids \<Longrightarrow> terminal (j_state j)"
  shows "prunes s (s\<lparr>jobs := delete_where (\<lambda>j. j_id j \<in> ids) (jobs s)\<rparr>)"
  using assms same_but_batch_refl by (fastforce simp: prunes_def delete_where_def)

lemma cleanup_jobs_state_prunes:
  assumes "scan_ok scan" "terminal st" "keys_ok s"
  shows "prunes s (fst (cleanup_jobs_state scan now st age keep s))"
  using expired_jobs_terminal [OF assms(1) _ assms(2)] assms(3)
  by (auto simp: cleanup_jobs_state_def Let_def keys_ok_def intro!: delete_prunes)

lemma clean_jobs_prunes:
  assumes "scan_ok scan" "terminal st" "keys_ok s"
  shows "prunes s (fst (clean_jobs scan now st grace limit s))"
proof -
  have "terminal (j_state j)"
    if j: "j \<in> set (jobs s)" "j_id j \<in> j_id ` set (clean_victims scan now st grace limit (jobs s))" for j
  proof -
    obtain v where v: "v \<in> set (clean_victims scan now st grace limit (jobs s))" "j_id v = j_id j" using j(2) by auto
    then have "v = j" using clean_victims_state [OF assms(1) v(1)] j(1) assms(3)
      by (auto simp: keys_ok_def dest: distinct_key_eq)
    then show ?thesis using clean_victims_state [OF assms(1) v(1)] assms(2) by (simp add: finalized_in_def)
  qed
  then show ?thesis by (auto simp: clean_jobs_def Let_def prunes_refl intro!: delete_prunes)
qed

lemma unlink_same: "same_but_batch j (unlink_batches ids j)"
  by (auto simp: same_but_batch_def unlink_batches_def split: option.splits)

lemma cleanup_batches_prunes:
  assumes "scan_ok scan" "db_ok s"
  shows "prunes s (fst (cleanup_batches scan now age keep s))"
proof -
  let ?ids = "expired_batches scan now age keep (batches s)"
  have "claimed b" if b: "b \<in> set (batches s)" "b_id b \<in> ?ids" for b
  proof -
    obtain b' where "b' \<in> set (batches s)" "b_id b' = b_id b" "finished_batch b'"
      using expired_batches_finished [OF assms(1) b(2)] by blast
    then have "finished_batch b" using b(1) db_okD(1) [OF assms(2)] by (auto simp: keys_ok_def dest: distinct_key_eq)
    then show ?thesis using db_okD(5) [OF assms(2)] b(1) by (auto simp: batches_ok_def claimed_def finished_batch_def)
  qed
  then show ?thesis
    using unlink_same by (fastforce simp: cleanup_batches_def Let_def prunes_def delete_where_def)
qed

lemma cleanup_prunes:
  assumes "scan_ok jscan" "scan_ok bscan" "db_ok s"
  shows "prunes s (fst (cleanup jscan bscan now r s))"
proof -
  let ?c = "\<lambda>st age keep s. fst (cleanup_jobs_state jscan now st age keep s)"
  have step: "db_ok (?c st age keep s) \<and> prunes s (?c st age keep s)" if "terminal st" "db_ok s" for st age keep s
    using that assms(1) cleanup_jobs_state_db_ok cleanup_jobs_state_prunes db_okD(1) by blast
  let ?s1 = "?c Completed (rt_completed_secs r) (rt_completed_count r) s"
  let ?s2 = "?c Failed (rt_failed_secs r) (rt_failed_count r) ?s1"
  let ?s3 = "?c Cancelled (rt_cancelled_secs r) (rt_cancelled_count r) ?s2"
  have "prunes s ?s3 \<and> db_ok ?s3"
    using step [of Completed] step [of Failed] step [of Cancelled] assms(3) by (simp add: prunes_trans) (meson prunes_trans)
  then have "prunes s (fst (cleanup_batches bscan now (rt_batch_secs r) (rt_batch_count r) ?s3))"
    using cleanup_batches_prunes [OF assms(2)] prunes_trans by blast
  then show ?thesis by (simp add: cleanup_def Let_def split_beta)
qed


lemma queue_admin_history:
  "history s (queue_set_concurrency now q mx s)" "history s (queue_set_paused now q b s)"
  "history s (queue_set_timeout now q t s)"
  by (rule unchanged_history; simp add: qconc.frame qpause.frame qtimeout.frame)+

lemma group_admin_history:
  assumes "keys_ok s"
  shows "history s (group_set_concurrency now k mx s)" "history s (group_set_paused now k b s)"
    "history s (fst (group_set_rate now k n period s))" "history s (group_clear_rate now k s)"
proof -
  have "history s s'" if "group_config_step s s'" for s'
    by (rule unchanged_history; simp add: group_config_step_frame [OF that])
  then show "history s (group_set_concurrency now k mx s)" "history s (group_set_paused now k b s)"
    "history s (fst (group_set_rate now k n period s))" "history s (group_clear_rate now k s)"
    using group_set_concurrency_step group_set_paused_step group_set_rate_step group_clear_rate_step assms by blast+
qed

lemma rule_admin_history: "history s (fst (set_rule now pattern rule s))" "history s (fst (remove_rule pattern s))"
  by (rule unchanged_history; simp add: set_rule_def remove_rule_def Let_def split: if_splits)+

lemma schedule_admin_history:
  "history s (fst (upsert_schedule_raw cron utc d s))" "history s (fst (upsert_schedule cron utc name expr job s))"
  "history s (fst (upsert_interval_schedule_raw utc name ms kind payload pr ma queue s))"
  "history s (fst (sync_schedules cron utc declared s))" "history s (fst (remove_schedule name s))"
  "history s (fst (set_enabled name b s))"
  by (rule unchanged_history; simp add: upsert_schedule_def upsert_schedule_raw_def upsert_interval_schedule_raw_def
      sync_schedules_def remove_schedule_def set_enabled_def Let_def split: sum.splits)+

lemma leader_history: "history s (fst (try_elect now w role lease s))" "history s (resign now w role s)"
  by (rule unchanged_history; simp add: try_elect_def resign_def Let_def pg_notify_def)+

lemma admin_history: "admin_step s s' \<Longrightarrow> keys_ok s \<Longrightarrow> history s s'"
  by (induction rule: admin_step.induct)
    (simp_all add: queue_admin_history group_admin_history rule_admin_history schedule_admin_history leader_history)

lemma enqueue_history:
  assumes "keys_ok s"
  shows "history s (fst (enqueue e job opts s))" "history s (fst (enqueue_dyn e d s))"
    "history s (fst (enqueue_many e js s))" "history s (fst (enqueue_many_dyn e ds s))"
  using typed_source.submit_step [OF assms, where e = e and a = "(job, opts)"]
    dyn_source.submit_step [OF assms, where e = e and a = d]
    many_source.submit_step [OF assms, where e = e and a = js]
    many_dyn_source.submit_step [OF assms, where e = e and a = ds]
  by (auto dest!: enqueue_step_appends appends_history)

lemma stats_history: "history s (fst (get_stats now clock1 clock2 won live_s before s))"
proof -
  have "history s (refresh_stats now s)" by (rule unchanged_history) (simp_all add: refresh_stats_def)
  then show ?thesis using get_stats_frame appends_history [OF appends_refl] by metis
qed

lemma sys_step_history: "sys_step s s' \<Longrightarrow> db_ok s \<Longrightarrow> history s s'"
  by (induction rule: sys_step.induct)
    (simp_all add: enqueue_history enqueue_batch_history claim_history mark_completed_history mark_failed_history
      cancel_history heartbeat_history recovery_history prunes_history cleanup_prunes clean_jobs_prunes clean_terminal
      stats_history admin_history appends_history tick_appends unchanged_history reconcile_counters_def db_okD(1))

section \<open>Runs\<close>

text \<open>Along a run a finished job either stays as it is, but for its link to a deleted batch, or is gone for good.\<close>

definition settled_for_good :: "job \<Rightarrow> db \<Rightarrow> bool" where
  "settled_for_good j s \<longleftrightarrow>
     (\<forall>j' \<in> set (jobs s). j_id j' = j_id j \<longrightarrow> same_but_batch j j') \<and> j_id j < next_job_id s"

definition claimed_for_good :: "batch \<Rightarrow> db \<Rightarrow> bool" where
  "claimed_for_good b s \<longleftrightarrow>
     (\<forall>b' \<in> set (batches s). b_id b' = b_id b \<longrightarrow> b_callback_enqueued_at b' = b_callback_enqueued_at b) \<and>
     b_id b < next_batch_id s"

lemma jobs_evolve_row:
  assumes "jobs_evolve s s'" "j \<in> set (jobs s)" "j_id j \<in> j_id ` set (jobs s')"
  obtains j1 where "j1 \<in> set (jobs s')" "evolves j j1"
  using assms(1) [unfolded jobs_evolve_def, THEN conjunct1, rule_format, OF assms(2)] assms(3) by blast

lemma batches_evolve_row:
  assumes "batches_evolve s s'" "b \<in> set (batches s)" "b_id b \<in> b_id ` set (batches s')"
  obtains b1 where "b1 \<in> set (batches s')" "batch_kept b b1"
  using assms(1) [unfolded batches_evolve_def, THEN conjunct1, rule_format, OF assms(2)] assms(3) by blast

lemma settled_for_good_step:
  assumes "history s s'" "keys_ok s'" "settled_for_good j s" "terminal (j_state j)"
  shows "settled_for_good j s'"
proof -
  have h: "jobs_evolve s s'" using assms(1) by (simp add: history_def)
  have "same_but_batch j j'" if j': "j' \<in> set (jobs s')" "j_id j' = j_id j" for j'
  proof (cases "j_id j' \<in> j_id ` set (jobs s)")
    case True
    then obtain j0 where j0: "j0 \<in> set (jobs s)" "j_id j0 = j_id j" using j'(2) by auto
    then have same: "same_but_batch j j0" using assms(3) by (simp add: settled_for_good_def)
    then have fin: "terminal (j_state j0)" using same_but_batch_fields(7) assms(4) by metis
    have "j_id j0 \<in> j_id ` set (jobs s')" using j' j0(2) by (simp add: image_eqI [where x = j'])
    then obtain j1 where j1: "j1 \<in> set (jobs s')" "evolves j0 j1" using jobs_evolve_row [OF h j0(1)] by blast
    then have "j1 = j'" using assms(2) j0(2) j' by (auto simp: keys_ok_def evolves_def dest: distinct_key_eq)
    then have "same_but_batch j0 j'" using j1(2) fin by (simp add: evolves_def)
    then show ?thesis using same same_but_batch_trans by blast
  next
    case False
    then have "next_job_id s \<le> j_id j'" using h j'(1) unfolding jobs_evolve_def by blast
    then have "next_job_id s \<le> j_id j" using j'(2) by simp
    then show ?thesis using assms(3) by (simp add: settled_for_good_def)
  qed
  moreover have "j_id j < next_job_id s'" using assms(3) h by (simp add: settled_for_good_def jobs_evolve_def)
  ultimately show ?thesis by (simp add: settled_for_good_def)
qed


lemma claimed_for_good_step:
  assumes "history s s'" "keys_ok s'" "claimed_for_good b s" "claimed b"
  shows "claimed_for_good b s'"
proof -
  have h: "batches_evolve s s'" using assms(1) by (simp add: history_def)
  have "b_callback_enqueued_at b' = b_callback_enqueued_at b" if b': "b' \<in> set (batches s')" "b_id b' = b_id b" for b'
  proof (cases "b_id b' \<in> b_id ` set (batches s)")
    case True
    then obtain b0 where b0: "b0 \<in> set (batches s)" "b_id b0 = b_id b" using b'(2) by auto
    then have same: "b_callback_enqueued_at b0 = b_callback_enqueued_at b" using assms(3) by (simp add: claimed_for_good_def)
    have "b_id b0 \<in> b_id ` set (batches s')" using b' b0(2) by (simp add: image_eqI [where x = b'])
    then obtain b1 where b1: "b1 \<in> set (batches s')" "batch_kept b0 b1" using batches_evolve_row [OF h b0(1)] by blast
    then have "b1 = b'" using assms(2) b0(2) b' by (auto simp: keys_ok_def batch_kept_def dest: distinct_key_eq)
    then show ?thesis using b1(2) same assms(4) by (simp add: batch_kept_def claimed_def)
  next
    case False
    then have "next_batch_id s \<le> b_id b'" using h b'(1) unfolding batches_evolve_def by blast
    then have "next_batch_id s \<le> b_id b" using b'(2) by simp
    then show ?thesis using assms(3) by (simp add: claimed_for_good_def)
  qed
  moreover have "b_id b < next_batch_id s'" using assms(3) h by (simp add: claimed_for_good_def batches_evolve_def)
  ultimately show ?thesis by (simp add: claimed_for_good_def)
qed

lemma run_db_ok: "sys_step\<^sup>*\<^sup>* s s' \<Longrightarrow> db_ok s \<Longrightarrow> db_ok s'"
  by (induction rule: rtranclp_induct) (auto intro: sys_step_db_ok)

lemma run_keeps:
  assumes "sys_step\<^sup>*\<^sup>* s s'" "db_ok s" "P s"
    and "\<And>s s'. history s s' \<Longrightarrow> keys_ok s' \<Longrightarrow> P s \<Longrightarrow> P s'"
  shows "P s'"
  using assms(1)
proof (induction rule: rtranclp_induct)
  case (step t u)
  then have "db_ok t" using run_db_ok assms(2) by blast
  with step show ?case using assms(4) sys_step_history sys_step_db_ok db_okD(1) by blast
qed (rule assms(3))

end
