(* ===== verification/Claim_Correct.thy ===== *)
theory Claim_Correct
  imports Claim_Limits Samples
begin

text \<open>
  What \<open>claim_batch\<close> promises its callers: the statements about \<open>fetch.rs\<close> that follow from the lemmas of
  \<open>Claim_Safety\<close> and \<open>Claim_Limits\<close>.
\<close>

section \<open>What a claim does\<close>

definition sample_claim :: claim_env where
  "sample_claim = \<lparr>c_now = 100, c_utc = 1000000, c_seen_queues = [sample_queue], c_queue_locked = (\<lambda>_. False),
     c_group_locked = (\<lambda>_. False), c_job_locked = (\<lambda>_. False), c_order = rev\<rparr>"

lemma sample_claim_order: "order_ok sample_claim"
  by (simp add: order_ok_def sample_claim_def)

text \<open>A claim keeps the database invariant. In particular the counters of every queue and group still
  equal the number of running jobs after the counters were raised, whatever the claim took, whatever rows
  were locked by others and however old the unlocked read of the queue rows was.\<close>

lemma claim_keeps_invariant:
  assumes "db_ok s"
  shows "db_ok (fst (claim_batch c worker batch_size kinds qs s))"
  using assms by (rule claim_batch_db_ok)

text \<open>C5: a claim returns at most \<open>batch_size\<close> distinct jobs and changes exactly their rows: they are running under the
  worker, with a fresh heartbeat and one more attempt. Every one of them was pending, due, of a registered kind, on a
  subscribed queue and not locked by another transaction, and is returned as the row now stands.\<close>

theorem claim_starts_exactly_returned:
  assumes "db_ok s"
  shows "length (snd (claim_batch c worker batch_size kinds qs s)) \<le> batch_size \<and>
    distinct (map cj_id (snd (claim_batch c worker batch_size kinds qs s))) \<and>
    jobs (fst (claim_batch c worker batch_size kinds qs s)) =
      update_where (\<lambda>j. j_id j \<in> cj_id ` set (snd (claim_batch c worker batch_size kinds qs s)))
        (start_job (c_now c) worker) (jobs s) \<and>
    (\<forall>cj \<in> set (snd (claim_batch c worker batch_size kinds qs s)).
       \<exists>j \<in> set (jobs s). due (c_now c) kinds j \<and> j_queue j \<in> set qs \<and> \<not> c_job_locked c (j_id j) \<and>
         cj = claimed_of worker (seen_timeouts c qs) (start_job (c_now c) worker j))"
proof (intro conjI ballI)
  fix cj assume "cj \<in> set (snd (claim_batch c worker batch_size kinds qs s))"
  from claim_batch_jobs [OF db_okD(1) [OF assms] this]
  show "\<exists>j \<in> set (jobs s). due (c_now c) kinds j \<and> j_queue j \<in> set qs \<and> \<not> c_job_locked c (j_id j) \<and>
      cj = claimed_of worker (seen_timeouts c qs) (start_job (c_now c) worker j)" by blast
qed (rule claim_batch_length claim_batch_taken, rule db_okD(1) [OF assms])+

lemmas claim_defs = claim_batch_def select_jobs_def phase0_budget_def binding_queues_def seen_rows_def
  record_slots_def queue_slots_def queue_row_needs_lock_def locked_rows_def budget_for_def take_ungrouped_def
  ungrouped_candidates_def due_def claim_order_def spend_def active_group_keys_def group_slots_def phase4_def
  seen_timeouts_def sat_i64_def sat_i32_def

lemma sample_claim_ids: "map cj_id (snd (claim_batch sample_claim 7 1 [''mail''] [''default''] sample_db)) = [2]"
  by (simp add: claim_defs sample_claim_def sample_row_defs returning_def claimed_of_def start_job_def)

theorem claim_starts_exactly_returned_witness:
  "\<exists>cj. snd (claim_batch sample_claim 7 1 [''mail''] [''default''] sample_db) = [cj] \<and>
     (\<exists>j \<in> set (jobs sample_db). due 100 [''mail''] j \<and> cj_id cj = j_id j)"
proof -
  obtain cj where cj: "snd (claim_batch sample_claim 7 1 [''mail''] [''default''] sample_db) = [cj]"
    using sample_claim_ids by (cases "snd (claim_batch sample_claim 7 1 [''mail''] [''default''] sample_db)") auto
  moreover from this claim_starts_exactly_returned [OF sample_ok, of sample_claim 7 1 "[''mail'']" "[''default'']"]
  obtain j where "j \<in> set (jobs sample_db)" "due (c_now sample_claim) [''mail''] j"
      "cj = claimed_of 7 (seen_timeouts sample_claim [''default'']) (start_job (c_now sample_claim) 7 j)" by auto
  moreover have "c_now sample_claim = 100" by (simp add: sample_claim_def)
  ultimately show ?thesis by (metis claimed_job.select_convs(1) claimed_of_def start_job_simps(1))
qed



text \<open>C3: a group's cap is respected: a claim never takes the number of jobs running in a group above its cap,
  and takes nothing from a group that is paused or whose row another claim holds.\<close>

theorem claim_respects_group_cap:
  assumes "db_ok s" "order_ok c" "g \<in> set (groups s)"
  shows "int (running_in_group (g_key g) (jobs (fst (claim_batch c worker batch_size kinds qs s))))
    \<le> (if g_paused g \<or> c_group_locked c (g_key g) then int (running_in_group (g_key g) (jobs s))
        else max (int (running_in_group (g_key g) (jobs s))) (g_max_concurrency g))"
proof -
  have "g_running_count g = int (running_in_group (g_key g) (jobs s))"
    using counters_ok_group [OF db_okD(3) [OF assms(1)] assms(3)] .
  with claim_group_delta [OF db_okD(1) [OF assms(1)] assms(2,3), of worker batch_size kinds qs] gs_slots_conc [of "c_utc c" g]
  show ?thesis by (auto simp: group_conc_slots_def split: if_splits)
qed

theorem claim_respects_group_cap_witness:
  "int (running_in_group (g_key sample_group) (jobs (fst (claim_batch sample_claim 7 5 [''mail''] [''default''] sample_db)))) \<le> 3"
proof -
  have "g_max_concurrency sample_group = 3" "\<not> g_paused sample_group" by (simp_all add: sample_group_def)
  moreover have "running_in_group (g_key sample_group) (jobs sample_db) = 1"
    by (simp add: counted_def running_def sample_row_defs)
  ultimately show ?thesis
    using claim_respects_group_cap [OF sample_ok sample_claim_order, of sample_group 7 5 "[''mail'']" "[''default'']"]
    by (simp add: sample_claim_def)
qed

text \<open>C4: the token bucket of a rate-limited group. A claim takes at most the refilled balance, which is capped
  at \<open>rate_count\<close>; the group's row is left alone if nothing was taken, and otherwise holds the refilled balance
  less one token per job taken, stamped with the time of the claim.\<close>

theorem claim_spends_tokens:
  assumes "db_ok s" "order_ok c" "g \<in> set (groups s)" "rate_limited g rc rp"
    and "n = taken_from (g_key g) (snd (claim_batch c worker batch_size kinds qs s))"
  shows "real n \<le> bucket (c_utc c) g rc rp \<and> bucket (c_utc c) g rc rp \<le> real_of_int rc \<and>
    group_get (g_key g) (fst (claim_batch c worker batch_size kinds qs s)) =
      Some (if n = 0 then g
            else g\<lparr>g_running_count := g_running_count g + int n, g_tokens := bucket (c_utc c) g rc rp - real n,
                   g_tokens_refilled_at := Some (c_utc c), g_updated_at := c_now c\<rparr>)"
  using claim_within_bucket [OF db_okD(1) [OF assms(1)] assms(2-4)] claim_group_row [OF db_okD(1) [OF assms(1)] assms(2-5)]
    rate_limited_state(4) [OF assms(4)] assms(5) by blast

theorem claim_spends_tokens_witness:
  "real (taken_from (g_key sample_group) (snd (claim_batch sample_claim 7 5 [''mail''] [''default''] sample_db)))
     \<le> bucket 1000000 sample_group 2 1000 \<and> bucket 1000000 sample_group 2 1000 = 2"
proof -
  have "rate_limited sample_group 2 1000" by (simp add: rate_limited_def sample_group_def)
  from claim_spends_tokens [OF sample_ok sample_claim_order _ this refl] show ?thesis
    by (simp add: sample_claim_def) (simp add: bucket_def refilled_def sample_group_def)
qed

text \<open>C6: progress. If some subscribed queue with a free slot holds a due, unlocked job whose group (if it has
  one) has a free slot and a token, the claim returns at least one job.\<close>

theorem claim_makes_progress:
  assumes "db_ok s" "order_ok c" "0 < batch_size" "claimable c kinds qs s j"
  shows "snd (claim_batch c worker batch_size kinds qs s) \<noteq> []"
  using db_okD(1) [OF assms(1)] assms(2-4) by (rule claim_progress)

theorem claim_makes_progress_witness:
  "snd (claim_batch sample_claim 9 1 [''mail''] [''default''] sample_db) \<noteq> []"
proof -
  have "claimable sample_claim [''mail''] [''default''] sample_db unique_job"
    by (simp add: claimable_def claim_defs sample_claim_def sample_row_defs)
  with claim_makes_progress [OF sample_ok sample_claim_order] show ?thesis by simp
qed

text \<open>The ungrouped jobs of a queue are taken in order: a job that is taken leaves no claimable ungrouped job
  of the same queue behind that has a higher priority or, at equal priority, is due earlier.\<close>

lemma claim_takes_by_priority:
  assumes "db_ok s" "j \<in> set (ungrouped_candidates c kinds q s)" "j' \<in> set (ungrouped_candidates c kinds q s)"
    and "j_id j \<in> cj_id ` set (snd (claim_batch c worker batch_size kinds qs s))" "claim_order j' < claim_order j"
  shows "j_id j' \<in> cj_id ` set (snd (claim_batch c worker batch_size kinds qs s))"
proof (cases rule: claim_batch_cases [of c worker batch_size kinds qs s])
  case 1
  with assms(4) show ?thesis by simp
next
  case (2 slots acc)
  have "j \<in> set (jobs s)" "j' \<in> set (jobs s)" using assms(2,3) by (simp_all add: ungrouped_candidates_def)
  moreover have "prefix_taken c kinds s acc" using select_prefix [OF db_okD(1) [OF assms(1)]] 2(1) by (metis snd_conv)
  moreover have "taken acc j" using assms(4) \<open>j \<in> set (jobs s)\<close> by (simp add: 2(3) phase4_ids)
  ultimately have "taken acc j'" using assms(2,3,5) unfolding prefix_taken_def by blast
  with \<open>j' \<in> set (jobs s)\<close> show ?thesis by (simp add: 2(3) phase4_ids)
qed

definition two_jobs :: db where
  "two_jobs = empty_db\<lparr>jobs := [sample_job 1 Pending, (sample_job 2 Pending)\<lparr>j_priority := 4\<rparr>], next_job_id := 3\<rparr>"

lemma two_jobs_ok: "db_ok two_jobs"
  by (simp add: two_jobs_def db_ok_def keys_ok_def counters_ok_def checks_ok_def batches_ok_def empty_db_def
      sample_job_def conflicts_def running_def)

definition two_jobs_claim :: claim_env where
  "two_jobs_claim = \<lparr>c_now = 100, c_utc = 100, c_seen_queues = [], c_queue_locked = (\<lambda>_. False),
     c_group_locked = (\<lambda>_. False), c_job_locked = (\<lambda>_. False), c_order = rev\<rparr>"

lemma two_jobs_ids: "map cj_id (snd (claim_batch two_jobs_claim 7 2 [''mail''] [''default''] two_jobs)) = [1, 2]"
  by (simp add: claim_defs two_jobs_claim_def two_jobs_def empty_db_def Let_def sample_row_defs returning_def claimed_of_def start_job_def)

text \<open>The two recursive walks that skip from group key to group key both visit exactly the keys of the groups
  with due work on an open queue; the first visits each once, in order.\<close>

lemma group_walks_complete:
  "group_walk c kinds open_qs s = sorted_list_of_set {k. \<exists>j \<in> set (grouped_due c kinds open_qs s). j_group_key j = Some k} \<and>
   set (group_walk_by_queue c kinds open_qs s) = {k. \<exists>j \<in> set (grouped_due c kinds open_qs s). j_group_key j = Some k} \<and>
   distinct (group_walk_by_queue c kinds open_qs s)"
proof -
  have "set (group_walk c kinds open_qs s) = {k. \<exists>j \<in> set (grouped_due c kinds open_qs s). j_group_key j = Some k}"
    by (auto simp: group_walk_set)
  moreover from this have "group_walk c kinds open_qs s = sorted_list_of_set {k. \<exists>j \<in> set (grouped_due c kinds open_qs s). j_group_key j = Some k}"
    by (simp add: group_walk_def walk_eq walk_set)
  ultimately show ?thesis by (auto simp: group_walk_by_queue_set) (simp add: group_walk_by_queue_def)
qed

end
