(* ===== verification/Enqueue_Correct.thy ===== *)
theory Enqueue_Correct
  imports Batches Samples
begin

text \<open>
  What \<open>enqueue.rs\<close> and \<open>batch.rs\<close> promise their callers: deduplication, the row that is inserted, bulk
  inserts, batches and their callbacks.
\<close>

definition sample_env :: env where
  "sample_env = \<lparr>e_now = 100, e_utc = 100, e_utc_later = 100, e_rule_scan = id\<rparr>"

definition sample_request :: dyn_enqueue where
  "sample_request = dyn_new ''mail'' JNull"

lemma valid_default: "valid_queue_name ''default''"
  by (simp add: valid_queue_name_def validate_queue_name_def max_queue_name_len_def queue_char_ok_def
      is_ascii_alphanumeric_def)

lemma sample_request_simps [simp]:
  "d_kind sample_request = ''mail''" "d_queue sample_request = ''default''" "d_unique_key sample_request = None"
  "d_batch_id sample_request = None" "d_group_key sample_request = None" "d_scheduled_at sample_request = None"
  by (simp_all add: sample_request_def dyn_new_def default_queue_def)

section \<open>Single jobs\<close>

text \<open>C32: enqueueing deduplicates. A request on a valid queue is skipped, without a row and without a notification,
  exactly when a live job of the same kind holds its unique key. Otherwise, if no error is raised, it inserts one pending
  row with the next id, leaves the rows before it alone, and notifies the workers exactly when the job is due at once.\<close>

theorem enqueue_inserts_or_skips:
  assumes "valid_queue_name (d_queue d)"
  shows "if has_conflict d (jobs s)
    then enqueue_dyn e d s = (s\<lparr>next_job_id := next_job_id s + 1\<rparr>, Inr Skipped)
    else case enqueue_dyn e d s of
        (s', Inl err) \<Rightarrow> True
      | (s', Inr r) \<Rightarrow> r = Inserted (next_job_id s) \<and>
          jobs s' = jobs s @ [new_job (e_now e) (unwrap_or (d_scheduled_at d) (e_utc e)) d (next_job_id s)] \<and>
          notified s' = notified s @
            (if unwrap_or (d_scheduled_at d) (e_utc e) \<le> e_utc_later e then [(notify_channel, [])] else [])"
proof (cases "has_conflict d (jobs s)")
  case True
  then show ?thesis using enqueue_dyn_skip [OF assms] by simp
next
  case False
  obtain s' r where eq: "enqueue_dyn e d s = (s', r)" by fastforce
  show ?thesis
  proof (cases r)
    case Inl
    then show ?thesis using False eq by simp
  next
    case Inr
    from enqueue_dyn_insert [OF assms False eq [unfolded Inr]] show ?thesis
      unfolding eq Inr using False by simp
  qed
qed

lemma sample_enqueue:
  "enqueue_dyn sample_env sample_request sample_db =
     (sample_db\<lparr>next_job_id := 7, jobs := jobs sample_db @ [new_job 100 100 sample_request 6],
        notified := [(notify_channel, [])]\<rparr>, Inr (Inserted 6))"
  using valid_default
  by (simp add: enqueue_dyn_def insert_dyn_def valid_queue_name_def insert_and_materialize_def insert_row_def
      has_conflict_def conflicts_def batch_fk_ok_def materialize_opt_def notify_if_due_def pg_notify_def
      unwrap_or_def sample_env_def Let_def)

theorem enqueue_inserts_or_skips_witness:
  "enqueue_dyn sample_env (sample_request\<lparr>d_unique_key := Some ''u''\<rparr>) sample_db = (sample_db\<lparr>next_job_id := 7\<rparr>, Inr Skipped) \<and>
   (\<exists>s'. enqueue_dyn sample_env sample_request sample_db = (s', Inr (Inserted 6)) \<and> length (jobs s') = 6)"
proof
  have "has_conflict (sample_request\<lparr>d_unique_key := Some ''u''\<rparr>) (jobs sample_db)"
    by (simp add: has_conflict_def conflicts_def sample_row_defs)
  with enqueue_inserts_or_skips [of "sample_request\<lparr>d_unique_key := Some ''u''\<rparr>" sample_db sample_env] valid_default
  show "enqueue_dyn sample_env (sample_request\<lparr>d_unique_key := Some ''u''\<rparr>) sample_db =
      (sample_db\<lparr>next_job_id := 7\<rparr>, Inr Skipped)" by simp
  show "\<exists>s'. enqueue_dyn sample_env sample_request sample_db = (s', Inr (Inserted 6)) \<and> length (jobs s') = 6"
    using enqueue_inserts_or_skips [of sample_request sample_db sample_env] sample_enqueue valid_default
    by (simp add: has_conflict_def conflicts_def)
qed

text \<open>The typed entry point and the dynamic one agree: \<open>enqueue\<close> of a job is \<open>enqueue_dyn\<close> of the request that
  \<open>Queue::enqueue\<close> builds for it, in result and in effect.\<close>

lemma enqueue_typed_is_dynamic:
  "enqueue e job opts s =
     (case build_dyn_enqueue job opts of Inl err \<Rightarrow> (s, Inl err) | Inr d \<Rightarrow> enqueue_dyn e d s)"
  by (rule enqueue_via_dyn)

text \<open>On a pooled connection an enqueue is not atomic: when a group rule cannot be applied, the caller gets
  the error and the job is in the table all the same, without its notification.\<close>

lemma pooled_enqueue_keeps_row_on_error:
  assumes "valid_queue_name (d_queue d)" "\<not> has_conflict d (jobs s)" "batch_fk_ok d s" "d_group_key d = Some k"
    and "\<And>s1. rules s1 = rules s \<Longrightarrow> groups s1 = groups s \<Longrightarrow>
           materialize_from_rule (e_rule_scan e) (e_now e) k s1 = Inl err"
  shows "enqueue_dyn e d s =
    (s\<lparr>next_job_id := next_job_id s + 1,
       jobs := jobs s @ [new_job (e_now e) (unwrap_or (d_scheduled_at d) (e_utc e)) d (next_job_id s)]\<rparr>, Inl err)"
  using assms
  by (simp add: enqueue_dyn_def insert_dyn_def valid_queue_name_def insert_and_materialize_def insert_row_fresh
      materialize_opt_def Let_def)

text \<open>A rule may hold a negative cap: \<open>set_rule\<close> takes any \<open>max_concurrency\<close> and the table has no check on it, but
  the group row made from it violates the check of \<open>eddyq_groups\<close>.\<close>

definition bad_rule :: stored_rule where
  "bad_rule = sample_rule\<lparr>r_pattern := ''a*'', r_max_concurrency := Some (- 1)\<rparr>"

lemma bad_rule_fails:
  assumes "rules s = [bad_rule]"
  shows "materialize_from_rule id now ''a'' s = Inl (Database ''eddyq_groups check constraint'')"
  using assms
  by (simp add: materialize_from_rule_def best_rule_def like_match_def like_of_glob_def bad_rule_def sample_rule_def
      group_check_def group_of_rule_def fresh_group_def rule_rank_def is_continuation_def)

text \<open>Every way to enqueue keeps the database invariant, whatever the outcome: the typed and the dynamic
  call, and both bulk calls (a request that carries a batch id comes only from \<open>enqueue_batch\<close>).\<close>

lemma enqueue_keeps_invariant:
  assumes "db_ok s" "d_batch_id d = None" "\<forall>d \<in> set ds. d_batch_id d = None"
  shows "db_ok (fst (enqueue e job opts s)) \<and> db_ok (fst (enqueue_dyn e d s)) \<and>
    db_ok (fst (enqueue_many e js s)) \<and> db_ok (fst (enqueue_many_dyn e ds s))"
  using typed_source.submit_db_ok [OF assms(1), where e = e and a = "(job, opts)"]
    dyn_source.submit_db_ok [OF assms(1), where e = e and a = d]
    many_source.submit_db_ok [OF assms(1), where e = e and a = js]
    many_dyn_source.submit_db_ok [OF assms(1), where e = e and a = ds] assms(2,3)
  by auto

text \<open>A bulk insert is all or nothing and accounts for every request: on an error the database is as it was;
  otherwise inserted and skipped requests add up to the requests, and as many rows are added as it reports.\<close>

lemma bulk_enqueue_accounts:
  assumes "keys_ok s"
  shows "case enqueue_many_dyn e reqs s of
      (s', Inl err) \<Rightarrow> s' = s
    | (s', Inr r) \<Rightarrow> inserted r + skipped r = length reqs \<and> length (jobs s') = length (jobs s) + inserted r"
proof (cases "enqueue_many_dyn_in_tx e reqs s")
  case (Inl err)
  then show ?thesis by (auto simp: enqueue_many_dyn_def enqueue_many_dyn_in_tx_def)
next
  case (Inr r)
  with enqueue_many_dyn_in_tx_step [OF _ assms, of e reqs "fst r" "snd r"] show ?thesis
    by (cases r) (auto simp: enqueue_many_dyn_def)
qed

section \<open>Batches\<close>

text \<open>Creating a batch keeps the invariant, on success and on failure, and its result accounts for every item.
  With the invariant this says that the batch counts exactly the rows inserted for it, and that a batch all of
  whose items were skipped is finished, its callback claimed, at once.\<close>

lemma enqueue_batch_keeps_invariant:
  assumes "db_ok s" "\<forall>spec. bo_on_complete opts = Some spec \<longrightarrow> d_batch_id spec = None"
  shows "db_ok (fst (enqueue_batch e items opts s)) \<and>
    (case snd (enqueue_batch e items opts s) of
       Inl err \<Rightarrow> fst (enqueue_batch e items opts s) = s
     | Inr r \<Rightarrow> br_batch_id r = next_batch_id s \<and> br_inserted r + br_skipped r = length items)"
proof (cases "enqueue_batch_in_tx e items opts s")
  case (Inl err)
  with assms(1) show ?thesis by (simp add: enqueue_batch_def)
next
  case (Inr r)
  with enqueue_batch_in_tx_ok [OF _ assms(1), of e items opts "fst r" "snd r"] assms(2) show ?thesis
    by (cases r) (simp add: enqueue_batch_def)
qed



end
