(* ===== verification/Sample_Run.thy ===== *)
theory Sample_Run
  imports System Claim_Correct Enqueue_Correct
begin

text \<open>
  A short history of the database, reachable by construction, for the concrete instances of the properties of runs.
\<close>

text \<open>A job is enqueued and cancelled; a batch without jobs finishes at once.\<close>

definition run1 :: db where "run1 = fst (enqueue_dyn sample_env sample_request empty_db)"

definition run2 :: db where "run2 = fst (cancel sample_env 1 run1)"

definition run3 :: db where
  "run3 = fst (enqueue_batch sample_env [] \<lparr>bo_on_complete = None, bo_metadata = JNull\<rparr> run2)"

lemma run_steps: "sys_step empty_db run1" "sys_step run1 run2" "sys_step run2 run3"
  unfolding run1_def run2_def run3_def by (auto intro: sys_step.dynamic sys_step.cancelled sys_step.batch)

lemma run_reachable: "reachable run1" "reachable run2" "reachable run3"
proof -
  show "reachable run1" using run_steps(1) by (simp add: reachable_def)
  then show "reachable run2" using run_steps(2) unfolding reachable_def by (rule rtranclp.rtrancl_into_rtrancl)
  then show "reachable run3" using run_steps(3) unfolding reachable_def by (rule rtranclp.rtrancl_into_rtrancl)
qed

lemma run1_eq:
  "run1 = empty_db\<lparr>next_job_id := 2, jobs := [new_job 100 100 sample_request 1], notified := [(notify_channel, [])]\<rparr>"
  using valid_default
  by (simp add: run1_def enqueue_dyn_def insert_dyn_def valid_queue_name_def insert_and_materialize_def insert_row_def
      has_conflict_def batch_fk_ok_def materialize_opt_def notify_if_due_def pg_notify_def unwrap_or_def
      sample_env_def empty_db_def Let_def)

lemma run2_eq: "run2 = run1\<lparr>jobs := [cancel_job 100 (new_job 100 100 sample_request 1)]\<rparr>"
  unfolding run2_def run1_eq
  by (simp add: cancel_def cancel_in_tx_def run_tx_def returning_def update_where_def pending_id_def settle_opt_def
      new_job_def cancel_job_def sample_env_def Let_def)

lemma run3_eq:
  "run3 = run2\<lparr>next_batch_id := 2, batches :=
     [finish_batch 100 (new_batch 100 \<lparr>bo_on_complete = None, bo_metadata = JNull\<rparr> 1)]\<rparr>"
  unfolding run3_def run2_eq run1_eq
  by (simp add: enqueue_batch_def enqueue_batch_in_tx_def insert_items_def finish_empty_def run_tx_def update_where_def
      new_batch_def finish_batch_def sample_env_def empty_db_def Let_def)

text \<open>The enqueued job is claimed.\<close>

definition claimed_run :: db where
  "claimed_run = fst (claim_batch (sample_claim\<lparr>c_seen_queues := []\<rparr>) 7 1 [''mail''] [''default''] run1)"

definition mail_job :: job where
  "mail_job = new_job 100 100 sample_request 1"

lemma run1_claim:
  "claim_batch (sample_claim\<lparr>c_seen_queues := []\<rparr>) 7 1 [''mail''] [''default''] run1 =
     (run1\<lparr>jobs := [start_job 100 7 mail_job]\<rparr>, [claimed_of 7 (\<lambda>_. None) (start_job 100 7 mail_job)])"
  unfolding run1_eq
  by (simp add: claim_defs sample_claim_def mail_job_def new_job_def returning_def claimed_of_def start_job_def empty_db_def
      bump_queue_def Let_def)

end
