(* ===== verification/Settle_Correct.thy ===== *)
theory Settle_Correct
  imports Settle Claim Enqueue_Correct
begin

text \<open>
  What the settling half of \<open>fetch.rs\<close> promises: reports of a worker that lost its job are ignored, every
  operation keeps the invariant, stale jobs are recovered and fail after a bounded number of stalls, and the
  counters heal.
\<close>

section \<open>Reports of workers\<close>

text \<open>C33: a report from a worker that no longer holds the job changes nothing: if the job was recovered,
  finished or claimed by another worker meanwhile, completing or failing it is a no-op that succeeds.\<close>

theorem late_report_is_ignored:
  assumes "\<forall>j \<in> set (jobs s). j_id j = i \<longrightarrow> j_state j \<noteq> Running \<or> j_worker_id j \<noteq> Some worker"
  shows "mark_completed e i worker result s = (s, Inr ()) \<and> mark_failed e i worker entry retry_at s = (s, Inr ())"
proof -
  have "\<not> owned i worker j" if "j \<in> set (jobs s)" for j using assms that by (auto simp: owned_def)
  then show ?thesis using mark_completed_idle mark_failed_idle by blast
qed

theorem late_report_is_ignored_witness: "mark_completed sample_env 1 8 None sample_db = (sample_db, Inr ())"
proof -
  have "\<forall>j \<in> set (jobs sample_db). j_id j = 1 \<longrightarrow> j_state j \<noteq> Running \<or> j_worker_id j \<noteq> Some 8"
    by (simp add: sample_row_defs)
  with late_report_is_ignored show ?thesis by blast
qed

text \<open>Every operation that settles jobs keeps the database invariant, whether it succeeds or fails: the
  counters of the queue and the group drop with the job, and the batch counts it.\<close>

lemma settling_keeps_invariant:
  assumes "db_ok s"
  shows "db_ok (fst (mark_completed e i worker result s)) \<and> db_ok (fst (mark_failed e i worker entry retry_at s)) \<and>
    db_ok (fst (cancel e i s)) \<and> db_ok (fst (sweep_stale e clock stale_after s)) \<and>
    db_ok (fst (reclaim_in_flight e clock ids s)) \<and> db_ok (fst (update_heartbeat_batch now ids s))"
  by (intro conjI settle_db_ok assms)

section \<open>Recovery\<close>

text \<open>C34: a sweep that succeeds recovers every stale job and no other: it reports how many rows it changed, those
  are exactly the running rows whose heartbeat is missing or too old, the only rows it adds are pending callback
  jobs, and afterwards no running job is stale.\<close>

theorem sweep_recovers_exactly_stale:
  assumes "db_ok s" "sweep_stale e clock stale_after s = (s', Inr n)"
  shows "n = count_if (\<lambda>j. running j \<and> stale (e_now e) stale_after j) (jobs s) \<and>
    (\<exists>new entry. jobs s' = update_where (\<lambda>j. running j \<and> stale (e_now e) stale_after j) (recover_job (e_now e) entry) (jobs s) @ new \<and>
       (\<forall>j \<in> set new. j_state j = Pending)) \<and>
    (\<forall>j \<in> set (jobs s'). running j \<longrightarrow> \<not> stale (e_now e) stale_after j)"
proof -
  let ?entry = "recovery_entry clock (''worker lost contact '' @ em_dash @ '' job recovered'')"
  have "recover_in_tx e ?entry (stale (e_now e) stale_after) s = Inr (s', n)"
    using assms(2) unfolding sweep_stale_def run_tx_def by (auto split: sum.splits prod.splits)
  from recover_in_tx_effect [OF this assms(1)] recover_clears [OF this assms(1)] show ?thesis by blast
qed

lemma sample_sweep: "\<exists>s'. sweep_stale sample_env JNull 0 sample_db = (s', Inr 1)"
  by (simp add: sweep_stale_def recover_in_tx_def run_tx_def stale_def running_def sample_env_def
      secs_def sat_i64_def as_secs_def returning_def batch_failures_def recover_job_def stall_exhausted_def batch_check_def
      list_all_iff sample_row_defs Let_def)

theorem sweep_recovers_exactly_stale_witness:
  "\<exists>s'. sweep_stale sample_env JNull 0 sample_db = (s', Inr 1) \<and> (\<forall>j \<in> set (jobs s'). running j \<longrightarrow> \<not> stale 100 0 j)"
proof -
  obtain s' where s': "sweep_stale sample_env JNull 0 sample_db = (s', Inr 1)" using sample_sweep by blast
  have "e_now sample_env = 100" by (simp add: sample_env_def)
  with sweep_recovers_exactly_stale [OF sample_ok s'] s' show ?thesis by auto
qed

text \<open>A job that is claimed and stalls.\<close>

definition stall_cycle :: "timestamp \<Rightarrow> uuid \<Rightarrow> json \<Rightarrow> job \<Rightarrow> job" where
  "stall_cycle now worker entry j = recover_job now entry (start_job now worker j)"

lemma stall_cycle_simps:
  "j_stalled_count (stall_cycle now w entry j) = j_stalled_count j + 1"
  "j_max_stalled_count (stall_cycle now w entry j) = j_max_stalled_count j"
  "j_state (stall_cycle now w entry j) = (if j_max_stalled_count j < j_stalled_count j + 1 then Failed else Pending)"
  "j_stalled_count j + 1 \<le> j_max_stalled_count j \<Longrightarrow> 0 \<le> j_attempt j \<Longrightarrow> j_attempt (stall_cycle now w entry j) = j_attempt j"
  by (simp_all add: stall_cycle_def recover_job_def start_job_def stall_exhausted_def)

lemma stall_cycles:
  assumes "0 \<le> j_attempt j" "int n \<le> j_max_stalled_count j - j_stalled_count j"
  shows "j_stalled_count ((stall_cycle now w entry ^^ n) j) = j_stalled_count j + int n \<and>
    j_max_stalled_count ((stall_cycle now w entry ^^ n) j) = j_max_stalled_count j \<and>
    j_attempt ((stall_cycle now w entry ^^ n) j) = j_attempt j \<and>
    (0 < n \<longrightarrow> j_state ((stall_cycle now w entry ^^ n) j) = Pending)"
  using assms
proof (induction n)
  case (Suc n)
  then show ?case by (simp add: stall_cycle_simps)
qed simp

text \<open>C35: a job that crashes its workers is given up after a bounded number of stalls. Starting from a pending job,
  it is returned to pending with its attempt refunded for as long as its stalls stay within \<open>max_stalled_count\<close>, and
  the next stall fails it for good.\<close>

theorem stalls_are_bounded:
  assumes "0 \<le> j_attempt j" "j_stalled_count j = 0" "j_max_stalled_count j = int m" "n \<le> m"
  shows "j_attempt ((stall_cycle now w entry ^^ n) j) = j_attempt j \<and>
    (0 < n \<longrightarrow> j_state ((stall_cycle now w entry ^^ n) j) = Pending) \<and>
    j_state ((stall_cycle now w entry ^^ Suc m) j) = Failed"
  using stall_cycles [of j n now w entry] stall_cycles [of j m now w entry] assms
  by (auto simp: stall_cycle_simps)

theorem stalls_are_bounded_witness: "j_state ((stall_cycle 5 7 JNull ^^ 2) unique_job) = Failed"
  using stalls_are_bounded [of unique_job 1 1 5 7 JNull] by (simp add: sample_row_defs numeral_2_eq_2)

text \<open>The error log of a job stays bounded: after any failure, retry or recovery it holds at most ten entries, the
  last of them the new one, and the entries before it are the newest of those it held.\<close>

lemma error_log_bounded:
  "let log' = append_error (j_errors j) entry in
     length log' \<le> 10 \<and> last log' = entry \<and> (\<exists>k. log' = drop k (j_errors j) @ [entry]) \<and>
     j_errors (fail_job now entry j) = log' \<and> j_errors (retry_job now entry j) = log' \<and>
     j_errors (recover_job now entry j) = log'"
proof -
  have "\<exists>k. append_error (j_errors j) entry = drop k (j_errors j) @ [entry]"
    by (auto simp: append_error_def Let_def)
  then show ?thesis
    using length_append_error [of "j_errors j" entry] last_append_error [of "j_errors j" entry]
    by (simp add: Let_def max_error_entries_def fail_job_def retry_job_def recover_job_def)
qed

section \<open>A callback that cannot be enqueued\<close>

lemma invalid_callback:
  assumes "\<not> valid_queue_name (d_queue spec)"
  shows "\<exists>m. enqueue_dyn_in_tx e (build_callback_dyn spec bid su) s = Inl (InvalidArgument m)"
proof -
  have "\<not> valid_queue_name (d_queue (build_callback_dyn spec bid su))" using assms by (simp add: build_callback_dyn_def)
  from enqueue_dyn_invalid [OF this, of e s] show ?thesis by (auto simp: enqueue_dyn_in_tx_def in_tx_def)
qed

lemma settle_last_invalid:
  assumes dist: "distinct (map b_id (batches s))" and b: "b \<in> set (batches s)" "b_id b = bid" "b_on_complete b = Some spec"
    and cl: "claimable_batch bid (bump oc b)" and check: "batch_check (bump oc b)" and bad: "\<not> valid_queue_name (d_queue spec)"
  shows "\<exists>m. settle_terminal e bid oc s = Inl (InvalidArgument m)"
proof -
  have look: "lookup_by b_id bid (batches s) = Some b" using dist b by (simp add: lookup_by_Some_iff)
  let ?s = "s\<lparr>batches := update_where (\<lambda>b. b_id b = bid) (bump oc) (batches s)\<rparr>"
  have "returning (claimable_batch bid) (finish_batch (e_now e)) (batches ?s) = [finish_batch (e_now e) (bump oc b)]"
  proof (rule returning_unique [where key = b_id])
    show "distinct (map b_id (batches ?s))" using dist by (simp add: batches_update_ids)
    show "bump oc b \<in> set (batches ?s)" using b by (auto simp: set_update_where)
  qed (use cl b in \<open>simp_all add: claimable_batch_def\<close>)
  moreover have "b_on_complete (finish_batch (e_now e) (bump oc b)) = Some spec" using b by (simp add: finish_batch_def)
  ultimately have "try_claim_and_fire e bid ?s = map_sum id (\<lambda>r. (fst r, ()))
      (enqueue_dyn_in_tx e (build_callback_dyn spec bid (summary_of (e_now e) (finish_batch (e_now e) (bump oc b))))
        (?s\<lparr>batches := update_where (claimable_batch bid) (finish_batch (e_now e)) (batches ?s)\<rparr>))"
    by (simp add: try_claim_and_fire_def Let_def split: sum.splits prod.splits)
  moreover have "settle_terminal e bid oc s = try_claim_and_fire e bid ?s"
    using check cl by (simp add: settle_terminal_found [OF look])
  moreover obtain m where "enqueue_dyn_in_tx e (build_callback_dyn spec bid (summary_of (e_now e) (finish_batch (e_now e) (bump oc b))))
        (?s\<lparr>batches := update_where (claimable_batch bid) (finish_batch (e_now e)) (batches ?s)\<rparr>) = Inl (InvalidArgument m)"
    using invalid_callback [OF bad] by blast
  ultimately show ?thesis by (metis map_sum.simps(1) id_apply)
qed

text \<open>A batch whose callback names an invalid queue can never finish: \<open>enqueue_batch\<close> accepts such a callback, and
  then the report of the last job fails and is rolled back, so that the job stays running.\<close>

lemma invalid_callback_blocks_completion:
  assumes "db_ok s" "j \<in> set (jobs s)" "owned i worker j" "j_batch_id j = Some bid" "outstanding bid (jobs s) = 1"
    and "b \<in> set (batches s)" "b_id b = bid" "b_on_complete b = Some spec" "\<not> valid_queue_name (d_queue spec)"
  shows "\<exists>err. mark_completed e i worker result s = (s, Inl (InvalidArgument err))"
proof -
  let ?s1 = "release (e_now e) (complete_job (e_now e) result j)
    (s\<lparr>jobs := update_where (owned i worker) (complete_job (e_now e) result) (jobs s)\<rparr>)"
  have keys: "keys_ok s" and bok: "batches_ok s" using db_okD [OF assms(1)] by blast+
  have bs: "batches ?s1 = batches s" by (simp add: release_def)
  have ret: "returning (owned i worker) (complete_job (e_now e) result) (jobs s) = [complete_job (e_now e) result j]"
    by (rule returning_one [where p = "owned i worker" and i = i, OF keys assms(2,3)]) (simp add: owned_def)
  have settled: "batch_settled b + 1 = b_total b" "b_callback_enqueued_at b = None"
      "0 \<le> b_completed b" "0 \<le> b_failed b" "0 \<le> b_cancelled b"
    using batches_ok_D [OF bok assms(6)] assms(5,6,7) bok by (auto simp: batches_ok_def)
  then have check: "batch_check (bump OutCompleted b)" and cl: "claimable_batch bid (bump OutCompleted b)"
    using assms(7) by (simp_all add: batch_check_def batch_settled_def claimable_batch_def)
  have "distinct (map b_id (batches ?s1))" "b \<in> set (batches ?s1)" using keys assms(6) by (simp_all add: bs keys_ok_def)
  from settle_last_invalid [OF this assms(7,8) cl check assms(9)] obtain m
    where "settle_terminal e bid OutCompleted ?s1 = Inl (InvalidArgument m)" by blast
  then have "mark_completed_in_tx e i worker result s = Inl (InvalidArgument m)"
    unfolding mark_completed_in_tx_def ret Let_def settle_opt_def using assms(4) by (simp add: complete_job_def)
  then show ?thesis by (simp add: mark_completed_def)
qed

definition bad_batch_db :: db where
  "bad_batch_db = sample_db\<lparr>batches := [sample_batch\<lparr>b_on_complete := Some (sample_callback\<lparr>d_queue := ''bad name''\<rparr>)\<rparr>]\<rparr>"

lemma bad_batch_ok: "db_ok bad_batch_db"
  using sample_ok
  by (simp add: bad_batch_db_def db_ok_def keys_ok_def counters_ok_def checks_ok_def batches_ok_def batch_check_def batch_settled_def sample_row_defs)

section \<open>Counters\<close>

text \<open>Reconciliation repairs drift and nothing else. Afterwards no counter is above the number of jobs running
  under it; on a database whose counters are right it changes nothing and reports no repair.\<close>

lemma reconcile_repairs_drift:
  "(\<forall>g \<in> set (groups (fst (reconcile_counters now s))). g_running_count g \<le> int (running_in_group (g_key g) (jobs s))) \<and>
   (\<forall>q \<in> set (queues (fst (reconcile_counters now s))). q_running_count q \<le> int (running_in_queue (q_name q) (jobs s))) \<and>
   (if counters_ok s then reconcile_counters now s = (s, (0, 0)) else True)"
  using reconcile_upper [of _ now s] reconcile_idle [of s now] by auto

end
