(* ===== verification/Process_Correct.thy ===== *)
theory Process_Correct
  imports Eddy_Queue Sample_Run Settle_Correct
begin

text \<open>
  What a process promises on Postgres. \<open>pg_backend\<close> meets the laws of \<open>runtime_backend\<close> and \<open>runtime_store\<close>, so the lemmas
  of \<open>Process\<close> hold for it and every run of any process is a run of the system of theory \<open>System\<close>.
\<close>

section \<open>The Postgres backend meets the laws\<close>

definition pg_ctx_ok :: "pg_ctx \<Rightarrow> bool" where
  "pg_ctx_ok p \<longleftrightarrow> scan_ok (pc_job_scan p) \<and> scan_ok (pc_batch_scan p) \<and> due_scan_ok (pc_due_scan p)"

lemmas pg_defs = pg_backend_def over_pool_def fine_def done_by_def pg_claim_batch_def pg_update_heartbeat_batch_def
  pg_mark_completed_def pg_mark_failed_def pg_sweep_stale_def pg_reconcile_counters_def pg_cleanup_def
  pg_leader_try_elect_def pg_leader_resign_def pg_schedule_tick_def pg_reclaim_in_flight_def

lemma pg_claim_bounded:
  assumes "be_claim_batch (pg_backend p) w n ks qs s = (s', Inr rows)" "db_ok s"
  shows "length rows \<le> n"
proof -
  have "rows = snd (claim_batch (pc_claim p) w n ks qs s)"
    using assms by (auto simp: pg_defs split: option.splits prod.splits)
  then show ?thesis using claim_batch_length db_okD(1) [OF assms(2)] by simp
qed

interpretation pg: runtime_store pg_backend pg_ctx_ok sys_step db_ok
proof unfold_locales
  show "length rows \<le> n" if "db_ok s" "be_claim_batch (pg_backend p) w n ks qs s = (s', Inr rows)" for p w n ks qs s s' rows
    using that(2,1) by (rule pg_claim_bounded)
qed (auto simp: pg_defs stays_in_def pg_ctx_ok_def split_beta split: option.splits
    intro: sys_step.intros admin_step.intros sys_step_db_ok)


section \<open>A process\<close>

definition sample_handler :: handler where
  "sample_handler payload ctx seed = (if seed = 0 then Returned JNull else Raised (Plain ''no''))"

definition sample_process :: process where
  "sample_process =
     \<lparr>pr_config = default_config\<lparr>worker_concurrency := 1\<rparr>, pr_registry = register_dyn ''mail'' sample_handler registry_new,
      pr_queues = [''default''], pr_fetcher_id = 7, pr_maintenance_id = 8, pr_worker_ids = of_nat\<rparr>"

definition sample_pg :: pg_ctx where
  "sample_pg =
     \<lparr>pc_down = None, pc_env = sample_env, pc_claim = sample_claim\<lparr>c_seen_queues := []\<rparr>, pc_entry_clock = JNull,
      pc_cron = (\<lambda>_. Inl []), pc_job_scan = rev, pc_batch_scan = rev, pc_due_scan = id, pc_got_lock = True,
      pc_tick_clocks = (\<lambda>_. 100), pc_stats_clock1 = 100, pc_stats_clock2 = 100, pc_stats_won = True,
      pc_stats_live = id, pc_stats_before = id, pc_list_before = id\<rparr>"

lemma sample_pg_ok: "pg_ctx_ok sample_pg"
  by (simp add: pg_ctx_ok_def sample_pg_def scan_ok_def due_scan_ok_def)

lemma zero_rng: "rng_ok (\<lambda>_. 0)"
  by (simp add: rng_ok_def)

abbreviation pg_step :: "process \<Rightarrow> db \<times> runtime \<Rightarrow> db \<times> runtime \<Rightarrow> bool" where
  "pg_step \<equiv> rt_step pg_backend pg_ctx_ok sys_step"

text \<open>The first steps of the sample process: it finds a free worker, claims the job, hands it over, and a worker takes it.\<close>

abbreviation mail_claim :: claimed_job where
  "mail_claim \<equiv> claimed_of 7 (\<lambda>_. None) (start_job 100 7 mail_job)"

definition rt_claiming :: runtime where
  "rt_claiming = (rt_start sample_process)\<lparr>rt_fetcher := Claiming 1\<rparr>"

definition rt_handing :: runtime where
  "rt_handing = rt_claiming\<lparr>rt_fetcher := Handing [mail_claim] 1 1\<rparr>"

lemma sample_config [simp]:
  "pr_config sample_process = default_config\<lparr>worker_concurrency := 1\<rparr>" "pr_queues sample_process = [''default'']"
  "pr_fetcher_id sample_process = 7" "registered_kinds (pr_registry sample_process) = [''mail'']"
  by (simp_all add: sample_process_def register_dyn_def insert_handler_def registry_new_def registered_kinds_def)

lemma sample_fetches:
  "fetch_step sample_process (\<lambda>_. 0) (pg_backend sample_pg) (run1, rt_start sample_process) = Some (run1, rt_claiming)"
  "fetch_step sample_process (\<lambda>_. 0) (pg_backend sample_pg) (run1, rt_claiming) = Some (claimed_run, rt_handing)"
proof -
  show "fetch_step sample_process (\<lambda>_. 0) (pg_backend sample_pg) (run1, rt_start sample_process) = Some (run1, rt_claiming)"
    by (simp add: fetch_step_def rt_start_def rt_claiming_def default_config_def)
  have "be_claim_batch (pg_backend sample_pg) 7 1 [''mail''] [''default''] run1 = (claimed_run, Inr [mail_claim])"
    using run1_claim by (simp add: pg_defs sample_pg_def claimed_run_def)
  then show "fetch_step sample_process (\<lambda>_. 0) (pg_backend sample_pg) (run1, rt_claiming) = Some (claimed_run, rt_handing)"
    by (simp add: fetch_step_def rt_claiming_def rt_handing_def)
qed

lemma sample_fetch_step:
  "fetch_step pr (\<lambda>_. 0) (pg_backend sample_pg) st = Some st' \<Longrightarrow> pg_step pr st st'"
  using rt_step.fetch [where Bs = pg_backend and ok = pg_ctx_ok and p = sample_pg] sample_pg_ok zero_rng by blast

lemma sample_calm:
  "calm (run1, rt_start sample_process) (run1, rt_claiming)" "calm (run1, rt_claiming) (claimed_run, rt_handing)"
  by (simp_all add: calm_def rt_start_def rt_claiming_def rt_handing_def held_ids_def held_def)

lemma sample_calm_run:
  "(\<lambda>st st'. pg_step sample_process st st' \<and> calm st st')\<^sup>*\<^sup>* (run1, rt_start sample_process) (claimed_run, rt_handing)"
proof -
  let ?R = "\<lambda>st st'. pg_step sample_process st st' \<and> calm st st'"
  have "?R (run1, rt_start sample_process) (run1, rt_claiming)" "?R (run1, rt_claiming) (claimed_run, rt_handing)"
    using sample_fetches sample_fetch_step sample_calm by blast+
  then have "?R\<^sup>*\<^sup>* (run1, rt_start sample_process) (run1, rt_claiming)" "?R\<^sup>*\<^sup>* (run1, rt_claiming) (claimed_run, rt_handing)"
    by (auto intro: r_into_rtranclp [where r = ?R])
  then show ?thesis by (rule rtranclp_trans)
qed

lemma sample_run: "(pg_step sample_process)\<^sup>*\<^sup>* (run1, rt_start sample_process) (claimed_run, rt_handing)"
  by (rule rtranclp_mono [THEN predicate2D, OF _ sample_calm_run]) blast

section \<open>Properties\<close>



text \<open>C11: the slots of a process are accounted for. In every state of a run, free slots, jobs on their way to a worker and
  busy workers add up to \<open>worker_concurrency\<close> as long as the fetcher runs, and never exceed it. So a claim never asks for
  more jobs than there are free slots, a claimed job always finds its slot (the \<open>expect\<close> of the fetcher cannot fail) and
  room in the channel, and while no worker task has ended every free slot belongs to a waiting worker.\<close>

theorem slots_are_accounted:
  assumes "reachable s0" "(rt_step pg_backend pg_ctx_ok sys_step pr)\<^sup>*\<^sup>* (s0, rt_start pr) (s, r)"
  shows "rt_idle r + slots_taken r \<le> worker_concurrency (pr_config pr) \<and>
    (\<not> fetcher_stopped (rt_fetcher r) \<longrightarrow> rt_idle r + slots_taken r = worker_concurrency (pr_config pr)) \<and>
    (\<forall>n. rt_fetcher r = Claiming n \<longrightarrow> n \<le> rt_idle r) \<and>
    (\<forall>job rest got n. rt_fetcher r = Handing (job # rest) got n \<longrightarrow> 0 < rt_idle r) \<and>
    (\<forall>job rest got n. rt_fetcher r = Sending job rest got n \<longrightarrow> length (rt_chan r) < chan_capacity pr) \<and>
    (list_all (\<lambda>w. \<not> stopped w) (rt_workers r) \<and> \<not> fetcher_stopped (rt_fetcher r) \<longrightarrow>
       count_if (\<lambda>w. w = Receiving) (rt_workers r) = rt_idle r + in_hand (rt_fetcher r) + length (rt_chan r))"
proof -
  have ok: "db_ok s0" using assms(1) by (rule reachable_db_ok)
  have slots: "slots_ok pr r" using pg.run_slots [OF assms(2) ok] by simp
  have "count_if (\<lambda>w. w = Receiving) ws + count_if busy ws = length ws" if "list_all (\<lambda>w. \<not> stopped w) ws" for ws
    using that
  proof (induction ws)
    case (Cons w ws)
    then show ?case by (cases w) simp_all
  qed simp
  from this [of "rt_workers r"] slots pg.run_handover [OF assms(2) ok] show ?thesis
    by (auto simp: slots_ok_def slots_taken_def)
qed

theorem slots_are_accounted_witness: "rt_idle rt_handing + slots_taken rt_handing = 1"
  using slots_are_accounted [OF run_reachable(1) sample_run]
  by (simp add: rt_handing_def rt_claiming_def rt_start_def default_config_def)



lemma claimed_run_jobs: "jobs claimed_run = [start_job 100 7 mail_job]"
  unfolding claimed_run_def run1_claim by simp


lemma drain_keeps_shutdown:
  assumes "drain_step Bs ok pr (s, r) (s', r')" "rt_shutdown r"
  shows "rt_shutdown r'"
  using assms
  by (cases rule: drain_step.cases)
    (auto simp: fetch_step_def take_slot_def after_claim_def send_job_def worker_step_def take_job_def finish_job_def
      set_worker_def unregister_def idle_again_def Let_def
      split: fetcher.splits list.splits if_splits option.splits sum.splits prod.splits worker.splits)

lemma drain_is_step: "drain_step Bs ok pr st st' \<Longrightarrow> rt_step Bs ok env pr st st'"
  by (erule drain_step.cases) (auto intro: rt_step.fetch rt_step.work)

lemma drain_to_end:
  assumes "reachable s0" "(pg_step pr)\<^sup>*\<^sup>* (s0, rt_start pr) (s, r)" "rt_shutdown r"
  shows "\<exists>s' r'. (drain_step pg_backend pg_ctx_ok pr)\<^sup>*\<^sup>* (s, r) (s', r') \<and> all_stopped r'"
  using assms(2,3)
proof (induction "work_left r" arbitrary: s r rule: less_induct)
  case less
  show ?case
  proof (cases "all_stopped r")
    case False
    have ok: "slots_ok pr r \<and> db_ok s" using pg.run_slots [OF less.prems(1) reachable_db_ok [OF assms(1)]] by simp
    then obtain s1 r1 where step: "drain_step pg_backend pg_ctx_ok pr (s, r) (s1, r1)"
      using pg.drain_progress [OF _ less.prems(2) False sample_pg_ok] by (metis surj_pair)
    then have "(pg_step pr)\<^sup>*\<^sup>* (s0, rt_start pr) (s1, r1)"
      using less.prems(1) drain_is_step by (meson rtranclp.rtrancl_into_rtrancl)
    moreover have "work_left r1 < work_left r" using pg.drain_step_work [OF less.prems(2) step] ok by blast
    ultimately show ?thesis
      using less.hyps [of r1 s1] drain_keeps_shutdown [OF step less.prems(2)] step
      by (meson converse_rtranclp_into_rtranclp)
  qed blast
qed

text \<open>C13: draining ends. Once the token has fired, every further step of the fetcher or of a worker reduces the work that is
  left, one of them can always take a step while not all have ended, and so the process can always reach the state in
  which all have.\<close>

theorem drain_ends:
  assumes "reachable s0" "(rt_step pg_backend pg_ctx_ok sys_step pr)\<^sup>*\<^sup>* (s0, rt_start pr) (s, r)" "rt_shutdown r"
  shows "(\<forall>s' r'. drain_step pg_backend pg_ctx_ok pr (s, r) (s', r') \<longrightarrow> work_left r' < work_left r) \<and>
    (\<not> all_stopped r \<longrightarrow> (\<exists>st'. drain_step pg_backend pg_ctx_ok pr (s, r) st')) \<and>
    (\<exists>s' r'. (drain_step pg_backend pg_ctx_ok pr)\<^sup>*\<^sup>* (s, r) (s', r') \<and> all_stopped r')"
proof -
  have "slots_ok pr r \<and> db_ok s" using pg.run_slots [OF assms(2) reachable_db_ok [OF assms(1)]] by simp
  then show ?thesis
    using pg.drain_step_work [OF assms(3)] pg.drain_progress [OF _ assms(3) _ sample_pg_ok] drain_to_end [OF assms] by blast
qed

lemma sample_shutdown:
  "(pg_step sample_process)\<^sup>*\<^sup>* (run1, rt_start sample_process) (claimed_run, rt_handing\<lparr>rt_shutdown := True\<rparr>)"
  using sample_run rt_step.shutdown by (rule rtranclp.rtrancl_into_rtrancl)

theorem drain_ends_witness:
  "\<exists>s' r'. (drain_step pg_backend pg_ctx_ok sample_process)\<^sup>*\<^sup>* (claimed_run, rt_handing\<lparr>rt_shutdown := True\<rparr>) (s', r') \<and> all_stopped r'"
  using drain_ends [OF run_reachable(1) sample_shutdown] by simp


text \<open>The pace of an idle fetcher. It never panics over its sleep and never sleeps longer than a tenth (at least ten
  milliseconds) more than its longest backoff, which is the poll interval itself or eight times it, but not more than
  thirty seconds.\<close>

lemma idle_fetcher_keeps_pace:
  assumes "reachable s0" "(rt_step pg_backend pg_ctx_ok sys_step pr)\<^sup>*\<^sup>* (s0, rt_start pr) (s, r)"
    and "fetch_poll_interval (pr_config pr) \<le> u64_max * 10 ^ 8"
  shows "rt_fetcher r \<noteq> Fetcher_panicked \<and>
    (\<forall>d. rt_fetcher r = Sleeping d \<longrightarrow> d \<le> max (fetch_cooldown (pr_config pr)) (pace pr + max (pace pr div 10) 10000000)) \<and>
    pace pr = max (fetch_poll_interval (pr_config pr)) (min (8 * fetch_poll_interval (pr_config pr)) (30 * 10 ^ 9))"
proof -
  let ?p = "fetch_poll_interval (pr_config pr)"
  have "8 * ?p \<le> duration_max" using assms(3) by (simp add: duration_max_def)
  then have pace: "pace pr = max ?p (min (8 * ?p) (30 * 10 ^ 9))"
    by (simp add: pace_def idle_ceiling_def saturating_mul_def idle_backoff_max_factor_def idle_backoff_absolute_max_def
        from_secs_def mult.commute)
  then have "pace pr \<le> u64_max * 10 ^ 8" using assms(3) by simp
  then have "pace pr + max (pace pr div 10) 10000000 \<le> duration_max" by (simp add: duration_max_def)
  from pg.run_pace [OF assms(2) reachable_db_ok [OF assms(1)] this] pace show ?thesis
    by (simp add: pace_ok_def longest_sleep_def)
qed





text \<open>An escalated drain gives jobs back by id. Every job of the snapshot that was taken when the shutdown began and that
  is running when the grace period ends is recovered, whichever worker runs it by then: also one that was retried in
  between and is being run by another process.\<close>

lemma escalation_recovers_snapshot:
  assumes "eq_state q = Q_running r" "await (s, r\<lparr>rt_shutdown := True\<rparr>) = ((s1, r1), False)" "db_ok s1" "pc_down p = None"
    and "shutdown_drain_bounded (pg_backend p) await q s = (s2, q', Inr (Escalated n))" "0 < n"
    and "j \<in> set (jobs s1)" "running j" "j_id j \<in> set (rt_in_flight r)"
  shows "(\<exists>entry. recover_job (e_now (pc_env p)) entry j \<in> set (jobs s2)) \<and>
    (\<forall>j' \<in> set (jobs s2). j_id j' \<in> set (rt_in_flight r) \<longrightarrow> \<not> running j')"
proof -
  let ?e = "pc_env p" and ?ids = "rt_in_flight r"
  let ?entry = "recovery_entry (pc_entry_clock p) (''worker shutting down '' @ em_dash @ '' job recovered'')"
  let ?tx = "recover_in_tx ?e ?entry (\<lambda>j. j_id j \<in> set ?ids)"
  have "?ids \<noteq> []" using assms(9) by auto
  then have "reclaimed (run_tx ?tx s1) = (s2, n)"
    using assms(1,2,4,5) by (auto simp: shutdown_drain_bounded_def take_running_def pg_defs reclaim_in_flight_def Let_def split: prod.splits)
  then have tx: "?tx s1 = Inr (s2, n)"
    using assms(6) by (auto simp: run_tx_def reclaimed_def split: sum.splits prod.splits)
  then obtain new where "jobs s2 = update_where (\<lambda>j. running j \<and> j_id j \<in> set ?ids) (recover_job (e_now ?e) ?entry) (jobs s1) @ new"
    using recover_in_tx_effect [OF tx assms(3)] by blast
  then have "recover_job (e_now ?e) ?entry j \<in> set (jobs s2)" using assms(7-9) by (auto simp: set_update_where)
  moreover have "\<not> running j'" if "j' \<in> set (jobs s2)" "j_id j' \<in> set ?ids" for j'
    using recover_clears [OF tx assms(3) that(1)] that(2) by blast
  ultimately show ?thesis by blast
qed

definition stolen_run :: db where
  "stolen_run = fst (claim_batch (sample_claim\<lparr>c_seen_queues := []\<rparr>) 9 1 [''mail''] [''default''] run1)"

lemma stolen_run_eq: "stolen_run = run1\<lparr>jobs := [start_job 100 9 mail_job]\<rparr>"
  unfolding stolen_run_def run1_eq
  by (simp add: claim_defs sample_claim_def mail_job_def new_job_def returning_def start_job_def empty_db_def bump_queue_def Let_def)

lemma stolen_run_ok: "db_ok stolen_run"
  using sys_step_db_ok [OF sys_step.claim reachable_db_ok [OF run_reachable(1)]] by (simp add: stolen_run_def)

definition drained_queue :: eddy_queue where
  "drained_queue = \<lparr>eq_process = sample_process, eq_line = default_line,
     eq_state = Q_running (take_slot mail_claim [] 1 1 rt_handing)\<rparr>"

lemma stolen_reclaim:
  "\<exists>s2. shutdown_drain_bounded (pg_backend sample_pg) (\<lambda>_. ((stolen_run, rt_handing), False)) drained_queue claimed_run =
     (s2, drained_queue\<lparr>eq_state := Q_idle\<rparr>, Inr (Escalated 1)) \<and> map j_id (jobs s2) = [1]"
proof -
  have "rt_in_flight (take_slot mail_claim [] 1 1 rt_handing) = [1]"
    by (simp add: take_slot_def rt_handing_def rt_claiming_def rt_start_def claimed_of_def start_job_def mail_job_def
        new_job_def default_config_def)
  then show ?thesis
    by (simp add: shutdown_drain_bounded_def take_running_def drained_queue_def Let_def pg_defs sample_pg_def
        reclaim_in_flight_def run_tx_def recover_in_tx_def reclaimed_def stolen_run_eq run1_eq empty_db_def
        drop_groups_def drop_queues_def running_def start_job_def mail_job_def new_job_def
        recover_job_def sample_env_def returning_def stall_exhausted_def)
qed

text \<open>A drain in which the worker ends before the claim returns.\<close>

definition stranded :: runtime where
  "stranded = rt_claiming\<lparr>rt_shutdown := True, rt_workers := [Worker_done], rt_idle := 0, rt_in_flight := [1], rt_fetcher := Fetcher_done\<rparr>"

lemma sample_drain_step:
  "worker_step pr (\<lambda>_. 0) 100 JNull False 0 (pg_backend sample_pg) 0 st = Some st' \<Longrightarrow> drain_step pg_backend pg_ctx_ok pr st st'"
  "fetch_step pr (\<lambda>_. 0) (pg_backend sample_pg) st = Some st' \<Longrightarrow> drain_step pg_backend pg_ctx_ok pr st st'"
  using drain_step.drain_work [where Bs = pg_backend and ok = pg_ctx_ok and p = sample_pg]
    drain_step.drain_fetch [where Bs = pg_backend and ok = pg_ctx_ok and p = sample_pg] sample_pg_ok zero_rng by blast+

lemma stranding_drain:
  "(drain_step pg_backend pg_ctx_ok sample_process)\<^sup>*\<^sup>* (run1, rt_claiming\<lparr>rt_shutdown := True\<rparr>) (claimed_run, stranded)"
proof -
  let ?D = "drain_step pg_backend pg_ctx_ok sample_process"
  let ?a = "rt_claiming\<lparr>rt_shutdown := True, rt_workers := [Worker_done]\<rparr>"
  let ?b = "?a\<lparr>rt_fetcher := Handing [mail_claim] 1 1\<rparr>"
  let ?c = "?b\<lparr>rt_idle := 0, rt_in_flight := [1], rt_fetcher := Sending mail_claim [] 1 1\<rparr>"
  have claim: "be_claim_batch (pg_backend sample_pg) 7 1 [''mail''] [''default''] run1 = (claimed_run, Inr [mail_claim])"
    using run1_claim by (simp add: pg_defs sample_pg_def claimed_run_def)
  have id1: "cj_id mail_claim = 1" by (simp add: claimed_of_def start_job_def mail_job_def new_job_def)
  have "?D (run1, rt_claiming\<lparr>rt_shutdown := True\<rparr>) (run1, ?a)"
    by (rule sample_drain_step(1))
      (simp add: worker_step_def take_job_def set_worker_def rt_claiming_def rt_start_def default_config_def)
  moreover have "?D (run1, ?a) (claimed_run, ?b)"
    by (rule sample_drain_step(2)) (simp add: fetch_step_def rt_claiming_def claim [simplified])
  moreover have "?D (claimed_run, ?b) (claimed_run, ?c)"
    by (rule sample_drain_step(2))
      (simp add: fetch_step_def take_slot_def rt_claiming_def rt_start_def default_config_def id1)
  moreover have "?D (claimed_run, ?c) (claimed_run, stranded)"
    by (rule sample_drain_step(2)) (simp add: fetch_step_def send_job_def stranded_def)
  ultimately show ?thesis by (meson converse_rtranclp_into_rtranclp rtranclp.rtrancl_refl)
qed

text \<open>C15: a clean drain can leave jobs behind. The sample process is told to shut down while it claims a job: its only worker
  ends first, the claimed job finds no receiver, and all tasks have ended, so the bounded drain reports a clean stop,
  while the job is still marked as running by this process in the database, with nobody to heartbeat or finish it.\<close>

theorem clean_drain_strands_job:
  "\<exists>q s0. reachable s0 \<and>
     (rt_step pg_backend pg_ctx_ok sys_step sample_process)\<^sup>*\<^sup>* (s0, rt_start sample_process) (run1, rt_claiming) \<and>
     eq_state q = Q_running rt_claiming \<and>
     (drain_step pg_backend pg_ctx_ok sample_process)\<^sup>*\<^sup>* (run1, rt_claiming\<lparr>rt_shutdown := True\<rparr>) (claimed_run, stranded) \<and>
     all_stopped stranded \<and>
     snd (snd (shutdown_drain_bounded (pg_backend sample_pg) (\<lambda>_. ((claimed_run, stranded), all_stopped stranded)) q run1)) = Inr Clean \<and>
     (\<exists>j \<in> set (jobs claimed_run). running j \<and> j_worker_id j = Some (pr_fetcher_id sample_process))"
proof (intro exI conjI)
  let ?q = "\<lparr>eq_process = sample_process, eq_line = default_line, eq_state = Q_running rt_claiming\<rparr>"
  show "reachable run1" by (rule run_reachable)
  show "(pg_step sample_process)\<^sup>*\<^sup>* (run1, rt_start sample_process) (run1, rt_claiming)"
    using sample_fetch_step [OF sample_fetches(1)] by (rule r_into_rtranclp)
  show stop: "all_stopped stranded" by (simp add: all_stopped_def stranded_def)
  show "snd (snd (shutdown_drain_bounded (pg_backend sample_pg) (\<lambda>_. ((claimed_run, stranded), all_stopped stranded)) ?q run1)) = Inr Clean"
    using stop by (simp add: shutdown_drain_bounded_def take_running_def Let_def)
  show "\<exists>j \<in> set (jobs claimed_run). running j \<and> j_worker_id j = Some (pr_fetcher_id sample_process)"
    by (simp add: claimed_run_jobs running_def start_job_def)
qed (simp_all add: stranding_drain)

end
