(* ===== verification/Maintenance_Correct.thy ===== *)
theory Maintenance_Correct
  imports Cleanup Schedules Leadership Samples
begin

text \<open>
  What the maintenance services promise: retention deletes only what is finished and never more than asked, the
  scheduler fires each due schedule once, and at most one process holds the maintenance lease.
\<close>

section \<open>Retention\<close>

lemma cleanup_jobs_state_live:
  assumes "scan_ok scan" "keys_ok s" "terminal st" "j \<in> set (jobs s)" "live (j_state j)"
  shows "j \<in> set (jobs (fst (cleanup_jobs_state scan now st age keep s)))"
proof -
  have "\<not> finalized_in st j" using assms(3,5) by (auto simp: finalized_in_def live_iff_not_terminal)
  with cleanup_keeps_live [OF assms(1,2,4)] show ?thesis by blast
qed

lemma cleanup_batches_live:
  assumes "scan_ok scan" "batches_ok s" "keys_ok s" "j \<in> set (jobs s)" "live (j_state j)"
  shows "j \<in> set (jobs (fst (cleanup_batches scan now age keep s)))"
proof -
  have "unlink_batches (expired_batches scan now age keep (batches s)) j = j"
  proof (cases "j_batch_id j")
    case (Some b)
    have "b \<notin> expired_batches scan now age keep (batches s)"
    proof
      assume "b \<in> expired_batches scan now age keep (batches s)"
      from expired_batches_finished [OF assms(1) this] obtain x where x: "x \<in> set (batches s)" "b_id x = b" "finished_batch x"
        by blast
      then have "outstanding b (jobs s) = 0" using batches_ok_D [OF assms(2) x(1)] by (auto simp: finished_batch_def)
      moreover have "0 < outstanding b (jobs s)" using assms(4,5) Some by (auto simp: outstanding_pos_iff)
      ultimately show False by simp
    qed
    with Some show ?thesis by (simp add: unlink_batches_def)
  qed (simp add: unlink_batches_def)
  with assms(4) show ?thesis by (force simp: cleanup_batches_def Let_def)
qed

text \<open>C36: retention touches only what is finished. Whatever the rule, a cleanup keeps the database invariant and
  leaves every pending and running job exactly as it is.\<close>

theorem cleanup_keeps_live_jobs:
  assumes "db_ok s" "scan_ok jscan" "scan_ok bscan"
  shows "db_ok (fst (cleanup jscan bscan now r s)) \<and>
    (\<forall>j \<in> set (jobs s). live (j_state j) \<longrightarrow> j \<in> set (jobs (fst (cleanup jscan bscan now r s))))"
proof -
  define s1 where "s1 = fst (cleanup_jobs_state jscan now Completed (rt_completed_secs r) (rt_completed_count r) s)"
  define s2 where "s2 = fst (cleanup_jobs_state jscan now Failed (rt_failed_secs r) (rt_failed_count r) s1)"
  define s3 where "s3 = fst (cleanup_jobs_state jscan now Cancelled (rt_cancelled_secs r) (rt_cancelled_count r) s2)"
  have fin: "fst (cleanup jscan bscan now r s) = fst (cleanup_batches bscan now (rt_batch_secs r) (rt_batch_count r) s3)"
    by (simp add: cleanup_def s1_def s2_def s3_def case_prod_beta Let_def)
  have ok1: "db_ok s1" unfolding s1_def by (rule cleanup_jobs_state_db_ok [OF assms(2) _ assms(1)]) simp
  have ok2: "db_ok s2" unfolding s2_def by (rule cleanup_jobs_state_db_ok [OF assms(2) _ ok1]) simp
  have ok3: "db_ok s3" unfolding s3_def by (rule cleanup_jobs_state_db_ok [OF assms(2) _ ok2]) simp
  have "j \<in> set (jobs (fst (cleanup jscan bscan now r s)))" if j: "j \<in> set (jobs s)" "live (j_state j)" for j
  proof -
    have "j \<in> set (jobs s1)" unfolding s1_def
      by (rule cleanup_jobs_state_live [OF assms(2) db_okD(1) [OF assms(1)] _ j]) simp
    then have "j \<in> set (jobs s2)" unfolding s2_def
      by (rule cleanup_jobs_state_live [OF assms(2) db_okD(1) [OF ok1] _ _ j(2), rotated]) simp
    then have "j \<in> set (jobs s3)" unfolding s3_def
      by (rule cleanup_jobs_state_live [OF assms(2) db_okD(1) [OF ok2] _ _ j(2), rotated]) simp
    then show ?thesis unfolding fin
      by (rule cleanup_batches_live [OF assms(3) db_okD(5) [OF ok3] db_okD(1) [OF ok3] _ j(2)])
  qed
  with cleanup_db_ok [OF assms(2,3,1)] show ?thesis by blast
qed

definition sample_retention :: retention where
  "sample_retention = \<lparr>rt_completed_secs = Some 0, rt_failed_secs = None, rt_cancelled_secs = None, rt_batch_secs = Some 0,
     rt_completed_count = Some 1, rt_failed_count = None, rt_cancelled_count = None, rt_batch_count = None\<rparr>"

lemma scan_ok_rev: "scan_ok rev"
  by (simp add: scan_ok_def)

theorem cleanup_keeps_live_jobs_witness:
  "unique_job \<in> set (jobs (fst (cleanup rev rev 1000 sample_retention sample_db)))"
proof -
  have "live (j_state unique_job)" by (simp add: sample_row_defs)
  with cleanup_keeps_live_jobs [OF sample_ok scan_ok_rev scan_ok_rev, of 1000 sample_retention] show ?thesis by simp
qed

text \<open>A count limit holds: after the cleanup of one state at most \<open>n\<close> rows of it remain, and a limit alone
  never deletes a row that finished later than one it keeps.\<close>

lemma count_limit_keeps_newest:
  assumes "keys_ok s" "scan_ok scan"
  shows "int (count_if (finalized_in st) (jobs (fst (cleanup_jobs_state scan now st age (Some n) s)))) \<le> max n 0 \<and>
    (\<forall>j \<in> set (jobs s). \<forall>j' \<in> set (jobs s). finalized_in st j \<and>
       j \<in> set (jobs (fst (cleanup_jobs_state scan now st None (Some n) s))) \<and>
       j' \<notin> set (jobs (fst (cleanup_jobs_state scan now st None (Some n) s)))
       \<longrightarrow> the (j_finalized_at j') \<le> the (j_finalized_at j))"
  using cleanup_keeps_at_most [OF assms(2,1)] cleanup_drops_oldest [OF assms(2,1)] by blast

section \<open>The scheduler\<close>





text \<open>After a successful tick nothing is due at that time any more, so a second scheduler that runs at once fires
  nothing: this uses that the cron crate returns later instants, that intervals are positive, and that the process clock is
  not behind the database's.\<close>

lemma tick_leaves_nothing_due:
  assumes "db_ok s" "due_scan_ok scan" "cron_ok cron" "tick_in_tx cron scan now clock s = Inr (s', n)"
    and "\<forall>r \<in> set (schedules s). now \<le> clock (s_name r) \<and> (\<forall>ms. s_interval_ms r = Some ms \<longrightarrow> 0 < ms)"
  shows "\<forall>r \<in> set (schedules s'). \<not> schedule_due now r"
  using tick_idle_after [OF assms(2) db_okD(1) [OF assms(1)] assms(3,4)] assms(5) by blast

text \<open>One schedule that has no next run blocks them all. If the cron crate finds no later instant for a due
  schedule (its expression names a date that has passed, say), the tick fails and is rolled back: neither its last
  occurrence nor any other due schedule fires, and the same happens at the next tick.\<close>

lemma exhausted_schedule_blocks_tick:
  assumes "db_ok s" "due_scan_ok scan" "r \<in> set (schedules s)" "schedule_due now r"
    and "next_run cron (clock (s_name r)) r = Inl err"
  shows "\<exists>err'. tick cron scan True now clock s = (s, Inl err')"
  using tick_failure [where clock = clock, OF assms(2) db_okD(1) [OF assms(1)] assms(3-5)] by (auto simp: tick_def)

definition blocked_db :: db where
  "blocked_db = sample_db\<lparr>schedules := [sample_schedule, sample_schedule\<lparr>s_name := ''once'', s_interval_ms := None, s_cron_expr := Some ''past''\<rparr>]\<rparr>"

lemma blocked_ok: "db_ok blocked_db"
  by (rule db_ok_frame [OF sample_ok]) (simp_all add: blocked_db_def sample_row_defs)

section \<open>Leadership\<close>

text \<open>C38: the maintenance lease is exclusive. After a process won an election, and whatever elections and
  resignations of other processes follow, no other process wins before the lease has run out.\<close>

theorem lease_is_exclusive:
  assumes "snd (try_elect t w role lease s0)" "leader_run role lease w (fst (try_elect t w role lease s0)) t s t'"
    and "t' \<le> t2" "t2 \<le> t + secs (int lease)" "w' \<noteq> w"
  shows "\<not> snd (try_elect t2 w' role lease s)"
  using assms by (rule lease_exclusive)

theorem lease_is_exclusive_witness:
  "\<not> snd (try_elect 5 8 ''maintenance'' 30 (fst (try_elect 3 9 ''maintenance'' 30 (fst (try_elect 0 7 ''maintenance'' 30 empty_db)))))"
proof -
  let ?s0 = "fst (try_elect 0 7 ''maintenance'' 30 empty_db)"
  have won: "snd (try_elect 0 7 ''maintenance'' 30 empty_db)" by (simp add: try_elect_result leader_of_def lookup_by_def empty_db_def)
  have "leader_run ''maintenance'' 30 7 ?s0 0 (fst (try_elect 3 9 ''maintenance'' 30 ?s0)) 3"
    by (rule leader_run.elect [OF leader_run.start]) simp
  from lease_is_exclusive [OF won this, of 5 8] show ?thesis by (simp add: secs_def)
qed

text \<open>The lease is never lost for good: it goes to the first process that asks once it has expired, and a resignation
  frees it at once.\<close>

lemma lease_is_taken_over:
  assumes "leader_of role s = Some l" "now < t2"
  shows "snd (try_elect t2 w' role lease (resign now (l_worker_id l) role s)) \<and>
    (l_expires_at l < t2 \<longrightarrow> snd (try_elect t2 w' role lease s))"
  using resigned_taken [OF assms(1) refl assms(2)] expired_taken [OF assms(1)] by blast

end
