(* ===== verification/Policy_Correct.thy ===== *)
theory Policy_Correct
  imports Backoff Migrate Job_Groups Named_Queues Samples
begin

text \<open>
  What the pure policies promise: retry delays, group patterns and rules, the caps on stored error text, and the
  migration runner.
\<close>

section \<open>Backoff\<close>



section \<open>Group patterns and rules\<close>

text \<open>A pattern without \<open>%\<close>, \<open>_\<close> and backslash matches exactly the keys its documentation says, \<open>*\<close> standing for any
  characters and \<open>?\<close> for one. The restriction is needed: \<open>acct_1\<close> matches the key \<open>acctX1\<close>.\<close>

lemma plain_patterns_match_as_documented:
  assumes "plain_pattern p" "str_ok p"
  shows "like_match (like_of_glob p) k = Some (glob_match p k)"
  using assms by (rule like_match_plain)

text \<open>The first enqueue into a group creates its row from the best matching rule: one of the highest priority and,
  among those, of the longest pattern. A row that exists, set by hand or by an earlier rule, is never changed.\<close>

lemma best_rule_creates_group:
  assumes "materialize_from_rule scan now k s = Inr s'" "\<forall>xs. mset (scan xs) = mset xs"
  shows "(\<forall>k' g. group_get k' s = Some g \<longrightarrow> group_get k' s' = Some g) \<and>
    (case best_rule scan k (rules s) of
       None \<Rightarrow> s' = s \<and> (\<forall>r \<in> set (rules s). like_match (like_of_glob (r_pattern r)) k = Some False)
     | Some r \<Rightarrow> r \<in> set (rules s) \<and> like_match (like_of_glob (r_pattern r)) k = Some True \<and>
         (\<forall>r' \<in> set (rules s). like_match (like_of_glob (r_pattern r')) k = Some True \<longrightarrow> rule_rank r \<le> rule_rank r') \<and>
         (group_get k s = None \<longrightarrow> group_get k s' = Some (group_of_rule now k r)))"
proof -
  have keep: "\<forall>k' g. group_get k' s = Some g \<longrightarrow> group_get k' s' = Some g"
    using materialize_keeps_explicit [OF assms(1)] by blast
  have ok: "like_match (like_of_glob (r_pattern r)) k \<noteq> None" if "r \<in> set (rules s)" for r
    using assms(1) that by (auto simp: materialize_from_rule_def split: if_splits)
  show ?thesis
  proof (cases "best_rule scan k (rules s)")
    case None
    have "like_match (like_of_glob (r_pattern r)) k = Some False" if "r \<in> set (rules s)" for r
      using ok [OF that] best_rule_NoneD [OF None _ that] assms(2) by auto
    with None keep assms(1) ok show ?thesis by (auto simp: materialize_from_rule_def split: if_splits)
  next
    case (Some r)
    have "s' = s\<lparr>groups := insert_if_absent g_key (group_of_rule now k r) (groups s)\<rparr>"
      using assms(1) Some by (auto simp: materialize_from_rule_def split: if_splits)
    then have "group_get k s = None \<longrightarrow> group_get k s' = Some (group_of_rule now k r)"
      using lookup_by_insert_if_absent [of g_key k "groups s" "group_of_rule now k r"]
      by (simp add: group_get_def group_of_rule_def fresh_group_def)
    with Some keep best_rule_SomeD [OF Some] assms(2) show ?thesis by simp
  qed
qed

section \<open>Stored error text\<close>

text \<open>Text is cut to its byte cap without breaking a character: short text is stored as it is; longer text is stored as
  a prefix that ends on a character boundary followed by a marker with the number of bytes dropped, and the whole fits
  the cap whenever the marker does.\<close>

lemma truncation_fits_cap:
  "(length s \<le> m \<and> truncate_for_storage s m = s) \<or>
   (\<exists>cut < length s. is_char_boundary s cut \<and>
      truncate_for_storage s m = take cut s @ truncation_marker (length s - cut) \<and>
      length (truncate_for_storage s m) \<le> max m (length (truncation_marker (length s))))"
proof (cases rule: truncate_for_storage_cases [of s m])
  case 1
  then show ?thesis by blast
next
  case (2 cut)
  have "length (truncation_marker (length s - cut)) \<le> length (truncation_marker (length s))"
    by (rule truncation_marker_mono) simp
  moreover have "cut < length s" using 2 by simp
  ultimately show ?thesis using 2 by (intro disjI2 exI [of _ cut]) auto
qed

section \<open>Migrations\<close>

text \<open>C40: \<open>up\<close> applies the pending migrations in order, each in its own transaction. On success exactly the pending ones were
  recorded and reported, and running \<open>up\<close> again does nothing; on a failure exactly those before the failing one were
  recorded, so that a later run resumes there.\<close>

theorem up_applies_pending_in_order:
  assumes "up exec now line s = (s', r)" "ps = pending (versions line s) migrations"
  shows "case r of
      Inr rep \<Rightarrow> applied s' = applied s @ map (record_migration now line) ps \<and>
        mr_applied rep = map (\<lambda>m. (m_version m, m_name m)) ps \<and>
        (\<forall>exec' now'. up exec' now' line s' = (s', Inr \<lparr>mr_applied = [], mr_rolled_back = []\<rparr>))
    | Inl err \<Rightarrow> \<exists>k < length ps. applied s' = applied s @ map (record_migration now line) (take k ps) \<and>
        exec (m_version (ps ! k)) Up (schema s') = Inl err"
proof (cases r)
  case (Inl err)
  with up_prefix [OF assms] show ?thesis by simp
next
  case (Inr rep)
  with up_prefix [OF assms] up_idempotent [of exec now line s s' rep] assms(1) show ?thesis by auto
qed

theorem up_applies_pending_in_order_witness:
  "\<exists>s' rep. up (\<lambda>v d n. Inr (Suc n)) 5 ''main'' \<lparr>applied = [], schema = (0 :: nat)\<rparr> = (s', Inr rep) \<and>
     map fst (mr_applied rep) = map m_version migrations"
proof -
  let ?s = "\<lparr>applied = [], schema = (0 :: nat)\<rparr>"
  have "\<exists>s' rep. up (\<lambda>v d n. Inr (Suc n)) 5 ''main'' ?s = (s', Inr rep)"
    by (simp add: up_def list_applied_def migrations_def)
  then obtain s' rep where u: "up (\<lambda>v d n. Inr (Suc n)) 5 ''main'' ?s = (s', Inr rep)" by blast
  have "pending (versions ''main'' ?s) migrations = migrations" by (simp add: pending_def versions_def)
  with up_applies_pending_in_order [OF u refl] u show ?thesis by (simp add: comp_def)
qed

end
