(* ===== verification/Redis_Store.thy ===== *)
theory Redis_Store
  imports Backend
begin

text \<open>
  The keys of the Redis store, as \<open>crates/eddyq-redis/src/functions/library.lua\<close> lays them out under the prefix of a
  line (\<open>keys.rs\<close>): a hash and an error list per job, sorted sets per state with per-queue mirrors, the sets of running
  jobs of groups and queues, unique-key reservations, metadata of groups, queues and rules, schedules, the leader key.

  A hash field that is absent is \<open>None\<close>, and so is a field that holds the empty string where the functions treat both
  alike (\<open>group_key\<close>, \<open>unique_key\<close>, \<open>locked_by\<close>, \<open>result\<close>, the retention rules). JSON text is kept as the value it
  encodes. Scores are integers: the rounding of doubles, which sets in beyond \<open>2^53\<close>, is not modelled. \<open>HGETALL\<close> and
  \<open>SMEMBERS\<close> return in the order of the list that stands for the hash or set; Redis promises none.
\<close>

section \<open>Keys\<close>

text \<open>\<open>keys.rs\<close>: the key names of a line; \<open>123\<close> and \<open>125\<close> are the braces of the hash tag.\<close>

definition redis_prefix :: "string \<Rightarrow> string" where
  "redis_prefix line = [char_of (123::nat)] @ line @ [char_of (125::nat)]"

definition id_str :: "job_id \<Rightarrow> string" where
  "id_str i = (if 0 \<le> i then show_nat (nat i) else ''-'' @ show_nat (nat (- i)))"

definition key_job :: "string \<Rightarrow> job_id \<Rightarrow> string" where
  "key_job line i = redis_prefix line @ '':job:'' @ id_str i"

definition key_errors :: "string \<Rightarrow> job_id \<Rightarrow> string" where
  "key_errors line i = redis_prefix line @ '':job:'' @ id_str i @ '':errors''"

definition key_wait :: "string \<Rightarrow> string \<Rightarrow> string" where
  "key_wait line queue = redis_prefix line @ '':wait:'' @ queue"

definition key_delayed :: "string \<Rightarrow> string" where "key_delayed line = redis_prefix line @ '':delayed''"
definition key_active :: "string \<Rightarrow> string" where "key_active line = redis_prefix line @ '':active''"
definition key_completed :: "string \<Rightarrow> string" where "key_completed line = redis_prefix line @ '':completed''"
definition key_failed :: "string \<Rightarrow> string" where "key_failed line = redis_prefix line @ '':failed''"
definition key_cancelled :: "string \<Rightarrow> string" where "key_cancelled line = redis_prefix line @ '':cancelled''"

definition key_unique :: "string \<Rightarrow> string \<Rightarrow> string" where
  "key_unique line u = redis_prefix line @ '':unique:'' @ u"

definition key_leader :: "string \<Rightarrow> string \<Rightarrow> string" where
  "key_leader line role = redis_prefix line @ '':leader:'' @ role"

definition wakeup_channel :: "string \<Rightarrow> string" where "wakeup_channel line = redis_prefix line @ '':wakeup''"
definition resign_channel :: "string \<Rightarrow> string" where "resign_channel line = redis_prefix line @ '':resign''"

section \<open>Sorted sets\<close>

text \<open>A member with its score. Redis orders by score and breaks ties by the bytes of the member; \<open>label\<close> gives them.\<close>

type_synonym 'm zset = "('m \<times> int) list"

definition zmem :: "'m zset \<Rightarrow> 'm set" where
  "zmem z = fst ` set z"

definition zrem :: "'m \<Rightarrow> 'm zset \<Rightarrow> 'm zset" where
  "zrem m z = filter (\<lambda>(m', _). m' \<noteq> m) z"

definition zadd :: "int \<Rightarrow> 'm \<Rightarrow> 'm zset \<Rightarrow> 'm zset" where
  "zadd score m z = (m, score) # zrem m z"

definition zcard :: "'m zset \<Rightarrow> nat" where
  "zcard z = length z"

definition zsorted :: "('m \<Rightarrow> string) \<Rightarrow> 'm zset \<Rightarrow> ('m \<times> int) list" where
  "zsorted label z = sort_key (\<lambda>(m, score). (score, label m)) z"

text \<open>\<open>ZRANGE key 0 -1\<close>; an index range of it is \<open>take\<close> and \<open>drop\<close>.\<close>

definition zrange :: "('m \<Rightarrow> string) \<Rightarrow> 'm zset \<Rightarrow> 'm list" where
  "zrange label z = map fst (zsorted label z)"

text \<open>\<open>ZRANGEBYSCORE key -inf ... LIMIT 0 n\<close> for the scores \<open>p\<close> admits.\<close>

definition zbelow :: "('m \<Rightarrow> string) \<Rightarrow> (int \<Rightarrow> bool) \<Rightarrow> nat \<Rightarrow> 'm zset \<Rightarrow> 'm list" where
  "zbelow label p n z = take n (map fst (filter (\<lambda>(m, score). p score) (zsorted label z)))"

definition zset_ok :: "'m zset \<Rightarrow> bool" where
  "zset_ok z \<longleftrightarrow> distinct (map fst z)"

lemma zmem_zrem [simp]: "zmem (zrem m z) = zmem z - {m}"
  by (force simp: zmem_def zrem_def)

lemma zmem_zadd [simp]: "zmem (zadd sc m z) = insert m (zmem z)"
  by (simp add: zadd_def) (auto simp: zmem_def zrem_def)

lemma zmem_Nil [simp]: "zmem [] = {}"
  by (simp add: zmem_def)

lemma zset_ok_Nil [simp]: "zset_ok []"
  by (simp add: zset_ok_def)

lemma zset_ok_zrem [simp]: "zset_ok z \<Longrightarrow> zset_ok (zrem m z)"
  by (auto simp: zset_ok_def zrem_def distinct_map_filter)

lemma zset_ok_zadd [simp]: "zset_ok z \<Longrightarrow> zset_ok (zadd sc m z)"
  by (simp add: zadd_def zset_ok_def) (auto simp: zrem_def distinct_map_filter)

lemma set_zrange [simp]: "set (zrange label z) = zmem z"
  by (simp add: zrange_def zsorted_def zmem_def)

lemma distinct_zrange: "zset_ok z \<Longrightarrow> distinct (zrange label z)"
  unfolding zrange_def zsorted_def zset_ok_def
  by (metis mset_map mset_sort mset_eq_imp_distinct_iff)

lemma length_zrange [simp]: "length (zrange label z) = zcard z"
  by (simp add: zrange_def zsorted_def zcard_def)

lemma zcard_card: "zset_ok z \<Longrightarrow> zcard z = card (zmem z)"
  by (metis distinct_card distinct_zrange length_zrange set_zrange)

lemma finite_zmem [simp]: "finite (zmem z)"
  by (simp add: zmem_def)

lemma zbelow_sub: "set (zbelow label p n z) \<subseteq> zmem z"
  by (auto simp: zbelow_def zsorted_def zmem_def dest!: in_set_takeD)

section \<open>The hash of a job\<close>

record rhash =
  h_kind :: "string option"
  h_payload :: "json option"
  h_priority :: "int option"
  h_max_attempts :: "int option"
  h_attempt :: "int option"
  h_stalled_count :: "int option"
  h_max_stalled_count :: "int option"
  h_state :: "job_state option"
  h_queue :: "string option"
  h_group_key :: "string option"
  h_unique_key :: "string option"
  h_tags :: "string list option"
  h_metadata :: "json option"
  h_remove_on_complete :: "retention_rule option"
  h_remove_on_fail :: "retention_rule option"
  h_scheduled_at :: "int option"
  h_created_at :: "int option"
  h_locked_at :: "int option"
  h_locked_by :: "uuid option"
  h_completed_at :: "int option"
  h_failed_at :: "int option"
  h_cancelled_at :: "int option"
  h_result :: "json option"

definition empty_hash :: rhash where
  "empty_hash = \<lparr>h_kind = None, h_payload = None, h_priority = None, h_max_attempts = None, h_attempt = None,
     h_stalled_count = None, h_max_stalled_count = None, h_state = None, h_queue = None, h_group_key = None,
     h_unique_key = None, h_tags = None, h_metadata = None, h_remove_on_complete = None, h_remove_on_fail = None,
     h_scheduled_at = None, h_created_at = None, h_locked_at = None, h_locked_by = None, h_completed_at = None,
     h_failed_at = None, h_cancelled_at = None, h_result = None\<rparr>"

section \<open>Metadata\<close>

record gmeta =
  gm_max_concurrency :: "int option"
  gm_paused :: "bool option"
  gm_rate_count :: "int option"
  gm_rate_period_ms :: "int option"
  gm_tokens :: "real option"
  gm_refilled_at :: "int option"

definition empty_gmeta :: gmeta where
  "empty_gmeta = \<lparr>gm_max_concurrency = None, gm_paused = None, gm_rate_count = None, gm_rate_period_ms = None,
     gm_tokens = None, gm_refilled_at = None\<rparr>"

record nqmeta =
  nm_max_concurrency :: "int option"
  nm_paused :: "bool option"
  nm_default_timeout_ms :: "int option"

definition empty_nqmeta :: nqmeta where
  "empty_nqmeta = \<lparr>nm_max_concurrency = None, nm_paused = None, nm_default_timeout_ms = None\<rparr>"

record rrule =
  rr_max_concurrency :: "int option"
  rr_rate_count :: "int option"
  rr_rate_period_ms :: "int option"
  rr_priority :: int

record rsched =
  rs_cron :: string
  rs_kind :: string
  rs_payload :: json
  rs_priority :: int
  rs_max_attempts :: int
  rs_queue :: string
  rs_enabled :: bool
  rs_last_run_at_ms :: int
  rs_next_run_at_ms :: int
  rs_interval_ms :: int

section \<open>The store\<close>

record redis =
  rd_idgen :: int
  rd_jobs :: "job_id \<rightharpoonup> rhash"
  rd_errors :: "job_id \<Rightarrow> json list"
  rd_wait :: "string \<Rightarrow> job_id zset"
  rd_delayed :: "job_id zset"
  rd_active :: "job_id zset"
  rd_completed :: "job_id zset"
  rd_failed :: "job_id zset"
  rd_cancelled :: "job_id zset"
  rd_queue_jobs :: "string \<Rightarrow> job_id list"
  rd_kind_jobs :: "string \<Rightarrow> job_id list"
  rd_tag_jobs :: "string \<Rightarrow> job_id list"
  rd_unique :: "string \<rightharpoonup> job_id"
  rd_leader :: "string \<rightharpoonup> uuid \<times> int"
  rd_gmeta :: "string \<rightharpoonup> gmeta"
  rd_group_running :: "string \<Rightarrow> job_id zset"
  rd_groups :: "string list"
  rd_queues_seen :: "string list"
  rd_rules :: "(string \<times> rrule) list"
  rd_nqmeta :: "string \<rightharpoonup> nqmeta"
  rd_nq_running :: "string \<Rightarrow> job_id zset"
  rd_nqs :: "string list"
  rd_nq_completed :: "string \<Rightarrow> job_id zset"
  rd_nq_failed :: "string \<Rightarrow> job_id zset"
  rd_nq_scheduled :: "string \<Rightarrow> job_id zset"
  rd_nq_cancelled :: "string \<Rightarrow> job_id zset"
  rd_schedules :: "(string \<times> rsched) list"
  rd_schedule_idx :: "string list"
  rd_schedule_next :: "string zset"
  rd_published :: "(string \<times> string) list"

definition empty_redis :: redis where
  "empty_redis = \<lparr>rd_idgen = 0, rd_jobs = Map.empty, rd_errors = (\<lambda>_. []), rd_wait = (\<lambda>_. []), rd_delayed = [],
     rd_active = [], rd_completed = [], rd_failed = [], rd_cancelled = [], rd_queue_jobs = (\<lambda>_. []),
     rd_kind_jobs = (\<lambda>_. []), rd_tag_jobs = (\<lambda>_. []), rd_unique = Map.empty, rd_leader = Map.empty,
     rd_gmeta = Map.empty, rd_group_running = (\<lambda>_. []), rd_groups = [], rd_queues_seen = [], rd_rules = [],
     rd_nqmeta = Map.empty, rd_nq_running = (\<lambda>_. []), rd_nqs = [], rd_nq_completed = (\<lambda>_. []),
     rd_nq_failed = (\<lambda>_. []), rd_nq_scheduled = (\<lambda>_. []), rd_nq_cancelled = (\<lambda>_. []), rd_schedules = [],
     rd_schedule_idx = [], rd_schedule_next = [], rd_published = []\<rparr>"

text \<open>Commands on one key. \<open>HSET\<close> on a missing job hash creates one with the given fields only.\<close>

definition hget :: "(rhash \<Rightarrow> 'a option) \<Rightarrow> job_id \<Rightarrow> redis \<Rightarrow> 'a option" where
  "hget f i r = (case rd_jobs r i of None \<Rightarrow> None | Some h \<Rightarrow> f h)"

definition hset :: "job_id \<Rightarrow> (rhash \<Rightarrow> rhash) \<Rightarrow> redis \<Rightarrow> redis" where
  "hset i f r = r\<lparr>rd_jobs := (rd_jobs r)(i \<mapsto> f (unwrap_or (rd_jobs r i) empty_hash))\<rparr>"

definition at_key :: "'k \<Rightarrow> ('v \<Rightarrow> 'v) \<Rightarrow> ('k \<Rightarrow> 'v) \<Rightarrow> 'k \<Rightarrow> 'v" where
  "at_key k f m = m(k := f (m k))"

definition publish_wakeup :: "string \<Rightarrow> redis \<Rightarrow> redis" where
  "publish_wakeup msg r = r\<lparr>rd_published := rd_published r @ [(''wakeup'', msg)]\<rparr>"

lemma at_key_apply [simp]: "at_key k f m k' = (if k' = k then f (m k) else m k')"
  by (simp add: at_key_def)

end
