(* ===== verification/Redis_Functions.thy ===== *)
theory Redis_Functions
  imports Redis_Store
begin

text \<open>
  The functions of \<open>crates/eddyq-redis/src/functions/library.lua\<close>, which the server runs one at a time. An argument is
  the value the wire format encodes, an empty string stands for an argument that was not given as in the source. A
  function that raises an error keeps what it had written: its result is the new store with the error.
\<close>

section \<open>Helpers\<close>

type_synonym 'a lua = "redis \<times> (string + 'a)"

definition concat_error :: string where
  "concat_error = ''attempt to concatenate a boolean value''"

definition opt_str :: "string \<Rightarrow> string option" where
  "opt_str s = (if s = [] then None else Some s)"

definition wait_score :: "int \<Rightarrow> int \<Rightarrow> int" where
  "wait_score priority scheduled_at_ms = (- priority) * 10 ^ 13 + scheduled_at_ms"

definition push_error :: "job_id \<Rightarrow> json \<Rightarrow> redis \<Rightarrow> redis" where
  "push_error i entry r =
     r\<lparr>rd_errors := at_key i (\<lambda>es. drop (length (es @ [entry]) - max_error_entries) (es @ [entry])) (rd_errors r)\<rparr>"

record gview =
  gv_max_concurrency :: int
  gv_paused :: bool
  gv_rate_count :: int
  gv_rate_period_ms :: int
  gv_tokens :: real
  gv_refilled_at :: int

definition read_group_meta :: "string option \<Rightarrow> redis \<Rightarrow> gview option" where
  "read_group_meta k r =
     (case Option.bind k (rd_gmeta r) of
        None \<Rightarrow> None
      | Some m \<Rightarrow>
          if gm_max_concurrency m = None \<and> gm_paused m = None \<and> gm_rate_count m = None then None
          else Some \<lparr>gv_max_concurrency = unwrap_or (gm_max_concurrency m) (- 1), gv_paused = unwrap_or (gm_paused m) False,
                 gv_rate_count = unwrap_or (gm_rate_count m) (- 1), gv_rate_period_ms = unwrap_or (gm_rate_period_ms m) 0,
                 gv_tokens = unwrap_or (gm_tokens m) 0, gv_refilled_at = unwrap_or (gm_refilled_at m) 0\<rparr>)"

definition refill_tokens :: "int \<Rightarrow> gview \<Rightarrow> gview" where
  "refill_tokens now_ms m =
     (if gv_rate_count m < 0 \<or> gv_rate_period_ms m \<le> 0 then m
      else let elapsed = max (now_ms - gv_refilled_at m) 0;
               refill = (real_of_int elapsed * real_of_int (gv_rate_count m)) / real_of_int (gv_rate_period_ms m)
           in m\<lparr>gv_tokens := min (real_of_int (gv_rate_count m)) (gv_tokens m + refill), gv_refilled_at := now_ms\<rparr>)"

definition persist_tokens :: "string \<Rightarrow> gview \<Rightarrow> redis \<Rightarrow> redis" where
  "persist_tokens k m r =
     r\<lparr>rd_gmeta := (rd_gmeta r)(k \<mapsto> (unwrap_or (rd_gmeta r k) empty_gmeta)
          \<lparr>gm_tokens := Some (gv_tokens m), gm_refilled_at := Some (gv_refilled_at m)\<rparr>)\<rparr>"

definition group_has_limits :: "gview \<Rightarrow> bool" where
  "group_has_limits m \<longleftrightarrow> gv_paused m \<or> 0 \<le> gv_max_concurrency m \<or> 0 \<le> gv_rate_count m"

record nqview =
  nv_max_concurrency :: int
  nv_paused :: bool
  nv_default_timeout_ms :: int

definition read_nq_meta :: "string \<Rightarrow> redis \<Rightarrow> nqview option" where
  "read_nq_meta name r =
     (if name = [] then None
      else case rd_nqmeta r name of
        None \<Rightarrow> None
      | Some m \<Rightarrow>
          if nm_max_concurrency m = None \<and> nm_paused m = None \<and> nm_default_timeout_ms m = None then None
          else Some \<lparr>nv_max_concurrency = unwrap_or (nm_max_concurrency m) (- 1), nv_paused = unwrap_or (nm_paused m) False,
                 nv_default_timeout_ms = unwrap_or (nm_default_timeout_ms m) (- 1)\<rparr>)"

definition nq_has_limits :: "nqview \<Rightarrow> bool" where
  "nq_has_limits m \<longleftrightarrow> nv_paused m \<or> 0 \<le> nv_max_concurrency m"

text \<open>\<open>string.match(key, glob_to_pattern(glob))\<close>: bytes match themselves, \<open>*\<close> any bytes and \<open>?\<close> one byte.\<close>

definition lua_glob_match :: "string \<Rightarrow> string \<Rightarrow> bool" where
  "lua_glob_match glob k = match_tokens (glob_tokens (map (\<lambda>c. [c]) glob)) (map (\<lambda>c. [c]) k)"

fun best_of :: "string \<Rightarrow> (string \<times> rrule) list \<Rightarrow> (rrule \<times> int \<times> nat) option \<Rightarrow> (rrule \<times> int \<times> nat) option" where
  "best_of k [] best = best"
| "best_of k ((pattern, rule) # rest) best =
     (let p = rr_priority rule; len = length pattern;
          better = (case best of None \<Rightarrow> True | Some (_, best_prio, best_len) \<Rightarrow> best_prio < p \<or> p = best_prio \<and> best_len < len)
      in best_of k rest (if lua_glob_match pattern k \<and> better then Some (rule, p, len) else best))"

definition redis_best_rule :: "string \<Rightarrow> redis \<Rightarrow> rrule option" where
  "redis_best_rule k r = map_option fst (best_of k (rd_rules r) None)"

definition gmeta_of_rule :: "int \<Rightarrow> rrule \<Rightarrow> gmeta" where
  "gmeta_of_rule now_ms rule =
     (let m = empty_gmeta\<lparr>gm_max_concurrency := rr_max_concurrency rule\<rparr>
      in case (rr_rate_count rule, rr_rate_period_ms rule) of
           (Some c, Some p) \<Rightarrow> m\<lparr>gm_rate_count := Some c, gm_rate_period_ms := Some p, gm_tokens := Some (real_of_int c),
                                gm_refilled_at := Some now_ms\<rparr>
         | _ \<Rightarrow> m)"

definition maybe_materialize_group :: "string option \<Rightarrow> int \<Rightarrow> redis \<Rightarrow> redis" where
  "maybe_materialize_group gk now_ms r =
     (case gk of
        None \<Rightarrow> r
      | Some k \<Rightarrow>
          if rd_gmeta r k \<noteq> None then r
          else case redis_best_rule k r of
                 None \<Rightarrow> r
               | Some rule \<Rightarrow>
                   (let m = gmeta_of_rule now_ms rule
                    in if m = empty_gmeta then r
                       else r\<lparr>rd_gmeta := (rd_gmeta r)(k \<mapsto> m), rd_groups := List.insert k (rd_groups r)\<rparr>))"

section \<open>Enqueue\<close>

text \<open>The thirteen arguments of one job.\<close>

record enq_args =
  ea_kind :: string
  ea_payload :: json
  ea_priority :: int
  ea_max_attempts :: int
  ea_scheduled_at_ms :: int
  ea_unique_key :: string
  ea_group_key :: string
  ea_queue :: string
  ea_tags :: "string list"
  ea_metadata :: json
  ea_remove_on_complete :: "retention_rule option"
  ea_remove_on_fail :: "retention_rule option"
  ea_max_stalled_count :: int

definition enq_hash :: "enq_args \<Rightarrow> job_state \<Rightarrow> int \<Rightarrow> int \<Rightarrow> rhash \<Rightarrow> rhash" where
  "enq_hash a st scheduled now_ms h =
     h\<lparr>h_kind := Some (ea_kind a), h_payload := Some (ea_payload a), h_priority := Some (ea_priority a),
       h_max_attempts := Some (ea_max_attempts a), h_attempt := Some 0, h_stalled_count := Some 0,
       h_max_stalled_count := Some (ea_max_stalled_count a), h_state := Some st, h_queue := Some (ea_queue a),
       h_group_key := opt_str (ea_group_key a), h_unique_key := opt_str (ea_unique_key a), h_tags := Some (ea_tags a),
       h_metadata := Some (ea_metadata a), h_remove_on_complete := ea_remove_on_complete a,
       h_remove_on_fail := ea_remove_on_fail a, h_scheduled_at := Some scheduled, h_created_at := Some now_ms\<rparr>"

definition index_job :: "string \<Rightarrow> string \<Rightarrow> job_id \<Rightarrow> redis \<Rightarrow> redis" where
  "index_job queue kind i r =
     r\<lparr>rd_queue_jobs := at_key queue (List.insert i) (rd_queue_jobs r), rd_kind_jobs := at_key kind (List.insert i) (rd_kind_jobs r),
       rd_queues_seen := List.insert queue (rd_queues_seen r)\<rparr>"

definition index_tags :: "string list \<Rightarrow> job_id \<Rightarrow> redis \<Rightarrow> redis" where
  "index_tags tags i r = r\<lparr>rd_tag_jobs := fold (\<lambda>t. at_key t (List.insert i)) tags (rd_tag_jobs r)\<rparr>"

definition make_due :: "string \<Rightarrow> int \<Rightarrow> job_id \<Rightarrow> redis \<Rightarrow> redis" where
  "make_due queue score i r = r\<lparr>rd_wait := at_key queue (zadd score i) (rd_wait r)\<rparr>"

definition delay_until :: "string \<Rightarrow> int \<Rightarrow> job_id \<Rightarrow> redis \<Rightarrow> redis" where
  "delay_until queue t i r =
     r\<lparr>rd_delayed := zadd t i (rd_delayed r), rd_nq_scheduled := at_key queue (zadd t i) (rd_nq_scheduled r)\<rparr>"

text \<open>\<open>None\<close> is the reply \<open>skipped\<close>.\<close>

definition fn_enqueue :: "int \<Rightarrow> enq_args \<Rightarrow> redis \<Rightarrow> redis \<times> job_id option" where
  "fn_enqueue now_ms a r =
     (let u = ea_unique_key a in
      if u \<noteq> [] \<and> rd_unique r u \<noteq> None then (r, None)
      else
        (let i = rd_idgen r + 1;
             r1 = r\<lparr>rd_idgen := i, rd_unique := (if u \<noteq> [] then (rd_unique r)(u \<mapsto> i) else rd_unique r)\<rparr>;
             eff = (if ea_scheduled_at_ms a = 0 then now_ms else ea_scheduled_at_ms a);
             due = (eff \<le> now_ms);
             r2 = index_job (ea_queue a) (ea_kind a) i (hset i (enq_hash a (if due then Pending else Scheduled) eff now_ms) r1);
             r3 = index_tags (ea_tags a) i (maybe_materialize_group (opt_str (ea_group_key a)) now_ms r2)
         in (if due then publish_wakeup (id_str i) (make_due (ea_queue a) (wait_score (ea_priority a) eff) i r3)
             else delay_until (ea_queue a) eff i r3,
             Some i)))"

fun fn_enqueue_many :: "int \<Rightarrow> enq_args list \<Rightarrow> redis \<Rightarrow> redis \<times> job_id option list" where
  "fn_enqueue_many now_ms [] r = (r, [])"
| "fn_enqueue_many now_ms (a # as) r =
     (let (r', x) = fn_enqueue now_ms a r; (r'', xs) = fn_enqueue_many now_ms as r' in (r'', x # xs))"

section \<open>Claim\<close>

definition claim_scan_limit :: nat where "claim_scan_limit = 1000"

text \<open>What is encoded for one claimed job.\<close>

record claim_entry =
  ce_id :: job_id
  ce_kind :: string
  ce_payload :: "json option"
  ce_priority :: int
  ce_max_attempts :: int
  ce_attempt :: int
  ce_stalled_count :: int
  ce_max_stalled_count :: int
  ce_queue :: "string option"
  ce_group_key :: "string option"
  ce_worker_id :: uuid
  ce_timeout_ms :: "int option"

record claim_acc =
  ca_store :: redis
  ca_out :: "claim_entry list"
  ca_taken :: nat
  ca_scanned :: nat
  ca_blocked :: "string list"
  ca_open :: bool
  ca_room :: "int option"
  ca_here :: nat

text \<open>Pause, concurrency cap and token bucket of a group: the store with the tokens written back, and whether the job may
  start.\<close>

definition gate_group :: "int \<Rightarrow> string option \<Rightarrow> redis \<Rightarrow> redis \<times> bool" where
  "gate_group now_ms gk r =
     (case (gk, read_group_meta gk r) of
        (Some k, Some m) \<Rightarrow>
          if \<not> group_has_limits m then (r, True)
          else if gv_paused m then (r, False)
          else if 0 \<le> gv_max_concurrency m \<and> gv_max_concurrency m \<le> int (zcard (rd_group_running r k)) then (r, False)
          else if 0 \<le> gv_rate_count m then
            (let m' = refill_tokens now_ms m
             in if gv_tokens m' < 1 then (persist_tokens k m' r, False)
                else (persist_tokens k (m'\<lparr>gv_tokens := gv_tokens m' - 1\<rparr>) r, True))
          else (r, True)
      | _ \<Rightarrow> (r, True))"

definition run_hash :: "uuid \<Rightarrow> int \<Rightarrow> int \<Rightarrow> rhash \<Rightarrow> rhash" where
  "run_hash worker now_ms attempt h =
     h\<lparr>h_state := Some Running, h_attempt := Some attempt, h_locked_at := Some now_ms, h_locked_by := Some worker\<rparr>"

definition begin_run :: "uuid \<Rightarrow> int \<Rightarrow> string \<Rightarrow> int \<Rightarrow> job_id \<Rightarrow> rhash \<Rightarrow> redis \<Rightarrow> redis" where
  "begin_run worker now_ms queue attempt i h r =
     (hset i (run_hash worker now_ms attempt) r)
       \<lparr>rd_wait := at_key queue (zrem i) (rd_wait r), rd_active := zadd now_ms i (rd_active r),
        rd_group_running := (case h_group_key h of None \<Rightarrow> rd_group_running r
                             | Some k \<Rightarrow> at_key k (zadd now_ms i) (rd_group_running r)),
        rd_nq_running := at_key queue (zadd now_ms i) (rd_nq_running r)\<rparr>"

definition entry_of :: "uuid \<Rightarrow> int option \<Rightarrow> int \<Rightarrow> job_id \<Rightarrow> string \<Rightarrow> rhash \<Rightarrow> claim_entry" where
  "entry_of worker timeout attempt i kind h =
     \<lparr>ce_id = i, ce_kind = kind, ce_payload = h_payload h, ce_priority = unwrap_or (h_priority h) 0,
      ce_max_attempts = unwrap_or (h_max_attempts h) 3, ce_attempt = attempt,
      ce_stalled_count = unwrap_or (h_stalled_count h) 0, ce_max_stalled_count = unwrap_or (h_max_stalled_count h) 1,
      ce_queue = h_queue h, ce_group_key = h_group_key h, ce_worker_id = worker, ce_timeout_ms = timeout\<rparr>"

definition claim_one ::
  "uuid \<Rightarrow> int \<Rightarrow> nat \<Rightarrow> string list \<Rightarrow> int option \<Rightarrow> string \<Rightarrow> job_id \<Rightarrow> claim_acc \<Rightarrow> claim_acc" where
  "claim_one worker now_ms batch_size kinds timeout queue i acc0 =
     (if batch_size \<le> ca_taken acc0 \<or> \<not> ca_open acc0 then acc0
      else
        (let acc = acc0\<lparr>ca_scanned := ca_scanned acc0 + 1\<rparr>; r = ca_store acc in
         case rd_jobs r i of
           None \<Rightarrow> acc
         | Some h \<Rightarrow>
             (case h_kind h of
                None \<Rightarrow> acc
              | Some kind \<Rightarrow>
                  if kind \<in> set kinds \<and> h_state h = Some Pending \<and>
                     \<not> (\<exists>k \<in> set (ca_blocked acc). h_group_key h = Some k)
                  then
                    (case gate_group now_ms (h_group_key h) r of
                       (r', False) \<Rightarrow>
                         acc\<lparr>ca_store := r',
                             ca_blocked := (case h_group_key h of None \<Rightarrow> ca_blocked acc | Some k \<Rightarrow> k # ca_blocked acc)\<rparr>
                     | (r', True) \<Rightarrow>
                         if i \<in> zmem (rd_wait r' queue) then
                           (let attempt = unwrap_or (h_attempt h) 0 + 1;
                                room = map_option (\<lambda>n. n - 1) (ca_room acc)
                            in acc\<lparr>ca_store := begin_run worker now_ms queue attempt i h r',
                                   ca_here := ca_here acc + 1, ca_room := room,
                                   ca_open := (case room of None \<Rightarrow> ca_open acc | Some n \<Rightarrow> ca_open acc \<and> 0 < n),
                                   ca_out := ca_out acc @ [entry_of worker timeout attempt i kind h],
                                   ca_taken := ca_taken acc + 1\<rparr>)
                         else acc\<lparr>ca_store := r'\<rparr>)
                  else acc)))"

lemma claim_one_scanned:
  "ca_scanned acc \<le> ca_scanned (claim_one w now b ks t q i acc)"
  "ca_taken acc < b \<Longrightarrow> ca_open acc \<Longrightarrow> ca_scanned (claim_one w now b ks t q i acc) = Suc (ca_scanned acc)"
  by (auto simp: claim_one_def Let_def split: option.split prod.split bool.split)

lemma fold_scanned: "ca_scanned acc \<le> ca_scanned (fold (claim_one w now b ks t q) ids acc)"
proof (induction ids arbitrary: acc)
  case (Cons i ids)
  show ?case using le_trans [OF claim_one_scanned(1) Cons] by simp
qed simp

text \<open>Page by page through the wait set, past jobs that cannot start.\<close>

function claim_pages ::
  "uuid \<Rightarrow> int \<Rightarrow> nat \<Rightarrow> string list \<Rightarrow> int option \<Rightarrow> string \<Rightarrow> nat \<Rightarrow> claim_acc \<Rightarrow> claim_acc" where
  "claim_pages worker now_ms batch_size kinds timeout queue offset acc =
     (if \<not> (ca_open acc \<and> ca_taken acc < batch_size \<and> ca_scanned acc < claim_scan_limit) then acc
      else
        (let page = batch_size * 4;
             slice = take page (drop offset (zrange id_str (rd_wait (ca_store acc) queue)))
         in if slice = [] then acc
            else
              (let acc' = fold (claim_one worker now_ms batch_size kinds timeout queue) slice (acc\<lparr>ca_here := 0\<rparr>)
               in if length slice < page then acc'
                  else claim_pages worker now_ms batch_size kinds timeout queue
                         (offset + length slice - ca_here acc') acc')))"
  by pat_completeness auto
termination
proof (relation "measure (\<lambda>(w, n, b, ks, t, q, off, acc). claim_scan_limit - ca_scanned acc)", goal_cases)
  case 1 show ?case by simp
next
  case (2 worker now_ms batch_size kinds timeout queue offset acc page slice acc')
  from 2(4) obtain i ids where s: "slice = i # ids" by (cases slice) blast+
  have "Suc (ca_scanned acc) = ca_scanned (claim_one worker now_ms batch_size kinds timeout queue i (acc\<lparr>ca_here := 0\<rparr>))"
    using 2(1) claim_one_scanned(2) [of "acc\<lparr>ca_here := 0\<rparr>"] by simp
  also have "\<dots> \<le> ca_scanned acc'" unfolding 2(5) s by (simp add: fold_scanned)
  finally show ?case using 2(1) by auto
qed

declare claim_pages.simps [simp del]

definition claim_queue ::
  "uuid \<Rightarrow> int \<Rightarrow> nat \<Rightarrow> string list \<Rightarrow> string \<Rightarrow> claim_acc \<Rightarrow> claim_acc" where
  "claim_queue worker now_ms batch_size kinds queue acc =
     (if batch_size \<le> ca_taken acc then acc
      else
        (let r = ca_store acc;
             meta = read_nq_meta queue r;
             room = (case meta of
                       None \<Rightarrow> None
                     | Some m \<Rightarrow> if \<not> nv_paused m \<and> 0 \<le> nv_max_concurrency m
                                then Some (nv_max_concurrency m - int (zcard (rd_nq_running r queue))) else None);
             is_open = ((case meta of None \<Rightarrow> True | Some m \<Rightarrow> \<not> nv_paused m) \<and> (case room of None \<Rightarrow> True | Some n \<Rightarrow> 0 < n));
             timeout = (case meta of
                          None \<Rightarrow> None
                        | Some m \<Rightarrow> if 0 < nv_default_timeout_ms m then Some (nv_default_timeout_ms m) else None)
         in claim_pages worker now_ms batch_size kinds timeout queue 0
              (acc\<lparr>ca_scanned := 0, ca_blocked := [], ca_open := is_open, ca_room := room, ca_here := 0\<rparr>)))"

definition fn_claim :: "nat \<Rightarrow> uuid \<Rightarrow> int \<Rightarrow> string list \<Rightarrow> string list \<Rightarrow> redis \<Rightarrow> redis \<times> claim_entry list" where
  "fn_claim batch_size worker now_ms qs kinds r =
     (let acc = fold (claim_queue worker now_ms batch_size kinds) qs
           \<lparr>ca_store = r, ca_out = [], ca_taken = 0, ca_scanned = 0, ca_blocked = [], ca_open = True, ca_room = None, ca_here = 0\<rparr>
      in (ca_store acc, ca_out acc))"

end
