(* ===== verification/Redis_Settle.thy ===== *)
theory Redis_Settle
  imports Redis_Functions
begin

text \<open>
  The rest of the life cycle in \<open>library.lua\<close>: heartbeats, completion and failure with inline retention, recovery of stale
  jobs, promotion of delayed ones, reclaim, cancellation, retention sweeps, and leader election.
\<close>

section \<open>Heartbeats\<close>

definition beat :: "int \<Rightarrow> job_id \<Rightarrow> redis \<times> nat \<Rightarrow> redis \<times> nat" where
  "beat now_ms i acc =
     (case acc of (r, n) \<Rightarrow>
      if hget h_state i r = Some Running
      then ((hset i (\<lambda>h. h\<lparr>h_locked_at := Some now_ms\<rparr>) r)\<lparr>rd_active := zadd now_ms i (rd_active r)\<rparr>, n + 1)
      else (r, n))"

definition fn_heartbeat :: "int \<Rightarrow> job_id list \<Rightarrow> redis \<Rightarrow> redis \<times> nat" where
  "fn_heartbeat now_ms ids r = fold (beat now_ms) ids (r, 0)"

section \<open>Teardown\<close>

text \<open>Reservations made before 0.1.14 hold \<open>1\<close> instead of an id.\<close>

definition drop_unique_if_owner :: "string option \<Rightarrow> job_id \<Rightarrow> redis \<Rightarrow> redis" where
  "drop_unique_if_owner uniq i r =
     (case uniq of
        None \<Rightarrow> r
      | Some u \<Rightarrow>
          if rd_unique r u = Some i \<or> rd_unique r u = Some 1 then r\<lparr>rd_unique := (rd_unique r)(u := None)\<rparr> else r)"

definition release_unique :: "job_id \<Rightarrow> redis \<Rightarrow> redis" where
  "release_unique i r = drop_unique_if_owner (hget h_unique_key i r) i r"

definition unindex_job :: "job_id \<Rightarrow> redis \<Rightarrow> redis" where
  "unindex_job i r =
     r\<lparr>rd_queue_jobs := (case hget h_queue i r of Some q \<Rightarrow> if q = [] then rd_queue_jobs r else at_key q (removeAll i) (rd_queue_jobs r)
                        | None \<Rightarrow> rd_queue_jobs r),
       rd_kind_jobs := (case hget h_kind i r of Some k \<Rightarrow> if k = [] then rd_kind_jobs r else at_key k (removeAll i) (rd_kind_jobs r)
                        | None \<Rightarrow> rd_kind_jobs r),
       rd_tag_jobs := (case hget h_tags i r of Some ts \<Rightarrow> fold (\<lambda>t. at_key t (removeAll i)) ts (rd_tag_jobs r)
                       | None \<Rightarrow> rd_tag_jobs r)\<rparr>"

definition delete_job :: "job_id \<Rightarrow> redis \<Rightarrow> redis" where
  "delete_job i r =
     (let r1 = drop_unique_if_owner (hget h_unique_key i r) i (unindex_job i r)
      in r1\<lparr>rd_errors := (rd_errors r1)(i := []), rd_jobs := (rd_jobs r1)(i := None)\<rparr>)"

section \<open>Retention\<close>

text \<open>The sorted set of a finalized state and its mirror for a queue.\<close>

fun fin_set :: "clean_state \<Rightarrow> redis \<Rightarrow> job_id zset" where
  "fin_set CleanCompleted r = rd_completed r"
| "fin_set CleanFailed r = rd_failed r"
| "fin_set CleanCancelled r = rd_cancelled r"

fun fin_upd :: "clean_state \<Rightarrow> (job_id zset \<Rightarrow> job_id zset) \<Rightarrow> redis \<Rightarrow> redis" where
  "fin_upd CleanCompleted f r = r\<lparr>rd_completed := f (rd_completed r)\<rparr>"
| "fin_upd CleanFailed f r = r\<lparr>rd_failed := f (rd_failed r)\<rparr>"
| "fin_upd CleanCancelled f r = r\<lparr>rd_cancelled := f (rd_cancelled r)\<rparr>"

fun fin_nq :: "clean_state \<Rightarrow> redis \<Rightarrow> string \<Rightarrow> job_id zset" where
  "fin_nq CleanCompleted r = rd_nq_completed r"
| "fin_nq CleanFailed r = rd_nq_failed r"
| "fin_nq CleanCancelled r = rd_nq_cancelled r"

fun fin_nq_upd :: "clean_state \<Rightarrow> string \<Rightarrow> (job_id zset \<Rightarrow> job_id zset) \<Rightarrow> redis \<Rightarrow> redis" where
  "fin_nq_upd CleanCompleted q f r = r\<lparr>rd_nq_completed := at_key q f (rd_nq_completed r)\<rparr>"
| "fin_nq_upd CleanFailed q f r = r\<lparr>rd_nq_failed := at_key q f (rd_nq_failed r)\<rparr>"
| "fin_nq_upd CleanCancelled q f r = r\<lparr>rd_nq_cancelled := at_key q f (rd_nq_cancelled r)\<rparr>"

definition retention_prune_cap :: nat where "retention_prune_cap = 500"

text \<open>The queue of a job, unless it is missing or empty.\<close>

definition named :: "string option \<Rightarrow> string option" where
  "named q = (case q of None \<Rightarrow> None | Some s \<Rightarrow> opt_str s)"

definition add_both :: "clean_state \<Rightarrow> string option \<Rightarrow> int \<Rightarrow> job_id \<Rightarrow> redis \<Rightarrow> redis" where
  "add_both st nq now_ms i r =
     (let r' = fin_upd st (zadd now_ms i) r
      in case nq of None \<Rightarrow> r' | Some q \<Rightarrow> fin_nq_upd st q (zadd now_ms i) r')"

definition take_victim :: "job_id \<Rightarrow> job_id \<Rightarrow> job_id list \<Rightarrow> job_id list" where
  "take_victim self v victims = (if v \<noteq> self \<and> v \<notin> set victims then victims @ [v] else victims)"

fun take_surplus :: "job_id \<Rightarrow> nat \<Rightarrow> nat \<Rightarrow> job_id list \<Rightarrow> job_id list \<Rightarrow> job_id list" where
  "take_surplus self want seen_n [] victims = victims"
| "take_surplus self want seen_n (v # vs) victims =
     (if want \<le> seen_n \<or> retention_prune_cap \<le> length victims then victims
      else if v \<noteq> self then take_surplus self want (seen_n + 1) vs (take_victim self v victims)
      else take_surplus self want seen_n vs victims)"

definition victims_of :: "job_id \<Rightarrow> job_id zset \<Rightarrow> nat option \<Rightarrow> nat option \<Rightarrow> int \<Rightarrow> job_id list" where
  "victims_of self z age keep now_ms =
     (let aged = (case age of
                    None \<Rightarrow> []
                  | Some a \<Rightarrow> fold (take_victim self)
                      (zbelow id_str (\<lambda>sc. sc < now_ms - int a * 1000) retention_prune_cap z) [])
      in case keep of
           None \<Rightarrow> aged
         | Some n \<Rightarrow>
             if length aged < retention_prune_cap \<and> n < zcard z
             then (let want = min (zcard z - n) retention_prune_cap
                   in take_surplus self want 0 (take (want + 1) (zrange id_str z)) aged)
             else aged)"

definition prune :: "clean_state \<Rightarrow> string \<Rightarrow> job_id \<Rightarrow> redis \<Rightarrow> redis" where
  "prune st q v r = fin_nq_upd st q (zrem v) (fin_upd st (zrem v) (delete_job v r))"

definition apply_retention ::
  "clean_state \<Rightarrow> string option \<Rightarrow> retention_rule option \<Rightarrow> int \<Rightarrow> job_id \<Rightarrow> redis \<Rightarrow> redis \<times> bool" where
  "apply_retention st nq rule now_ms i r =
     (case rule of
        None \<Rightarrow> (add_both st nq now_ms i r, False)
      | Some (RBool True) \<Rightarrow> (r, True)
      | Some (RBool False) \<Rightarrow> (add_both st nq now_ms i r, False)
      | Some (RRule age keep) \<Rightarrow>
          (let drop_self = (keep = Some 0);
               r1 = (if drop_self then r else add_both st nq now_ms i r)
           in case nq of
                None \<Rightarrow> (r1, drop_self)
              | Some q \<Rightarrow>
                  if age = None \<and> keep = None then (r1, drop_self)
                  else (fold (prune st q) (victims_of i (fin_nq st r1 q) age keep now_ms) r1, drop_self)))"

definition finalize :: "clean_state \<Rightarrow> string option \<Rightarrow> retention_rule option \<Rightarrow> int \<Rightarrow> job_id \<Rightarrow> redis \<Rightarrow> redis" where
  "finalize st nq rule now_ms i r =
     (case apply_retention st nq rule now_ms i r of
        (r1, False) \<Rightarrow> r1
      | (r1, True) \<Rightarrow>
          (let r2 = fin_upd st (zrem i) r1;
               r3 = (case nq of None \<Rightarrow> r2 | Some q \<Rightarrow> fin_nq_upd st q (zrem i) r2)
           in delete_job i r3))"

section \<open>Reports\<close>

text \<open>The job leaves the set of active jobs and the sets its group and its queue count as running.\<close>

definition end_run :: "job_id \<Rightarrow> string option \<Rightarrow> string option \<Rightarrow> redis \<Rightarrow> redis" where
  "end_run i gk q r =
     r\<lparr>rd_active := zrem i (rd_active r),
       rd_group_running := (case gk of None \<Rightarrow> rd_group_running r | Some k \<Rightarrow> at_key k (zrem i) (rd_group_running r)),
       rd_nq_running := (case named q of None \<Rightarrow> rd_nq_running r | Some n \<Rightarrow> at_key n (zrem i) (rd_nq_running r))\<rparr>"

text \<open>The lease gate looks at \<open>locked_by\<close> only.\<close>

definition has_lease :: "job_id \<Rightarrow> uuid \<Rightarrow> redis \<Rightarrow> bool" where
  "has_lease i worker r \<longleftrightarrow> hget h_locked_by i r = Some worker"

definition fn_complete :: "job_id \<Rightarrow> uuid \<Rightarrow> int \<Rightarrow> json option \<Rightarrow> redis \<Rightarrow> redis \<times> nat" where
  "fn_complete i worker now_ms result r =
     (if \<not> has_lease i worker r then (r, 0)
      else
        (let q = hget h_queue i r;
             r1 = end_run i (hget h_group_key i r) q r;
             r2 = hset i (\<lambda>h. h\<lparr>h_state := Some Completed, h_completed_at := Some now_ms, h_result := result\<rparr>) r1;
             r3 = release_unique i r2
         in (finalize CleanCompleted (named q) (hget h_remove_on_complete i r3) now_ms i r3, 1)))"

text \<open>\<open>retry_at_ms < 0\<close>: no retry.\<close>

definition fn_fail :: "job_id \<Rightarrow> uuid \<Rightarrow> int \<Rightarrow> json \<Rightarrow> int \<Rightarrow> redis \<Rightarrow> (string \<times> int) lua" where
  "fn_fail i worker now_ms entry retry_at_ms r =
     (if \<not> has_lease i worker r then (r, Inr (''stale'', 0))
      else
        (let attempt = unwrap_or (hget h_attempt i r) 0;
             priority = unwrap_or (hget h_priority i r) 0;
             q = hget h_queue i r;
             rule = hget h_remove_on_fail i r;
             r1 = end_run i (hget h_group_key i r) q (push_error i entry r)
         in if 0 \<le> retry_at_ms then
              if retry_at_ms \<le> now_ms then
                (let r2 = hset i (\<lambda>h. h\<lparr>h_state := Some Pending, h_failed_at := Some now_ms\<rparr>) r1
                 in case q of
                      None \<Rightarrow> (r2, Inl concat_error)
                    | Some n \<Rightarrow> (publish_wakeup (id_str i) (make_due n (wait_score priority retry_at_ms) i r2),
                                Inr (''scheduled'', attempt)))
              else
                (let r2 = hset i (\<lambda>h. h\<lparr>h_state := Some Scheduled, h_failed_at := Some now_ms, h_scheduled_at := Some retry_at_ms\<rparr>) r1;
                     r3 = r2\<lparr>rd_delayed := zadd retry_at_ms i (rd_delayed r2)\<rparr>
                 in (case named q of
                       None \<Rightarrow> r3
                     | Some n \<Rightarrow> r3\<lparr>rd_nq_scheduled := at_key n (zadd retry_at_ms i) (rd_nq_scheduled r3)\<rparr>,
                     Inr (''scheduled'', attempt)))
            else
              (let r2 = hset i (\<lambda>h. h\<lparr>h_state := Some Failed, h_failed_at := Some now_ms\<rparr>) r1
               in (finalize CleanFailed (named q) rule now_ms i (release_unique i r2), Inr (''failed'', attempt)))))"

section \<open>Recovery\<close>

text \<open>One job whose worker is lost or leaving: back to the queue with its attempt refunded, or failed when its stall budget
  is used up. \<open>entry\<close> is the error that is recorded then.\<close>

definition recover_run :: "json \<Rightarrow> int \<Rightarrow> job_id \<Rightarrow> redis \<Rightarrow> unit lua" where
  "recover_run entry at_ms i r =
     (let attempt = unwrap_or (hget h_attempt i r) 0;
          priority = unwrap_or (hget h_priority i r) 0;
          q = hget h_queue i r;
          new_stalled = unwrap_or (hget h_stalled_count i r) 0 + 1;
          r1 = end_run i (hget h_group_key i r) q r
      in if unwrap_or (hget h_max_stalled_count i r) 1 < new_stalled then
           (let r2 = hset i (\<lambda>h. h\<lparr>h_state := Some Failed, h_stalled_count := Some new_stalled, h_failed_at := Some at_ms\<rparr>) r1;
                r3 = add_both CleanFailed (named q) at_ms i r2
            in (release_unique i (push_error i entry r3), Inr ()))
         else
           (let r2 = hset i (\<lambda>h. h\<lparr>h_state := Some Pending, h_stalled_count := Some new_stalled,
                        h_attempt := Some (max (attempt - 1) 0), h_locked_by := None, h_locked_at := Some 0\<rparr>) r1
            in case q of
                 None \<Rightarrow> (r2, Inl concat_error)
               | Some n \<Rightarrow> (make_due n (wait_score priority at_ms) i r2, Inr ())))"

definition stalled_out :: "job_id \<Rightarrow> redis \<Rightarrow> bool" where
  "stalled_out i r \<longleftrightarrow> unwrap_or (hget h_max_stalled_count i r) 1 < unwrap_or (hget h_stalled_count i r) 0 + 1"

fun sweep_ids :: "json \<Rightarrow> int \<Rightarrow> job_id list \<Rightarrow> redis \<Rightarrow> nat lua" where
  "sweep_ids entry at_ms [] r = (r, Inr 0)"
| "sweep_ids entry at_ms (i # is) r =
     (case recover_run entry at_ms i r of
        (r', Inl err) \<Rightarrow> (r', Inl err)
      | (r', Inr _) \<Rightarrow>
          (let r'' = (if stalled_out i r then r' else publish_wakeup (id_str i) r')
           in case sweep_ids entry at_ms is r'' of (s, n) \<Rightarrow> (s, map_sum id Suc n)))"

definition stale_sweep_entry :: json where
  "stale_sweep_entry = JObject [(''message'', JString (''worker lost contact '' @ [CHR 0xE2, CHR 0x80, CHR 0x94] @ '' job recovered'')), (''name'', JString ''StaleSweep'')]"

definition force_reclaim_entry :: json where
  "force_reclaim_entry = JObject [(''message'', JString (''worker shutting down '' @ [CHR 0xE2, CHR 0x80, CHR 0x94] @ '' stall budget exhausted'')), (''name'', JString ''ForceReclaim'')]"

definition fn_sweep_stale :: "int \<Rightarrow> nat \<Rightarrow> redis \<Rightarrow> nat lua" where
  "fn_sweep_stale stale_before_ms batch_max r =
     sweep_ids stale_sweep_entry stale_before_ms (zbelow id_str (\<lambda>sc. sc \<le> stale_before_ms) batch_max (rd_active r)) r"

definition promote_one :: "int \<Rightarrow> job_id \<Rightarrow> redis \<Rightarrow> unit lua" where
  "promote_one now_ms i r =
     (let priority = unwrap_or (hget h_priority i r) 0;
          q = hget h_queue i r;
          r1 = r\<lparr>rd_delayed := zrem i (rd_delayed r),
                 rd_nq_scheduled := (case named q of None \<Rightarrow> rd_nq_scheduled r | Some n \<Rightarrow> at_key n (zrem i) (rd_nq_scheduled r))\<rparr>;
          r2 = hset i (\<lambda>h. h\<lparr>h_state := Some Pending\<rparr>) r1
      in case q of
           None \<Rightarrow> (r2, Inl concat_error)
         | Some n \<Rightarrow> (make_due n (wait_score priority now_ms) i r2, Inr ()))"

fun promote_ids :: "int \<Rightarrow> job_id list \<Rightarrow> redis \<Rightarrow> nat lua" where
  "promote_ids now_ms [] r = (r, Inr 0)"
| "promote_ids now_ms (i # is) r =
     (case promote_one now_ms i r of
        (r', Inl err) \<Rightarrow> (r', Inl err)
      | (r', Inr _) \<Rightarrow> (case promote_ids now_ms is r' of (s, n) \<Rightarrow> (s, map_sum id Suc n)))"

definition wake_if_any :: "nat lua \<Rightarrow> nat lua" where
  "wake_if_any x =
     (case x of
        (r, Inl err) \<Rightarrow> (r, Inl err)
      | (r, Inr n) \<Rightarrow> (if 0 < n then publish_wakeup (show_nat n) r else r, Inr n))"

definition fn_promote_delayed :: "int \<Rightarrow> nat \<Rightarrow> redis \<Rightarrow> nat lua" where
  "fn_promote_delayed now_ms batch_max r =
     wake_if_any (promote_ids now_ms (zbelow id_str (\<lambda>sc. sc \<le> now_ms) batch_max (rd_delayed r)) r)"

fun reclaim_ids :: "int \<Rightarrow> job_id list \<Rightarrow> redis \<Rightarrow> nat lua" where
  "reclaim_ids now_ms [] r = (r, Inr 0)"
| "reclaim_ids now_ms (i # is) r =
     (if hget h_state i r = Some Running then
        (case recover_run force_reclaim_entry now_ms i r of
           (r', Inl err) \<Rightarrow> (r', Inl err)
         | (r', Inr _) \<Rightarrow> (case reclaim_ids now_ms is r' of (s, n) \<Rightarrow> (s, map_sum id Suc n)))
      else reclaim_ids now_ms is r)"

definition fn_reclaim_in_flight :: "int \<Rightarrow> job_id list \<Rightarrow> redis \<Rightarrow> nat lua" where
  "fn_reclaim_in_flight now_ms ids r = wake_if_any (reclaim_ids now_ms ids r)"

section \<open>Cancel\<close>

definition fn_cancel :: "job_id \<Rightarrow> int \<Rightarrow> redis \<Rightarrow> nat lua" where
  "fn_cancel i now_ms r =
     (let q = hget h_queue i r;
          taken = (case hget h_state i r of
                     Some Pending \<Rightarrow>
                       (case q of None \<Rightarrow> Some (Inl concat_error)
                                | Some n \<Rightarrow> Some (Inr (r\<lparr>rd_wait := at_key n (zrem i) (rd_wait r)\<rparr>)))
                   | Some Scheduled \<Rightarrow>
                       Some (Inr (r\<lparr>rd_delayed := zrem i (rd_delayed r),
                         rd_nq_scheduled := (case named q of None \<Rightarrow> rd_nq_scheduled r
                                             | Some n \<Rightarrow> at_key n (zrem i) (rd_nq_scheduled r))\<rparr>))
                   | _ \<Rightarrow> None)
      in case taken of
           None \<Rightarrow> (r, Inr 0)
         | Some (Inl err) \<Rightarrow> (r, Inl err)
         | Some (Inr r1) \<Rightarrow>
             (let r2 = hset i (\<lambda>h. h\<lparr>h_state := Some Cancelled, h_cancelled_at := Some now_ms\<rparr>) r1
              in (add_both CleanCancelled (named q) now_ms i (release_unique i r2), Inr 1)))"

section \<open>Leader\<close>

text \<open>The key expires on the server's clock \<open>clk\<close>. \<open>SET ... PX 0\<close> is an error, \<open>PEXPIRE ... 0\<close> deletes the key.\<close>

definition leader_at :: "int \<Rightarrow> string \<Rightarrow> redis \<Rightarrow> uuid option" where
  "leader_at clk role r = (case rd_leader r role of Some (w, expires) \<Rightarrow> if clk < expires then Some w else None | None \<Rightarrow> None)"

definition fn_leader_try :: "int \<Rightarrow> uuid \<Rightarrow> nat \<Rightarrow> string \<Rightarrow> redis \<Rightarrow> nat lua" where
  "fn_leader_try clk worker lease role r =
     (case leader_at clk role r of
        None \<Rightarrow>
          if lease = 0 then (r, Inl ''invalid expire time'')
          else (r\<lparr>rd_leader := (rd_leader r)(role \<mapsto> (worker, clk + int lease * 1000))\<rparr>, Inr 1)
      | Some w \<Rightarrow>
          if w = worker
          then (r\<lparr>rd_leader := (rd_leader r)(role := (if lease = 0 then None else Some (worker, clk + int lease * 1000)))\<rparr>, Inr 1)
          else (r, Inr 0))"

definition fn_leader_resign :: "int \<Rightarrow> uuid \<Rightarrow> string \<Rightarrow> redis \<Rightarrow> redis \<times> nat" where
  "fn_leader_resign clk worker role r =
     (if leader_at clk role r = Some worker
      then (r\<lparr>rd_leader := (rd_leader r)(role := None), rd_published := rd_published r @ [(''resign'', role)]\<rparr>, 1)
      else (r, 0))"

section \<open>Cleanup\<close>

text \<open>Age victims first, then the oldest beyond the newest \<open>count\<close>, at most \<open>limit\<close> in all; a negative age or count is
  no rule.\<close>

definition cleanup_victims :: "int \<Rightarrow> int \<Rightarrow> int \<Rightarrow> nat \<Rightarrow> job_id zset \<Rightarrow> job_id list" where
  "cleanup_victims now_ms age_secs keep_n limit z =
     (let aged = (if 0 \<le> age_secs then zbelow id_str (\<lambda>sc. sc < now_ms - age_secs * 1000) limit z else []);
          want = min (int (zcard z) - keep_n) (int limit);
          surplus = (if 0 \<le> keep_n \<and> length aged < limit \<and> 0 < want then take (nat want) (zrange id_str z) else [])
      in take limit (aged @ filter (\<lambda>i. i \<notin> set aged) surplus))"

definition sweep_finalized :: "clean_state \<Rightarrow> int \<Rightarrow> int \<Rightarrow> int \<Rightarrow> nat \<Rightarrow> redis \<Rightarrow> redis \<times> nat" where
  "sweep_finalized st now_ms age_secs keep_n limit r =
     (if age_secs < 0 \<and> keep_n < 0 then (r, 0)
      else
        (let victims = cleanup_victims now_ms age_secs keep_n limit (fin_set st r);
             step = (\<lambda>i r. let q = hget h_queue i r; r1 = fin_upd st (zrem i) (delete_job i r)
                       in case named q of None \<Rightarrow> r1 | Some n \<Rightarrow> fin_nq_upd st n (zrem i) r1)
         in (fold step victims r, length victims)))"

definition fn_cleanup :: "int \<Rightarrow> int \<times> int \<times> int \<Rightarrow> int \<times> int \<times> int \<Rightarrow> nat \<Rightarrow> redis \<Rightarrow> redis \<times> (nat \<times> nat \<times> nat)" where
  "fn_cleanup now_ms ages counts limit0 r =
     (let limit = (if limit0 = 0 then 500 else limit0);
          (age_c, age_f, age_x) = ages; (cnt_c, cnt_f, cnt_x) = counts;
          (r1, n_c) = sweep_finalized CleanCompleted now_ms age_c cnt_c limit r;
          (r2, n_f) = sweep_finalized CleanFailed now_ms age_f cnt_f limit r1;
          (r3, n_x) = sweep_finalized CleanCancelled now_ms age_x cnt_x limit r2
      in (r3, (n_c, n_f, n_x)))"

end
