(* ===== verification/Redis_Admin.thy ===== *)
theory Redis_Admin
  imports Redis_Settle "HOL-Library.AList"
begin

text \<open>
  Administration and reading in \<open>library.lua\<close>: groups, group rules, named queues, schedules, statistics, listings, and the
  backfill of the per-queue mirrors.
\<close>

section \<open>Groups\<close>

definition set_gmeta :: "string \<Rightarrow> (gmeta \<Rightarrow> gmeta) \<Rightarrow> redis \<Rightarrow> redis" where
  "set_gmeta k f r =
     r\<lparr>rd_gmeta := (rd_gmeta r)(k \<mapsto> f (unwrap_or (rd_gmeta r k) empty_gmeta)), rd_groups := List.insert k (rd_groups r)\<rparr>"

definition fn_group_set_concurrency :: "string \<Rightarrow> int \<Rightarrow> redis \<Rightarrow> redis" where
  "fn_group_set_concurrency k mx = set_gmeta k (\<lambda>m. m\<lparr>gm_max_concurrency := Some mx\<rparr>)"

definition fn_group_set_paused :: "string \<Rightarrow> bool \<Rightarrow> redis \<Rightarrow> redis" where
  "fn_group_set_paused k paused = set_gmeta k (\<lambda>m. m\<lparr>gm_paused := Some paused\<rparr>)"

definition fn_group_set_rate :: "string \<Rightarrow> int \<Rightarrow> int \<Rightarrow> int \<Rightarrow> redis \<Rightarrow> redis" where
  "fn_group_set_rate k n period_ms now_ms =
     set_gmeta k (\<lambda>m. m\<lparr>gm_rate_count := Some n, gm_rate_period_ms := Some period_ms, gm_tokens := Some (real_of_int n),
       gm_refilled_at := Some now_ms\<rparr>)"

text \<open>A hash without fields does not exist.\<close>

definition fn_group_clear_rate :: "string \<Rightarrow> redis \<Rightarrow> redis" where
  "fn_group_clear_rate k r =
     r\<lparr>rd_gmeta := (rd_gmeta r)(k :=
          (case rd_gmeta r k of
             None \<Rightarrow> None
           | Some m \<Rightarrow>
               (let m' = m\<lparr>gm_rate_count := None, gm_rate_period_ms := None, gm_tokens := None, gm_refilled_at := None\<rparr>
                in if m' = empty_gmeta then None else Some m')))\<rparr>"

text \<open>The reply: the key, the number of running jobs and the normalized fields.\<close>

definition fn_group_get :: "string \<Rightarrow> redis \<Rightarrow> (string \<times> nat \<times> gview) option" where
  "fn_group_get k r = map_option (\<lambda>m. (k, zcard (rd_group_running r k), m)) (read_group_meta (opt_str k) r)"

definition fn_group_list :: "redis \<Rightarrow> (string \<times> nat \<times> gview) list" where
  "fn_group_list r = List.map_filter (\<lambda>k. fn_group_get k r) (rd_groups r)"

section \<open>Group rules\<close>

definition fn_group_set_rule :: "string \<Rightarrow> rrule \<Rightarrow> redis \<Rightarrow> redis" where
  "fn_group_set_rule pattern rule r = r\<lparr>rd_rules := AList.update pattern rule (rd_rules r)\<rparr>"

definition fn_group_remove_rule :: "string \<Rightarrow> redis \<Rightarrow> redis \<times> nat" where
  "fn_group_remove_rule pattern r =
     (r\<lparr>rd_rules := AList.delete pattern (rd_rules r)\<rparr>, if pattern \<in> fst ` set (rd_rules r) then 1 else 0)"

definition fn_group_list_rules :: "redis \<Rightarrow> (string \<times> rrule) list" where
  "fn_group_list_rules r = rd_rules r"

section \<open>Named queues\<close>

definition set_nqmeta :: "string \<Rightarrow> (nqmeta \<Rightarrow> nqmeta) \<Rightarrow> redis \<Rightarrow> redis" where
  "set_nqmeta name f r =
     r\<lparr>rd_nqmeta := (rd_nqmeta r)(name \<mapsto> f (unwrap_or (rd_nqmeta r name) empty_nqmeta)), rd_nqs := List.insert name (rd_nqs r)\<rparr>"

definition fn_queue_set_concurrency :: "string \<Rightarrow> int \<Rightarrow> redis \<Rightarrow> redis" where
  "fn_queue_set_concurrency name mx = set_nqmeta name (\<lambda>m. m\<lparr>nm_max_concurrency := Some mx\<rparr>)"

definition fn_queue_set_paused :: "string \<Rightarrow> bool \<Rightarrow> redis \<Rightarrow> redis" where
  "fn_queue_set_paused name paused = set_nqmeta name (\<lambda>m. m\<lparr>nm_paused := Some paused\<rparr>)"

definition fn_queue_set_timeout :: "string \<Rightarrow> int \<Rightarrow> redis \<Rightarrow> redis" where
  "fn_queue_set_timeout name timeout r =
     (if timeout < 0
      then r\<lparr>rd_nqmeta := (rd_nqmeta r)(name :=
             (case rd_nqmeta r name of
                None \<Rightarrow> None
              | Some m \<Rightarrow>
                  (let m' = m\<lparr>nm_default_timeout_ms := None\<rparr> in if m' = empty_nqmeta then None else Some m')))\<rparr>
      else set_nqmeta name (\<lambda>m. m\<lparr>nm_default_timeout_ms := Some timeout\<rparr>) r)"

definition fn_queue_get :: "string \<Rightarrow> redis \<Rightarrow> (string \<times> nat \<times> nqview) option" where
  "fn_queue_get name r = map_option (\<lambda>m. (name, zcard (rd_nq_running r name), m)) (read_nq_meta name r)"

definition fn_queue_list :: "redis \<Rightarrow> (string \<times> nat \<times> nqview) list" where
  "fn_queue_list r = List.map_filter (\<lambda>n. fn_queue_get n r) (rd_nqs r)"

section \<open>Schedules\<close>

definition fn_schedule_upsert :: "string \<Rightarrow> rsched \<Rightarrow> redis \<Rightarrow> redis" where
  "fn_schedule_upsert name e r =
     (let last_run = (case map_of (rd_schedules r) name of None \<Rightarrow> 0 | Some p \<Rightarrow> rs_last_run_at_ms p)
      in r\<lparr>rd_schedules := AList.update name (e\<lparr>rs_last_run_at_ms := last_run\<rparr>) (rd_schedules r),
           rd_schedule_idx := List.insert name (rd_schedule_idx r),
           rd_schedule_next := (if rs_enabled e then zadd (rs_next_run_at_ms e) name (rd_schedule_next r)
                                else zrem name (rd_schedule_next r))\<rparr>)"

definition fn_schedule_remove :: "string \<Rightarrow> redis \<Rightarrow> redis \<times> nat" where
  "fn_schedule_remove name r =
     (r\<lparr>rd_schedules := AList.delete name (rd_schedules r), rd_schedule_idx := removeAll name (rd_schedule_idx r),
        rd_schedule_next := zrem name (rd_schedule_next r)\<rparr>,
      if name \<in> fst ` set (rd_schedules r) then 1 else 0)"

definition fn_schedule_set_enabled :: "string \<Rightarrow> bool \<Rightarrow> int \<Rightarrow> redis \<Rightarrow> redis \<times> nat" where
  "fn_schedule_set_enabled name enabled next_ms r =
     (case map_of (rd_schedules r) name of
        None \<Rightarrow> (r, 0)
      | Some e \<Rightarrow>
          if enabled
          then (r\<lparr>rd_schedules := AList.update name (e\<lparr>rs_enabled := True, rs_next_run_at_ms := next_ms\<rparr>) (rd_schedules r),
                  rd_schedule_next := zadd next_ms name (rd_schedule_next r)\<rparr>, 1)
          else (r\<lparr>rd_schedules := AList.update name (e\<lparr>rs_enabled := False\<rparr>) (rd_schedules r),
                  rd_schedule_next := zrem name (rd_schedule_next r)\<rparr>, 1))"

definition fn_schedule_list :: "redis \<Rightarrow> (string \<times> rsched) list" where
  "fn_schedule_list r = rd_schedules r"

definition fn_schedule_due_list :: "int \<Rightarrow> nat \<Rightarrow> redis \<Rightarrow> (string \<times> rsched) list" where
  "fn_schedule_due_list now_ms batch_max r =
     List.map_filter (\<lambda>n. map_option (Pair n) (map_of (rd_schedules r) n))
       (zbelow id (\<lambda>sc. sc \<le> now_ms) batch_max (rd_schedule_next r))"

definition fire_hash :: "schedule \<Rightarrow> int \<Rightarrow> rhash \<Rightarrow> rhash" where
  "fire_hash sch now_ms h =
     h\<lparr>h_kind := Some (s_kind sch), h_payload := Some (s_payload sch), h_priority := Some (s_priority sch),
       h_max_attempts := Some (s_max_attempts sch), h_attempt := Some 0, h_stalled_count := Some 0,
       h_max_stalled_count := Some 1, h_state := Some Pending, h_queue := Some (s_queue sch), h_group_key := None,
       h_unique_key := None, h_tags := Some [], h_metadata := Some (JObject []), h_remove_on_complete := None,
       h_remove_on_fail := None, h_scheduled_at := Some now_ms, h_created_at := Some now_ms\<rparr>"

text \<open>Name, kind, payload, priority, attempts and queue are those the caller read (\<open>sch\<close>); the stored entry is re-read for
  the update. \<open>None\<close>: the schedule is gone.\<close>

definition fn_schedule_fire :: "schedule \<Rightarrow> int \<Rightarrow> int \<Rightarrow> redis \<Rightarrow> redis \<times> job_id option" where
  "fn_schedule_fire sch now_ms next_ms r =
     (case map_of (rd_schedules r) (s_name sch) of
        None \<Rightarrow> (r, None)
      | Some stored \<Rightarrow>
          (let i = rd_idgen r + 1;
               r1 = index_job (s_queue sch) (s_kind sch) i (hset i (fire_hash sch now_ms) (r\<lparr>rd_idgen := i\<rparr>));
               r2 = publish_wakeup (id_str i) (make_due (s_queue sch) (wait_score (s_priority sch) now_ms) i r1)
           in (r2\<lparr>rd_schedules := AList.update (s_name sch) (stored\<lparr>rs_last_run_at_ms := now_ms, rs_next_run_at_ms := next_ms\<rparr>)
                    (rd_schedules r2),
                  rd_schedule_next := zadd next_ms (s_name sch) (rd_schedule_next r2)\<rparr>, Some i)))"

definition fn_schedule_sync_diff :: "string list \<Rightarrow> redis \<Rightarrow> string list" where
  "fn_schedule_sync_diff keep r = filter (\<lambda>n. n \<notin> set keep) (rd_schedule_idx r)"

section \<open>Statistics and listings\<close>

definition stat_line :: "string \<Rightarrow> string \<Rightarrow> nat \<Rightarrow> string list" where
  "stat_line q st n = (if n = 0 then [] else [q @ ''|'' @ st @ ''|'' @ show_nat n])"

definition queue_stats :: "redis \<Rightarrow> string \<Rightarrow> string list" where
  "queue_stats r q =
     stat_line q ''pending'' (zcard (rd_wait r q)) @ stat_line q ''running'' (zcard (rd_nq_running r q)) @
     stat_line q ''scheduled'' (zcard (rd_nq_scheduled r q)) @ stat_line q ''completed'' (zcard (rd_nq_completed r q)) @
     stat_line q ''failed'' (zcard (rd_nq_failed r q)) @ stat_line q ''cancelled'' (zcard (rd_nq_cancelled r q))"

text \<open>Entries of a global set that no mirror accounts for.\<close>

definition remainder :: "redis \<Rightarrow> (string \<Rightarrow> job_id zset) \<Rightarrow> job_id zset \<Rightarrow> nat" where
  "remainder r mirror z = zcard z - sum_list (map (\<lambda>q. zcard (mirror q)) (rd_queues_seen r))"

definition fn_get_stats :: "redis \<Rightarrow> string list" where
  "fn_get_stats r =
     concat (map (queue_stats r) (rd_queues_seen r)) @
     stat_line ''_global'' ''scheduled'' (remainder r (rd_nq_scheduled r) (rd_delayed r)) @
     stat_line ''_global'' ''completed'' (remainder r (rd_nq_completed r) (rd_completed r)) @
     stat_line ''_global'' ''failed'' (remainder r (rd_nq_failed r) (rd_failed r)) @
     stat_line ''_global'' ''cancelled'' (remainder r (rd_nq_cancelled r) (rd_cancelled r))"

definition zrevrange :: "job_id zset \<Rightarrow> job_id list" where
  "zrevrange z = rev (zrange id_str z)"

definition page_of :: "nat \<Rightarrow> nat \<Rightarrow> 'a list \<Rightarrow> 'a list" where
  "page_of offset limit xs = take limit (drop offset xs)"

fun state_set :: "job_state \<Rightarrow> redis \<Rightarrow> job_id zset" where
  "state_set Running r = rd_active r"
| "state_set Scheduled r = rd_delayed r"
| "state_set Completed r = rd_completed r"
| "state_set Failed r = rd_failed r"
| "state_set Cancelled r = rd_cancelled r"
| "state_set Pending r = []"

text \<open>\<open>None\<close> as state is \<open>any\<close>; an empty queue is no constraint. The limit is capped again here.\<close>

definition fn_list_jobs :: "job_state option \<Rightarrow> string \<Rightarrow> nat \<Rightarrow> nat \<Rightarrow> redis \<Rightarrow> nat \<times> job_id list" where
  "fn_list_jobs st queue offset limit0 r =
     (let limit = min (max limit0 1) 500;
          waiting = (\<lambda>q. zrevrange (rd_wait r q)) in
      case st of
        Some Pending \<Rightarrow>
          if queue \<noteq> [] then (zcard (rd_wait r queue), page_of offset limit (waiting queue))
          else (sum_list (map (\<lambda>q. zcard (rd_wait r q)) (rd_queues_seen r)),
                page_of offset limit (concat (map waiting (rd_queues_seen r))))
      | Some s \<Rightarrow>
          (zcard (state_set s r),
           filter (\<lambda>i. queue = [] \<or> hget h_queue i r = Some queue) (page_of offset limit (zrevrange (state_set s r))))
      | None \<Rightarrow>
          (let pools = map (\<lambda>s. state_set s r) [Running, Scheduled, Completed, Failed, Cancelled] @ map (rd_wait r) (rd_queues_seen r)
           in (sum_list (map zcard pools),
               page_of offset limit (concat (map (\<lambda>z. take (offset + limit) (zrevrange z)) pools)))))"

section \<open>Backfill\<close>

text \<open>\<open>ZADD ... NX\<close> into the mirror of the job's queue.\<close>

definition backfill_one ::
  "(redis \<Rightarrow> string \<Rightarrow> job_id zset) \<Rightarrow> (string \<Rightarrow> (job_id zset \<Rightarrow> job_id zset) \<Rightarrow> redis \<Rightarrow> redis) \<Rightarrow> job_id \<times> int \<Rightarrow> redis \<times> nat \<Rightarrow> redis \<times> nat" where
  "backfill_one mirror upd e acc =
     (case (e, acc) of ((i, score), (r, n)) \<Rightarrow>
      case named (hget h_queue i r) of
        None \<Rightarrow> (r, n)
      | Some q \<Rightarrow>
          if i \<in> zmem (mirror r q) then (r, n)
          else (let r' = upd q (zadd score i) r in (r'\<lparr>rd_queues_seen := List.insert q (rd_queues_seen r')\<rparr>, n + 1)))"

definition nq_scheduled_upd :: "string \<Rightarrow> (job_id zset \<Rightarrow> job_id zset) \<Rightarrow> redis \<Rightarrow> redis" where
  "nq_scheduled_upd q f r = r\<lparr>rd_nq_scheduled := at_key q f (rd_nq_scheduled r)\<rparr>"

definition fn_backfill_nq_states :: "nat \<Rightarrow> redis \<Rightarrow> redis \<times> nat" where
  "fn_backfill_nq_states limit0 r =
     (let limit = (if limit0 = 0 then 5000 else limit0);
          walk_set = (\<lambda>sel mirror upd acc. fold (backfill_one mirror upd) (take limit (zsorted id_str (sel (fst acc)))) acc)
      in walk_set rd_cancelled (fin_nq CleanCancelled) (fin_nq_upd CleanCancelled)
           (walk_set rd_failed (fin_nq CleanFailed) (fin_nq_upd CleanFailed)
              (walk_set rd_completed (fin_nq CleanCompleted) (fin_nq_upd CleanCompleted)
                 (walk_set rd_delayed rd_nq_scheduled nq_scheduled_upd (r, 0)))))"

end
