(* ===== verification/Redis_Wire.thy ===== *)
theory Redis_Wire
  imports Redis_Admin Runtime
begin

text \<open>
  The client side of the wire in \<open>crates/eddyq-redis/src/backend.rs\<close> and \<open>bootstrap.rs\<close>: replies as \<open>redis::Value\<close>s and
  their parsers, the conversion of hashes and entries to the types of the core crate, and the call with its lazy reload
  of the function library. Replies whose numbers may be fractions or that are JSON objects (groups, queues, rules,
  schedules, claimed jobs) are the values themselves; the parsers then only convert ranges and defaults.
  \<open>from_utf8_lossy\<close> is the identity on the strings the functions return.
\<close>

section \<open>Decimal numbers\<close>

definition digit_of :: "char \<Rightarrow> nat option" where
  "digit_of c = (let n = (of_char c :: nat) in if 48 \<le> n \<and> n \<le> 57 then Some (n - 48) else None)"

fun digits_value :: "nat \<Rightarrow> string \<Rightarrow> nat option" where
  "digits_value acc [] = Some acc"
| "digits_value acc (c # cs) = (case digit_of c of None \<Rightarrow> None | Some d \<Rightarrow> digits_value (acc * 10 + d) cs)"

definition parse_unsigned :: "string \<Rightarrow> nat option" where
  "parse_unsigned s = (if s = [] then None else digits_value 0 s)"

text \<open>\<open>str::parse\<close> of a signed integer type with the given bounds: a sign is optional, the value has to fit.\<close>

definition parse_signed :: "int \<Rightarrow> int \<Rightarrow> string \<Rightarrow> int option" where
  "parse_signed lo hi s =
     (let v = (case s of
                 [] \<Rightarrow> None
               | c # cs \<Rightarrow>
                   if c = CHR ''-'' then map_option (\<lambda>n. - int n) (parse_unsigned cs)
                   else if c = CHR ''+'' then map_option int (parse_unsigned cs)
                   else map_option int (parse_unsigned s))
      in case v of Some n \<Rightarrow> if lo \<le> n \<and> n \<le> hi then Some n else None | None \<Rightarrow> None)"

definition parse_i64 :: "string \<Rightarrow> int option" where
  "parse_i64 = parse_signed (- i64_max - 1) i64_max"

definition fits :: "int \<Rightarrow> int \<Rightarrow> int \<Rightarrow> int option" where
  "fits lo hi n = (if lo \<le> n \<and> n \<le> hi then Some n else None)"

definition as_i32 :: "int \<Rightarrow> int option" where
  "as_i32 = fits (- i32_max - 1) i32_max"

section \<open>Values\<close>

datatype rvalue = RNil | RInt int | RBulk string | RSimple string | RArray "rvalue list" | ROther

definition redis_to_string :: "rvalue \<Rightarrow> string option" where
  "redis_to_string v =
     (case v of RBulk s \<Rightarrow> Some s | RSimple s \<Rightarrow> Some s | RInt i \<Rightarrow> Some (id_str i) | _ \<Rightarrow> None)"

definition parse_u64 :: "string \<Rightarrow> nat option" where
  "parse_u64 s =
     (case parse_signed 0 (int u64_max) s of Some n \<Rightarrow> Some (nat n) | None \<Rightarrow> None)"

definition value_to_u64 :: "rvalue \<Rightarrow> nat" where
  "value_to_u64 v =
     (case v of
        RInt i \<Rightarrow> nat (max i 0)
      | RBulk s \<Rightarrow> unwrap_or (parse_u64 s) 0
      | RSimple s \<Rightarrow> unwrap_or (parse_u64 s) 0
      | _ \<Rightarrow> 0)"

definition protocol_error :: "string \<Rightarrow> error" where
  "protocol_error msg = Backend (''backend protocol error: '' @ msg)"

definition redis_error :: "string \<Rightarrow> error" where
  "redis_error msg = Backend (''redis error: '' @ msg)"

text \<open>What \<open>fn_enqueue\<close> returns, and how it is read.\<close>

definition enqueue_reply :: "job_id option \<Rightarrow> rvalue" where
  "enqueue_reply x =
     (case x of Some i \<Rightarrow> RArray [RBulk ''inserted'', RBulk (id_str i)] | None \<Rightarrow> RArray [RBulk ''skipped''])"

definition parse_enqueue_reply :: "rvalue \<Rightarrow> enqueue_result res" where
  "parse_enqueue_reply v =
     (case v of
        RArray arr \<Rightarrow>
          (let tag = (case arr of RBulk b # _ \<Rightarrow> Some b | RSimple s # _ \<Rightarrow> Some s | _ \<Rightarrow> None)
           in if tag = None then Inl (protocol_error ''missing tag in enqueue reply'')
              else if tag = Some ''inserted'' then
                (case arr of
                   _ # v2 # _ \<Rightarrow>
                     (case redis_to_string v2 of
                        None \<Rightarrow> Inl (protocol_error ''unexpected id shape'')
                      | Some s \<Rightarrow> (case parse_i64 s of None \<Rightarrow> Inl (protocol_error (''bad id '' @ s)) | Some i \<Rightarrow> Inr (Inserted i)))
                 | _ \<Rightarrow> Inl (protocol_error ''missing id after inserted''))
              else if tag = Some ''skipped'' then Inr Skipped
              else Inl (protocol_error (''unknown enqueue tag: '' @ the tag)))
      | _ \<Rightarrow> Inl (protocol_error ''expected array from enqueue''))"

definition enqueue_many_reply :: "job_id option list \<Rightarrow> rvalue" where
  "enqueue_many_reply xs =
     RArray (concat (map (\<lambda>x. case x of Some i \<Rightarrow> [RBulk ''inserted'', RBulk (id_str i)]
                                   | None \<Rightarrow> [RBulk ''skipped'', RBulk ''0'']) xs))"

fun count_tags :: "nat \<Rightarrow> nat \<Rightarrow> rvalue list \<Rightarrow> bulk_enqueue_result res" where
  "count_tags ins skp (tag # _ # rest) =
     (case (case tag of RBulk b \<Rightarrow> Some b | RSimple s \<Rightarrow> Some s | _ \<Rightarrow> None) of
        None \<Rightarrow> Inl (protocol_error ''unexpected tag'')
      | Some s \<Rightarrow> count_tags (if s = ''inserted'' then ins + 1 else ins) (if s = ''skipped'' then skp + 1 else skp) rest)"
| "count_tags ins skp _ = Inr \<lparr>inserted = ins, skipped = skp\<rparr>"

definition parse_enqueue_many_reply :: "rvalue \<Rightarrow> bulk_enqueue_result res" where
  "parse_enqueue_many_reply v =
     (case v of RArray arr \<Rightarrow> count_tags 0 0 arr | _ \<Rightarrow> Inl (protocol_error ''expected array from enqueue_many''))"

section \<open>Statistics and listings\<close>

fun split_at_bar :: "string \<Rightarrow> string \<times> string option" where
  "split_at_bar [] = ([], None)"
| "split_at_bar (c # cs) =
     (if c = CHR ''|'' then ([], Some cs) else (case split_at_bar cs of (a, b) \<Rightarrow> (c # a, b)))"

text \<open>\<open>splitn(3, '|')\<close>\<close>

definition splitn3 :: "string \<Rightarrow> (string \<times> string \<times> string) option" where
  "splitn3 s =
     (case split_at_bar s of
        (a, Some rest) \<Rightarrow> (case split_at_bar rest of (b, Some c) \<Rightarrow> Some (a, b, c) | (b, None) \<Rightarrow> None)
      | (a, None) \<Rightarrow> None)"

definition parse_stat_line :: "string \<Rightarrow> queue_state_count option" where
  "parse_stat_line s =
     (case splitn3 s of
        None \<Rightarrow> None
      | Some (q, st, n) \<Rightarrow>
          map_option (\<lambda>st. \<lparr>qs_queue = q, qs_state = st, qs_count = unwrap_or (parse_i64 n) 0\<rparr>) (parse_state st))"

definition parse_stats_reply :: "rvalue \<Rightarrow> queue_state_count list" where
  "parse_stats_reply v =
     (case v of
        RArray es \<Rightarrow> List.map_filter (\<lambda>e. Option.bind (redis_to_string e) parse_stat_line) es
      | _ \<Rightarrow> [])"

definition list_reply :: "nat \<times> job_id list \<Rightarrow> rvalue" where
  "list_reply x = (case x of (n, ids) \<Rightarrow> RArray (RBulk (show_nat n) # map (\<lambda>i. RBulk (id_str i)) ids))"

definition parse_list_jobs_reply :: "rvalue \<Rightarrow> int \<times> job_id list" where
  "parse_list_jobs_reply v =
     (case v of
        RArray (t # vs) \<Rightarrow>
          (unwrap_or (Option.bind (redis_to_string t) parse_i64) 0,
           List.map_filter (\<lambda>v. Option.bind (redis_to_string v) parse_i64) vs)
      | _ \<Rightarrow> (0, []))"

definition ms_to_dt :: "int \<Rightarrow> timestamp" where
  "ms_to_dt ms = ms * 1000"

definition or_first :: "'a option \<Rightarrow> 'a option \<Rightarrow> 'a option" where
  "or_first a b = (case a of None \<Rightarrow> b | Some _ \<Rightarrow> a)"

definition hash_to_job_row :: "timestamp \<Rightarrow> job_id \<Rightarrow> rhash \<Rightarrow> job_row" where
  "hash_to_job_row utc i h =
     \<lparr>jr_id = i, jr_queue = unwrap_or (h_queue h) [], jr_kind = unwrap_or (h_kind h) [],
      jr_state = (case h_state h of None \<Rightarrow> [] | Some st \<Rightarrow> as_str st),
      jr_priority = unwrap_or (h_priority h) 0, jr_attempt = unwrap_or (h_attempt h) 0,
      jr_max_attempts = unwrap_or (h_max_attempts h) 3,
      jr_scheduled_at = (case h_scheduled_at h of None \<Rightarrow> utc | Some t \<Rightarrow> ms_to_dt t),
      jr_created_at = (case h_created_at h of None \<Rightarrow> utc | Some t \<Rightarrow> ms_to_dt t),
      jr_finalized_at = map_option ms_to_dt (or_first (h_completed_at h) (or_first (h_failed_at h) (h_cancelled_at h))),
      jr_group_key = h_group_key h, jr_tags = unwrap_or (h_tags h) [], jr_payload = unwrap_or (h_payload h) JNull,
      jr_result = h_result h, jr_errors = [], jr_metadata = unwrap_or (h_metadata h) (JObject [])\<rparr>"

definition filter_matches :: "list_jobs_filter \<Rightarrow> job_row \<Rightarrow> bool" where
  "filter_matches f row \<longleftrightarrow>
     wanted (lf_kind f) (\<lambda>k. jr_kind row = k) \<and> wanted (lf_group_key f) (\<lambda>g. jr_group_key row = Some g) \<and>
     wanted (lf_tag f) (\<lambda>t. t \<in> set (jr_tags row)) \<and> wanted (lf_before_created_at f) (\<lambda>t. jr_created_at row < t)"

section \<open>Groups, rules, queues\<close>

definition parse_group_reply :: "timestamp \<Rightarrow> string \<times> nat \<times> gview \<Rightarrow> group" where
  "parse_group_reply utc x =
     (case x of (k, n_running, m) \<Rightarrow>
      (let raw_max = unwrap_or (as_i32 (gv_max_concurrency m)) (- 1);
           rate_raw = unwrap_or (as_i32 (gv_rate_count m)) (- 1)
       in \<lparr>g_key = k, g_running_count = unwrap_or (as_i32 (int n_running)) 0,
           g_max_concurrency = (if raw_max < 0 then unlimited else raw_max), g_paused = gv_paused m,
           g_rate_count = (if rate_raw < 0 then None else Some rate_raw),
           g_rate_period_ms = (case as_i32 (gv_rate_period_ms m) of Some n \<Rightarrow> if 0 < n then Some n else None | None \<Rightarrow> None),
           g_tokens = gv_tokens m,
           g_tokens_refilled_at = (if 0 < gv_refilled_at m then Some (ms_to_dt (gv_refilled_at m)) else None),
           g_created_at = utc, g_updated_at = utc\<rparr>))"

definition parse_named_queue_reply :: "timestamp \<Rightarrow> string \<times> nat \<times> nqview \<Rightarrow> named_queue" where
  "parse_named_queue_reply utc x =
     (case x of (name, n_running, m) \<Rightarrow>
      (let raw_max = unwrap_or (as_i32 (nv_max_concurrency m)) (- 1);
           raw_timeout = unwrap_or (as_i32 (nv_default_timeout_ms m)) (- 1)
       in \<lparr>q_name = name, q_running_count = unwrap_or (as_i32 (int n_running)) 0,
           q_max_concurrency = (if raw_max < 0 then i32_max else raw_max), q_paused = nv_paused m,
           q_default_timeout_ms = (if raw_timeout < 0 then None else Some raw_timeout),
           q_created_at = utc, q_updated_at = utc\<rparr>))"

text \<open>A rule with a number beyond \<open>i32\<close> does not deserialize and is left out.\<close>

definition fits_i32 :: "int option \<Rightarrow> bool" where
  "fits_i32 x = (case x of None \<Rightarrow> True | Some n \<Rightarrow> as_i32 n \<noteq> None)"

definition parse_rules_reply :: "timestamp \<Rightarrow> (string \<times> rrule) list \<Rightarrow> stored_rule list" where
  "parse_rules_reply utc xs =
     sort_key (\<lambda>s. (- r_priority s, - int (length (r_pattern s)), r_pattern s))
       (map (\<lambda>(p, r). \<lparr>r_pattern = p, r_max_concurrency = rr_max_concurrency r, r_rate_count = rr_rate_count r,
                r_rate_period_ms = rr_rate_period_ms r, r_priority = rr_priority r, r_created_at = utc, r_updated_at = utc\<rparr>)
          (filter (\<lambda>(p, r). fits_i32 (rr_max_concurrency r) \<and> fits_i32 (rr_rate_count r) \<and> fits_i32 (rr_rate_period_ms r)) xs))"

section \<open>Schedules\<close>

definition next_run_ms_or_err :: "cron_crate \<Rightarrow> timestamp \<Rightarrow> string \<Rightarrow> int res" where
  "next_run_ms_or_err cron utc expr = map_sum id (\<lambda>t. t div 1000) (next_fire cron utc expr)"

definition decode_stored :: "string \<Rightarrow> rsched \<Rightarrow> schedule \<times> int" where
  "decode_stored name e =
     (let is_interval = (0 < rs_interval_ms e)
      in (\<lparr>s_name = name, s_kind = rs_kind e, s_payload = rs_payload e,
           s_cron_expr = (if is_interval \<or> rs_cron e = [] then None else Some (rs_cron e)),
           s_interval_ms = (if is_interval then Some (rs_interval_ms e) else None),
           s_next_run_at = ms_to_dt (rs_next_run_at_ms e),
           s_last_run_at = (if 0 < rs_last_run_at_ms e then Some (ms_to_dt (rs_last_run_at_ms e)) else None),
           s_enabled = rs_enabled e, s_priority = rs_priority e, s_max_attempts = rs_max_attempts e,
           s_queue = rs_queue e\<rparr>, rs_interval_ms e))"

definition decode_schedule_entry :: "string \<times> rsched \<Rightarrow> schedule" where
  "decode_schedule_entry x = fst (decode_stored (fst x) (snd x))"

section \<open>Claimed jobs\<close>

text \<open>A job without payload or queue field does not deserialize.\<close>

definition parse_claimed_job :: "claim_entry \<Rightarrow> claimed_job res" where
  "parse_claimed_job e =
     (case (ce_payload e, ce_queue e) of
        (Some payload, Some q) \<Rightarrow>
          Inr \<lparr>cj_id = ce_id e, cj_kind = ce_kind e, cj_payload = payload, cj_attempt = ce_attempt e,
               cj_max_attempts = ce_max_attempts e, cj_stalled_count = ce_stalled_count e,
               cj_max_stalled_count = ce_max_stalled_count e, cj_group_key = ce_group_key e, cj_queue = q,
               cj_worker_id = ce_worker_id e,
               cj_timeout = (case ce_timeout_ms e of Some ms \<Rightarrow> if 0 < ms then Some (from_millis (nat ms)) else None | None \<Rightarrow> None)\<rparr>
      | _ \<Rightarrow> Inl (Backend ''serialization error: invalid type''))"

fun parse_claim_reply :: "claim_entry list \<Rightarrow> claimed_job list res" where
  "parse_claim_reply [] = Inr []"
| "parse_claim_reply (e # es) =
     (case parse_claimed_job e of
        Inl err \<Rightarrow> Inl err
      | Inr j \<Rightarrow> (case parse_claim_reply es of Inl err \<Rightarrow> Inl err | Inr js \<Rightarrow> Inr (j # js)))"

section \<open>Calls\<close>

definition contains_str :: "string \<Rightarrow> string \<Rightarrow> bool" where
  "contains_str pat s \<longleftrightarrow> (\<exists>n \<in> set [0..<Suc (length s)]. take (length pat) (drop n s) = pat)"

definition is_no_function_err :: "string \<Rightarrow> bool" where
  "is_no_function_err msg \<longleftrightarrow>
     contains_str ''Function not found'' msg \<or> contains_str ''no such function'' msg \<or> contains_str ''NOSCRIPT'' msg"

text \<open>\<open>FUNCTION LIST\<close> answered with the code of the loaded library, or with none; \<open>load\<close> is the answer to
  \<open>FUNCTION LOAD REPLACE\<close>. \<open>True\<close>: the library was loaded afresh.\<close>

definition ensure_loaded :: "string \<Rightarrow> string + string option \<Rightarrow> string option \<Rightarrow> string + bool" where
  "ensure_loaded source listed load =
     (case listed of
        Inl err \<Rightarrow> Inl err
      | Inr code \<Rightarrow>
          if code = Some source then Inr False
          else (case load of Some err \<Rightarrow> Inl err | None \<Rightarrow> Inr True))"

text \<open>What a command over the network may come to: answered, refused before the function ran (the connection is down, the
  library is not loaded), or run with the answer lost. A call has a first attempt, an error of the reload, and a second
  attempt.\<close>

datatype outcome = Answered | Refused string | Lost string

record rd_call =
  co_first :: outcome
  co_load :: "string option"
  co_second :: outcome

fun attempt_call :: "outcome \<Rightarrow> (redis \<Rightarrow> 'a lua) \<Rightarrow> redis \<Rightarrow> 'a lua" where
  "attempt_call Answered f r = f r"
| "attempt_call (Refused msg) f r = (r, Inl msg)"
| "attempt_call (Lost msg) f r = (fst (f r), Inl msg)"

definition with_retry :: "rd_call \<Rightarrow> (redis \<Rightarrow> 'a lua) \<Rightarrow> redis \<Rightarrow> redis \<times> 'a res" where
  "with_retry c f r =
     (case attempt_call (co_first c) f r of
        (r', Inr v) \<Rightarrow> (r', Inr v)
      | (r', Inl msg) \<Rightarrow>
          if is_no_function_err msg then
            (case co_load c of
               Some err \<Rightarrow> (r', Inl (redis_error err))
             | None \<Rightarrow>
                 (case attempt_call (co_second c) f r' of
                    (r'', Inr v) \<Rightarrow> (r'', Inr v)
                  | (r'', Inl err) \<Rightarrow> (r'', Inl (redis_error err))))
          else (r', Inl (redis_error msg)))"

definition runs :: "(redis \<Rightarrow> redis \<times> 'a) \<Rightarrow> redis \<Rightarrow> 'a lua" where
  "runs f r = (case f r of (r', x) \<Rightarrow> (r', Inr x))"

definition reads :: "(redis \<Rightarrow> 'a) \<Rightarrow> redis \<Rightarrow> 'a lua" where
  "reads f r = (r, Inr (f r))"

definition writes :: "(redis \<Rightarrow> redis) \<Rightarrow> redis \<Rightarrow> unit lua" where
  "writes f r = (f r, Inr ())"

definition then_parse :: "('a \<Rightarrow> 'b res) \<Rightarrow> redis \<times> 'a res \<Rightarrow> redis \<times> 'b res" where
  "then_parse g x = (case x of (r, Inl err) \<Rightarrow> (r, Inl err) | (r, Inr v) \<Rightarrow> (r, g v))"

end
