(* ===== verification/Redis_Backend.thy ===== *)
theory Redis_Backend
  imports Redis_Wire
begin

text \<open>
  \<open>RedisBackend\<close> of \<open>crates/eddyq-redis/src/backend.rs\<close>: the methods of the trait \<open>Backend\<close>, each with its guards, the
  conversion of its arguments and the function calls it makes. What a call meets besides the store is in a record
  \<open>rd_ctx\<close>: the clocks of the client and of the server, the cron crate, the outcome of the n-th command of the method and
  what other clients do before it. The arguments of a function are the values their decimal or JSON text encodes.
\<close>

section \<open>Context\<close>

record rd_ctx =
  rc_now_ms :: int
  rc_utc :: timestamp
  rc_clk :: int
  rc_cron :: cron_crate
  rc_calls :: "nat \<Rightarrow> rd_call"
  rc_mid :: "nat \<Rightarrow> redis \<Rightarrow> redis"

text \<open>\<open>as i64\<close> and \<open>as u64\<close> keep the low 64 bits.\<close>

definition as_u64 :: "int \<Rightarrow> int" where
  "as_u64 n = n mod 2 ^ 64"

definition wrap_i64 :: "int \<Rightarrow> int" where
  "wrap_i64 n = (n + 2 ^ 63) mod 2 ^ 64 - 2 ^ 63"

definition rd_bind :: "redis \<times> 'a res \<Rightarrow> ('a \<Rightarrow> redis \<Rightarrow> redis \<times> 'b res) \<Rightarrow> redis \<times> 'b res" where
  "rd_bind x g = (case x of (r, Inl err) \<Rightarrow> (r, Inl err) | (r, Inr v) \<Rightarrow> g v r)"

definition rd_map :: "('a \<Rightarrow> 'b) \<Rightarrow> redis \<times> 'a res \<Rightarrow> redis \<times> 'b res" where
  "rd_map g x = (case x of (r, v) \<Rightarrow> (r, map_sum id g v))"

text \<open>The n-th command of a method, after what others did since the one before.\<close>

definition fcall :: "rd_ctx \<Rightarrow> nat \<Rightarrow> (redis \<Rightarrow> 'a lua) \<Rightarrow> redis \<Rightarrow> redis \<times> 'a res" where
  "fcall p n f r = with_retry (rc_calls p n) f (if n = 0 then r else rc_mid p n r)"

text \<open>A plain read, which is not retried.\<close>

definition plain_read :: "rd_ctx \<Rightarrow> nat \<Rightarrow> (redis \<Rightarrow> 'a) \<Rightarrow> redis \<Rightarrow> redis \<times> 'a res" where
  "plain_read p n f r0 =
     (let r = (if n = 0 then r0 else rc_mid p n r0)
      in case co_first (rc_calls p n) of
           Answered \<Rightarrow> (r, Inr (f r))
         | Refused msg \<Rightarrow> (r, Inl (redis_error msg))
         | Lost msg \<Rightarrow> (r, Inl (redis_error msg)))"

text \<open>A function that returns a Lua number, and the count the client reads.\<close>

definition count_reply :: "nat lua \<Rightarrow> rvalue lua" where
  "count_reply x = (case x of (r, v) \<Rightarrow> (r, map_sum id (\<lambda>n. RInt (int n)) v))"

definition count_call :: "rd_ctx \<Rightarrow> nat \<Rightarrow> (redis \<Rightarrow> nat lua) \<Rightarrow> redis \<Rightarrow> redis \<times> nat res" where
  "count_call p n f r = rd_map value_to_u64 (fcall p n (\<lambda>r. count_reply (f r)) r)"

definition rd_caps :: backend_caps where
  "rd_caps = \<lparr>bc_name = ''redis'', bc_transactional_enqueue = False, bc_migrations = False, bc_fast_wakeup = True,
     bc_cancel_running = False, bc_priority_range = (1, 2097152), bc_cluster_safe = True\<rparr>"

section \<open>Enqueue\<close>

definition dyn_to_argv :: "dyn_enqueue \<Rightarrow> enq_args" where
  "dyn_to_argv req =
     \<lparr>ea_kind = d_kind req, ea_payload = d_payload req, ea_priority = d_priority req, ea_max_attempts = d_max_attempts req,
      ea_scheduled_at_ms = (case d_scheduled_at req of None \<Rightarrow> 0 | Some t \<Rightarrow> t div 1000),
      ea_unique_key = unwrap_or (d_unique_key req) [], ea_group_key = unwrap_or (d_group_key req) [],
      ea_queue = d_queue req, ea_tags = d_tags req, ea_metadata = d_metadata req,
      ea_remove_on_complete = d_remove_on_complete req, ea_remove_on_fail = d_remove_on_fail req,
      ea_max_stalled_count = d_max_stalled_count req\<rparr>"

definition rd_enqueue :: "rd_ctx \<Rightarrow> dyn_enqueue \<Rightarrow> redis \<Rightarrow> redis \<times> enqueue_result res" where
  "rd_enqueue p req r =
     then_parse parse_enqueue_reply
       (fcall p 0 (runs (\<lambda>r. map_prod id enqueue_reply (fn_enqueue (rc_now_ms p) (dyn_to_argv req) r))) r)"

definition rd_enqueue_many :: "rd_ctx \<Rightarrow> dyn_enqueue list \<Rightarrow> redis \<Rightarrow> redis \<times> bulk_enqueue_result res" where
  "rd_enqueue_many p reqs r =
     (if reqs = [] then (r, Inr \<lparr>inserted = 0, skipped = 0\<rparr>)
      else then_parse parse_enqueue_many_reply
        (fcall p 0 (runs (\<lambda>r. map_prod id enqueue_many_reply
            (fn_enqueue_many (rc_now_ms p) (map dyn_to_argv reqs) r))) r))"

section \<open>The worker's calls\<close>

definition rd_claim_batch :: "rd_ctx \<Rightarrow> uuid \<Rightarrow> nat \<Rightarrow> string list \<Rightarrow> string list \<Rightarrow> redis \<Rightarrow> redis \<times> claimed_job list res" where
  "rd_claim_batch p worker_id batch_size kinds qs r =
     (if batch_size = 0 \<or> kinds = [] \<or> qs = [] then (r, Inr [])
      else then_parse parse_claim_reply (fcall p 0 (runs (fn_claim batch_size worker_id (rc_now_ms p) qs kinds)) r))"

definition rd_update_heartbeat_batch :: "rd_ctx \<Rightarrow> job_id list \<Rightarrow> redis \<Rightarrow> redis \<times> nat res" where
  "rd_update_heartbeat_batch p ids r =
     (if ids = [] then (r, Inr 0) else count_call p 0 (runs (fn_heartbeat (rc_now_ms p) ids)) r)"

definition rd_mark_completed :: "rd_ctx \<Rightarrow> job_id \<Rightarrow> uuid \<Rightarrow> json option \<Rightarrow> redis \<Rightarrow> redis \<times> unit res" where
  "rd_mark_completed p i worker_id result r =
     rd_map (\<lambda>_. ()) (count_call p 0 (runs (fn_complete i worker_id (rc_now_ms p) result)) r)"

definition rd_mark_failed :: "rd_ctx \<Rightarrow> job_id \<Rightarrow> uuid \<Rightarrow> json \<Rightarrow> timestamp option \<Rightarrow> redis \<Rightarrow> redis \<times> unit res" where
  "rd_mark_failed p i worker_id entry retry_at r =
     (let retry_at_ms = (case retry_at of Some t \<Rightarrow> t div 1000 | None \<Rightarrow> - 1)
      in rd_map (\<lambda>_. ()) (fcall p 0 (fn_fail i worker_id (rc_now_ms p) entry retry_at_ms) r))"

section \<open>Maintenance\<close>

definition rd_sweep_stale :: "rd_ctx \<Rightarrow> duration \<Rightarrow> redis \<Rightarrow> redis \<times> nat res" where
  "rd_sweep_stale p after r =
     count_call p 0 (fn_sweep_stale (wrap_i64 (rc_now_ms p - wrap_i64 (int (as_millis after)))) 256) r"

definition per_state_limit :: nat where "per_state_limit = 500"
definition max_rounds :: nat where "max_rounds = 40"

definition age_to_arg :: "nat option \<Rightarrow> int" where
  "age_to_arg x = (case x of None \<Rightarrow> - 1 | Some s \<Rightarrow> sat_i64 (int s))"

definition count_to_arg :: "int option \<Rightarrow> int" where
  "count_to_arg x = (case x of None \<Rightarrow> - 1 | Some n \<Rightarrow> max n 0)"

definition cleanup_reply :: "nat \<times> nat \<times> nat \<Rightarrow> rvalue" where
  "cleanup_reply x = (case x of (c, f, y) \<Rightarrow> RArray [RBulk (show_nat c), RBulk (show_nat f), RBulk (show_nat y), RBulk ''0''])"

definition nth_u64 :: "rvalue list \<Rightarrow> nat \<Rightarrow> nat" where
  "nth_u64 arr i = (if i < length arr then value_to_u64 (arr ! i) else 0)"

fun cleanup_rounds ::
  "rd_ctx \<Rightarrow> (redis \<Rightarrow> redis \<times> (nat \<times> nat \<times> nat)) \<Rightarrow> nat \<Rightarrow> nat \<Rightarrow> nat \<times> nat \<times> nat \<times> nat \<Rightarrow> redis \<Rightarrow> redis \<times> (nat \<times> nat \<times> nat \<times> nat) res" where
  "cleanup_rounds p f n 0 totals r = (r, Inr totals)"
| "cleanup_rounds p f n (Suc rounds) (t0, t1, t2, t3) r =
     rd_bind (fcall p n (runs (\<lambda>r. map_prod id cleanup_reply (f r))) r)
       (\<lambda>v r'. case v of
          RArray arr \<Rightarrow>
            (let c = nth_u64 arr 0; e = nth_u64 arr 1; x = nth_u64 arr 2;
                 totals = (t0 + c, t1 + e, t2 + x, t3 + nth_u64 arr 3)
             in if c < per_state_limit \<and> e < per_state_limit \<and> x < per_state_limit then (r', Inr totals)
                else cleanup_rounds p f (n + 1) rounds totals r')
        | _ \<Rightarrow> (r', Inr (t0, t1, t2, t3)))"

definition rd_cleanup :: "rd_ctx \<Rightarrow> retention \<Rightarrow> redis \<Rightarrow> redis \<times> (nat \<times> nat \<times> nat \<times> nat) res" where
  "rd_cleanup p ret r =
     (if rt_completed_secs ret = None \<and> rt_failed_secs ret = None \<and> rt_cancelled_secs ret = None \<and>
         rt_completed_count ret = None \<and> rt_failed_count ret = None \<and> rt_cancelled_count ret = None
      then (r, Inr (0, 0, 0, 0))
      else cleanup_rounds p
             (fn_cleanup (rc_now_ms p)
                (age_to_arg (rt_completed_secs ret), age_to_arg (rt_failed_secs ret), age_to_arg (rt_cancelled_secs ret))
                (count_to_arg (rt_completed_count ret), count_to_arg (rt_failed_count ret), count_to_arg (rt_cancelled_count ret))
                per_state_limit) 0 max_rounds (0, 0, 0, 0) r)"

definition rd_clean :: "rd_ctx \<Rightarrow> duration \<Rightarrow> nat \<Rightarrow> clean_state \<Rightarrow> redis \<Rightarrow> redis \<times> nat res" where
  "rd_clean p grace limit st r =
     (if limit = 0 then (r, Inr 0)
      else
        (let g = int (as_secs grace);
             ages = (case st of CleanCompleted \<Rightarrow> (g, - 1, - 1) | CleanFailed \<Rightarrow> (- 1, g, - 1) | CleanCancelled \<Rightarrow> (- 1, - 1, g));
             pick = (case st of CleanCompleted \<Rightarrow> 0 | CleanFailed \<Rightarrow> 1 | CleanCancelled \<Rightarrow> 2)
         in rd_map (\<lambda>v. case v of RArray arr \<Rightarrow> nth_u64 arr pick | _ \<Rightarrow> 0)
              (fcall p 0 (runs (\<lambda>r. map_prod id cleanup_reply (fn_cleanup (rc_now_ms p) ages (- 1, - 1, - 1) limit r))) r)))"

definition rd_reclaim_in_flight :: "rd_ctx \<Rightarrow> job_id list \<Rightarrow> redis \<Rightarrow> redis \<times> nat res" where
  "rd_reclaim_in_flight p ids r =
     (if ids = [] then (r, Inr 0) else count_call p 0 (fn_reclaim_in_flight (rc_now_ms p) ids) r)"

definition promote_delayed_call :: "rd_ctx \<Rightarrow> redis \<Rightarrow> redis \<times> nat res" where
  "promote_delayed_call p = count_call p 0 (fn_promote_delayed (rc_now_ms p) 256)"

definition schedule_fire_call :: "rd_ctx \<Rightarrow> nat \<Rightarrow> schedule \<Rightarrow> int \<Rightarrow> redis \<Rightarrow> redis \<times> unit res" where
  "schedule_fire_call p n sch next_ms r =
     rd_map (\<lambda>_. ()) (fcall p n (runs (fn_schedule_fire sch (rc_now_ms p) next_ms)) r)"

definition next_ms_of :: "rd_ctx \<Rightarrow> schedule \<times> int \<Rightarrow> int res" where
  "next_ms_of p stored =
     (if 0 < snd stored then Inr (rc_now_ms p + snd stored)
      else case s_cron_expr (fst stored) of
             None \<Rightarrow> Inl (Cron (''schedule '' @ s_name (fst stored) @ '' has no cron_expr and no interval_ms (malformed)''))
           | Some expr \<Rightarrow> next_run_ms_or_err (rc_cron p) (rc_utc p) expr)"

fun fire_each :: "rd_ctx \<Rightarrow> nat \<Rightarrow> (string \<times> rsched) list \<Rightarrow> nat \<Rightarrow> redis \<Rightarrow> redis \<times> nat res" where
  "fire_each p n [] fired r = (r, Inr fired)"
| "fire_each p n ((name, e) # es) fired r =
     (let stored = decode_stored name e
      in case next_ms_of p stored of
           Inl err \<Rightarrow> (r, Inl err)
         | Inr next_ms \<Rightarrow>
             rd_bind (schedule_fire_call p n (fst stored) next_ms r) (\<lambda>_. fire_each p (n + 1) es (fired + 1)))"

definition fire_due_schedules :: "rd_ctx \<Rightarrow> redis \<Rightarrow> redis \<times> nat res" where
  "fire_due_schedules p r =
     rd_bind (fcall p 1 (reads (fn_schedule_due_list (rc_now_ms p) 128)) r) (\<lambda>es. fire_each p 2 es 0)"

definition rd_schedule_tick :: "rd_ctx \<Rightarrow> redis \<Rightarrow> redis \<times> nat res" where
  "rd_schedule_tick p r =
     rd_bind (promote_delayed_call p r) (\<lambda>promoted r'. rd_map (\<lambda>fired. promoted + fired) (fire_due_schedules p r'))"

section \<open>Leader and cancel\<close>

definition rd_leader_try_elect :: "rd_ctx \<Rightarrow> uuid \<Rightarrow> string \<Rightarrow> nat \<Rightarrow> redis \<Rightarrow> redis \<times> bool res" where
  "rd_leader_try_elect p worker_id role lease_secs r =
     rd_map (\<lambda>n. n = 1) (count_call p 0 (fn_leader_try (rc_clk p) worker_id lease_secs role) r)"

definition rd_leader_resign :: "rd_ctx \<Rightarrow> uuid \<Rightarrow> string \<Rightarrow> redis \<Rightarrow> redis \<times> unit res" where
  "rd_leader_resign p worker_id role r =
     rd_map (\<lambda>_. ()) (count_call p 0 (runs (fn_leader_resign (rc_clk p) worker_id role)) r)"

definition rd_cancel :: "rd_ctx \<Rightarrow> job_id \<Rightarrow> redis \<Rightarrow> redis \<times> bool res" where
  "rd_cancel p i r = rd_map (\<lambda>n. n = 1) (count_call p 0 (fn_cancel i (rc_now_ms p)) r)"

section \<open>Schedules\<close>

definition schedule_upsert_call ::
  "rd_ctx \<Rightarrow> nat \<Rightarrow> string \<Rightarrow> string \<Rightarrow> string \<Rightarrow> json \<Rightarrow> int \<Rightarrow> int \<Rightarrow> string \<Rightarrow> bool \<Rightarrow> int \<Rightarrow> int \<Rightarrow> redis \<Rightarrow> redis \<times> unit res" where
  "schedule_upsert_call p n name cron_expr kind payload priority max_attempts queue enabled next_run_ms interval_ms r =
     fcall p n (writes (fn_schedule_upsert name
       \<lparr>rs_cron = cron_expr, rs_kind = kind, rs_payload = payload, rs_priority = priority, rs_max_attempts = max_attempts,
        rs_queue = queue, rs_enabled = enabled, rs_last_run_at_ms = 0, rs_next_run_at_ms = next_run_ms,
        rs_interval_ms = interval_ms\<rparr>)) r"

definition upsert_declared :: "rd_ctx \<Rightarrow> nat \<Rightarrow> schedule_declaration \<Rightarrow> int \<Rightarrow> redis \<Rightarrow> redis \<times> unit res" where
  "upsert_declared p n d next_at =
     schedule_upsert_call p n (sd_name d) (sd_cron_expr d) (sd_kind d) (sd_payload d) (sd_priority d) (sd_max_attempts d)
       (sd_queue d) True next_at 0"

definition rd_upsert_schedule_raw :: "rd_ctx \<Rightarrow> schedule_declaration \<Rightarrow> redis \<Rightarrow> redis \<times> unit res" where
  "rd_upsert_schedule_raw p d r =
     (case next_run_ms_or_err (rc_cron p) (rc_utc p) (sd_cron_expr d) of
        Inl err \<Rightarrow> (r, Inl err)
      | Inr next_at \<Rightarrow> upsert_declared p 0 d next_at r)"

definition rd_upsert_interval_schedule_raw ::
  "rd_ctx \<Rightarrow> string \<Rightarrow> int \<Rightarrow> string \<Rightarrow> json \<Rightarrow> int \<Rightarrow> int \<Rightarrow> string \<Rightarrow> redis \<Rightarrow> redis \<times> unit res" where
  "rd_upsert_interval_schedule_raw p name interval_ms kind payload priority max_attempts queue r =
     (if interval_ms \<le> 0 then (r, Inl (InvalidArgument ''interval_ms must be > 0''))
      else schedule_upsert_call p 0 name [] kind payload priority max_attempts queue True (rc_now_ms p + interval_ms) interval_ms r)"

definition remove_schedule_call :: "rd_ctx \<Rightarrow> nat \<Rightarrow> string \<Rightarrow> redis \<Rightarrow> redis \<times> bool res" where
  "remove_schedule_call p n name r = rd_map (\<lambda>k. 0 < k) (count_call p n (runs (fn_schedule_remove name)) r)"

definition rd_remove_schedule :: "rd_ctx \<Rightarrow> string \<Rightarrow> redis \<Rightarrow> redis \<times> bool res" where
  "rd_remove_schedule p = remove_schedule_call p 0"

definition rd_list_schedules :: "rd_ctx \<Rightarrow> redis \<Rightarrow> redis \<times> schedule list res" where
  "rd_list_schedules p r =
     rd_map (\<lambda>es. sort_key s_name (map decode_schedule_entry es)) (fcall p 0 (reads fn_schedule_list) r)"

definition lookup_cron :: "rd_ctx \<Rightarrow> string \<Rightarrow> redis \<Rightarrow> redis \<times> string option res" where
  "lookup_cron p name r =
     rd_map (\<lambda>all. Option.bind (find (\<lambda>s. s_name s = name) all) s_cron_expr) (rd_list_schedules p r)"

definition set_enabled_call :: "rd_ctx \<Rightarrow> nat \<Rightarrow> string \<Rightarrow> bool \<Rightarrow> int \<Rightarrow> redis \<Rightarrow> redis \<times> bool res" where
  "set_enabled_call p n name enabled next_at r =
     rd_map (\<lambda>k. 0 < k) (count_call p n (runs (fn_schedule_set_enabled name enabled next_at)) r)"

definition rd_set_schedule_enabled :: "rd_ctx \<Rightarrow> string \<Rightarrow> bool \<Rightarrow> redis \<Rightarrow> redis \<times> bool res" where
  "rd_set_schedule_enabled p name enabled r =
     (if enabled then
        rd_bind (lookup_cron p name r)
          (\<lambda>c r'. case c of
             None \<Rightarrow> (r', Inr False)
           | Some expr \<Rightarrow>
               (case next_run_ms_or_err (rc_cron p) (rc_utc p) expr of
                  Inl err \<Rightarrow> (r', Inl err)
                | Inr next_at \<Rightarrow> set_enabled_call p 1 name True next_at r'))
      else set_enabled_call p 0 name False 0 r)"

fun rd_prepare :: "rd_ctx \<Rightarrow> schedule_declaration list \<Rightarrow> (schedule_declaration \<times> int) list res" where
  "rd_prepare p [] = Inr []"
| "rd_prepare p (d # ds) =
     (case next_run_ms_or_err (rc_cron p) (rc_utc p) (sd_cron_expr d) of
        Inl (Cron msg) \<Rightarrow> Inl (Cron (sd_name d @ '': '' @ msg))
      | Inl err \<Rightarrow> Inl err
      | Inr next_at \<Rightarrow> map_sum id (\<lambda>rest. (d, next_at) # rest) (rd_prepare p ds))"

fun upsert_each :: "rd_ctx \<Rightarrow> nat \<Rightarrow> (schedule_declaration \<times> int) list \<Rightarrow> redis \<Rightarrow> redis \<times> nat res" where
  "upsert_each p n [] r = (r, Inr n)"
| "upsert_each p n ((d, next_at) # ds) r = rd_bind (upsert_declared p n d next_at r) (\<lambda>_. upsert_each p (n + 1) ds)"

fun remove_each :: "rd_ctx \<Rightarrow> nat \<Rightarrow> string list \<Rightarrow> redis \<Rightarrow> redis \<times> unit res" where
  "remove_each p n [] r = (r, Inr ())"
| "remove_each p n (name # names) r = rd_bind (remove_schedule_call p n name r) (\<lambda>_. remove_each p (n + 1) names)"

definition rd_sync_schedules :: "rd_ctx \<Rightarrow> schedule_declaration list \<Rightarrow> redis \<Rightarrow> redis \<times> sync_report res" where
  "rd_sync_schedules p declared r =
     (case rd_prepare p declared of
        Inl err \<Rightarrow> (r, Inl err)
      | Inr prepared \<Rightarrow>
          rd_bind (upsert_each p 0 prepared r)
            (\<lambda>n r1. rd_bind (fcall p n (reads (fn_schedule_sync_diff (map sd_name declared))) r1)
               (\<lambda>deleted r2. rd_map (\<lambda>_. \<lparr>sr_upserted = length declared, sr_deleted = deleted\<rparr>)
                  (remove_each p (n + 1) deleted r2))))"

section \<open>Groups and queues\<close>

definition rd_group_set_concurrency :: "rd_ctx \<Rightarrow> string \<Rightarrow> int \<Rightarrow> redis \<Rightarrow> redis \<times> unit res" where
  "rd_group_set_concurrency p k mx = fcall p 0 (writes (fn_group_set_concurrency k (max mx 0)))"

definition rd_group_set_paused :: "rd_ctx \<Rightarrow> string \<Rightarrow> bool \<Rightarrow> redis \<Rightarrow> redis \<times> unit res" where
  "rd_group_set_paused p k paused = fcall p 0 (writes (fn_group_set_paused k paused))"

definition rd_group_get :: "rd_ctx \<Rightarrow> string \<Rightarrow> redis \<Rightarrow> redis \<times> group option res" where
  "rd_group_get p k r = rd_map (map_option (parse_group_reply (rc_utc p))) (fcall p 0 (reads (fn_group_get k)) r)"

definition rd_group_list :: "rd_ctx \<Rightarrow> redis \<Rightarrow> redis \<times> group list res" where
  "rd_group_list p r = rd_map (map (parse_group_reply (rc_utc p))) (fcall p 0 (reads fn_group_list) r)"

definition rd_group_set_rate :: "rd_ctx \<Rightarrow> string \<Rightarrow> nat \<Rightarrow> duration \<Rightarrow> redis \<Rightarrow> redis \<times> unit res" where
  "rd_group_set_rate p k n period =
     fcall p 0 (writes (fn_group_set_rate k (int n) (as_u64 (int (as_millis period))) (rc_now_ms p)))"

definition rd_group_clear_rate :: "rd_ctx \<Rightarrow> string \<Rightarrow> redis \<Rightarrow> redis \<times> unit res" where
  "rd_group_clear_rate p k = fcall p 0 (writes (fn_group_clear_rate k))"

definition rd_group_set_rule :: "rd_ctx \<Rightarrow> string \<Rightarrow> group_rule \<Rightarrow> redis \<Rightarrow> redis \<times> unit res" where
  "rd_group_set_rule p pattern rule r =
     (if gr_max_concurrency rule = None \<and> gr_rate_count rule = None
      then (r, Inl (InvalidArgument ''GroupRule must specify at least one of max_concurrency or rate''))
      else fcall p 0 (writes (fn_group_set_rule pattern
             \<lparr>rr_max_concurrency = gr_max_concurrency rule, rr_rate_count = map_option int (gr_rate_count rule),
              rr_rate_period_ms = map_option (\<lambda>d. wrap_i64 (int (as_millis d))) (gr_rate_period rule),
              rr_priority = gr_priority rule\<rparr>)) r)"

definition rd_group_remove_rule :: "rd_ctx \<Rightarrow> string \<Rightarrow> redis \<Rightarrow> redis \<times> bool res" where
  "rd_group_remove_rule p pattern r = rd_map (\<lambda>k. 0 < k) (count_call p 0 (runs (fn_group_remove_rule pattern)) r)"

definition rd_group_list_rules :: "rd_ctx \<Rightarrow> redis \<Rightarrow> redis \<times> stored_rule list res" where
  "rd_group_list_rules p r = rd_map (parse_rules_reply (rc_utc p)) (fcall p 0 (reads fn_group_list_rules) r)"

definition rd_queue_set_concurrency :: "rd_ctx \<Rightarrow> string \<Rightarrow> int \<Rightarrow> redis \<Rightarrow> redis \<times> unit res" where
  "rd_queue_set_concurrency p name mx = fcall p 0 (writes (fn_queue_set_concurrency name (max mx 0)))"

definition rd_queue_set_paused :: "rd_ctx \<Rightarrow> string \<Rightarrow> bool \<Rightarrow> redis \<Rightarrow> redis \<times> unit res" where
  "rd_queue_set_paused p name paused = fcall p 0 (writes (fn_queue_set_paused name paused))"

definition rd_queue_get :: "rd_ctx \<Rightarrow> string \<Rightarrow> redis \<Rightarrow> redis \<times> named_queue option res" where
  "rd_queue_get p name r = rd_map (map_option (parse_named_queue_reply (rc_utc p))) (fcall p 0 (reads (fn_queue_get name)) r)"

definition rd_queue_list :: "rd_ctx \<Rightarrow> redis \<Rightarrow> redis \<times> named_queue list res" where
  "rd_queue_list p r =
     rd_map (\<lambda>xs. sort_key q_name (map (parse_named_queue_reply (rc_utc p)) xs)) (fcall p 0 (reads fn_queue_list) r)"

definition rd_queue_set_timeout :: "rd_ctx \<Rightarrow> string \<Rightarrow> duration option \<Rightarrow> redis \<Rightarrow> redis \<times> unit res" where
  "rd_queue_set_timeout p name t =
     fcall p 0 (writes (fn_queue_set_timeout name (case t of Some d \<Rightarrow> wrap_i64 (int (as_millis d)) | None \<Rightarrow> - 1)))"

section \<open>Statistics and listings\<close>

definition rd_get_stats :: "rd_ctx \<Rightarrow> redis \<Rightarrow> redis \<times> queue_state_count list res" where
  "rd_get_stats p r =
     rd_map parse_stats_reply (fcall p 0 (reads (\<lambda>r. RArray (map RBulk (fn_get_stats r)))) r)"

definition list_one_job :: "rd_ctx \<Rightarrow> job_id \<Rightarrow> redis \<Rightarrow> redis \<times> job_list res" where
  "list_one_job p i r =
     rd_map (\<lambda>h. case h of None \<Rightarrow> \<lparr>jl_total = 0, jl_rows = []\<rparr>
                 | Some h \<Rightarrow> \<lparr>jl_total = 1, jl_rows = [hash_to_job_row (rc_utc p) i h]\<rparr>)
       (plain_read p 0 (\<lambda>r. rd_jobs r i) r)"

text \<open>The rows are read by a second command, when jobs may have changed or gone.\<close>

definition rd_list_jobs :: "rd_ctx \<Rightarrow> list_jobs_filter \<Rightarrow> pagination \<Rightarrow> redis \<Rightarrow> redis \<times> job_list res" where
  "rd_list_jobs p f pn r =
     (case lf_id f of
        Some i \<Rightarrow> list_one_job p i r
      | None \<Rightarrow>
          rd_bind (fcall p 0 (reads (\<lambda>r. list_reply (fn_list_jobs (lf_state f) (unwrap_or (lf_queue f) [])
                     (nat (max (pg_offset pn) 0)) (nat (min (max (pg_limit pn) 1) 500)) r))) r)
            (\<lambda>v r'. case parse_list_jobs_reply v of (n, ids) \<Rightarrow>
               if ids = [] then (r', Inr \<lparr>jl_total = n, jl_rows = []\<rparr>)
               else rd_map (\<lambda>hs. \<lparr>jl_total = n, jl_rows = filter (filter_matches f)
                      (List.map_filter (\<lambda>(i, h). map_option (hash_to_job_row (rc_utc p) i) h) hs)\<rparr>)
                    (plain_read p 1 (\<lambda>r. map (\<lambda>i. (i, rd_jobs r i)) ids) r')))"

section \<open>The backend\<close>

definition redis_backend :: "rd_ctx \<Rightarrow> redis backend" where
  "redis_backend p =
     \<lparr>be_caps = rd_caps, be_enqueue = rd_enqueue p, be_enqueue_many = rd_enqueue_many p,
      be_claim_batch = rd_claim_batch p, be_update_heartbeat_batch = rd_update_heartbeat_batch p,
      be_mark_completed = rd_mark_completed p, be_mark_failed = rd_mark_failed p,
      be_sweep_stale = rd_sweep_stale p, be_reconcile_counters = default_reconcile_counters,
      be_cleanup = rd_cleanup p, be_clean = rd_clean p, be_reclaim_in_flight = rd_reclaim_in_flight p,
      be_leader_try_elect = rd_leader_try_elect p, be_leader_resign = rd_leader_resign p,
      be_upsert_schedule_raw = rd_upsert_schedule_raw p,
      be_upsert_interval_schedule_raw = rd_upsert_interval_schedule_raw p,
      be_remove_schedule = rd_remove_schedule p, be_set_schedule_enabled = rd_set_schedule_enabled p,
      be_list_schedules = rd_list_schedules p, be_sync_schedules = rd_sync_schedules p,
      be_schedule_tick = rd_schedule_tick p, be_group_set_concurrency = rd_group_set_concurrency p,
      be_group_set_paused = rd_group_set_paused p, be_group_get = rd_group_get p, be_group_list = rd_group_list p,
      be_group_set_rate = rd_group_set_rate p, be_group_clear_rate = rd_group_clear_rate p,
      be_group_set_rule = rd_group_set_rule p, be_group_remove_rule = rd_group_remove_rule p,
      be_group_list_rules = rd_group_list_rules p, be_queue_set_concurrency = rd_queue_set_concurrency p,
      be_queue_set_paused = rd_queue_set_paused p, be_queue_get = rd_queue_get p, be_queue_list = rd_queue_list p,
      be_queue_set_timeout = rd_queue_set_timeout p, be_get_stats = rd_get_stats p, be_list_jobs = rd_list_jobs p,
      be_cancel = rd_cancel p\<rparr>"

text \<open>\<open>connect\<close>: the library is loaded if it is not there, and a fresh load is followed by a backfill whose failure is only
  logged.\<close>

definition rd_connect :: "rd_ctx \<Rightarrow> string \<Rightarrow> string + string option \<Rightarrow> string option \<Rightarrow> redis \<Rightarrow> redis \<times> unit res" where
  "rd_connect p source listed load r =
     (case ensure_loaded source listed load of
        Inl err \<Rightarrow> (r, Inl (redis_error err))
      | Inr upgraded \<Rightarrow>
          (if upgraded then fst (attempt_call (co_first (rc_calls p 0)) (runs (fn_backfill_nq_states 0)) r) else r, Inr ()))"

end
