(* ===== verification/Redis_Invariant.thy ===== *)
theory Redis_Invariant
  imports Redis_Backend
begin

text \<open>
  The invariant of the Redis store. The hash of a job says where the job is; the sorted sets are copies of that by state,
  by queue and by group. A \<open>place\<close> names such a set, \<open>belongs\<close> says which hashes it is for, and the store is in order when
  every set holds exactly the jobs that belong there, every reservation of a unique key is held by the live job that has
  the key, and every hash is complete. An operation takes a job out of its places, changes its hash, and puts it where it
  belongs: the lemmas below follow these three moves.
\<close>

section \<open>Places\<close>

datatype place = Waits string | Delayed | Active | Finished clean_state | GroupRun string
  | QueueRun string | QueueSched string | QueueFin clean_state string

fun zset_at :: "place \<Rightarrow> redis \<Rightarrow> job_id zset" where
  "zset_at (Waits q) r = rd_wait r q"
| "zset_at Delayed r = rd_delayed r"
| "zset_at Active r = rd_active r"
| "zset_at (Finished st) r = fin_set st r"
| "zset_at (GroupRun k) r = rd_group_running r k"
| "zset_at (QueueRun q) r = rd_nq_running r q"
| "zset_at (QueueSched q) r = rd_nq_scheduled r q"
| "zset_at (QueueFin st q) r = fin_nq st r q"

fun belongs :: "place \<Rightarrow> rhash \<Rightarrow> bool" where
  "belongs (Waits q) h \<longleftrightarrow> h_state h = Some Pending \<and> h_queue h = Some q"
| "belongs Delayed h \<longleftrightarrow> h_state h = Some Scheduled"
| "belongs Active h \<longleftrightarrow> h_state h = Some Running"
| "belongs (Finished st) h \<longleftrightarrow> h_state h = Some (clean_job_state st)"
| "belongs (GroupRun k) h \<longleftrightarrow> h_state h = Some Running \<and> h_group_key h = Some k"
| "belongs (QueueRun q) h \<longleftrightarrow> h_state h = Some Running \<and> h_queue h = Some q"
| "belongs (QueueSched q) h \<longleftrightarrow> h_state h = Some Scheduled \<and> h_queue h = Some q"
| "belongs (QueueFin st q) h \<longleftrightarrow> h_state h = Some (clean_job_state st) \<and> h_queue h = Some q"

text \<open>The functions treat a queue without a name as no queue, so its mirrors are not kept.\<close>

fun tracked :: "place \<Rightarrow> bool" where
  "tracked (QueueRun q) \<longleftrightarrow> q \<noteq> []"
| "tracked (QueueSched q) \<longleftrightarrow> q \<noteq> []"
| "tracked (QueueFin st q) \<longleftrightarrow> q \<noteq> []"
| "tracked pl \<longleftrightarrow> True"

definition sel :: "(job_id \<rightharpoonup> rhash) \<Rightarrow> (rhash \<Rightarrow> bool) \<Rightarrow> job_id set" where
  "sel m P = {i. \<exists>h. m i = Some h \<and> P h}"

text \<open>Every set is right but for the jobs in \<open>X\<close>, which are in none.\<close>

definition placed :: "job_id set \<Rightarrow> redis \<Rightarrow> bool" where
  "placed X r \<longleftrightarrow>
     (\<forall>pl. zset_ok (zset_at pl r)) \<and> (\<forall>pl. tracked pl \<longrightarrow> zmem (zset_at pl r) = sel (rd_jobs r) (belongs pl) - X)"

definition live_hash :: "rhash \<Rightarrow> bool" where
  "live_hash h \<longleftrightarrow> h_state h = Some Pending \<or> h_state h = Some Scheduled \<or> h_state h = Some Running"

definition unique_ok :: "(job_id \<rightharpoonup> rhash) \<Rightarrow> (string \<rightharpoonup> job_id) \<Rightarrow> bool" where
  "unique_ok m u \<longleftrightarrow>
     (\<forall>k i. u k = Some i \<longleftrightarrow> (\<exists>h. m i = Some h \<and> live_hash h \<and> h_unique_key h = Some k)) \<and>
     (\<forall>k i j h. u k = Some i \<longrightarrow> m j = Some h \<longrightarrow> h_unique_key h = Some k \<longrightarrow> j \<le> i) \<and>
     (\<forall>i h. m i = Some h \<longrightarrow> 1 \<le> i)"

definition hash_ok :: "redis \<Rightarrow> job_id \<Rightarrow> rhash \<Rightarrow> bool" where
  "hash_ok r i h \<longleftrightarrow>
     i \<le> rd_idgen r \<and> h_kind h \<noteq> None \<and> h_payload h \<noteq> None \<and> h_state h \<noteq> None \<and>
     (\<exists>q \<in> set (rd_queues_seen r). h_queue h = Some q)"

definition hashes_ok :: "redis \<Rightarrow> bool" where
  "hashes_ok r \<longleftrightarrow> 0 \<le> rd_idgen r \<and> distinct (rd_queues_seen r) \<and> (\<forall>i h. rd_jobs r i = Some h \<longrightarrow> hash_ok r i h)"

definition core_ok :: "redis \<Rightarrow> bool" where
  "core_ok r \<longleftrightarrow> unique_ok (rd_jobs r) (rd_unique r) \<and> hashes_ok r"

definition redis_ok :: "redis \<Rightarrow> bool" where
  "redis_ok r \<longleftrightarrow> placed {} r \<and> core_ok r"

lemma sel_upd: "sel (m(i \<mapsto> h)) P = (if P h then insert i (sel m P) else sel m P - {i})"
  by (auto simp: sel_def)

lemma sel_del: "sel (m(i := None)) P = sel m P - {i}"
  by (auto simp: sel_def)

lemma sel_mem: "m i = Some h \<Longrightarrow> i \<in> sel m P \<longleftrightarrow> P h"
  by (simp add: sel_def)

lemma clean_job_state_inj [simp]: "clean_job_state a = clean_job_state b \<longleftrightarrow> a = b"
  by (cases a; cases b) simp_all

lemma clean_job_state_terminal [simp]:
  "clean_job_state a \<noteq> Pending" "clean_job_state a \<noteq> Scheduled" "clean_job_state a \<noteq> Running"
  "Pending \<noteq> clean_job_state a" "Scheduled \<noteq> clean_job_state a" "Running \<noteq> clean_job_state a"
  by (cases a; simp)+

lemma fin_set_cases: "fin_set st r = (case st of CleanCompleted \<Rightarrow> rd_completed r | CleanFailed \<Rightarrow> rd_failed r | CleanCancelled \<Rightarrow> rd_cancelled r)"
  by (cases st) simp_all

lemma fin_nq_cases: "fin_nq st r = (case st of CleanCompleted \<Rightarrow> rd_nq_completed r | CleanFailed \<Rightarrow> rd_nq_failed r | CleanCancelled \<Rightarrow> rd_nq_cancelled r)"
  by (cases st) simp_all

lemma redis_ok_empty: "redis_ok empty_redis"
proof -
  have "zset_at pl empty_redis = []" for pl
    by (cases pl) (simp_all add: empty_redis_def fin_set_cases fin_nq_cases split: clean_state.split)
  then show ?thesis
    by (simp add: redis_ok_def core_ok_def placed_def sel_def unique_ok_def hashes_ok_def, simp add: empty_redis_def)
qed

section \<open>The three moves\<close>

lemma placed_leave:
  assumes "placed X r" "rd_jobs r i = Some h" "rd_jobs r' = rd_jobs r" "i \<notin> X"
    and "\<And>pl. tracked pl \<Longrightarrow> belongs pl h \<Longrightarrow> zset_at pl r' = zrem i (zset_at pl r)"
    and "\<And>pl. zset_at pl r' = zset_at pl r \<or> zset_at pl r' = zrem i (zset_at pl r)"
  shows "placed (insert i X) r'"
  unfolding placed_def
proof (intro conjI allI impI)
  fix pl
  have "zset_ok (zset_at pl r)" using assms(1) by (simp add: placed_def)
  then show "zset_ok (zset_at pl r')" using assms(6) [of pl] by (elim disjE) simp_all
next
  fix pl assume t: "tracked pl"
  have z: "zmem (zset_at pl r) = sel (rd_jobs r) (belongs pl) - X" using assms(1) t by (simp add: placed_def)
  have s: "i \<in> sel (rd_jobs r) (belongs pl) \<longleftrightarrow> belongs pl h" using assms(2) by (rule sel_mem)
  consider "zset_at pl r' = zrem i (zset_at pl r)" | "\<not> belongs pl h" "zset_at pl r' = zset_at pl r"
    using assms(5) [OF t] assms(6) [of pl] by blast
  then show "zmem (zset_at pl r') = sel (rd_jobs r') (belongs pl) - insert i X"
    unfolding assms(3) by cases (auto simp: z s)
qed

lemma placed_enter:
  assumes "placed {i} r" "rd_jobs r i = Some h" "rd_jobs r' = rd_jobs r"
    and "\<And>pl. tracked pl \<Longrightarrow> belongs pl h \<Longrightarrow> \<exists>sc. zset_at pl r' = zadd sc i (zset_at pl r)"
    and "\<And>pl. tracked pl \<Longrightarrow> \<not> belongs pl h \<Longrightarrow> zset_at pl r' = zset_at pl r"
    and "\<And>pl. \<not> tracked pl \<Longrightarrow> zset_at pl r' = zset_at pl r \<or> (\<exists>sc. zset_at pl r' = zadd sc i (zset_at pl r))"
  shows "placed {} r'"
  unfolding placed_def
proof (intro conjI allI impI)
  fix pl
  have "zset_at pl r' = zset_at pl r \<or> (\<exists>sc. zset_at pl r' = zadd sc i (zset_at pl r))"
    using assms(4,5,6) [of pl] by blast
  moreover have "zset_ok (zset_at pl r)" using assms(1) by (simp add: placed_def)
  ultimately show "zset_ok (zset_at pl r')" by (elim disjE exE) simp_all
next
  fix pl assume t: "tracked pl"
  have z: "zmem (zset_at pl r) = sel (rd_jobs r) (belongs pl) - {i}" using assms(1) t by (simp add: placed_def)
  have s: "i \<in> sel (rd_jobs r) (belongs pl) \<longleftrightarrow> belongs pl h" using assms(2) by (rule sel_mem)
  consider sc where "belongs pl h" "zset_at pl r' = zadd sc i (zset_at pl r)"
    | "\<not> belongs pl h" "zset_at pl r' = zset_at pl r" using assms(4,5) [OF t] by blast
  then show "zmem (zset_at pl r') = sel (rd_jobs r') (belongs pl) - {}"
    unfolding assms(3) by cases (auto simp: z s)
qed

lemma placed_change:
  assumes "placed X r" "i \<in> X" "rd_jobs r' = (rd_jobs r)(i := x)" "\<And>pl. zset_at pl r' = zset_at pl r"
  shows "placed X r'"
proof -
  have "sel (rd_jobs r') P - X = sel (rd_jobs r) P - X" for P
    using assms(2,3) by (cases x) (auto simp: sel_upd sel_del)
  then show ?thesis using assms(1,4) by (simp add: placed_def)
qed

lemma placed_absent:
  assumes "placed {i} r" "rd_jobs r' = rd_jobs r" "\<And>pl. zset_at pl r' = zset_at pl r \<or> zset_at pl r' = zrem i (zset_at pl r)"
  shows "placed {i} r'"
  unfolding placed_def
proof (intro conjI allI impI)
  fix pl
  have "zset_ok (zset_at pl r)" using assms(1) by (simp add: placed_def)
  then show "zset_ok (zset_at pl r')" using assms(3) [of pl] by (elim disjE) simp_all
next
  fix pl assume "tracked pl"
  then have "zmem (zset_at pl r) = sel (rd_jobs r) (belongs pl) - {i}" using assms(1) by (simp add: placed_def)
  then show "zmem (zset_at pl r') = sel (rd_jobs r') (belongs pl) - {i}"
    using assms(3) [of pl] unfolding assms(2) by (elim disjE) simp_all
qed

lemma placed_fresh: "placed {} r \<Longrightarrow> rd_jobs r i = None \<Longrightarrow> placed {i} r"
  by (auto simp: placed_def sel_def)

lemma placed_forget: "placed (insert i X) r \<Longrightarrow> i \<notin> X \<Longrightarrow> rd_jobs r i = None \<Longrightarrow> placed X r"
  by (auto simp: placed_def sel_def)

lemma placed_same: "placed X r \<Longrightarrow> rd_jobs r' = rd_jobs r \<Longrightarrow> (\<And>pl. zset_at pl r' = zset_at pl r) \<Longrightarrow> placed X r'"
  by (simp add: placed_def)

lemma placed_zmem: "placed {} r \<Longrightarrow> tracked pl \<Longrightarrow> zmem (zset_at pl r) = sel (rd_jobs r) (belongs pl)"
  by (simp add: placed_def)

lemma placed_zcard:
  "placed {} r \<Longrightarrow> tracked pl \<Longrightarrow> zcard (zset_at pl r) = card (sel (rd_jobs r) (belongs pl))"
  by (simp add: zcard_card placed_def)

section \<open>Reservations\<close>

definition drop_if :: "job_id \<Rightarrow> string option \<Rightarrow> (string \<rightharpoonup> job_id) \<Rightarrow> string \<rightharpoonup> job_id" where
  "drop_if i uniq u = (case uniq of None \<Rightarrow> u | Some k \<Rightarrow> if u k = Some i \<or> u k = Some 1 then u(k := None) else u)"

lemma unique_le: "unique_ok m u \<Longrightarrow> u k = Some i \<Longrightarrow> m j = Some h \<Longrightarrow> h_unique_key h = Some k \<Longrightarrow> j \<le> i"
  unfolding unique_ok_def by blast

lemma unique_pos: "unique_ok m u \<Longrightarrow> m i = Some h \<Longrightarrow> 1 \<le> i"
  unfolding unique_ok_def by blast

lemma unique_iff:
  "unique_ok m u \<Longrightarrow> u k = Some i \<longleftrightarrow> (\<exists>h. m i = Some h \<and> live_hash h \<and> h_unique_key h = Some k)"
  unfolding unique_ok_def by blast

lemma unique_keep:
  assumes "unique_ok m u" "m i = Some h" "h_unique_key h' = h_unique_key h" "live_hash h' = live_hash h"
  shows "unique_ok (m(i \<mapsto> h')) u"
  unfolding unique_ok_def
proof (intro conjI allI impI)
  fix k j
  show "(u k = Some j) \<longleftrightarrow> (\<exists>x. (m(i \<mapsto> h')) j = Some x \<and> live_hash x \<and> h_unique_key x = Some k)"
    using assms by (cases "j = i") (auto simp: unique_ok_def)
next
  fix k a j x assume "u k = Some a" "(m(i \<mapsto> h')) j = Some x" "h_unique_key x = Some k"
  then show "j \<le> a" using assms unique_le [OF assms(1)] by (cases "j = i") auto
next
  fix j x assume "(m(i \<mapsto> h')) j = Some x"
  then show "1 \<le> j" using assms by (cases "j = i") (auto simp: unique_ok_def)
qed

text \<open>The legacy value \<open>1\<close> is the id of the first job; no other job is dropped by mistake, because the owner of a key has
  the largest id among the jobs that ever had it.\<close>

lemma unique_drop:
  assumes "unique_ok m u" "m i = Some h" "h_unique_key h = Some k"
  shows "drop_if i (Some k) u = (if live_hash h then u(k := None) else u)"
proof -
  have "u k = Some i \<longleftrightarrow> live_hash h" using assms by (force simp: unique_ok_def)
  moreover have "i = 1" if "u k = Some 1"
  proof -
    have "i \<le> 1" using that assms unfolding unique_ok_def by blast
    moreover have "1 \<le> i" using assms unfolding unique_ok_def by blast
    ultimately show ?thesis by simp
  qed
  ultimately show ?thesis by (auto simp: drop_if_def)
qed

lemma unique_release:
  assumes ok: "unique_ok m u" and "m i = Some h" "case x of None \<Rightarrow> True | Some h' \<Rightarrow> h_unique_key h' = h_unique_key h \<and> \<not> live_hash h'"
  shows "unique_ok (m(i := x)) (drop_if i (h_unique_key h) u)"
proof -
  have d: "drop_if i (h_unique_key h) u = (\<lambda>k. if h_unique_key h = Some k \<and> live_hash h then None else u k)"
    using unique_drop [OF ok assms(2)] by (cases "h_unique_key h") (auto simp: drop_if_def)
  have iff: "u k = Some j \<longleftrightarrow> (\<exists>h. m j = Some h \<and> live_hash h \<and> h_unique_key h = Some k)" for k j
    using ok by (simp add: unique_ok_def)
  show ?thesis
    unfolding unique_ok_def d
  proof (intro conjI allI impI)
    fix k j
    show "((if h_unique_key h = Some k \<and> live_hash h then None else u k) = Some j) \<longleftrightarrow>
        (\<exists>y. (m(i := x)) j = Some y \<and> live_hash y \<and> h_unique_key y = Some k)"
    proof (cases "h_unique_key h = Some k \<and> live_hash h")
      case True
      then have "u k = Some i" using iff assms(2) by auto
      then have "j = i" if "m j = Some y" "live_hash y" "h_unique_key y = Some k" for y
        using that iff [of k j] by auto
      with True show ?thesis using assms(3) by (auto split: option.splits)
    next
      case False
      then show ?thesis using iff [of k j] assms(2,3) by (cases "j = i") (auto split: option.splits)
    qed
  next
    fix k a j y
    assume "(if h_unique_key h = Some k \<and> live_hash h then None else u k) = Some a"
      "(m(i := x)) j = Some y" "h_unique_key y = Some k"
    then show "j \<le> a" using assms(2,3) unique_le [OF ok]
      by (cases "j = i") (auto split: if_splits option.splits)
  next
    fix j y assume "(m(i := x)) j = Some y"
    then show "1 \<le> j" using ok assms(2) by (cases "j = i") (auto simp: unique_ok_def)
  qed
qed

lemma unique_insert:
  assumes ok: "unique_ok m u" and "\<And>j. m j \<noteq> None \<Longrightarrow> j < i" "1 \<le> i" "live_hash h"
    and "case h_unique_key h of None \<Rightarrow> u' = u | Some k \<Rightarrow> u k = None \<and> u' = u(k \<mapsto> i)"
  shows "unique_ok (m(i \<mapsto> h)) u'"
proof -
  have new: "m i = None" using assms(2) [of i] by (cases "m i") auto
  have iff: "u k = Some j \<longleftrightarrow> (\<exists>h. m j = Some h \<and> live_hash h \<and> h_unique_key h = Some k)" for k j
    using ok by (simp add: unique_ok_def)
  show ?thesis
    unfolding unique_ok_def
  proof (intro conjI allI impI)
    fix k j
    show "(u' k = Some j) \<longleftrightarrow> (\<exists>y. (m(i \<mapsto> h)) j = Some y \<and> live_hash y \<and> h_unique_key y = Some k)"
      using assms(4,5) new iff [of k j] by (cases "j = i") (auto split: option.splits if_splits)
  next
    fix k a j y assume a: "u' k = Some a" "(m(i \<mapsto> h)) j = Some y" "h_unique_key y = Some k"
    show "j \<le> a"
    proof (cases "j = i")
      case True
      then have "u' k = Some i" using a assms(5) by (auto split: option.splits)
      then show ?thesis using a True by simp
    next
      case False
      then have "m j = Some y" using a by simp
      then have "j < i" using assms(2) [of j] by simp
      with \<open>m j = Some y\<close> show ?thesis
        using a assms(5) unique_le [OF ok] by (auto split: option.splits if_splits)
    qed
  next
    fix j y assume "(m(i \<mapsto> h)) j = Some y"
    then show "1 \<le> j" using ok assms(3) by (cases "j = i") (auto simp: unique_ok_def)
  qed
qed

section \<open>Reservations and hashes together\<close>

definition same_identity :: "rhash \<Rightarrow> rhash \<Rightarrow> bool" where
  "same_identity h h' \<longleftrightarrow>
     h_kind h' = h_kind h \<and> h_payload h' = h_payload h \<and> h_queue h' = h_queue h \<and> h_unique_key h' = h_unique_key h \<and>
     h_group_key h' = h_group_key h \<and> h_state h' \<noteq> None"

lemma core_same:
  "core_ok r \<Longrightarrow> rd_jobs r' = rd_jobs r \<Longrightarrow> rd_unique r' = rd_unique r \<Longrightarrow> rd_idgen r' = rd_idgen r \<Longrightarrow>
   rd_queues_seen r' = rd_queues_seen r \<Longrightarrow> core_ok r'"
  by (simp add: core_ok_def hashes_ok_def hash_ok_def)

lemma hashes_upd:
  assumes "hashes_ok r" "rd_jobs r i = Some h" "same_identity h h'" "rd_jobs r' = (rd_jobs r)(i \<mapsto> h')"
    "rd_idgen r' = rd_idgen r" "rd_queues_seen r' = rd_queues_seen r"
  shows "hashes_ok r'"
  using assms by (auto simp: hashes_ok_def hash_ok_def same_identity_def)

lemma core_upd:
  assumes "core_ok r" "rd_jobs r i = Some h" "same_identity h h'" "rd_jobs r' = (rd_jobs r)(i \<mapsto> h')"
    "rd_idgen r' = rd_idgen r" "rd_queues_seen r' = rd_queues_seen r"
    and "live_hash h' = live_hash h \<and> rd_unique r' = rd_unique r \<or>
      \<not> live_hash h' \<and> rd_unique r' = drop_if i (h_unique_key h) (rd_unique r)"
  shows "core_ok r'"
proof -
  have ok: "unique_ok (rd_jobs r) (rd_unique r)" "hashes_ok r" using assms(1) by (simp_all add: core_ok_def)
  have k: "h_unique_key h' = h_unique_key h" using assms(3) by (simp add: same_identity_def)
  have "unique_ok ((rd_jobs r)(i \<mapsto> h')) (rd_unique r')"
    using assms(7) unique_keep [OF ok(1) assms(2) k] unique_release [OF ok(1) assms(2), of "Some h'"] k by auto
  then show ?thesis using hashes_upd [OF ok(2) assms(2-6)] by (simp add: core_ok_def assms(4))
qed

lemma core_del:
  assumes "core_ok r" "rd_jobs r i = Some h" "rd_jobs r' = (rd_jobs r)(i := None)"
    "rd_idgen r' = rd_idgen r" "rd_queues_seen r' = rd_queues_seen r"
    "rd_unique r' = drop_if i (h_unique_key h) (rd_unique r)"
  shows "core_ok r'"
proof -
  have ok: "unique_ok (rd_jobs r) (rd_unique r)" "hashes_ok r" using assms(1) by (simp_all add: core_ok_def)
  have "hashes_ok r'" using ok(2) assms(3-5) by (auto simp: hashes_ok_def hash_ok_def)
  moreover have "unique_ok ((rd_jobs r)(i := None)) (rd_unique r')"
    using unique_release [OF ok(1) assms(2), of None] assms(6) by simp
  ultimately show ?thesis by (simp add: core_ok_def assms(3))
qed

lemma core_new:
  assumes "core_ok r" "i = rd_idgen r + 1" "rd_jobs r' = (rd_jobs r)(i \<mapsto> h)" "rd_idgen r' = i"
    "rd_queues_seen r' = List.insert q (rd_queues_seen r)" "live_hash h" "h_queue h = Some q" "h_kind h \<noteq> None" "h_payload h \<noteq> None"
    and "case h_unique_key h of None \<Rightarrow> rd_unique r' = rd_unique r
         | Some k \<Rightarrow> rd_unique r k = None \<and> rd_unique r' = (rd_unique r)(k \<mapsto> i)"
  shows "core_ok r'"
proof -
  have ok: "unique_ok (rd_jobs r) (rd_unique r)" "hashes_ok r" using assms(1) by (simp_all add: core_ok_def)
  have "j < i" if "rd_jobs r j \<noteq> None" for j
    using that ok(2) assms(2) by (force simp: hashes_ok_def hash_ok_def)
  moreover have "1 \<le> i" using ok(2) assms(2) by (simp add: hashes_ok_def)
  ultimately have "unique_ok (rd_jobs r') (rd_unique r')"
    unfolding assms(3) using assms(6,10) by (rule unique_insert [OF ok(1)])
  moreover have "h_state h \<noteq> None" using assms(6) by (auto simp: live_hash_def)
  then have "hashes_ok r'" using ok(2) assms(2-5,7-9) by (fastforce simp: hashes_ok_def hash_ok_def)
  ultimately show ?thesis by (simp add: core_ok_def)
qed

section \<open>What the commands touch\<close>

lemma at_key_same [simp]: "at_key k f m k = f (m k)"
  by simp

lemma named_Some: "named q = Some n \<longleftrightarrow> q = Some n \<and> n \<noteq> []"
  by (auto simp: named_def opt_str_def split: option.split)

lemma named_None: "named q = None \<longleftrightarrow> q = None \<or> q = Some []"
  by (auto simp: named_def opt_str_def split: option.split)

lemma zset_frame [simp]:
  "zset_at pl (r\<lparr>rd_jobs := x0\<rparr>) = zset_at pl r" "zset_at pl (r\<lparr>rd_errors := x1\<rparr>) = zset_at pl r"
  "zset_at pl (r\<lparr>rd_unique := x2\<rparr>) = zset_at pl r" "zset_at pl (r\<lparr>rd_queue_jobs := x3\<rparr>) = zset_at pl r"
  "zset_at pl (r\<lparr>rd_kind_jobs := x4\<rparr>) = zset_at pl r" "zset_at pl (r\<lparr>rd_tag_jobs := x5\<rparr>) = zset_at pl r"
  "zset_at pl (r\<lparr>rd_idgen := x6\<rparr>) = zset_at pl r" "zset_at pl (r\<lparr>rd_gmeta := x7\<rparr>) = zset_at pl r"
  "zset_at pl (r\<lparr>rd_groups := x8\<rparr>) = zset_at pl r" "zset_at pl (r\<lparr>rd_queues_seen := x9\<rparr>) = zset_at pl r"
  "zset_at pl (r\<lparr>rd_published := x10\<rparr>) = zset_at pl r" "zset_at pl (r\<lparr>rd_schedules := x11\<rparr>) = zset_at pl r"
  "zset_at pl (r\<lparr>rd_schedule_idx := x12\<rparr>) = zset_at pl r" "zset_at pl (r\<lparr>rd_schedule_next := x13\<rparr>) = zset_at pl r"
  "zset_at pl (r\<lparr>rd_leader := x14\<rparr>) = zset_at pl r" "zset_at pl (r\<lparr>rd_rules := x15\<rparr>) = zset_at pl r"
  "zset_at pl (r\<lparr>rd_nqmeta := x16\<rparr>) = zset_at pl r" "zset_at pl (r\<lparr>rd_nqs := x17\<rparr>) = zset_at pl r"
  by (cases pl; simp add: fin_set_cases fin_nq_cases split: clean_state.split)+

lemma fin_upd_core [simp]:
  "rd_jobs (fin_upd st f r) = rd_jobs r" "rd_unique (fin_upd st f r) = rd_unique r"
  "rd_idgen (fin_upd st f r) = rd_idgen r" "rd_queues_seen (fin_upd st f r) = rd_queues_seen r"
  "rd_jobs (fin_nq_upd st q f r) = rd_jobs r" "rd_unique (fin_nq_upd st q f r) = rd_unique r"
  "rd_idgen (fin_nq_upd st q f r) = rd_idgen r" "rd_queues_seen (fin_nq_upd st q f r) = rd_queues_seen r"
  by (cases st; simp)+

lemma zset_fin_upd [simp]:
  "zset_at pl (fin_upd st f r) = (if pl = Finished st then f (zset_at pl r) else zset_at pl r)"
  by (cases pl; cases st; simp add: fin_set_cases fin_nq_cases split: clean_state.split)

lemma zset_fin_nq_upd [simp]:
  "zset_at pl (fin_nq_upd st q f r) = (if pl = QueueFin st q then f (zset_at pl r) else zset_at pl r)"
  by (cases pl; cases st; simp add: fin_set_cases fin_nq_cases split: clean_state.split)

lemma add_both_core [simp]:
  "rd_jobs (add_both st nq now i r) = rd_jobs r" "rd_unique (add_both st nq now i r) = rd_unique r"
  "rd_idgen (add_both st nq now i r) = rd_idgen r" "rd_queues_seen (add_both st nq now i r) = rd_queues_seen r"
  by (simp_all add: add_both_def Let_def split: option.split)

lemma zset_add_both:
  "zset_at pl (add_both st nq now i r) =
     (if pl = Finished st \<or> (\<exists>q. nq = Some q \<and> pl = QueueFin st q) then zadd now i (zset_at pl r) else zset_at pl r)"
  by (auto simp: add_both_def Let_def simp del: zset_at.simps split: option.split)

lemma end_run_core [simp]:
  "rd_jobs (end_run i gk q r) = rd_jobs r" "rd_unique (end_run i gk q r) = rd_unique r"
  "rd_idgen (end_run i gk q r) = rd_idgen r" "rd_queues_seen (end_run i gk q r) = rd_queues_seen r"
  by (simp_all add: end_run_def)

lemma zset_end_run:
  "zset_at pl (end_run i gk q r) =
     (if pl = Active \<or> (\<exists>k. gk = Some k \<and> pl = GroupRun k) \<or> (\<exists>n. named q = Some n \<and> pl = QueueRun n)
      then zrem i (zset_at pl r) else zset_at pl r)"
  by (cases pl) (auto simp: end_run_def fin_set_cases fin_nq_cases split: option.split clean_state.split)

lemma make_due_core [simp]:
  "rd_jobs (make_due q sc i r) = rd_jobs r" "rd_unique (make_due q sc i r) = rd_unique r"
  "rd_idgen (make_due q sc i r) = rd_idgen r" "rd_queues_seen (make_due q sc i r) = rd_queues_seen r"
  "zset_at pl (make_due q sc i r) = (if pl = Waits q then zadd sc i (zset_at pl r) else zset_at pl r)"
  by (simp_all add: make_due_def) (cases pl; simp add: fin_set_cases fin_nq_cases split: clean_state.split)

lemma delay_until_core [simp]:
  "rd_jobs (delay_until q d i r) = rd_jobs r" "rd_unique (delay_until q d i r) = rd_unique r"
  "rd_idgen (delay_until q d i r) = rd_idgen r" "rd_queues_seen (delay_until q d i r) = rd_queues_seen r"
  "zset_at pl (delay_until q d i r) = (if pl = Delayed \<or> pl = QueueSched q then zadd d i (zset_at pl r) else zset_at pl r)"
  by (simp_all add: delay_until_def) (cases pl; simp add: fin_set_cases fin_nq_cases split: clean_state.split)

lemma hset_core [simp]:
  "rd_jobs (hset i f r) = (rd_jobs r)(i \<mapsto> f (unwrap_or (rd_jobs r i) empty_hash))" "rd_unique (hset i f r) = rd_unique r"
  "rd_idgen (hset i f r) = rd_idgen r" "rd_queues_seen (hset i f r) = rd_queues_seen r"
  "zset_at pl (hset i f r) = zset_at pl r"
  by (simp_all add: hset_def)

lemma push_error_core [simp]:
  "rd_jobs (push_error i e r) = rd_jobs r" "rd_unique (push_error i e r) = rd_unique r"
  "rd_idgen (push_error i e r) = rd_idgen r" "rd_queues_seen (push_error i e r) = rd_queues_seen r"
  "zset_at pl (push_error i e r) = zset_at pl r"
  by (simp_all add: push_error_def)

lemma publish_core [simp]:
  "rd_jobs (publish_wakeup m r) = rd_jobs r" "rd_unique (publish_wakeup m r) = rd_unique r"
  "rd_idgen (publish_wakeup m r) = rd_idgen r" "rd_queues_seen (publish_wakeup m r) = rd_queues_seen r"
  "zset_at pl (publish_wakeup m r) = zset_at pl r"
  by (simp_all add: publish_wakeup_def)

lemma drop_unique_core [simp]:
  "rd_jobs (drop_unique_if_owner u i r) = rd_jobs r" "rd_unique (drop_unique_if_owner u i r) = drop_if i u (rd_unique r)"
  "rd_idgen (drop_unique_if_owner u i r) = rd_idgen r" "rd_queues_seen (drop_unique_if_owner u i r) = rd_queues_seen r"
  "zset_at pl (drop_unique_if_owner u i r) = zset_at pl r"
  by (simp_all add: drop_unique_if_owner_def drop_if_def split: option.split)

lemma release_core [simp]:
  "rd_jobs (release_unique i r) = rd_jobs r" "rd_unique (release_unique i r) = drop_if i (hget h_unique_key i r) (rd_unique r)"
  "rd_idgen (release_unique i r) = rd_idgen r" "rd_queues_seen (release_unique i r) = rd_queues_seen r"
  "zset_at pl (release_unique i r) = zset_at pl r"
  by (simp_all add: release_unique_def)

lemma unindex_core [simp]:
  "rd_jobs (unindex_job i r) = rd_jobs r" "rd_unique (unindex_job i r) = rd_unique r"
  "rd_idgen (unindex_job i r) = rd_idgen r" "rd_queues_seen (unindex_job i r) = rd_queues_seen r"
  "zset_at pl (unindex_job i r) = zset_at pl r"
  by (simp_all add: unindex_job_def)

lemma delete_core [simp]:
  "rd_jobs (delete_job i r) = (rd_jobs r)(i := None)" "rd_unique (delete_job i r) = drop_if i (hget h_unique_key i r) (rd_unique r)"
  "rd_idgen (delete_job i r) = rd_idgen r" "rd_queues_seen (delete_job i r) = rd_queues_seen r"
  by (simp_all add: delete_job_def Let_def)

lemma zset_delete [simp]: "zset_at pl (delete_job i r) = zset_at pl r"
  by (simp add: delete_job_def Let_def)

lemma index_core [simp]:
  "rd_jobs (index_job q k i r) = rd_jobs r" "rd_unique (index_job q k i r) = rd_unique r"
  "rd_idgen (index_job q k i r) = rd_idgen r" "rd_queues_seen (index_job q k i r) = List.insert q (rd_queues_seen r)"
  "zset_at pl (index_job q k i r) = zset_at pl r"
  "rd_jobs (index_tags ts i r) = rd_jobs r" "rd_unique (index_tags ts i r) = rd_unique r"
  "rd_idgen (index_tags ts i r) = rd_idgen r" "rd_queues_seen (index_tags ts i r) = rd_queues_seen r"
  "zset_at pl (index_tags ts i r) = zset_at pl r"
  by (simp_all add: index_job_def index_tags_def)

lemma materialize_core [simp]:
  "rd_jobs (maybe_materialize_group gk now r) = rd_jobs r" "rd_unique (maybe_materialize_group gk now r) = rd_unique r"
  "rd_idgen (maybe_materialize_group gk now r) = rd_idgen r"
  "rd_queues_seen (maybe_materialize_group gk now r) = rd_queues_seen r"
  "zset_at pl (maybe_materialize_group gk now r) = zset_at pl r"
  by (simp_all add: maybe_materialize_group_def Let_def split: option.split)

lemma persist_core [simp]:
  "rd_jobs (persist_tokens k m r) = rd_jobs r" "rd_unique (persist_tokens k m r) = rd_unique r"
  "rd_idgen (persist_tokens k m r) = rd_idgen r" "rd_queues_seen (persist_tokens k m r) = rd_queues_seen r"
  "zset_at pl (persist_tokens k m r) = zset_at pl r"
  by (simp_all add: persist_tokens_def)

section \<open>Out of a place and into one\<close>

lemma leave_run:
  assumes "placed {} r" "rd_jobs r i = Some h" "h_state h = Some Running"
  shows "placed {i} (end_run i (h_group_key h) (h_queue h) r)"
proof (rule placed_leave [OF assms(1,2)])
  fix pl assume "tracked pl" "belongs pl h"
  with assms(3) show "zset_at pl (end_run i (h_group_key h) (h_queue h) r) = zrem i (zset_at pl r)"
    by (cases pl) (auto simp: zset_end_run named_Some simp del: zset_at.simps)
qed (auto simp: zset_end_run simp del: zset_at.simps)

lemma leave_wait:
  assumes "placed {} r" "rd_jobs r i = Some h" "h_state h = Some Pending" "h_queue h = Some q"
  shows "placed {i} (r\<lparr>rd_wait := at_key q (zrem i) (rd_wait r)\<rparr>)" (is "placed {i} ?r")
proof (rule placed_leave [OF assms(1,2)])
  have z: "zset_at pl ?r = (if pl = Waits q then zrem i (zset_at pl r) else zset_at pl r)" for pl
    by (cases pl) (simp_all add: fin_set_cases fin_nq_cases split: clean_state.split)
  fix pl
  show "zset_at pl ?r = zset_at pl r \<or> zset_at pl ?r = zrem i (zset_at pl r)" by (simp add: z)
  assume "tracked pl" "belongs pl h"
  with assms(3,4) show "zset_at pl ?r = zrem i (zset_at pl r)"
    by (cases pl) (auto simp: z simp del: zset_at.simps)
qed simp_all

lemma leave_delayed:
  assumes "placed {} r" "rd_jobs r i = Some h" "h_state h = Some Scheduled"
  shows "placed {i} (r\<lparr>rd_delayed := zrem i (rd_delayed r), rd_nq_scheduled :=
    (case named (h_queue h) of None \<Rightarrow> rd_nq_scheduled r | Some n \<Rightarrow> at_key n (zrem i) (rd_nq_scheduled r))\<rparr>)" (is "placed {i} ?r")
proof (rule placed_leave [OF assms(1,2)])
  have z: "zset_at pl ?r = (if pl = Delayed \<or> (\<exists>n. named (h_queue h) = Some n \<and> pl = QueueSched n)
      then zrem i (zset_at pl r) else zset_at pl r)" for pl
    by (cases pl) (auto simp: fin_set_cases fin_nq_cases split: clean_state.split option.split)
  fix pl
  show "zset_at pl ?r = zset_at pl r \<or> zset_at pl ?r = zrem i (zset_at pl r)" by (simp add: z)
  assume "tracked pl" "belongs pl h"
  with assms(3) show "zset_at pl ?r = zrem i (zset_at pl r)"
    unfolding z by (cases pl) (auto simp: named_Some simp del: zset_at.simps)
qed simp_all

lemma leave_fin:
  assumes "placed X r" "rd_jobs r i = Some h" "h_state h = Some (clean_job_state st)" "i \<notin> X"
    and "\<And>pl. zset_at pl r' =
      (if pl = Finished st \<or> (\<exists>q. named (h_queue h) = Some q \<and> pl = QueueFin st q) then zrem i (zset_at pl r) else zset_at pl r)"
    and "rd_jobs r' = rd_jobs r"
  shows "placed (insert i X) r'"
proof (rule placed_leave [OF assms(1,2,6,4)])
  fix pl
  show "zset_at pl r' = zset_at pl r \<or> zset_at pl r' = zrem i (zset_at pl r)" by (simp add: assms(5))
  assume "tracked pl" "belongs pl h"
  with assms(3) show "zset_at pl r' = zrem i (zset_at pl r)"
    by (cases pl) (auto simp: assms(5) named_Some simp del: zset_at.simps)
qed

lemma enter_wait:
  assumes "placed {i} r" "rd_jobs r i = Some h" "h_state h = Some Pending" "h_queue h = Some q"
  shows "placed {} (make_due q sc i r)"
proof (rule placed_enter [OF assms(1,2)])
  fix pl
  show "tracked pl \<Longrightarrow> belongs pl h \<Longrightarrow> \<exists>sc'. zset_at pl (make_due q sc i r) = zadd sc' i (zset_at pl r)"
    using assms(3,4) by (cases pl) (auto simp del: zset_at.simps)
  show "tracked pl \<Longrightarrow> \<not> belongs pl h \<Longrightarrow> zset_at pl (make_due q sc i r) = zset_at pl r"
    using assms(3,4) by (auto simp del: zset_at.simps)
  show "zset_at pl (make_due q sc i r) = zset_at pl r \<or> (\<exists>sc'. zset_at pl (make_due q sc i r) = zadd sc' i (zset_at pl r))"
    by (auto simp del: zset_at.simps)
qed simp

lemma enter_delayed:
  assumes "placed {i} r" "rd_jobs r i = Some h" "h_state h = Some Scheduled" "rd_jobs r' = rd_jobs r" "h_queue h = Some q"
    and "\<And>pl. zset_at pl r' = (if pl = Delayed \<or> pl = QueueSched q \<and> p then zadd d i (zset_at pl r) else zset_at pl r)"
    and "q \<noteq> [] \<longrightarrow> p"
  shows "placed {} r'"
proof (rule placed_enter [OF assms(1,2,4)])
  fix pl
  show "tracked pl \<Longrightarrow> belongs pl h \<Longrightarrow> \<exists>sc. zset_at pl r' = zadd sc i (zset_at pl r)"
    using assms(3,5,7) by (cases pl) (auto simp: assms(6) simp del: zset_at.simps)
  show "tracked pl \<Longrightarrow> \<not> belongs pl h \<Longrightarrow> zset_at pl r' = zset_at pl r"
    using assms(3,5) by (auto simp: assms(6) simp del: zset_at.simps)
  show "zset_at pl r' = zset_at pl r \<or> (\<exists>sc. zset_at pl r' = zadd sc i (zset_at pl r))"
    by (auto simp: assms(6) simp del: zset_at.simps)
qed

lemma enter_fin:
  assumes "placed {i} r" "rd_jobs r i = Some h" "h_state h = Some (clean_job_state st)"
  shows "placed {} (add_both st (named (h_queue h)) now i r)"
proof (rule placed_enter [OF assms(1,2)])
  fix pl
  show "tracked pl \<Longrightarrow> belongs pl h \<Longrightarrow> \<exists>sc. zset_at pl (add_both st (named (h_queue h)) now i r) = zadd sc i (zset_at pl r)"
    using assms(3)
    by (cases pl) (auto simp: zset_add_both named_Some simp del: zset_at.simps)
  show "tracked pl \<Longrightarrow> \<not> belongs pl h \<Longrightarrow> zset_at pl (add_both st (named (h_queue h)) now i r) = zset_at pl r"
    using assms(3) by (auto simp: zset_add_both named_Some simp del: zset_at.simps)
  show "zset_at pl (add_both st (named (h_queue h)) now i r) = zset_at pl r \<or>
      (\<exists>sc. zset_at pl (add_both st (named (h_queue h)) now i r) = zadd sc i (zset_at pl r))"
    by (auto simp: zset_add_both simp del: zset_at.simps)
qed simp

end
