(* ===== verification/Redis_Steps.thy ===== *)
theory Redis_Steps
  imports Redis_Invariant
begin

text \<open>
  Every function of the library keeps the invariant of the Redis store: claims, heartbeats, reports, recovery, promotion,
  cancellation, enqueue, retention, schedules and the settings. A report is the one that needs care: its gate looks at
  \<open>locked_by\<close> only, which failure and retry leave behind, so the invariant is kept by reports about jobs that still run.
\<close>

declare zset_at.simps [simp del]

lemma hget_Some [simp]: "rd_jobs r i = Some h \<Longrightarrow> hget f i r = f h"
  by (simp add: hget_def)

lemma redis_okD: "redis_ok r \<Longrightarrow> placed {} r" "redis_ok r \<Longrightarrow> core_ok r"
  by (simp_all add: redis_ok_def)

lemma redis_ok_same:
  assumes "redis_ok r" "rd_jobs r' = rd_jobs r" "rd_unique r' = rd_unique r" "rd_idgen r' = rd_idgen r"
    "rd_queues_seen r' = rd_queues_seen r" "\<And>pl. zset_at pl r' = zset_at pl r"
  shows "redis_ok r'"
  using assms placed_same [of "{}" r r'] core_same [of r r'] by (simp add: redis_ok_def)

lemma redis_ok_queue: "redis_ok r \<Longrightarrow> rd_jobs r i = Some h \<Longrightarrow> \<exists>q. h_queue h = Some q"
  by (auto simp: redis_ok_def core_ok_def hashes_ok_def hash_ok_def)

lemma in_place: "redis_ok r \<Longrightarrow> tracked pl \<Longrightarrow> i \<in> zmem (zset_at pl r) \<longleftrightarrow> (\<exists>h. rd_jobs r i = Some h \<and> belongs pl h)"
  by (simp add: redis_ok_def placed_zmem sel_def)

lemma hset_upd:
  "rd_jobs r i = Some h \<Longrightarrow> rd_jobs (hset i f r) = (rd_jobs r)(i \<mapsto> f h)"
  by (simp add: unwrap_or_def)

lemma placed_hset: "placed {i} r \<Longrightarrow> placed {i} (hset i f r)"
  by (rule placed_change [where x = "Some (f (unwrap_or (rd_jobs r i) empty_hash))"]) simp_all

section \<open>Claims and heartbeats\<close>

lemma zset_begin_run:
  "zset_at pl (begin_run w now q a i h r) =
     (if pl = Waits q then zrem i (zset_at pl r)
      else if pl = Active \<or> (\<exists>k. h_group_key h = Some k \<and> pl = GroupRun k) \<or> pl = QueueRun q then zadd now i (zset_at pl r)
      else zset_at pl r)"
  by (cases pl) (auto simp: zset_at.simps begin_run_def hset_def fin_set_cases fin_nq_cases split: option.split clean_state.split)

lemma begin_run_core:
  assumes "rd_jobs r i = Some h"
  shows "rd_jobs (begin_run w now q a i h r) = (rd_jobs r)(i \<mapsto> run_hash w now a h)"
    "rd_unique (begin_run w now q a i h r) = rd_unique r" "rd_idgen (begin_run w now q a i h r) = rd_idgen r"
    "rd_queues_seen (begin_run w now q a i h r) = rd_queues_seen r"
  using assms by (simp_all add: begin_run_def hset_def unwrap_or_def)

lemma begin_run_ok:
  assumes ok: "redis_ok r" and h: "rd_jobs r i = Some h" "h_state h = Some Pending" "h_queue h = Some q"
  shows "redis_ok (begin_run w now q a i h r)" (is "redis_ok ?r'")
proof -
  let ?r1 = "r\<lparr>rd_wait := at_key q (zrem i) (rd_wait r)\<rparr>" and ?h = "run_hash w now a h"
  let ?r2 = "hset i (run_hash w now a) ?r1"
  have z1: "zset_at pl ?r1 = (if pl = Waits q then zrem i (zset_at pl r) else zset_at pl r)" for pl
    by (cases pl) (simp_all add: zset_at.simps fin_set_cases fin_nq_cases split: clean_state.split)
  have p2: "placed {i} ?r2" by (rule placed_hset) (rule leave_wait [OF redis_okD(1) [OF ok] h])
  have j2: "rd_jobs ?r2 i = Some ?h" using h(1) by (simp add: unwrap_or_def)
  have hh: "h_state ?h = Some Running" "h_group_key ?h = h_group_key h" "h_queue ?h = Some q"
    using h(3) by (simp_all add: run_hash_def)
  have "placed {} ?r'"
  proof (rule placed_enter [OF p2 j2])
    show "rd_jobs ?r' = rd_jobs ?r2" using h(1) by (simp add: begin_run_core unwrap_or_def)
    fix pl
    show "tracked pl \<Longrightarrow> belongs pl ?h \<Longrightarrow> \<exists>sc. zset_at pl ?r' = zadd sc i (zset_at pl ?r2)"
      using hh by (cases pl) (auto simp: zset_begin_run z1)
    show "tracked pl \<Longrightarrow> \<not> belongs pl ?h \<Longrightarrow> zset_at pl ?r' = zset_at pl ?r2"
      using hh by (cases pl) (auto simp: zset_begin_run z1)
    show "\<not> tracked pl \<Longrightarrow> zset_at pl ?r' = zset_at pl ?r2 \<or> (\<exists>sc. zset_at pl ?r' = zadd sc i (zset_at pl ?r2))"
      by (auto simp: zset_begin_run z1)
  qed
  moreover have "core_ok ?r'"
    by (rule core_upd [OF redis_okD(2) [OF ok] h(1), of ?h])
       (use h in \<open>simp_all add: begin_run_core same_identity_def run_hash_def live_hash_def\<close>)
  ultimately show ?thesis by (simp add: redis_ok_def)
qed

lemma gate_group_core:
  "rd_jobs (fst (gate_group now gk r)) = rd_jobs r" "rd_unique (fst (gate_group now gk r)) = rd_unique r"
  "rd_idgen (fst (gate_group now gk r)) = rd_idgen r" "rd_queues_seen (fst (gate_group now gk r)) = rd_queues_seen r"
  "zset_at pl (fst (gate_group now gk r)) = zset_at pl r"
  by (simp_all add: gate_group_def Let_def split: option.split)

lemma gate_group_ok: "redis_ok r \<Longrightarrow> redis_ok (fst (gate_group now gk r))"
  by (rule redis_ok_same) (simp_all add: gate_group_core)

text \<open>A candidate is passed over, at most with the tokens of its group refilled, or it is started.\<close>

definition passed_over :: "int \<Rightarrow> claim_acc \<Rightarrow> claim_acc \<Rightarrow> bool" where
  "passed_over now acc acc' \<longleftrightarrow>
     (\<exists>gk. ca_store acc' = ca_store acc \<or> ca_store acc' = fst (gate_group now gk (ca_store acc))) \<and>
     ca_out acc' = ca_out acc \<and> ca_taken acc' = ca_taken acc \<and> ca_room acc' = ca_room acc \<and> ca_open acc' = ca_open acc"

definition started ::
  "uuid \<Rightarrow> int \<Rightarrow> nat \<Rightarrow> string list \<Rightarrow> int option \<Rightarrow> string \<Rightarrow> job_id \<Rightarrow> rhash \<Rightarrow> claim_acc \<Rightarrow> claim_acc \<Rightarrow> bool" where
  "started w now b ks t q i h acc acc' \<longleftrightarrow>
     (let r = fst (gate_group now (h_group_key h) (ca_store acc)); a = unwrap_or (h_attempt h) 0 + 1
      in ca_taken acc < b \<and> ca_open acc \<and> rd_jobs (ca_store acc) i = Some h \<and> h_state h = Some Pending \<and>
         (\<exists>kind \<in> set ks. h_kind h = Some kind \<and> ca_out acc' = ca_out acc @ [entry_of w t a i kind h]) \<and>
         snd (gate_group now (h_group_key h) (ca_store acc)) \<and> i \<in> zmem (rd_wait r q) \<and>
         ca_store acc' = begin_run w now q a i h r \<and> ca_taken acc' = Suc (ca_taken acc) \<and>
         ca_room acc' = map_option (\<lambda>n. n - 1) (ca_room acc) \<and>
         ca_open acc' = (case ca_room acc' of None \<Rightarrow> True | Some n \<Rightarrow> 0 < n))"

lemma claim_one_cases:
  "passed_over now acc (claim_one w now b ks t q i acc) \<or> (\<exists>h. started w now b ks t q i h acc (claim_one w now b ks t q i acc))"
  (is "?P \<or> ?S")
proof -
  let ?c = "\<lambda>h kind. kind \<in> set ks \<and> h_state h = Some Pending \<and> \<not> (\<exists>k \<in> set (ca_blocked acc). h_group_key h = Some k)"
  have scan: "passed_over now acc (acc\<lparr>ca_scanned := n\<rparr>)" for n by (simp add: passed_over_def)
  have same: "passed_over now acc acc" by (simp add: passed_over_def)
  show ?thesis
  proof (cases "b \<le> ca_taken acc \<or> \<not> ca_open acc")
    case True
    then show ?thesis using same by (simp add: claim_one_def)
  next
    case False
    show ?thesis
    proof (cases "\<exists>h kind. rd_jobs (ca_store acc) i = Some h \<and> h_kind h = Some kind \<and> ?c h kind")
      case True
      then obtain h kind where h: "rd_jobs (ca_store acc) i = Some h" "h_kind h = Some kind" "?c h kind" by blast
      obtain r ok where g: "gate_group now (h_group_key h) (ca_store acc) = (r, ok)" by fastforce
      show ?thesis
      proof (cases "ok \<and> i \<in> zmem (rd_wait r q)")
        case True
        with False h g have "started w now b ks t q i h acc (claim_one w now b ks t q i acc)"
          by (simp add: started_def claim_one_def Let_def split: option.split)
        then show ?thesis by blast
      next
        case nostart: False
        have "\<exists>gk. r = fst (gate_group now gk (ca_store acc))" using g by (metis fst_conv)
        with nostart False h g show ?thesis by (cases ok) (simp_all add: passed_over_def claim_one_def Let_def)
      qed
    next
      case none: False
      have "claim_one w now b ks t q i acc = acc\<lparr>ca_scanned := ca_scanned acc + 1\<rparr>"
        using none False unfolding claim_one_def Let_def by (auto split: option.split)
      then show ?thesis using scan by simp
    qed
  qed
qed

lemma claim_one_ok:
  assumes "redis_ok (ca_store acc)"
  shows "redis_ok (ca_store (claim_one w now b ks t q i acc))"
proof -
  consider "passed_over now acc (claim_one w now b ks t q i acc)"
    | h where "started w now b ks t q i h acc (claim_one w now b ks t q i acc)" using claim_one_cases by blast
  then show ?thesis
  proof cases
    case 1
    then show ?thesis using assms gate_group_ok by (auto simp: passed_over_def)
  next
    case (2 h)
    let ?r = "fst (gate_group now (h_group_key h) (ca_store acc))"
    have ok: "redis_ok ?r" by (rule gate_group_ok [OF assms])
    have j: "rd_jobs ?r i = Some h" using 2 by (simp add: started_def Let_def gate_group_core)
    have "i \<in> zmem (zset_at (Waits q) ?r)" using 2 by (simp add: started_def Let_def zset_at.simps)
    then have "belongs (Waits q) h" using in_place [OF ok, of "Waits q" i] j by simp
    then have "redis_ok (begin_run w now q a i h ?r)" for a by (intro begin_run_ok [OF ok j]) simp_all
    then show ?thesis using 2 by (simp add: started_def Let_def)
  qed
qed

text \<open>A fact about the accumulator that candidates keep is kept by a whole claim, page by page and queue by queue.\<close>

lemma fold_keeps: "(\<And>x acc. P acc \<Longrightarrow> P (f x acc)) \<Longrightarrow> P acc \<Longrightarrow> P (fold f xs acc)"
  by (induction xs arbitrary: acc) simp_all

lemma claim_pages_keeps:
  assumes "\<And>acc n. P acc \<Longrightarrow> P (acc\<lparr>ca_here := n\<rparr>)" "\<And>acc i. P acc \<Longrightarrow> P (claim_one w now b ks t q i acc)" "P acc"
  shows "P (claim_pages w now b ks t q offset acc)"
  using assms
proof (induction w now b ks t q offset acc rule: claim_pages.induct)
  case (1 w now b ks t q offset acc)
  show ?case
  proof (cases "ca_open acc \<and> ca_taken acc < b \<and> ca_scanned acc < claim_scan_limit")
    case False
    then show ?thesis using "1.prems"(3) by (subst claim_pages.simps) simp
  next
    case True
    define slice where "slice = take (b * 4) (drop offset (zrange id_str (rd_wait (ca_store acc) q)))"
    define acc' where "acc' = fold (claim_one w now b ks t q) slice (acc\<lparr>ca_here := 0\<rparr>)"
    have keep: "P acc'" unfolding acc'_def by (rule fold_keeps) (use "1.prems" in blast)+
    have "P (claim_pages w now b ks t q (offset + length slice - ca_here acc') acc')"
      if "slice \<noteq> []" "\<not> length slice < b * 4"
      by (rule "1.IH" [OF _ refl slice_def that(1) acc'_def that(2)]) (use True "1.prems" keep in auto)
    moreover have "claim_pages w now b ks t q offset acc =
        (if slice = [] then acc else if length slice < b * 4 then acc'
         else claim_pages w now b ks t q (offset + length slice - ca_here acc') acc')"
      unfolding claim_pages.simps [of w now b ks t q offset acc] Let_def slice_def [symmetric] acc'_def [symmetric]
      using True by simp
    ultimately show ?thesis using "1.prems"(3) keep by simp
  qed
qed

lemma claim_pages_ok: "redis_ok (ca_store acc) \<Longrightarrow> redis_ok (ca_store (claim_pages w now b ks t q offset acc))"
  by (rule claim_pages_keeps [where P = "\<lambda>acc. redis_ok (ca_store acc)"]) (simp_all add: claim_one_ok)

lemma fn_claim_ok: "redis_ok r \<Longrightarrow> redis_ok (fst (fn_claim b w now qs ks r))"
  unfolding fn_claim_def Let_def fst_conv
  by (rule fold_keeps [where P = "\<lambda>acc. redis_ok (ca_store acc)"]) (simp_all add: claim_queue_def Let_def claim_pages_ok)

lemma beat_ok: "redis_ok (fst acc) \<Longrightarrow> redis_ok (fst (beat now i acc))"
proof -
  assume ok: "redis_ok (fst acc)"
  obtain r n where a: "acc = (r, n)" by fastforce
  show ?thesis
  proof (cases "hget h_state i r = Some Running")
    case True
    then obtain h where h: "rd_jobs r i = Some h" "h_state h = Some Running"
      by (auto simp: hget_def split: option.splits)
    let ?r = "(hset i (\<lambda>h. h\<lparr>h_locked_at := Some now\<rparr>) r)\<lparr>rd_active := zadd now i (rd_active r)\<rparr>"
    have ok': "redis_ok r" using ok a by simp
    have z: "zset_at pl ?r = (if pl = Active then zadd now i (zset_at pl r) else zset_at pl r)" for pl
      by (cases pl) (simp_all add: zset_at.simps hset_def fin_set_cases fin_nq_cases split: clean_state.split)
    have j: "rd_jobs ?r = (rd_jobs r)(i \<mapsto> h\<lparr>h_locked_at := Some now\<rparr>)" using h(1) by (simp add: unwrap_or_def)
    have s: "sel (rd_jobs ?r) (belongs pl) = sel (rd_jobs r) (belongs pl)" for pl
      unfolding j using h(1) by (cases pl) (auto simp: sel_def)
    have "i \<in> zmem (zset_at Active r)" using in_place [OF ok', of Active i] h by simp
    then have "zmem (zset_at pl ?r) = zmem (zset_at pl r)" for pl by (auto simp: z)
    moreover have "zset_ok (zset_at pl ?r)" for pl using redis_okD(1) [OF ok'] by (simp add: z placed_def)
    ultimately have "placed {} ?r" using redis_okD(1) [OF ok'] unfolding placed_def s by simp
    moreover have "core_ok ?r"
      by (rule core_upd [OF redis_okD(2) [OF ok'] h(1) _ j])
         (use h in \<open>simp_all add: same_identity_def live_hash_def\<close>)
    ultimately show ?thesis using True a by (simp add: beat_def redis_ok_def)
  qed (use ok a in \<open>simp add: beat_def\<close>)
qed

lemma fn_heartbeat_ok: "redis_ok r \<Longrightarrow> redis_ok (fst (fn_heartbeat now ids r))"
  unfolding fn_heartbeat_def by (rule fold_keeps [where P = "\<lambda>acc. redis_ok (fst acc)"]) (simp_all add: beat_ok)

section \<open>Deletion and retention\<close>

lemma prune_core [simp]:
  "rd_jobs (prune st q v r) = (rd_jobs r)(v := None)" "rd_idgen (prune st q v r) = rd_idgen r"
  "rd_queues_seen (prune st q v r) = rd_queues_seen r"
  "rd_unique (prune st q v r) = drop_if v (hget h_unique_key v r) (rd_unique r)"
  by (simp_all add: prune_def)

lemma prune_ok:
  assumes "placed X r" "core_ok r" "v \<notin> X" "rd_jobs r v = Some h" "h_state h = Some (clean_job_state st)" "named (h_queue h) = Some q"
  shows "placed X (prune st q v r)" "core_ok (prune st q v r)"
proof -
  let ?r = "fin_nq_upd st q (zrem v) (fin_upd st (zrem v) r)"
  have "placed (insert v X) ?r" by (rule leave_fin [OF assms(1,4,5,3)]) (auto simp: assms(6))
  then have "placed (insert v X) (prune st q v r)"
    by (rule placed_change [where i = v and x = None]) (simp_all, simp add: prune_def)
  then show "placed X (prune st q v r)" by (rule placed_forget) (simp_all add: assms(3))
  show "core_ok (prune st q v r)" by (rule core_del [OF assms(2,4)]) (simp_all add: assms(4))
qed

lemma fold_prune_ok:
  assumes "placed X r" "core_ok r" "distinct vs"
    and "\<And>v. v \<in> set vs \<Longrightarrow> v \<notin> X \<and> (\<exists>h. rd_jobs r v = Some h \<and> h_state h = Some (clean_job_state st) \<and> named (h_queue h) = Some q)"
  shows "placed X (fold (prune st q) vs r)" "core_ok (fold (prune st q) vs r)"
    "j \<notin> set vs \<Longrightarrow> rd_jobs (fold (prune st q) vs r) j = rd_jobs r j"
proof -
  have "placed X (fold (prune st q) vs r) \<and> core_ok (fold (prune st q) vs r) \<and>
      (j \<notin> set vs \<longrightarrow> rd_jobs (fold (prune st q) vs r) j = rd_jobs r j)"
    using assms
  proof (induction vs arbitrary: r)
    case (Cons v vs)
    obtain h where h: "rd_jobs r v = Some h" "h_state h = Some (clean_job_state st)" "named (h_queue h) = Some q" and v: "v \<notin> X"
      using Cons.prems(4) [of v] by auto
    note ok = prune_ok [OF Cons.prems(1,2) v h]
    have "placed X (fold (prune st q) vs (prune st q v r)) \<and> core_ok (fold (prune st q) vs (prune st q v r)) \<and>
        (j \<notin> set vs \<longrightarrow> rd_jobs (fold (prune st q) vs (prune st q v r)) j = rd_jobs (prune st q v r) j)"
    proof (rule Cons.IH [OF ok])
      show "distinct vs" using Cons.prems(3) by simp
      fix x assume x: "x \<in> set vs"
      then have "x \<noteq> v" using Cons.prems(3) by auto
      then show "x \<notin> X \<and> (\<exists>h. rd_jobs (prune st q v r) x = Some h \<and> h_state h = Some (clean_job_state st) \<and> named (h_queue h) = Some q)"
        using Cons.prems(4) [of x] x by simp
    qed
    then show ?case by simp
  qed simp
  then show "placed X (fold (prune st q) vs r)" "core_ok (fold (prune st q) vs r)"
    "j \<notin> set vs \<Longrightarrow> rd_jobs (fold (prune st q) vs r) j = rd_jobs r j" by simp_all
qed

lemma take_victim_props:
  "set (take_victim self v acc) = (if v = self then set acc else insert v (set acc))"
  "distinct acc \<Longrightarrow> distinct (take_victim self v acc)"
  by (auto simp: take_victim_def)

lemma fold_take_victim:
  "set (fold (take_victim self) vs acc) \<subseteq> set acc \<union> (set vs - {self})"
proof (induction vs arbitrary: acc)
  case (Cons v vs)
  show ?case using Cons [of "take_victim self v acc"] by (auto simp: take_victim_props split: if_splits)
qed simp

lemma fold_take_victim_distinct: "distinct acc \<Longrightarrow> distinct (fold (take_victim self) vs acc)"
  by (rule fold_keeps) (simp_all add: take_victim_props)

lemma take_surplus_sub: "set (take_surplus self want n vs acc) \<subseteq> set acc \<union> (set vs - {self})"
proof (induction vs arbitrary: n acc)
  case (Cons v vs)
  have "set (take_surplus self want (n + 1) vs (take_victim self v acc)) \<subseteq> set acc \<union> (set (v # vs) - {self})" if "v \<noteq> self"
    using Cons [of "n + 1" "take_victim self v acc"] that by (auto simp: take_victim_props)
  moreover have "set (take_surplus self want n vs acc) \<subseteq> set acc \<union> (set (v # vs) - {self})" using Cons [of n acc] by auto
  moreover have "set (take_surplus self want n vs acc) \<subseteq> set acc \<union> (set vs - {self})" by (rule Cons)
  ultimately show ?case by auto
qed simp

lemma take_surplus_distinct: "distinct acc \<Longrightarrow> distinct (take_surplus self want n vs acc)"
  by (induction vs arbitrary: n acc) (simp_all add: take_victim_props)

lemma victims_of_sub:
  "set (victims_of self z age keep now) \<subseteq> zmem z - {self}" "distinct (victims_of self z age keep now)"
proof -
  define aged where "aged = (case age of None \<Rightarrow> []
    | Some a \<Rightarrow> fold (take_victim self) (zbelow id_str (\<lambda>sc. sc < now - int a * 1000) retention_prune_cap z) [])"
  have "set (fold (take_victim self) (zbelow id_str p n z) []) \<subseteq> zmem z - {self}" for p n
    using fold_take_victim [where acc = "[]"] zbelow_sub by fastforce
  then have a: "set aged \<subseteq> zmem z - {self}" "distinct aged"
    by (cases age; simp add: aged_def fold_take_victim_distinct)+
  have b: "set (take_surplus self want 0 (take n (zrange id_str z)) aged) \<subseteq> zmem z - {self}" for want n
    using take_surplus_sub [of self want 0 "take n (zrange id_str z)" aged] set_take_subset [of n "zrange id_str z"] a(1) by auto
  have "victims_of self z age keep now = aged \<or>
      (\<exists>want n. victims_of self z age keep now = take_surplus self want 0 (take n (zrange id_str z)) aged)"
    unfolding victims_of_def Let_def aged_def [symmetric] by (auto split: option.split)
  then show "set (victims_of self z age keep now) \<subseteq> zmem z - {self}" "distinct (victims_of self z age keep now)"
    using a b take_surplus_distinct [OF a(2)] by (elim disjE exE; simp)+
qed

lemma discard_ok:
  assumes "placed {i} r" "core_ok r" "rd_jobs r i = Some h"
    and "rd_jobs r' = rd_jobs r" "rd_unique r' = rd_unique r" "rd_idgen r' = rd_idgen r" "rd_queues_seen r' = rd_queues_seen r"
    and "\<And>pl. zset_at pl r' = zset_at pl r \<or> zset_at pl r' = zrem i (zset_at pl r)"
  shows "redis_ok (delete_job i r')"
proof -
  have "placed {i} r'" by (rule placed_absent [OF assms(1,4,8)])
  then have "placed {i} (delete_job i r')" by (rule placed_change [where i = i and x = None]) simp_all
  then have "placed {} (delete_job i r')" by (rule placed_forget) simp_all
  moreover have "core_ok (delete_job i r')"
    by (rule core_del [OF core_same [OF assms(2,4-7)], of i h]) (simp_all add: assms(3,4))
  ultimately show ?thesis by (simp add: redis_ok_def)
qed

lemma in_fin_nq:
  assumes "placed X r" "q \<noteq> []" "v \<in> zmem (fin_nq st r q)"
  shows "v \<notin> X \<and> (\<exists>h. rd_jobs r v = Some h \<and> h_state h = Some (clean_job_state st) \<and> named (h_queue h) = Some q)"
proof -
  have "zmem (zset_at (QueueFin st q) r) = sel (rd_jobs r) (belongs (QueueFin st q)) - X"
    using assms(1,2) by (simp add: placed_def)
  then show ?thesis using assms(2,3) by (auto simp: zset_at.simps sel_def named_Some)
qed

lemma finalize_ok:
  assumes "placed {i} r" "core_ok r" "rd_jobs r i = Some h" "h_state h = Some (clean_job_state st)" "nq = named (h_queue h)"
  shows "redis_ok (finalize st nq rule now i r)"
proof -
  let ?kept = "add_both st nq now i r"
  have kept: "placed {} ?kept" "core_ok ?kept"
    using enter_fin [OF assms(1,3,4)] core_same [OF assms(2)] by (simp_all add: assms(5))
  have gone: "redis_ok (finalize st nq rule now i r)"
    if "apply_retention st nq rule now i r = (r1, True)" "placed {i} r1" "core_ok r1" "rd_jobs r1 i = Some h" for r1
    using that(1) unfolding finalize_def Let_def
    by (simp, intro discard_ok [OF that(2-4)]) (auto split: option.split)
  have stays: "redis_ok (finalize st nq rule now i r)"
    if "apply_retention st nq rule now i r = (r1, False)" "placed {} r1" "core_ok r1" for r1
    using that by (simp add: finalize_def redis_ok_def)
  show ?thesis
  proof (cases rule)
    case None
    then show ?thesis using kept by (intro stays) (simp_all add: apply_retention_def)
  next
    case (Some x)
    show ?thesis
    proof (cases x)
      case (RBool d)
      then have "apply_retention st nq rule now i r = (if d then r else ?kept, d)"
        using Some by (cases d) (simp_all add: apply_retention_def)
      then show ?thesis using gone [of r] stays [of ?kept] kept assms(1-3) by (cases d) simp_all
    next
      case (RRule age keep)
      define r1 where "r1 = (if keep = Some 0 then r else ?kept)"
      define X where "X = (if keep = Some 0 then {i} else {})"
      have r1: "placed X r1" "core_ok r1" "rd_jobs r1 i = Some h"
        using kept assms(1-3) by (simp_all add: r1_def X_def)
      have ar: "apply_retention st nq rule now i r =
          (case nq of None \<Rightarrow> (r1, keep = Some 0)
           | Some q \<Rightarrow> if age = None \<and> keep = None then (r1, keep = Some 0)
                      else (fold (prune st q) (victims_of i (fin_nq st r1 q) age keep now) r1, keep = Some 0))"
        using Some RRule by (cases "keep = Some 0") (simp_all add: apply_retention_def Let_def r1_def split: option.split)
      have pr: "placed X (fold (prune st q) (victims_of i (fin_nq st r1 q) age keep now) r1)"
        "core_ok (fold (prune st q) (victims_of i (fin_nq st r1 q) age keep now) r1)"
        "rd_jobs (fold (prune st q) (victims_of i (fin_nq st r1 q) age keep now) r1) i = Some h" if "nq = Some q" for q
      proof -
        have q: "q \<noteq> []" using that assms(5) by (simp add: named_Some)
        let ?vs = "victims_of i (fin_nq st r1 q) age keep now"
        have v: "v \<notin> X \<and> (\<exists>h. rd_jobs r1 v = Some h \<and> h_state h = Some (clean_job_state st) \<and> named (h_queue h) = Some q)"
          if "v \<in> set ?vs" for v
          using in_fin_nq [OF r1(1) q, of v st] victims_of_sub(1) [of i "fin_nq st r1 q" age keep now] that by blast
        note f = fold_prune_ok [OF r1(1,2) victims_of_sub(2) v]
        show "placed X (fold (prune st q) ?vs r1)" "core_ok (fold (prune st q) ?vs r1)" by (rule f; assumption)+
        have "i \<notin> set ?vs" using victims_of_sub(1) [of i "fin_nq st r1 q" age keep now] by blast
        then show "rd_jobs (fold (prune st q) ?vs r1) i = Some h" using f(3) r1(3) by simp
      qed
      have "\<exists>r2. apply_retention st nq rule now i r = (r2, keep = Some 0) \<and> placed X r2 \<and> core_ok r2 \<and> rd_jobs r2 i = Some h"
        unfolding ar using r1 pr by (cases nq) auto
      then show ?thesis using gone stays by (cases "keep = Some 0") (auto simp: X_def)
    qed
  qed
qed

section \<open>Reports\<close>

definition timely :: "job_id \<Rightarrow> uuid \<Rightarrow> redis \<Rightarrow> bool" where
  "timely i w r \<longleftrightarrow> (has_lease i w r \<longrightarrow> hget h_state i r = Some Running)"

lemma hget_Running: "hget h_state i r = Some st \<Longrightarrow> \<exists>h. rd_jobs r i = Some h \<and> h_state h = Some st"
  by (auto simp: hget_def split: option.splits)

text \<open>Out of the running sets, hash changed to a finished state, reservation given up, and filed.\<close>

lemma finish_ok:
  assumes ok: "redis_ok r" and h: "rd_jobs r i = Some h" "h_state h = Some Running"
    and f: "h_state (f h) = Some (clean_job_state st)" "same_identity h (f h)"
  defines "r2 \<equiv> release_unique i (hset i f (end_run i (h_group_key h) (h_queue h) r))"
  shows "placed {i} r2" "core_ok r2" "rd_jobs r2 i = Some (f h)"
proof -
  have "placed {i} (hset i f (end_run i (h_group_key h) (h_queue h) r))"
    by (rule placed_hset) (rule leave_run [OF redis_okD(1) [OF ok] h])
  then show "placed {i} r2" unfolding r2_def by (rule placed_same) simp_all
  show j: "rd_jobs r2 i = Some (f h)" using h(1) by (simp add: r2_def unwrap_or_def)
  show "core_ok r2"
    by (rule core_upd [OF redis_okD(2) [OF ok] h(1) f(2)])
       (use h f in \<open>simp_all add: r2_def unwrap_or_def same_identity_def live_hash_def\<close>)
qed

lemma fn_complete_ok:
  assumes "redis_ok r" "timely i w r"
  shows "redis_ok (fst (fn_complete i w now result r))"
proof (cases "has_lease i w r")
  case True
  then obtain h where h: "rd_jobs r i = Some h" "h_state h = Some Running"
    using assms(2) hget_Running [of i r Running] by (auto simp: timely_def)
  let ?f = "\<lambda>h. h\<lparr>h_state := Some Completed, h_completed_at := Some now, h_result := result\<rparr>"
  have f: "h_state (?f h) = Some (clean_job_state CleanCompleted)" "same_identity h (?f h)"
    by (simp_all add: same_identity_def)
  note ok = finish_ok [where f = ?f, OF assms(1) h f]
  show ?thesis using True finalize_ok [OF ok f(1)] h(1) ok(3) by (simp add: fn_complete_def Let_def)
qed (simp add: fn_complete_def assms(1))

text \<open>Back to the queue, or into the delayed set.\<close>

lemma requeue_ok:
  assumes ok: "redis_ok r" and h: "rd_jobs r i = Some h" "h_state h = Some Running"
    and f: "same_identity h (f h)" and r1: "placed {i} r1" "rd_jobs r1 = rd_jobs r" "rd_unique r1 = rd_unique r"
      "rd_idgen r1 = rd_idgen r" "rd_queues_seen r1 = rd_queues_seen r"
  shows "placed {i} (hset i f r1)" "rd_jobs (hset i f r1) i = Some (f h)"
    "live_hash (f h) \<Longrightarrow> core_ok (hset i f r1)"
proof -
  show "placed {i} (hset i f r1)" by (rule placed_hset [OF r1(1)])
  show "rd_jobs (hset i f r1) i = Some (f h)" using h(1) by (simp add: r1 unwrap_or_def)
  assume "live_hash (f h)"
  then show "core_ok (hset i f r1)"
    by (intro core_upd [OF redis_okD(2) [OF ok] h(1) f])
       (use h in \<open>simp_all add: r1 unwrap_or_def live_hash_def\<close>)
qed

lemma requeued_ok:
  assumes ok: "redis_ok r" and h: "rd_jobs r i = Some h" "h_state h = Some Running" "h_queue h = Some q"
    and f: "same_identity h (f h)" "h_state (f h) = Some Pending"
  shows "redis_ok (make_due q sc i (hset i f (end_run i (h_group_key h) (h_queue h) r)))"
proof -
  let ?r1 = "end_run i (h_group_key h) (h_queue h) r"
  have c1: "rd_jobs ?r1 = rd_jobs r" "rd_unique ?r1 = rd_unique r" "rd_idgen ?r1 = rd_idgen r"
    "rd_queues_seen ?r1 = rd_queues_seen r" by simp_all
  note m = requeue_ok [where f = f, OF ok h(1,2) f(1) leave_run [OF redis_okD(1) [OF ok] h(1,2)] c1]
  have "placed {} (make_due q sc i (hset i f ?r1))"
    by (rule enter_wait [OF m(1,2) f(2)]) (use f(1) h(3) in \<open>simp add: same_identity_def\<close>)
  moreover have "core_ok (make_due q sc i (hset i f ?r1))"
    by (rule core_same [OF m(3)]) (simp_all add: f(2) live_hash_def)
  ultimately show ?thesis by (simp only: redis_ok_def)
qed

lemma fn_fail_ok:
  assumes "redis_ok r" "timely i w r"
  shows "redis_ok (fst (fn_fail i w now entry retry_ms r))"
proof (cases "has_lease i w r")
  case True
  then obtain h where h: "rd_jobs r i = Some h" "h_state h = Some Running"
    using assms(2) hget_Running [of i r Running] by (auto simp: timely_def)
  obtain q where q: "h_queue h = Some q" using redis_ok_queue [OF assms(1) h(1)] ..
  let ?e = "push_error i entry r"
  let ?r1 = "end_run i (h_group_key h) (h_queue h) ?e"
  have oke: "redis_ok ?e" by (rule redis_ok_same [OF assms(1)]) simp_all
  have he: "rd_jobs ?e i = Some h" by (simp add: h(1))
  have p1: "placed {i} ?r1" by (rule leave_run [OF redis_okD(1) [OF oke] he h(2)])
  have c1: "rd_jobs ?r1 = rd_jobs ?e" "rd_unique ?r1 = rd_unique ?e" "rd_idgen ?r1 = rd_idgen ?e"
    "rd_queues_seen ?r1 = rd_queues_seen ?e" by simp_all
  consider "0 \<le> retry_ms" "retry_ms \<le> now" | "0 \<le> retry_ms" "\<not> retry_ms \<le> now" | "\<not> 0 \<le> retry_ms" by blast
  then show ?thesis
  proof cases
    case 1
    let ?f = "\<lambda>h. h\<lparr>h_state := Some Pending, h_failed_at := Some now\<rparr>"
    have f: "same_identity h (?f h)" "live_hash (?f h)" by (simp_all add: same_identity_def live_hash_def)
    have "redis_ok (make_due q sc i (hset i ?f ?r1))" for sc by (rule requeued_ok [where f = ?f, OF oke he h(2) q f(1)]) simp
    then have "redis_ok (publish_wakeup x (make_due q sc i (hset i ?f ?r1)))" for x sc
      by (rule redis_ok_same) simp_all
    then show ?thesis using True 1 h(1) q by (simp add: fn_fail_def Let_def)
  next
    case 2
    let ?f = "\<lambda>h. h\<lparr>h_state := Some Scheduled, h_failed_at := Some now, h_scheduled_at := Some retry_ms\<rparr>"
    have f: "same_identity h (?f h)" "live_hash (?f h)" by (simp_all add: same_identity_def live_hash_def)
    note m = requeue_ok [where f = ?f, OF oke he h(2) f(1) p1 c1]
    let ?r2 = "hset i ?f ?r1"
    let ?r3 = "?r2\<lparr>rd_delayed := zadd retry_ms i (rd_delayed ?r2)\<rparr>"
    let ?r4 = "case named (h_queue h) of None \<Rightarrow> ?r3
                | Some n \<Rightarrow> ?r3\<lparr>rd_nq_scheduled := at_key n (zadd retry_ms i) (rd_nq_scheduled ?r3)\<rparr>"
    have z: "zset_at pl ?r4 = (if pl = Delayed \<or> pl = QueueSched q \<and> q \<noteq> [] then zadd retry_ms i (zset_at pl ?r2)
        else zset_at pl ?r2)" for pl
      by (cases pl) (auto simp: q named_def opt_str_def zset_at.simps hset_def end_run_def push_error_def fin_set_cases fin_nq_cases
          split: clean_state.split)
    have c: "rd_jobs ?r4 = rd_jobs ?r2" "rd_unique ?r4 = rd_unique ?r2" "rd_idgen ?r4 = rd_idgen ?r2"
      "rd_queues_seen ?r4 = rd_queues_seen ?r2" by (cases "named (h_queue h)"; simp)+
    have "placed {} ?r4" by (rule enter_delayed [OF m(1,2) _ c(1) _ z]) (simp_all add: q)
    then have "redis_ok ?r4" using core_same [OF m(3) [OF f(2)] c] by (simp add: redis_ok_def)
    then show ?thesis using True 2 h(1) by (simp add: fn_fail_def Let_def split: option.split)
  next
    case 3
    let ?f = "\<lambda>h. h\<lparr>h_state := Some Failed, h_failed_at := Some now\<rparr>"
    have f: "h_state (?f h) = Some (clean_job_state CleanFailed)" "same_identity h (?f h)" by (simp_all add: same_identity_def)
    note ok = finish_ok [where f = ?f, OF oke he h(2) f]
    show ?thesis using True 3 finalize_ok [OF ok f(1)] h(1) by (simp add: fn_fail_def Let_def)
  qed
qed (simp add: fn_fail_def assms(1))

section \<open>Recovery, promotion, cancellation\<close>

lemma recover_run_eq:
  assumes "rd_jobs r i = Some h" "h_queue h = Some q"
  defines "n \<equiv> unwrap_or (h_stalled_count h) 0 + 1" and "r1 \<equiv> end_run i (h_group_key h) (h_queue h) r"
  shows "recover_run entry at_ms i r =
    (if unwrap_or (h_max_stalled_count h) 1 < n
     then release_unique i (push_error i entry (add_both CleanFailed (named (h_queue h)) at_ms i
            (hset i (\<lambda>x. x\<lparr>h_state := Some Failed, h_stalled_count := Some n, h_failed_at := Some at_ms\<rparr>) r1)))
     else make_due q (wait_score (unwrap_or (h_priority h) 0) at_ms) i
            (hset i (\<lambda>x. x\<lparr>h_state := Some Pending, h_stalled_count := Some n,
               h_attempt := Some (max (unwrap_or (h_attempt h) 0 - 1) 0), h_locked_by := None, h_locked_at := Some 0\<rparr>) r1), Inr ())"
  unfolding recover_run_def hget_Some [OF assms(1)] Let_def n_def r1_def by (simp add: assms(2))

lemma recover_fails_ok:
  assumes ok: "redis_ok r" and h: "rd_jobs r i = Some h" "h_state h = Some Running"
  shows "redis_ok (release_unique i (push_error i entry (add_both CleanFailed (named (h_queue h)) at_ms i
            (hset i (\<lambda>x. x\<lparr>h_state := Some Failed, h_stalled_count := Some n, h_failed_at := Some at_ms\<rparr>)
              (end_run i (h_group_key h) (h_queue h) r)))))" (is "redis_ok ?r3")
proof -
  let ?r1 = "end_run i (h_group_key h) (h_queue h) r"
  let ?f = "\<lambda>x. x\<lparr>h_state := Some Failed, h_stalled_count := Some n, h_failed_at := Some at_ms\<rparr>"
  let ?b = "add_both CleanFailed (named (h_queue (?f h))) at_ms i (hset i ?f ?r1)"
  have p1: "placed {i} ?r1" by (rule leave_run [OF redis_okD(1) [OF ok] h])
  have "placed {} ?b" by (rule enter_fin [OF placed_hset [OF p1]]) (simp_all add: h(1) unwrap_or_def)
  then have "placed {} ?r3" by (rule placed_same) simp_all
  moreover have "core_ok ?r3"
    by (rule core_upd [OF redis_okD(2) [OF ok] h(1), of "?f h"])
       (simp_all add: same_identity_def live_hash_def unwrap_or_def h(1))
  ultimately show ?thesis by (simp only: redis_ok_def)
qed

lemma recover_run_ok:
  assumes ok: "redis_ok r" and h: "rd_jobs r i = Some h" "h_state h = Some Running"
  shows "redis_ok (fst (recover_run entry at_ms i r))" "snd (recover_run entry at_ms i r) = Inr ()"
    "j \<noteq> i \<Longrightarrow> rd_jobs (fst (recover_run entry at_ms i r)) j = rd_jobs r j"
proof -
  obtain q where q: "h_queue h = Some q" using redis_ok_queue [OF ok h(1)] ..
  note e = recover_run_eq [OF h(1) q, of entry at_ms]
  show "redis_ok (fst (recover_run entry at_ms i r))"
    unfolding e fst_conv using recover_fails_ok [OF ok h] requeued_ok [OF ok h q] by (auto simp: same_identity_def)
  show "snd (recover_run entry at_ms i r) = Inr ()" by (simp add: e)
  show "j \<noteq> i \<Longrightarrow> rd_jobs (fst (recover_run entry at_ms i r)) j = rd_jobs r j" by (simp add: e)
qed

lemma publish_ok: "redis_ok r \<Longrightarrow> redis_ok (publish_wakeup m r)"
  by (rule redis_ok_same) simp_all

lemma sweep_ids_ok:
  assumes "redis_ok r" "distinct is" "\<And>i. i \<in> set is \<Longrightarrow> hget h_state i r = Some Running"
  shows "redis_ok (fst (sweep_ids entry at_ms is r)) \<and> snd (sweep_ids entry at_ms is r) = Inr (length is)"
  using assms
proof (induction "is" arbitrary: r)
  case (Cons i "is")
  obtain h where h: "rd_jobs r i = Some h" "h_state h = Some Running" using Cons.prems(3) [of i] hget_Running by force
  obtain r' where r': "recover_run entry at_ms i r = (r', Inr ())"
    using recover_run_ok(2) [OF Cons.prems(1) h] by (metis prod.collapse)
  define r'' where "r'' = (if stalled_out i r then r' else publish_wakeup (id_str i) r')"
  have ok: "redis_ok r''" using recover_run_ok(1) [OF Cons.prems(1) h, of entry at_ms] publish_ok r' by (simp add: r''_def)
  have "hget h_state j r'' = Some Running" if "j \<in> set is" for j
  proof -
    have "j \<noteq> i" using that Cons.prems(2) by auto
    then have "rd_jobs r'' j = rd_jobs r j"
      using recover_run_ok(3) [OF Cons.prems(1) h, of j entry at_ms] r' by (simp add: r''_def)
    then show ?thesis using Cons.prems(3) [of j] that by (simp add: hget_def)
  qed
  moreover have "sweep_ids entry at_ms (i # is) r = (case sweep_ids entry at_ms is r'' of (s, n) \<Rightarrow> (s, map_sum id Suc n))"
    by (simp add: r' r''_def Let_def)
  ultimately show ?case using Cons.IH [OF ok] Cons.prems(2) by (cases "sweep_ids entry at_ms is r''") simp
qed simp

lemma zbelow_distinct: "zset_ok z \<Longrightarrow> distinct (zbelow label p n z)"
  unfolding zbelow_def zsorted_def zset_ok_def
  by (intro distinct_take distinct_map_filter) (metis mset_map mset_sort mset_eq_imp_distinct_iff)

lemma fn_sweep_stale_ok:
  assumes "redis_ok r"
  shows "redis_ok (fst (fn_sweep_stale before n r))"
proof -
  let ?is = "zbelow id_str (\<lambda>sc. sc \<le> before) n (rd_active r)"
  have z: "zset_ok (rd_active r)" using redis_okD(1) [OF assms] by (simp add: placed_def) (metis zset_at.simps(3))
  have "hget h_state i r = Some Running" if "i \<in> set ?is" for i
    using in_place [OF assms, of Active i] that zbelow_sub [of id_str "\<lambda>sc. sc \<le> before" n "rd_active r"]
    by (auto simp: zset_at.simps)
  then show ?thesis using sweep_ids_ok [OF assms zbelow_distinct [OF z]] by (simp add: fn_sweep_stale_def)
qed

lemma reclaim_ids_ok: "redis_ok r \<Longrightarrow> redis_ok (fst (reclaim_ids now is r))"
proof (induction "is" arbitrary: r)
  case (Cons i "is")
  show ?case
  proof (cases "hget h_state i r = Some Running")
    case True
    then obtain h where h: "rd_jobs r i = Some h" "h_state h = Some Running" using hget_Running by blast
    obtain r' where r': "recover_run force_reclaim_entry now i r = (r', Inr ())"
      using recover_run_ok(2) [OF Cons.prems h] by (metis prod.collapse)
    then have "redis_ok r'" using recover_run_ok(1) [OF Cons.prems h, of force_reclaim_entry now] by simp
    then show ?thesis using Cons.IH [of r'] True r' by (cases "reclaim_ids now is r'") simp
  qed (use Cons in simp)
qed simp

lemma wake_if_any_ok: "redis_ok (fst x) \<Longrightarrow> redis_ok (fst (wake_if_any x))"
  by (cases x; cases "snd x") (auto simp: wake_if_any_def publish_ok)

lemma fn_reclaim_ok: "redis_ok r \<Longrightarrow> redis_ok (fst (fn_reclaim_in_flight now ids r))"
  by (simp add: fn_reclaim_in_flight_def wake_if_any_ok reclaim_ids_ok)

lemma promote_one_ok:
  assumes ok: "redis_ok r" and h: "rd_jobs r i = Some h" "h_state h = Some Scheduled"
  shows "redis_ok (fst (promote_one now i r))" "snd (promote_one now i r) = Inr ()"
    "j \<noteq> i \<Longrightarrow> rd_jobs (fst (promote_one now i r)) j = rd_jobs r j"
proof -
  obtain q where q: "h_queue h = Some q" using redis_ok_queue [OF ok h(1)] ..
  let ?r1 = "r\<lparr>rd_delayed := zrem i (rd_delayed r), rd_nq_scheduled :=
    (case named (h_queue h) of None \<Rightarrow> rd_nq_scheduled r | Some n \<Rightarrow> at_key n (zrem i) (rd_nq_scheduled r))\<rparr>"
  let ?f = "\<lambda>h. h\<lparr>h_state := Some Pending\<rparr>"
  let ?r2 = "make_due q (wait_score (unwrap_or (h_priority h) 0) now) i (hset i ?f ?r1)"
  have e: "promote_one now i r = (?r2, Inr ())"
    unfolding promote_one_def hget_Some [OF h(1)] Let_def by (simp add: q)
  have "placed {i} (hset i ?f ?r1)" by (rule placed_hset) (rule leave_delayed [OF redis_okD(1) [OF ok] h])
  then have "placed {} ?r2" by (rule enter_wait [where h = "?f h"]) (simp_all add: h(1) q unwrap_or_def)
  moreover have "core_ok ?r2"
    by (rule core_upd [OF redis_okD(2) [OF ok] h(1), of "?f h"])
       (simp_all add: h unwrap_or_def same_identity_def live_hash_def)
  ultimately show "redis_ok (fst (promote_one now i r))" by (simp only: e fst_conv redis_ok_def)
  show "snd (promote_one now i r) = Inr ()" by (simp add: e)
  show "j \<noteq> i \<Longrightarrow> rd_jobs (fst (promote_one now i r)) j = rd_jobs r j" by (simp add: e)
qed

lemma promote_ids_ok:
  assumes "redis_ok r" "distinct is" "\<And>i. i \<in> set is \<Longrightarrow> hget h_state i r = Some Scheduled"
  shows "redis_ok (fst (promote_ids now is r))"
  using assms
proof (induction "is" arbitrary: r)
  case (Cons i "is")
  obtain h where h: "rd_jobs r i = Some h" "h_state h = Some Scheduled" using Cons.prems(3) [of i] hget_Running by force
  note p = promote_one_ok [OF Cons.prems(1) h, where now = now]
  obtain r' where r': "promote_one now i r = (r', Inr ())" using p(2) by (metis prod.collapse)
  have "hget h_state j r' = Some Scheduled" if "j \<in> set is" for j
  proof -
    have "j \<noteq> i" using that Cons.prems(2) by auto
    then show ?thesis using that Cons.prems(3) [of j] p(3) [where j = j] r' by (simp add: hget_def)
  qed
  then show ?case using Cons.IH [of r'] Cons.prems(2) p(1) r' by (cases "promote_ids now is r'") simp
qed simp

lemma zset_at_ok: "redis_ok r \<Longrightarrow> zset_ok (zset_at pl r)"
  by (simp add: redis_ok_def placed_def)

lemma fn_promote_ok:
  assumes "redis_ok r"
  shows "redis_ok (fst (fn_promote_delayed now n r))"
proof -
  let ?is = "zbelow id_str (\<lambda>sc. sc \<le> now) n (rd_delayed r)"
  have z: "zset_ok (rd_delayed r)" using zset_at_ok [OF assms, of Delayed] by (simp add: zset_at.simps)
  have "hget h_state i r = Some Scheduled" if "i \<in> set ?is" for i
    using in_place [OF assms, of Delayed i] that zbelow_sub [of id_str "\<lambda>sc. sc \<le> now" n "rd_delayed r"]
    by (auto simp: zset_at.simps)
  then show ?thesis
    using promote_ids_ok [OF assms zbelow_distinct [OF z]] by (simp add: fn_promote_delayed_def wake_if_any_ok)
qed

lemma cancelled_ok:
  assumes "redis_ok r" "placed {i} r1" "rd_jobs r i = Some h"
    and "rd_jobs r1 = rd_jobs r" "rd_unique r1 = rd_unique r" "rd_idgen r1 = rd_idgen r" "rd_queues_seen r1 = rd_queues_seen r"
  shows "redis_ok (add_both CleanCancelled (named (h_queue h)) now i
    (release_unique i (hset i (\<lambda>h. h\<lparr>h_state := Some Cancelled, h_cancelled_at := Some now\<rparr>) r1)))"
    (is "redis_ok (add_both _ _ _ _ ?r2)")
proof -
  let ?f = "\<lambda>h. h\<lparr>h_state := Some Cancelled, h_cancelled_at := Some now\<rparr>"
  have "placed {i} (hset i ?f r1)" by (rule placed_hset [OF assms(2)])
  then have "placed {i} ?r2" by (rule placed_same) simp_all
  then have "placed {} (add_both CleanCancelled (named (h_queue (?f h))) now i ?r2)"
    by (rule enter_fin) (simp_all add: assms(3,4) unwrap_or_def)
  moreover have "core_ok (add_both CleanCancelled (named (h_queue h)) now i ?r2)"
    by (rule core_upd [OF redis_okD(2) [OF assms(1)] assms(3), of "?f h"])
       (simp_all add: assms(3-7) unwrap_or_def same_identity_def live_hash_def)
  ultimately show ?thesis by (simp add: redis_ok_def)
qed

lemma fn_cancel_ok:
  assumes "redis_ok r"
  shows "redis_ok (fst (fn_cancel i now r))"
proof (cases "rd_jobs r i")
  case None
  then show ?thesis using assms by (simp add: fn_cancel_def hget_def)
next
  case (Some h)
  obtain q where q: "h_queue h = Some q" using redis_ok_queue [OF assms Some] ..
  consider "h_state h = Some Pending" | "h_state h = Some Scheduled" | "h_state h \<noteq> Some Pending" "h_state h \<noteq> Some Scheduled" by blast
  then show ?thesis
  proof cases
    case 1
    have "redis_ok (add_both CleanCancelled (named (h_queue h)) now i (release_unique i
        (hset i (\<lambda>h. h\<lparr>h_state := Some Cancelled, h_cancelled_at := Some now\<rparr>) (r\<lparr>rd_wait := at_key q (zrem i) (rd_wait r)\<rparr>))))"
      by (rule cancelled_ok [OF assms leave_wait [OF redis_okD(1) [OF assms] Some 1 q] Some]) simp_all
    then show ?thesis using 1 q unfolding fn_cancel_def hget_Some [OF Some] Let_def by simp
  next
    case 2
    note l = leave_delayed [OF redis_okD(1) [OF assms] Some 2]
    show ?thesis using cancelled_ok [OF assms l Some] 2 unfolding fn_cancel_def hget_Some [OF Some] Let_def by simp
  next
    case 3
    then have "fn_cancel i now r = (r, Inr 0)"
      unfolding fn_cancel_def hget_Some [OF Some] Let_def by (simp split: option.split job_state.split)
    then show ?thesis using assms by simp
  qed
qed

section \<open>Enqueue and schedules\<close>

text \<open>A fresh id, the hash of a live job, and the place it belongs to.\<close>

lemma redis_ok_fresh: "redis_ok r \<Longrightarrow> rd_idgen r < i \<Longrightarrow> rd_jobs r i = None"
  by (cases "rd_jobs r i") (fastforce simp: redis_ok_def core_ok_def hashes_ok_def hash_ok_def)+

lemma new_job_ok:
  assumes ok: "redis_ok r" and i: "i = rd_idgen r + 1"
    and r1: "rd_jobs r1 = (rd_jobs r)(i \<mapsto> h)" "rd_idgen r1 = i" "rd_queues_seen r1 = List.insert q (rd_queues_seen r)"
      "\<And>pl. zset_at pl r1 = zset_at pl r"
    and h: "live_hash h" "h_queue h = Some q" "h_kind h \<noteq> None" "h_payload h \<noteq> None"
    and u: "case h_unique_key h of None \<Rightarrow> rd_unique r1 = rd_unique r
         | Some k \<Rightarrow> rd_unique r k = None \<and> rd_unique r1 = (rd_unique r)(k \<mapsto> i)"
  shows "h_state h = Some Pending \<Longrightarrow> redis_ok (make_due q sc i r1)"
    "h_state h = Some Scheduled \<Longrightarrow> redis_ok (delay_until q d i r1)"
proof -
  have c: "core_ok r1" by (rule core_new [OF redis_okD(2) [OF ok] i r1(1-3) h u])
  have "placed {i} r" using redis_okD(1) [OF ok] redis_ok_fresh [OF ok] i by (intro placed_fresh) simp_all
  then have p: "placed {i} r1" by (rule placed_change [where i = i and x = "Some h"]) (simp_all add: r1)
  have j: "rd_jobs r1 i = Some h" by (simp add: r1)
  show "redis_ok (make_due q sc i r1)" if "h_state h = Some Pending"
    using enter_wait [OF p j that h(2)] core_same [OF c, of "make_due q sc i r1"] by (simp add: redis_ok_def)
  show "redis_ok (delay_until q d i r1)" if "h_state h = Some Scheduled"
    using enter_delayed [OF p j that _ h(2), of "delay_until q d i r1" True d] core_same [OF c, of "delay_until q d i r1"]
    by (simp add: redis_ok_def)
qed

lemma fn_enqueue_ok:
  assumes "redis_ok r"
  shows "redis_ok (fst (fn_enqueue now a r))"
proof (cases "ea_unique_key a \<noteq> [] \<and> rd_unique r (ea_unique_key a) \<noteq> None")
  case False
  define i where "i = rd_idgen r + 1"
  define eff where "eff = (if ea_scheduled_at_ms a = 0 then now else ea_scheduled_at_ms a)"
  define due where "due \<longleftrightarrow> eff \<le> now"
  define u where "u = (if ea_unique_key a \<noteq> [] then (rd_unique r)(ea_unique_key a \<mapsto> i) else rd_unique r)"
  define h where "h = enq_hash a (if due then Pending else Scheduled) eff now (unwrap_or (rd_jobs r i) empty_hash)"
  define r3 where "r3 = index_tags (ea_tags a) i (maybe_materialize_group (opt_str (ea_group_key a)) now
    (index_job (ea_queue a) (ea_kind a) i (hset i (enq_hash a (if due then Pending else Scheduled) eff now)
      (r\<lparr>rd_idgen := i, rd_unique := u\<rparr>))))"
  have e: "fst (fn_enqueue now a r) =
      (if due then publish_wakeup (id_str i) (make_due (ea_queue a) (wait_score (ea_priority a) eff) i r3)
       else delay_until (ea_queue a) eff i r3)"
    using False unfolding fn_enqueue_def Let_def r3_def u_def i_def eff_def due_def by (simp only: if_False fst_conv)
  have c3: "rd_jobs r3 = (rd_jobs r)(i \<mapsto> h)" "rd_idgen r3 = i" "rd_queues_seen r3 = List.insert (ea_queue a) (rd_queues_seen r)"
    "\<And>pl. zset_at pl r3 = zset_at pl r" "rd_unique r3 = u"
    by (simp_all add: r3_def h_def)
  have h: "live_hash h" "h_queue h = Some (ea_queue a)" "h_kind h \<noteq> None" "h_payload h \<noteq> None"
    "h_unique_key h = opt_str (ea_unique_key a)" "h_state h = Some (if due then Pending else Scheduled)"
    by (simp_all add: h_def enq_hash_def live_hash_def)
  have "case h_unique_key h of None \<Rightarrow> rd_unique r3 = rd_unique r
      | Some k \<Rightarrow> rd_unique r k = None \<and> rd_unique r3 = (rd_unique r)(k \<mapsto> i)"
    using False by (auto simp: h(5) c3(5) opt_str_def u_def)
  note n = new_job_ok [OF assms i_def c3(1-4) h(1-4) this]
  show ?thesis using n h(6) unfolding e by (cases due) (simp_all add: publish_ok)
qed (simp add: fn_enqueue_def assms)

lemma fn_enqueue_many_ok: "redis_ok r \<Longrightarrow> redis_ok (fst (fn_enqueue_many now as r))"
proof (induction "as" arbitrary: r)
  case (Cons a "as")
  obtain r' x where e: "fn_enqueue now a r = (r', x)" by fastforce
  then have "redis_ok r'" using fn_enqueue_ok [OF Cons.prems, of now a] by simp
  then show ?case using Cons.IH [of r'] e by (simp add: split_beta)
qed simp

lemma fn_schedule_fire_ok:
  assumes "redis_ok r"
  shows "redis_ok (fst (fn_schedule_fire sch now next_ms r))"
proof (cases "map_of (rd_schedules r) (s_name sch)")
  case (Some stored)
  define i where "i = rd_idgen r + 1"
  define h where "h = fire_hash sch now (unwrap_or (rd_jobs r i) empty_hash)"
  define r1 where "r1 = index_job (s_queue sch) (s_kind sch) i (hset i (fire_hash sch now) (r\<lparr>rd_idgen := i\<rparr>))"
  have "redis_ok (make_due (s_queue sch) sc i r1)" for sc
    by (rule new_job_ok(1) [OF assms i_def, of r1 h])
       (simp_all add: r1_def h_def fire_hash_def live_hash_def)
  then have "redis_ok (publish_wakeup x (make_due (s_queue sch) sc i r1))" for x sc by (rule publish_ok)
  then have "redis_ok ((publish_wakeup x (make_due (s_queue sch) sc i r1))\<lparr>rd_schedules := s, rd_schedule_next := z\<rparr>)" for x sc s z
    by (rule redis_ok_same) simp_all
  then show ?thesis using Some by (simp add: fn_schedule_fire_def Let_def i_def r1_def)
qed (simp add: fn_schedule_fire_def assms)

section \<open>Retention sweeps and backfill\<close>

lemma cleanup_victims_sub:
  assumes "zset_ok z"
  shows "set (cleanup_victims now age keep limit z) \<subseteq> zmem z" "distinct (cleanup_victims now age keep limit z)"
proof -
  define aged where "aged = (if 0 \<le> age then zbelow id_str (\<lambda>sc. sc < now - age * 1000) limit z else [])"
  define want where "want = min (int (zcard z) - keep) (int limit)"
  define surplus where
    "surplus = (if 0 \<le> keep \<and> length aged < limit \<and> 0 < want then take (nat want) (zrange id_str z) else [])"
  have e: "cleanup_victims now age keep limit z = take limit (aged @ filter (\<lambda>i. i \<notin> set aged) surplus)"
    by (simp add: cleanup_victims_def Let_def aged_def want_def surplus_def)
  have a: "set aged \<subseteq> zmem z" "distinct aged"
    using zbelow_sub [of id_str "\<lambda>sc. sc < now - age * 1000" limit z] zbelow_distinct [OF assms] by (auto simp: aged_def)
  have s: "set surplus \<subseteq> zmem z" "distinct surplus"
    using set_take_subset [of "nat want" "zrange id_str z"] distinct_zrange [OF assms] by (auto simp: surplus_def)
  show "set (cleanup_victims now age keep limit z) \<subseteq> zmem z" using a s by (auto simp: e dest!: in_set_takeD)
  show "distinct (cleanup_victims now age keep limit z)" unfolding e using a s by (intro distinct_take) auto
qed

definition sweep_one :: "clean_state \<Rightarrow> job_id \<Rightarrow> redis \<Rightarrow> redis" where
  "sweep_one st i r =
     (let q = hget h_queue i r; r1 = fin_upd st (zrem i) (delete_job i r)
      in case named q of None \<Rightarrow> r1 | Some n \<Rightarrow> fin_nq_upd st n (zrem i) r1)"

lemma sweep_one_ok:
  assumes "redis_ok r" "rd_jobs r i = Some h" "h_state h = Some (clean_job_state st)"
  shows "redis_ok (sweep_one st i r)" "rd_jobs (sweep_one st i r) = (rd_jobs r)(i := None)"
proof -
  show j: "rd_jobs (sweep_one st i r) = (rd_jobs r)(i := None)" by (simp add: sweep_one_def Let_def split: option.split)
  let ?r = "case named (h_queue h) of None \<Rightarrow> fin_upd st (zrem i) r | Some n \<Rightarrow> fin_nq_upd st n (zrem i) (fin_upd st (zrem i) r)"
  have "placed {i} ?r"
    using leave_fin [OF redis_okD(1) [OF assms(1)] assms(2,3), of ?r] by (simp split: option.split)
  then have "placed {i} (sweep_one st i r)"
    by (rule placed_change [where i = i and x = None])
       (simp_all add: sweep_one_def Let_def assms(2) split: option.split)
  then have "placed {} (sweep_one st i r)" by (rule placed_forget) (simp_all add: j)
  moreover have "core_ok (sweep_one st i r)"
    by (rule core_del [OF redis_okD(2) [OF assms(1)] assms(2) j])
       (simp_all add: sweep_one_def Let_def assms(2) split: option.split)
  ultimately show "redis_ok (sweep_one st i r)" by (simp add: redis_ok_def)
qed

lemma fold_sweep_ok:
  assumes "redis_ok r" "distinct vs" "\<And>v. v \<in> set vs \<Longrightarrow> hget h_state v r = Some (clean_job_state st)"
  shows "redis_ok (fold (sweep_one st) vs r)"
  using assms
proof (induction vs arbitrary: r)
  case (Cons v vs)
  obtain h where h: "rd_jobs r v = Some h" "h_state h = Some (clean_job_state st)"
    using Cons.prems(3) [of v] hget_Running by force
  note s = sweep_one_ok [OF Cons.prems(1) h]
  have "hget h_state x (sweep_one st v r) = Some (clean_job_state st)" if "x \<in> set vs" for x
  proof -
    have "x \<noteq> v" using that Cons.prems(2) by auto
    then show ?thesis using that Cons.prems(3) [of x] by (simp add: hget_def s(2))
  qed
  then show ?case using Cons.IH [OF s(1)] Cons.prems(2) by simp
qed simp

lemma sweep_finalized_ok:
  assumes "redis_ok r"
  shows "redis_ok (fst (sweep_finalized st now age keep limit r))"
proof -
  let ?vs = "cleanup_victims now age keep limit (fin_set st r)"
  have z: "zset_ok (fin_set st r)" using zset_at_ok [OF assms, of "Finished st"] by (simp add: zset_at.simps)
  have "hget h_state v r = Some (clean_job_state st)" if "v \<in> set ?vs" for v
    using in_place [OF assms, of "Finished st" v] that cleanup_victims_sub(1) [OF z, of now age keep limit]
    by (auto simp: zset_at.simps)
  then have "redis_ok (fold (sweep_one st) ?vs r)" by (rule fold_sweep_ok [OF assms cleanup_victims_sub(2) [OF z]])
  moreover have "sweep_one st = (\<lambda>i r. let q = hget h_queue i r; r1 = fin_upd st (zrem i) (delete_job i r)
      in case named q of None \<Rightarrow> r1 | Some n \<Rightarrow> fin_nq_upd st n (zrem i) r1)"
    by (intro ext) (simp add: sweep_one_def)
  ultimately show ?thesis using assms by (simp add: sweep_finalized_def Let_def)
qed

lemma fn_cleanup_ok:
  assumes "redis_ok r"
  shows "redis_ok (fst (fn_cleanup now ages counts limit r))"
proof -
  obtain a b c x y z where e: "ages = (a, b, c)" "counts = (x, y, z)" by (cases ages; cases counts) auto
  let ?l = "if limit = 0 then 500 else limit"
  let ?r1 = "fst (sweep_finalized CleanCompleted now a x ?l r)"
  let ?r2 = "fst (sweep_finalized CleanFailed now b y ?l ?r1)"
  have "redis_ok (fst (sweep_finalized CleanCancelled now c z ?l ?r2))" by (intro sweep_finalized_ok assms)
  then show ?thesis by (simp add: fn_cleanup_def e split_beta Let_def)
qed

text \<open>A store in order has nothing to backfill.\<close>

lemma fold_same: "(\<And>x. x \<in> set xs \<Longrightarrow> f x acc = acc) \<Longrightarrow> fold f xs acc = acc"
  by (induction xs) simp_all

lemma backfill_walk:
  assumes "\<And>i q. i \<in> zmem z \<Longrightarrow> named (hget h_queue i r) = Some q \<Longrightarrow> i \<in> zmem (mirror r q)"
  shows "fold (backfill_one mirror upd) (take n (zsorted id_str z)) (r, k) = (r, k)"
proof (rule fold_same)
  fix e assume "e \<in> set (take n (zsorted id_str z))"
  then have "fst e \<in> zmem z" using in_set_takeD [of e n "zsorted id_str z"] by (simp add: zsorted_def zmem_def)
  then show "backfill_one mirror upd e (r, k) = (r, k)"
    using assms [of "fst e"] by (cases e) (simp add: backfill_one_def split: option.split)
qed

lemma mirrored:
  assumes "redis_ok r" "tracked pl" "\<And>q h. q \<noteq> [] \<Longrightarrow> tracked (plq q) \<and> (belongs (plq q) h \<longleftrightarrow> belongs pl h \<and> h_queue h = Some q)"
    and "i \<in> zmem (zset_at pl r)" "named (hget h_queue i r) = Some q"
  shows "i \<in> zmem (zset_at (plq q) r)"
proof -
  obtain h where h: "rd_jobs r i = Some h" "belongs pl h" using in_place [OF assms(1,2)] assms(4) by blast
  then have "q \<noteq> []" "h_queue h = Some q" using assms(5) by (simp_all add: named_Some)
  then show ?thesis using in_place [OF assms(1), of "plq q" i] assms(3) [of q h] h by simp
qed

lemma fn_backfill_same: "redis_ok r \<Longrightarrow> fn_backfill_nq_states n r = (r, 0)"
proof -
  assume ok: "redis_ok r"
  have "i \<in> zmem (rd_nq_scheduled r q)" if "i \<in> zmem (rd_delayed r)" "named (hget h_queue i r) = Some q" for i q
    using mirrored [OF ok, of Delayed QueueSched i q] that by (simp add: zset_at.simps)
  note d = backfill_walk [where mirror = rd_nq_scheduled, OF this]
  have "i \<in> zmem (fin_nq st r q)" if "i \<in> zmem (fin_set st r)" "named (hget h_queue i r) = Some q" for i q st
    using mirrored [OF ok, of "Finished st" "QueueFin st" i q] that by (simp add: zset_at.simps)
  note f = backfill_walk [of "fin_set st r" r "fin_nq st" for st, OF this]
  show ?thesis
    unfolding fn_backfill_nq_states_def Let_def
    using f [of CleanCompleted] f [of CleanFailed] f [of CleanCancelled] by (simp add: d)
qed

section \<open>Runs\<close>

text \<open>What a client can ask the server to run. The functions that only read change nothing and are left out.\<close>

datatype redis_op =
    Enqueue int "enq_args list"
  | Claim nat uuid int "string list" "string list"
  | Heartbeat int "job_id list"
  | Complete job_id uuid int "json option"
  | Fail job_id uuid int json int
  | SweepStale int nat
  | Promote int nat
  | Reclaim int "job_id list"
  | CancelJob job_id int
  | CleanupJobs int "int \<times> int \<times> int" "int \<times> int \<times> int" nat
  | LeaderTry int uuid nat string
  | LeaderResign int uuid string
  | GroupConcurrency string int
  | GroupPaused string bool
  | GroupRate string int int int
  | GroupClearRate string
  | SetRule string rrule
  | RemoveRule string
  | QueueConcurrency string int
  | QueuePaused string bool
  | QueueTimeout string int
  | UpsertSchedule string rsched
  | RemoveSchedule string
  | EnableSchedule string bool int
  | FireSchedule schedule int int
  | Backfill nat

fun run_op :: "redis_op \<Rightarrow> redis \<Rightarrow> redis" where
  "run_op (Enqueue now as) r = fst (fn_enqueue_many now as r)"
| "run_op (Claim b w now qs ks) r = fst (fn_claim b w now qs ks r)"
| "run_op (Heartbeat now ids) r = fst (fn_heartbeat now ids r)"
| "run_op (Complete i w now result) r = fst (fn_complete i w now result r)"
| "run_op (Fail i w now entry retry_ms) r = fst (fn_fail i w now entry retry_ms r)"
| "run_op (SweepStale before n) r = fst (fn_sweep_stale before n r)"
| "run_op (Promote now n) r = fst (fn_promote_delayed now n r)"
| "run_op (Reclaim now ids) r = fst (fn_reclaim_in_flight now ids r)"
| "run_op (CancelJob i now) r = fst (fn_cancel i now r)"
| "run_op (CleanupJobs now ages counts limit) r = fst (fn_cleanup now ages counts limit r)"
| "run_op (LeaderTry clk w lease role) r = fst (fn_leader_try clk w lease role r)"
| "run_op (LeaderResign clk w role) r = fst (fn_leader_resign clk w role r)"
| "run_op (GroupConcurrency k mx) r = fn_group_set_concurrency k mx r"
| "run_op (GroupPaused k p) r = fn_group_set_paused k p r"
| "run_op (GroupRate k n period now) r = fn_group_set_rate k n period now r"
| "run_op (GroupClearRate k) r = fn_group_clear_rate k r"
| "run_op (SetRule pattern rule) r = fn_group_set_rule pattern rule r"
| "run_op (RemoveRule pattern) r = fst (fn_group_remove_rule pattern r)"
| "run_op (QueueConcurrency q mx) r = fn_queue_set_concurrency q mx r"
| "run_op (QueuePaused q p) r = fn_queue_set_paused q p r"
| "run_op (QueueTimeout q ms) r = fn_queue_set_timeout q ms r"
| "run_op (UpsertSchedule name e) r = fn_schedule_upsert name e r"
| "run_op (RemoveSchedule name) r = fst (fn_schedule_remove name r)"
| "run_op (EnableSchedule name en next_ms) r = fst (fn_schedule_set_enabled name en next_ms r)"
| "run_op (FireSchedule sch now next_ms) r = fst (fn_schedule_fire sch now next_ms r)"
| "run_op (Backfill n) r = fst (fn_backfill_nq_states n r)"

text \<open>A report is in time when the worker that holds the lease reports on a job that still runs.\<close>

fun in_time :: "redis_op \<Rightarrow> redis \<Rightarrow> bool" where
  "in_time (Complete i w now result) r = timely i w r"
| "in_time (Fail i w now entry retry_ms) r = timely i w r"
| "in_time op r = True"

inductive redis_run :: "redis \<Rightarrow> redis \<Rightarrow> bool" where
  start: "redis_run r r"
| step: "redis_run r s \<Longrightarrow> in_time op s \<Longrightarrow> redis_run r (run_op op s)"

lemma settings_ok:
  assumes "redis_ok r"
  shows "redis_ok (set_gmeta k f r)" "redis_ok (fn_group_clear_rate k r)" "redis_ok (fn_group_set_rule p rule r)"
    "redis_ok (fst (fn_group_remove_rule p r))" "redis_ok (set_nqmeta q g r)" "redis_ok (fn_queue_set_timeout q ms r)"
    "redis_ok (fn_schedule_upsert name e r)" "redis_ok (fst (fn_schedule_remove name r))"
    "redis_ok (fst (fn_schedule_set_enabled name en next_ms r))" "redis_ok (fst (fn_leader_try clk w lease role r))"
    "redis_ok (fst (fn_leader_resign clk w role r))"
  by (rule redis_ok_same [OF assms]; simp add: set_gmeta_def fn_group_clear_rate_def fn_group_set_rule_def fn_group_remove_rule_def
      set_nqmeta_def fn_queue_set_timeout_def fn_schedule_upsert_def fn_schedule_remove_def fn_schedule_set_enabled_def
      fn_leader_try_def fn_leader_resign_def Let_def split: option.split)+

lemma run_op_ok: "redis_ok r \<Longrightarrow> in_time op r \<Longrightarrow> redis_ok (run_op op r)"
  by (cases op)
     (simp_all add: fn_enqueue_many_ok fn_claim_ok fn_heartbeat_ok fn_complete_ok fn_fail_ok fn_sweep_stale_ok fn_promote_ok
       fn_reclaim_ok fn_cancel_ok fn_cleanup_ok fn_schedule_fire_ok fn_backfill_same settings_ok
       fn_group_set_concurrency_def fn_group_set_paused_def fn_group_set_rate_def fn_queue_set_concurrency_def fn_queue_set_paused_def)

lemma redis_run_ok: "redis_run r s \<Longrightarrow> redis_ok r \<Longrightarrow> redis_ok s"
  by (induction rule: redis_run.induct) (simp_all add: run_op_ok)

end
