(* ===== verification/Redis_Claims.thy ===== *)
theory Redis_Claims
  imports Redis_Steps
begin

text \<open>
  What one run of the claim function does: which jobs it starts, and that it keeps to the limits of queues and groups. The
  facts are invariants of the accumulator that every candidate keeps.
\<close>

section \<open>Frames\<close>

lemma unwrap_or_Some [simp]: "unwrap_or (Some x) d = x"
  by (simp add: unwrap_or_def)

lemma gate_group_rest [simp]:
  "rd_nqmeta (fst (gate_group now gk r)) = rd_nqmeta r" "rd_nq_running (fst (gate_group now gk r)) = rd_nq_running r"
  "rd_group_running (fst (gate_group now gk r)) = rd_group_running r" "rd_wait (fst (gate_group now gk r)) = rd_wait r"
  "rd_jobs (fst (gate_group now gk r)) = rd_jobs r"
  by (simp_all add: gate_group_def Let_def persist_tokens_def split: option.split)

lemma begin_run_rest [simp]:
  "rd_nqmeta (begin_run w now q a i h r) = rd_nqmeta r" "rd_gmeta (begin_run w now q a i h r) = rd_gmeta r"
  "rd_nq_running (begin_run w now q a i h r) = at_key q (zadd now i) (rd_nq_running r)"
  "rd_group_running (begin_run w now q a i h r) =
     (case h_group_key h of None \<Rightarrow> rd_group_running r | Some k \<Rightarrow> at_key k (zadd now i) (rd_group_running r))"
  by (simp_all add: begin_run_def hset_def)

lemma zcard_zadd: "zcard (zadd sc i z) \<le> Suc (zcard z)"
  by (simp add: zadd_def zcard_def zrem_def)

lemma fold_keeps_in: "(\<And>x acc. x \<in> set xs \<Longrightarrow> P acc \<Longrightarrow> P (f x acc)) \<Longrightarrow> P acc \<Longrightarrow> P (fold f xs acc)"
  by (induction xs arbitrary: acc) simp_all

text \<open>An invariant of candidates that does not look at the counters of a queue is one of the whole claim.\<close>

lemma fn_claim_keeps:
  assumes P: "\<And>acc q t i. P acc \<Longrightarrow> q \<in> set qs \<Longrightarrow> P (claim_one w now b ks t q i acc)"
    and c: "\<And>(acc :: claim_acc) s bl op ro he. P (acc\<lparr>ca_scanned := s, ca_blocked := bl, ca_open := op, ca_room := ro, ca_here := he\<rparr>) = P acc"
    and start: "P \<lparr>ca_store = r, ca_out = [], ca_taken = 0, ca_scanned = 0, ca_blocked = [], ca_open = True, ca_room = None, ca_here = 0\<rparr>"
  shows "\<exists>acc. fn_claim b w now qs ks r = (ca_store acc, ca_out acc) \<and> P acc"
proof -
  have here: "P (acc\<lparr>ca_here := n\<rparr>)" if "P acc" for acc n
    using that c [where acc = acc and s = "ca_scanned acc" and bl = "ca_blocked acc" and op = "ca_open acc" and ro = "ca_room acc" and he = n]
    by simp
  have "P (claim_queue w now b ks q acc)" if "q \<in> set qs" "P acc" for q acc
  proof (cases "b \<le> ca_taken acc")
    case False
    show ?thesis
      unfolding claim_queue_def Let_def using False
      by (simp, intro claim_pages_keeps [where P = P]) (simp_all add: here P c that)
  qed (simp add: claim_queue_def that)
  then have "P (fold (claim_queue w now b ks) qs
      \<lparr>ca_store = r, ca_out = [], ca_taken = 0, ca_scanned = 0, ca_blocked = [], ca_open = True, ca_room = None, ca_here = 0\<rparr>)"
    by (rule fold_keeps_in) (simp_all add: start)
  then show ?thesis by (auto simp: fn_claim_def Let_def)
qed

section \<open>The jobs a claim starts\<close>

definition starts :: "redis \<Rightarrow> uuid \<Rightarrow> int \<Rightarrow> string list \<Rightarrow> string list \<Rightarrow> redis \<Rightarrow> claim_entry \<Rightarrow> bool" where
  "starts r w now qs ks r' e \<longleftrightarrow>
     (\<exists>h. rd_jobs r (ce_id e) = Some h \<and> h_state h = Some Pending \<and> h_kind h = Some (ce_kind e) \<and> ce_kind e \<in> set ks \<and>
          (\<exists>q \<in> set qs. h_queue h = Some q) \<and> ce_worker_id e = w \<and> ce_attempt e = unwrap_or (h_attempt h) 0 + 1 \<and>
          ce_payload e = h_payload h \<and> ce_queue e = h_queue h \<and> ce_group_key e = h_group_key h \<and>
          rd_jobs r' (ce_id e) = Some (run_hash w now (ce_attempt e) h))"

definition claimed_so_far :: "redis \<Rightarrow> uuid \<Rightarrow> int \<Rightarrow> nat \<Rightarrow> string list \<Rightarrow> string list \<Rightarrow> claim_acc \<Rightarrow> bool" where
  "claimed_so_far r w now b qs ks acc \<longleftrightarrow>
     redis_ok (ca_store acc) \<and> length (ca_out acc) = ca_taken acc \<and> ca_taken acc \<le> b \<and> distinct (map ce_id (ca_out acc)) \<and>
     (\<forall>e \<in> set (ca_out acc). starts r w now qs ks (ca_store acc) e) \<and>
     (\<forall>i. i \<notin> ce_id ` set (ca_out acc) \<longrightarrow> rd_jobs (ca_store acc) i = rd_jobs r i)"

lemma claimed_so_far_step:
  assumes so: "claimed_so_far r w now b qs ks acc" and q: "q \<in> set qs"
  shows "claimed_so_far r w now b qs ks (claim_one w now b ks t q i acc)" (is "claimed_so_far r w now b qs ks ?acc")
proof -
  have ok: "redis_ok (ca_store acc)" using so by (simp add: claimed_so_far_def)
  then have ok': "redis_ok (ca_store ?acc)" by (rule claim_one_ok)
  consider "passed_over now acc ?acc" | h where "started w now b ks t q i h acc ?acc" using claim_one_cases by blast
  then show ?thesis
  proof cases
    case 1
    then have "rd_jobs (ca_store ?acc) = rd_jobs (ca_store acc)" "ca_out ?acc = ca_out acc" "ca_taken ?acc = ca_taken acc"
      by (auto simp: passed_over_def)
    then show ?thesis using so ok' by (simp add: claimed_so_far_def starts_def)
  next
    case (2 h)
    define a where "a = unwrap_or (h_attempt h) 0 + 1"
    obtain kind where kind: "kind \<in> set ks" "h_kind h = Some kind" "ca_out ?acc = ca_out acc @ [entry_of w t a i kind h]"
      using 2 by (auto simp: started_def Let_def a_def)
    have h: "rd_jobs (ca_store acc) i = Some h" "h_state h = Some Pending" "ca_taken acc < b" "ca_taken ?acc = Suc (ca_taken acc)"
      "i \<in> zmem (rd_wait (ca_store acc) q)"
      using 2 by (simp_all add: started_def Let_def)
    have j: "rd_jobs (ca_store ?acc) = (rd_jobs (ca_store acc))(i \<mapsto> run_hash w now a h)"
      using 2 h(1) by (simp add: started_def Let_def begin_run_core a_def)
    have "belongs (Waits q) h" using in_place [OF ok, of "Waits q" i] h(1,5) by (simp add: zset_at.simps)
    then have hq: "h_queue h = Some q" by simp
    have new: "i \<notin> ce_id ` set (ca_out acc)"
    proof
      assume "i \<in> ce_id ` set (ca_out acc)"
      then obtain e where "e \<in> set (ca_out acc)" "ce_id e = i" by blast
      then obtain h0 where "rd_jobs (ca_store acc) i = Some (run_hash w now (ce_attempt e) h0)"
        using so by (auto simp: claimed_so_far_def starts_def)
      then show False using h(1,2) by (simp add: run_hash_def)
    qed
    have "starts r w now qs ks (ca_store ?acc) (entry_of w t a i kind h)"
      using so new h(1,2) kind hq q j by (simp add: claimed_so_far_def starts_def entry_of_def a_def)
    moreover have "starts r w now qs ks (ca_store ?acc) e" if "e \<in> set (ca_out acc)" for e
      using so new that j by (auto simp: claimed_so_far_def starts_def)
    ultimately show ?thesis
      using so ok' kind(3) new h j by (auto simp: claimed_so_far_def entry_of_def)
  qed
qed

lemma fn_claim_starts:
  assumes "redis_ok r"
  shows "length (snd (fn_claim b w now qs ks r)) \<le> b" "distinct (map ce_id (snd (fn_claim b w now qs ks r)))"
    "e \<in> set (snd (fn_claim b w now qs ks r)) \<Longrightarrow> starts r w now qs ks (fst (fn_claim b w now qs ks r)) e"
    "i \<notin> ce_id ` set (snd (fn_claim b w now qs ks r)) \<Longrightarrow> rd_jobs (fst (fn_claim b w now qs ks r)) i = rd_jobs r i"
proof -
  have "\<exists>acc. fn_claim b w now qs ks r = (ca_store acc, ca_out acc) \<and> claimed_so_far r w now b qs ks acc"
    by (rule fn_claim_keeps) (simp_all add: claimed_so_far_step, simp_all add: claimed_so_far_def starts_def assms)
  then obtain acc where "fn_claim b w now qs ks r = (ca_store acc, ca_out acc)" "claimed_so_far r w now b qs ks acc" by blast
  then show "length (snd (fn_claim b w now qs ks r)) \<le> b" "distinct (map ce_id (snd (fn_claim b w now qs ks r)))"
    "e \<in> set (snd (fn_claim b w now qs ks r)) \<Longrightarrow> starts r w now qs ks (fst (fn_claim b w now qs ks r)) e"
    "i \<notin> ce_id ` set (snd (fn_claim b w now qs ks r)) \<Longrightarrow> rd_jobs (fst (fn_claim b w now qs ks r)) i = rd_jobs r i"
    by (simp_all add: claimed_so_far_def)
qed

text \<open>Without any assumption on the store, a claim returns at most as many jobs as it was asked for.\<close>

lemma fn_claim_length: "length (snd (fn_claim b w now qs ks r)) \<le> b"
proof -
  let ?P = "\<lambda>acc :: claim_acc. length (ca_out acc) = ca_taken acc \<and> ca_taken acc \<le> b"
  have step: "?P (claim_one w now b ks t q i acc)" if "?P acc" for acc t q i
    using claim_one_cases [of now acc w b ks t q i] that by (auto simp: passed_over_def started_def Let_def)
  have "\<exists>acc. fn_claim b w now qs ks r = (ca_store acc, ca_out acc) \<and> ?P acc"
    by (rule fn_claim_keeps [where P = ?P]) (rule step, simp_all)
  then show ?thesis by auto
qed

section \<open>Limits of a queue\<close>

text \<open>While queue \<open>q\<close> is scanned the room that is left never exceeds what its limit leaves; a scan of another queue does not
  change its running set.\<close>

definition within_room :: "string \<Rightarrow> int \<Rightarrow> nat \<Rightarrow> (string \<rightharpoonup> nqmeta) \<Rightarrow> claim_acc \<Rightarrow> bool" where
  "within_room q mx old meta acc \<longleftrightarrow>
     rd_nqmeta (ca_store acc) = meta \<and> zcard (rd_nq_running (ca_store acc) q) \<le> max old (nat mx) \<and>
     (\<exists>n. ca_room acc = Some n \<and> n \<le> mx - int (zcard (rd_nq_running (ca_store acc) q)) \<and> (ca_open acc \<longrightarrow> 0 < n))"

lemma within_room_step:
  assumes "within_room q mx old meta acc"
  shows "within_room q mx old meta (claim_one w now b ks t q i acc)" (is "within_room q mx old meta ?acc")
proof -
  consider "passed_over now acc ?acc" | h where "started w now b ks t q i h acc ?acc" using claim_one_cases by blast
  then show ?thesis
  proof cases
    case 1
    then show ?thesis using assms by (auto simp: within_room_def passed_over_def)
  next
    case (2 h)
    obtain n where n: "ca_room acc = Some n" "n \<le> mx - int (zcard (rd_nq_running (ca_store acc) q))" "0 < n"
      using assms 2 by (auto simp: within_room_def started_def Let_def)
    have r: "rd_nq_running (ca_store ?acc) q = zadd now i (rd_nq_running (ca_store acc) q)"
      "rd_nqmeta (ca_store ?acc) = rd_nqmeta (ca_store acc)" "ca_room ?acc = Some (n - 1)" "ca_open ?acc \<longleftrightarrow> 0 < n - 1"
      using 2 n(1) by (simp_all add: started_def Let_def)
    have "zcard (zadd now i (rd_nq_running (ca_store acc) q)) \<le> Suc (zcard (rd_nq_running (ca_store acc) q))" by (rule zcard_zadd)
    then show ?thesis using assms n by (auto simp: within_room_def r)
  qed
qed

lemma other_queue_step:
  assumes "q' \<noteq> q"
  shows "rd_nq_running (ca_store (claim_one w now b ks t q' i acc)) q = rd_nq_running (ca_store acc) q"
    "rd_nqmeta (ca_store (claim_one w now b ks t q' i acc)) = rd_nqmeta (ca_store acc)"
proof -
  consider "passed_over now acc (claim_one w now b ks t q' i acc)" | h where "started w now b ks t q' i h acc (claim_one w now b ks t q' i acc)"
    using claim_one_cases by blast
  then show "rd_nq_running (ca_store (claim_one w now b ks t q' i acc)) q = rd_nq_running (ca_store acc) q"
    "rd_nqmeta (ca_store (claim_one w now b ks t q' i acc)) = rd_nqmeta (ca_store acc)"
    using assms by (cases; auto simp: passed_over_def started_def Let_def)+
qed

lemma other_queue:
  assumes "q' \<noteq> q"
  shows "rd_nq_running (ca_store (claim_queue w now b ks q' acc)) q = rd_nq_running (ca_store acc) q \<and>
    rd_nqmeta (ca_store (claim_queue w now b ks q' acc)) = rd_nqmeta (ca_store acc)"
proof -
  let ?P = "\<lambda>a :: claim_acc. rd_nq_running (ca_store a) q = rd_nq_running (ca_store acc) q \<and> rd_nqmeta (ca_store a) = rd_nqmeta (ca_store acc)"
  have "?P (claim_pages w now b ks t q' off a)" if "?P a" for t off a
    by (rule claim_pages_keeps [where P = ?P]) (use that in \<open>simp_all add: other_queue_step [OF assms]\<close>)
  then show ?thesis by (simp add: claim_queue_def Let_def)
qed

lemma claim_pages_closed: "\<not> ca_open acc \<Longrightarrow> claim_pages w now b ks t q off acc = acc"
  by (subst claim_pages.simps) simp

lemma same_queue:
  assumes "read_nq_meta q (ca_store acc) = Some m"
  shows "nv_paused m \<Longrightarrow> ca_store (claim_queue w now b ks q acc) = ca_store acc"
    and "0 \<le> nv_max_concurrency m \<Longrightarrow> zcard (rd_nq_running (ca_store acc) q) \<le> max old (nat (nv_max_concurrency m)) \<Longrightarrow>
      zcard (rd_nq_running (ca_store (claim_queue w now b ks q acc)) q) \<le> max old (nat (nv_max_concurrency m)) \<and>
      rd_nqmeta (ca_store (claim_queue w now b ks q acc)) = rd_nqmeta (ca_store acc)"
proof -
  show p: "ca_store (claim_queue w now b ks q acc) = ca_store acc" if "nv_paused m"
    using that assms by (simp add: claim_queue_def Let_def claim_pages_closed)
  assume mx: "0 \<le> nv_max_concurrency m" and le: "zcard (rd_nq_running (ca_store acc) q) \<le> max old (nat (nv_max_concurrency m))"
  show "zcard (rd_nq_running (ca_store (claim_queue w now b ks q acc)) q) \<le> max old (nat (nv_max_concurrency m)) \<and>
      rd_nqmeta (ca_store (claim_queue w now b ks q acc)) = rd_nqmeta (ca_store acc)"
  proof (cases "nv_paused m \<or> b \<le> ca_taken acc")
    case True
    then show ?thesis using p le by (auto simp: claim_queue_def)
  next
    case False
    let ?n = "nv_max_concurrency m - int (zcard (rd_nq_running (ca_store acc) q))"
    let ?P = "within_room q (nv_max_concurrency m) old (rd_nqmeta (ca_store acc))"
    have "?P (claim_pages w now b ks t q 0 (acc\<lparr>ca_scanned := 0, ca_blocked := [], ca_open := 0 < ?n, ca_room := Some ?n, ca_here := 0\<rparr>))" for t
    proof (rule claim_pages_keeps [where P = ?P])
      show "?P a \<Longrightarrow> ?P (claim_one w now b ks t q i a)" for a i by (rule within_room_step)
    qed (use le in \<open>simp_all add: within_room_def\<close>)
    then show ?thesis using False assms mx by (simp add: claim_queue_def Let_def within_room_def)
  qed
qed

lemma read_nq_meta_cong: "rd_nqmeta r' = rd_nqmeta r \<Longrightarrow> read_nq_meta q r' = read_nq_meta q r"
  by (simp add: read_nq_meta_def)

lemma fn_claim_queue_limits:
  assumes "read_nq_meta q r = Some m"
  shows "nv_paused m \<Longrightarrow> rd_nq_running (fst (fn_claim b w now qs ks r)) q = rd_nq_running r q"
    and "0 \<le> nv_max_concurrency m \<Longrightarrow>
      zcard (rd_nq_running (fst (fn_claim b w now qs ks r)) q) \<le> max (zcard (rd_nq_running r q)) (nat (nv_max_concurrency m))"
proof -
  let ?a0 = "\<lparr>ca_store = r, ca_out = [], ca_taken = 0, ca_scanned = 0, ca_blocked = [], ca_open = True, ca_room = None, ca_here = 0\<rparr>"
  let ?P = "\<lambda>a :: claim_acc. rd_nqmeta (ca_store a) = rd_nqmeta r \<and> (nv_paused m \<longrightarrow> rd_nq_running (ca_store a) q = rd_nq_running r q) \<and>
    (0 \<le> nv_max_concurrency m \<longrightarrow> zcard (rd_nq_running (ca_store a) q) \<le> max (zcard (rd_nq_running r q)) (nat (nv_max_concurrency m)))"
  have step: "?P (claim_queue w now b ks q' a)" if "?P a" for q' a
  proof (cases "q' = q")
    case True
    have m: "read_nq_meta q (ca_store a) = Some m" using that assms read_nq_meta_cong by metis
    show ?thesis
    proof (cases "nv_paused m \<or> \<not> 0 \<le> nv_max_concurrency m")
      case False
      then show ?thesis using same_queue(2) [OF m] that True by auto
    next
      case nolimit: True
      show ?thesis
      proof (cases "nv_paused m")
        case True
        then show ?thesis using same_queue(1) [OF m True] that \<open>q' = q\<close> by simp
      next
        case False
        let ?Q = "\<lambda>a :: claim_acc. rd_nqmeta (ca_store a) = rd_nqmeta r"
        have one: "?Q (claim_one w now b ks t q i a)" if "?Q a" for t i a
          using claim_one_cases [of now a w b ks t q i] that by (auto simp: passed_over_def started_def Let_def)
        have "?Q (claim_pages w now b ks t q off a)" if "?Q a" for t off a
          by (rule claim_pages_keeps [where P = ?Q]) (simp, rule one, simp_all add: that)
        then have "?Q (claim_queue w now b ks q a)" using that by (simp add: claim_queue_def Let_def)
        then show ?thesis using False nolimit \<open>q' = q\<close> by simp
      qed
    qed
  next
    case False
    then show ?thesis using other_queue [OF False, of w now b ks a] that by simp
  qed
  have "?P (fold (claim_queue w now b ks) qs ?a0)" by (rule fold_keeps [where P = ?P, OF step]) simp_all
  then show "nv_paused m \<Longrightarrow> rd_nq_running (fst (fn_claim b w now qs ks r)) q = rd_nq_running r q"
    "0 \<le> nv_max_concurrency m \<Longrightarrow>
      zcard (rd_nq_running (fst (fn_claim b w now qs ks r)) q) \<le> max (zcard (rd_nq_running r q)) (nat (nv_max_concurrency m))"
    by (simp_all add: fn_claim_def Let_def)
qed

section \<open>Limits of a group\<close>

text \<open>The tokens a group would have if they were refilled now.\<close>

definition bank :: "int \<Rightarrow> gview \<Rightarrow> real" where
  "bank now m = gv_tokens (refill_tokens now m)"

definition same_limits :: "gview \<Rightarrow> gview \<Rightarrow> bool" where
  "same_limits m m' \<longleftrightarrow> gv_max_concurrency m' = gv_max_concurrency m \<and> gv_paused m' = gv_paused m \<and>
     gv_rate_count m' = gv_rate_count m \<and> gv_rate_period_ms m' = gv_rate_period_ms m"

lemma refill_limits [simp]:
  "gv_max_concurrency (refill_tokens now m) = gv_max_concurrency m" "gv_paused (refill_tokens now m) = gv_paused m"
  "gv_rate_count (refill_tokens now m) = gv_rate_count m" "gv_rate_period_ms (refill_tokens now m) = gv_rate_period_ms m"
  by (simp_all add: refill_tokens_def Let_def)

lemma bank_written:
  assumes "0 \<le> gv_rate_count m" "x \<le> bank now m"
  shows "bank now (m\<lparr>gv_tokens := x, gv_refilled_at := gv_refilled_at (refill_tokens now m)\<rparr>) = x"
  using assms by (auto simp: bank_def refill_tokens_def Let_def)

lemma read_group_persist:
  assumes "read_group_meta (Some k) r = Some m"
  shows "read_group_meta (Some k) (persist_tokens k' m' r) =
    Some (if k' = k then m\<lparr>gv_tokens := gv_tokens m', gv_refilled_at := gv_refilled_at m'\<rparr> else m)"
proof -
  obtain x where x: "rd_gmeta r k = Some x" using assms by (cases "rd_gmeta r k") (simp_all add: read_group_meta_def)
  have "\<not> (gm_max_concurrency x = None \<and> gm_paused x = None \<and> gm_rate_count x = None)"
    using assms x unfolding read_group_meta_def by (force split: if_splits)
  then show ?thesis
    using assms by (cases "k' = k") (auto simp: read_group_meta_def persist_tokens_def x)
qed

lemma gate_group_own:
  assumes m: "read_group_meta (Some k) r = Some m" and g: "gate_group now (Some k) r = (r', go)"
  obtains m' where "read_group_meta (Some k) r' = Some m'" "same_limits m m'"
    "go \<Longrightarrow> \<not> gv_paused m" "go \<Longrightarrow> 0 \<le> gv_max_concurrency m \<Longrightarrow> int (zcard (rd_group_running r k)) < gv_max_concurrency m"
    "0 \<le> gv_rate_count m \<Longrightarrow> bank now m' = (if go then bank now m - 1 else bank now m)"
    "go \<Longrightarrow> 0 \<le> gv_rate_count m \<Longrightarrow> 1 \<le> bank now m"
proof -
  let ?m = "refill_tokens now m"
  have own: "read_group_meta (Some k) (persist_tokens k (?m\<lparr>gv_tokens := x\<rparr>) r) =
      Some (m\<lparr>gv_tokens := x, gv_refilled_at := gv_refilled_at ?m\<rparr>)" for x
    by (simp add: read_group_persist [OF m])
  have own': "read_group_meta (Some k) (persist_tokens k ?m r) = Some (m\<lparr>gv_tokens := bank now m, gv_refilled_at := gv_refilled_at ?m\<rparr>)"
    by (simp add: read_group_persist [OF m] bank_def)
  consider (free) "\<not> group_has_limits m" | (paused) "group_has_limits m" "gv_paused m"
    | (full) "group_has_limits m" "\<not> gv_paused m" "0 \<le> gv_max_concurrency m" "gv_max_concurrency m \<le> int (zcard (rd_group_running r k))"
    | (norate) "group_has_limits m" "\<not> gv_paused m" "0 \<le> gv_max_concurrency m \<Longrightarrow> int (zcard (rd_group_running r k)) < gv_max_concurrency m"
        "gv_rate_count m < 0"
    | (rate) "group_has_limits m" "\<not> gv_paused m" "0 \<le> gv_max_concurrency m \<Longrightarrow> int (zcard (rd_group_running r k)) < gv_max_concurrency m"
        "0 \<le> gv_rate_count m"
    by (meson not_le)
  then show ?thesis
  proof cases
    case rate
    have nf: "\<not> (0 \<le> gv_max_concurrency m \<and> gv_max_concurrency m \<le> int (zcard (rd_group_running r k)))" using rate(3) by fastforce
    show ?thesis
    proof (cases "bank now m < 1")
      case True
      then have "r' = persist_tokens k ?m r" "\<not> go" using g m nf rate(1,2,4) by (auto simp: gate_group_def Let_def bank_def)
      then show ?thesis using that own' rate bank_written [of m "bank now m" now] by (auto simp: same_limits_def)
    next
      case False
      then have "r' = persist_tokens k (?m\<lparr>gv_tokens := bank now m - 1\<rparr>) r" "go" using g m nf rate(1,2,4) by (auto simp: gate_group_def Let_def bank_def)
      then show ?thesis using that own rate False bank_written [of m "bank now m - 1" now] by (auto simp: same_limits_def)
    qed
  qed (use g m that in \<open>auto simp: gate_group_def Let_def group_has_limits_def same_limits_def\<close>)
qed

lemma gate_group_other:
  "gk \<noteq> Some k \<Longrightarrow> rd_gmeta (fst (gate_group now gk r)) k = rd_gmeta r k"
  by (auto simp: gate_group_def Let_def persist_tokens_def split: option.split)

lemma read_group_cong: "rd_gmeta r' k = rd_gmeta r k \<Longrightarrow> read_group_meta (Some k) r' = read_group_meta (Some k) r"
  by (simp add: read_group_meta_def)

definition in_group :: "string \<Rightarrow> claim_entry list \<Rightarrow> nat" where
  "in_group k es = length (filter (\<lambda>e. ce_group_key e = Some k) es)"

text \<open>What is kept for group \<open>k\<close>, whose entry was \<open>m0\<close> and which had \<open>old\<close> running jobs.\<close>

definition within_group :: "int \<Rightarrow> string \<Rightarrow> gview \<Rightarrow> job_id zset \<Rightarrow> claim_acc \<Rightarrow> bool" where
  "within_group now k m0 old acc \<longleftrightarrow>
     (\<exists>m. read_group_meta (Some k) (ca_store acc) = Some m \<and> same_limits m0 m \<and>
          (gv_paused m0 \<longrightarrow> rd_group_running (ca_store acc) k = old \<and> in_group k (ca_out acc) = 0) \<and>
          (0 \<le> gv_max_concurrency m0 \<longrightarrow> zcard (rd_group_running (ca_store acc) k) \<le> max (zcard old) (nat (gv_max_concurrency m0))) \<and>
          (0 \<le> gv_rate_count m0 \<longrightarrow> bank now m + in_group k (ca_out acc) \<le> bank now m0 \<and> (0 \<le> bank now m \<or> in_group k (ca_out acc) = 0)))"

lemma within_group_gate:
  assumes "within_group now k m0 old acc" "ca_store acc' = fst (gate_group now gk (ca_store acc))" "ca_out acc' = ca_out acc"
  shows "within_group now k m0 old acc'"
proof -
  obtain m where m: "read_group_meta (Some k) (ca_store acc) = Some m" "same_limits m0 m"
    using assms(1) by (auto simp: within_group_def)
  show ?thesis
  proof (cases "gk = Some k")
    case False
    then have "read_group_meta (Some k) (ca_store acc') = read_group_meta (Some k) (ca_store acc)"
      by (intro read_group_cong) (simp add: assms(2) gate_group_other)
    then show ?thesis using assms by (simp add: within_group_def)
  next
    case True
    obtain r' go where g: "gate_group now (Some k) (ca_store acc) = (r', go)" by fastforce
    then have s: "ca_store acc' = r'" using assms(2) True by simp
    obtain m' where m': "read_group_meta (Some k) r' = Some m'" "same_limits m m'"
      "0 \<le> gv_rate_count m \<Longrightarrow> bank now m' = (if go then bank now m - 1 else bank now m)" "go \<Longrightarrow> 0 \<le> gv_rate_count m \<Longrightarrow> 1 \<le> bank now m"
      using gate_group_own [OF m(1) g] by metis
    have "rd_group_running r' = rd_group_running (ca_store acc)" using g by (metis fst_conv gate_group_rest(3))
    then show ?thesis
      using assms(1,3) m m' unfolding within_group_def s by (auto simp: same_limits_def split: if_splits)
  qed
qed

lemma within_group_step:
  assumes "within_group now k m0 old acc"
  shows "within_group now k m0 old (claim_one w now b ks t q i acc)" (is "within_group now k m0 old ?acc")
proof -
  consider gk where "ca_store ?acc = ca_store acc \<or> ca_store ?acc = fst (gate_group now gk (ca_store acc))" "ca_out ?acc = ca_out acc"
    | h where "started w now b ks t q i h acc ?acc" using claim_one_cases [of now acc w b ks t q i] by (auto simp: passed_over_def)
  then show ?thesis
  proof cases
    case (1 gk)
    then show ?thesis using within_group_gate [OF assms, of ?acc gk] assms by (auto simp: within_group_def)
  next
    case (2 h)
    let ?gate = "gate_group now (h_group_key h) (ca_store acc)"
    obtain e where e: "ca_out ?acc = ca_out acc @ [e]" "ce_group_key e = h_group_key h"
      using 2 by (auto simp: started_def Let_def entry_of_def)
    have go: "snd ?gate" using 2 by (simp add: started_def Let_def)
    have s: "rd_gmeta (ca_store ?acc) = rd_gmeta (fst ?gate)" using 2 by (simp add: started_def Let_def)
    have run: "rd_group_running (ca_store ?acc) k =
        (if h_group_key h = Some k then zadd now i (rd_group_running (ca_store acc) k) else rd_group_running (ca_store acc) k)"
      using 2 by (auto simp: started_def Let_def split: option.split)
    show ?thesis
    proof (cases "h_group_key h = Some k")
      case False
      have "read_group_meta (Some k) (ca_store ?acc) = read_group_meta (Some k) (ca_store acc)"
        by (intro read_group_cong) (simp add: s gate_group_other [OF False])
      then show ?thesis using assms run e False by (simp add: within_group_def in_group_def)
    next
      case True
      obtain m where m: "read_group_meta (Some k) (ca_store acc) = Some m" "same_limits m0 m"
        using assms by (auto simp: within_group_def)
      have g: "gate_group now (Some k) (ca_store acc) = (fst ?gate, True)" using go True by (metis prod.collapse)
      obtain m' where m': "read_group_meta (Some k) (fst ?gate) = Some m'" "same_limits m m'" "\<not> gv_paused m"
        "0 \<le> gv_max_concurrency m \<Longrightarrow> int (zcard (rd_group_running (ca_store acc) k)) < gv_max_concurrency m"
        "0 \<le> gv_rate_count m \<Longrightarrow> bank now m' = bank now m - 1 \<and> 1 \<le> bank now m"
        using gate_group_own [OF m(1) g] by (metis (full_types))
      have "read_group_meta (Some k) (ca_store ?acc) = Some m'" using m'(1) read_group_cong s by metis
      moreover have "zcard (zadd now i (rd_group_running (ca_store acc) k)) \<le> Suc (zcard (rd_group_running (ca_store acc) k))"
        by (rule zcard_zadd)
      ultimately show ?thesis
        using assms m m'(2-5) run True e unfolding within_group_def in_group_def by (auto simp: same_limits_def)
    qed
  qed
qed

lemma fn_claim_group_limits:
  assumes "read_group_meta (Some k) r = Some m"
  shows "gv_paused m \<Longrightarrow> rd_group_running (fst (fn_claim b w now qs ks r)) k = rd_group_running r k"
    and "0 \<le> gv_max_concurrency m \<Longrightarrow>
      zcard (rd_group_running (fst (fn_claim b w now qs ks r)) k) \<le> max (zcard (rd_group_running r k)) (nat (gv_max_concurrency m))"
    and "0 \<le> gv_rate_count m \<Longrightarrow> real (in_group k (snd (fn_claim b w now qs ks r))) \<le> max 0 (bank now m)"
proof -
  let ?P = "within_group now k m (rd_group_running r k)"
  have "\<exists>acc. fn_claim b w now qs ks r = (ca_store acc, ca_out acc) \<and> ?P acc"
    by (rule fn_claim_keeps) (simp_all add: within_group_step, simp_all add: within_group_def assms same_limits_def in_group_def)
  then obtain acc where a: "fn_claim b w now qs ks r = (ca_store acc, ca_out acc)" "?P acc" by blast
  then show "gv_paused m \<Longrightarrow> rd_group_running (fst (fn_claim b w now qs ks r)) k = rd_group_running r k"
    "0 \<le> gv_max_concurrency m \<Longrightarrow>
      zcard (rd_group_running (fst (fn_claim b w now qs ks r)) k) \<le> max (zcard (rd_group_running r k)) (nat (gv_max_concurrency m))"
    "0 \<le> gv_rate_count m \<Longrightarrow> real (in_group k (snd (fn_claim b w now qs ks r))) \<le> max 0 (bank now m)"
    by (auto simp: within_group_def)
qed

end
