(* ===== verification/Redis_Replies.thy ===== *)
theory Redis_Replies
  imports Redis_Claims
begin

text \<open>
  The wire between the functions and the client: what the functions print, the client reads back. Numbers are printed in
  decimal and parsed with bounds; the lines of the statistics are split at the first two bars, so a queue name may not hold
  one.
\<close>

section \<open>Numbers\<close>

lemma digit_of_char: "d < 10 \<Longrightarrow> digit_of (char_of (48 + d)) = Some d"
  by (simp add: digit_of_def Let_def)

lemma digits_value_snoc:
  "digits_value acc (xs @ [c]) = Option.bind (digits_value acc xs) (\<lambda>n. map_option (\<lambda>d. n * 10 + d) (digit_of c))"
  by (induction xs arbitrary: acc) (simp_all split: option.split)

lemma digits_value_show: "digits_value 0 (show_nat n) = Some n"
proof (induction n rule: show_nat.induct)
  case (1 n)
  show ?case
  proof (cases "n < 10")
    case True
    then show ?thesis by (subst show_nat.simps) (simp add: digit_of_char)
  next
    case False
    then have "digits_value 0 (show_nat (n div 10)) = Some (n div 10)" by (rule 1)
    then show ?thesis using False by (subst show_nat.simps) (simp add: digits_value_snoc digit_of_char)
  qed
qed

lemma show_nat_Cons: obtains c cs where "show_nat n = c # cs" "digit_of c \<noteq> None"
proof -
  have "show_nat n \<noteq> []" by (subst show_nat.simps) simp
  then obtain c cs where "show_nat n = c # cs" by (cases "show_nat n") simp_all
  moreover from this have "digit_of c \<noteq> None" using digits_value_show [of n] by (auto split: option.splits)
  ultimately show ?thesis by (rule that)
qed

lemma parse_unsigned_show [simp]: "parse_unsigned (show_nat n) = Some n"
proof -
  have "show_nat n \<noteq> []" by (subst show_nat.simps) simp
  then show ?thesis by (simp add: parse_unsigned_def digits_value_show)
qed

lemma parse_signed_show: "lo \<le> int n \<Longrightarrow> int n \<le> hi \<Longrightarrow> parse_signed lo hi (show_nat n) = Some (int n)"
proof -
  assume b: "lo \<le> int n" "int n \<le> hi"
  obtain c cs where c: "show_nat n = c # cs" "digit_of c \<noteq> None" by (rule show_nat_Cons)
  have "c \<noteq> CHR ''-''" "c \<noteq> CHR ''+''" using c(2) by (auto simp: digit_of_def)
  moreover have "parse_unsigned (c # cs) = Some n" using parse_unsigned_show [of n] c(1) by simp
  ultimately show ?thesis using b c(1) by (simp add: parse_signed_def)
qed

lemma parse_signed_id:
  assumes "lo \<le> i" "i \<le> hi"
  shows "parse_signed lo hi (id_str i) = Some i"
proof (cases "0 \<le> i")
  case True
  then show ?thesis using parse_signed_show [of lo "nat i" hi] assms by (simp add: id_str_def)
next
  case False
  then show ?thesis using assms by (simp add: parse_signed_def id_str_def)
qed

lemma parse_i64_id [simp]: "- i64_max - 1 \<le> i \<Longrightarrow> i \<le> i64_max \<Longrightarrow> parse_i64 (id_str i) = Some i"
  unfolding parse_i64_def by (rule parse_signed_id)

lemma parse_i64_show [simp]: "int n \<le> i64_max \<Longrightarrow> parse_i64 (show_nat n) = Some (int n)"
  unfolding parse_i64_def by (rule parse_signed_show) simp_all

lemma parse_u64_show [simp]: "n \<le> u64_max \<Longrightarrow> parse_u64 (show_nat n) = Some n"
  by (simp add: parse_u64_def parse_signed_show)

section \<open>Enqueue and listing replies\<close>

definition result_of :: "job_id option \<Rightarrow> enqueue_result" where
  "result_of x = (case x of Some i \<Rightarrow> Inserted i | None \<Rightarrow> Skipped)"

lemma parse_enqueue_reply_of:
  "case x of None \<Rightarrow> True | Some i \<Rightarrow> - i64_max - 1 \<le> i \<and> i \<le> i64_max \<Longrightarrow> parse_enqueue_reply (enqueue_reply x) = Inr (result_of x)"
  by (cases x) (simp_all add: enqueue_reply_def parse_enqueue_reply_def result_of_def redis_to_string_def)

lemma count_tags_of:
  "count_tags a b (concat (map (\<lambda>x. case x of Some i \<Rightarrow> [RBulk ''inserted'', RBulk (id_str i)] | None \<Rightarrow> [RBulk ''skipped'', RBulk ''0'']) xs))
     = Inr \<lparr>inserted = a + count_if (\<lambda>x. x \<noteq> None) xs, skipped = b + count_if (\<lambda>x. x = None) xs\<rparr>"
  by (induction xs arbitrary: a b) (auto split: option.split)

lemma parse_enqueue_many_reply_of:
  "parse_enqueue_many_reply (enqueue_many_reply xs) = Inr \<lparr>inserted = count_if (\<lambda>x. x \<noteq> None) xs, skipped = count_if (\<lambda>x. x = None) xs\<rparr>"
  by (simp add: parse_enqueue_many_reply_def enqueue_many_reply_def count_tags_of)

lemma parse_list_reply_of:
  assumes "int n \<le> i64_max" "\<And>i. i \<in> set ids \<Longrightarrow> - i64_max - 1 \<le> i \<and> i \<le> i64_max"
  shows "parse_list_jobs_reply (list_reply (n, ids)) = (int n, ids)"
proof -
  have "List.map_filter (\<lambda>v. Option.bind (redis_to_string v) parse_i64) (map (\<lambda>i. RBulk (id_str i)) ids) = ids"
    using assms(2) by (induction ids) (simp_all add: List.map_filter_def redis_to_string_def)
  then show ?thesis using assms(1) by (simp add: parse_list_jobs_reply_def list_reply_def redis_to_string_def)
qed

lemma cleanup_reply_of:
  "c \<le> u64_max \<Longrightarrow> nth_u64 [RBulk (show_nat c), RBulk (show_nat f), RBulk (show_nat y), RBulk ''0''] 0 = c"
  by (simp add: nth_u64_def value_to_u64_def)

section \<open>Statistics\<close>

lemma split_at_bar_of: "CHR ''|'' \<notin> set a \<Longrightarrow> split_at_bar (a @ CHR ''|'' # rest) = (a, Some rest)"
  by (induction a) auto

lemma splitn3_of: "CHR ''|'' \<notin> set a \<Longrightarrow> CHR ''|'' \<notin> set b \<Longrightarrow> splitn3 (a @ ''|'' @ b @ ''|'' @ c) = Some (a, b, c)"
  using split_at_bar_of [of a "b @ CHR ''|'' # c"] split_at_bar_of [of b c] by (simp add: splitn3_def)

lemma as_str_bar: "CHR ''|'' \<notin> set (as_str st)"
  by (cases st) (simp_all add: as_str.simps)

lemma parse_stat_line_of:
  assumes "CHR ''|'' \<notin> set q" "int n \<le> i64_max"
  shows "parse_stat_line (q @ ''|'' @ as_str st @ ''|'' @ show_nat n) = Some \<lparr>qs_queue = q, qs_state = st, qs_count = int n\<rparr>"
  using splitn3_of [OF assms(1) as_str_bar, of st "show_nat n"] assms(2) by (simp add: parse_stat_line_def)

text \<open>The set that holds the jobs of a state on a queue.\<close>

fun queue_place :: "job_state \<Rightarrow> string \<Rightarrow> place" where
  "queue_place Pending q = Waits q"
| "queue_place Running q = QueueRun q"
| "queue_place Scheduled q = QueueSched q"
| "queue_place Completed q = QueueFin CleanCompleted q"
| "queue_place Failed q = QueueFin CleanFailed q"
| "queue_place Cancelled q = QueueFin CleanCancelled q"

definition jobs_in :: "redis \<Rightarrow> string \<Rightarrow> job_state \<Rightarrow> job_id set" where
  "jobs_in r q st = sel (rd_jobs r) (\<lambda>h. h_state h = Some st \<and> h_queue h = Some q)"

lemma queue_place_card:
  assumes "redis_ok r" "q \<noteq> []"
  shows "zcard (zset_at (queue_place st q) r) = card (jobs_in r q st)" "finite (jobs_in r q st)"
proof -
  have t: "tracked (queue_place st q)" using assms(2) by (cases st) simp_all
  have "belongs (queue_place st q) = (\<lambda>h. h_state h = Some st \<and> h_queue h = Some q)" by (cases st) (simp_all add: fun_eq_iff)
  then show "zcard (zset_at (queue_place st q) r) = card (jobs_in r q st)" "finite (jobs_in r q st)"
    using placed_zcard [OF redis_okD(1) [OF assms(1)] t] placed_zmem [OF redis_okD(1) [OF assms(1)] t] finite_zmem
    by (simp_all add: jobs_in_def, metis)
qed

lemma state_partition:
  assumes ok: "redis_ok r" and ne: "[] \<notin> set (rd_queues_seen r)" and t: "tracked pl" "belongs pl = (\<lambda>h. h_state h = Some st)"
  shows "zcard (zset_at pl r) = sum_list (map (\<lambda>q. zcard (zset_at (queue_place st q) r)) (rd_queues_seen r))"
proof -
  have h: "distinct (rd_queues_seen r)" "\<And>i h. rd_jobs r i = Some h \<Longrightarrow> \<exists>q \<in> set (rd_queues_seen r). h_queue h = Some q"
    using redis_okD(2) [OF ok] by (auto simp: core_ok_def hashes_ok_def hash_ok_def)
  have q: "q \<in> set (rd_queues_seen r) \<Longrightarrow> q \<noteq> []" for q using ne by auto
  have "sel (rd_jobs r) (belongs pl) = (\<Union>q \<in> set (rd_queues_seen r). jobs_in r q st)"
    using h(2) by (fastforce simp: sel_def jobs_in_def t(2))
  then have "zcard (zset_at pl r) = card (\<Union>q \<in> set (rd_queues_seen r). jobs_in r q st)"
    using placed_zcard [OF redis_okD(1) [OF ok] t(1)] by simp
  also have "\<dots> = (\<Sum>q \<in> set (rd_queues_seen r). card (jobs_in r q st))"
    using queue_place_card(2) [OF ok] q by (intro card_UN_disjoint) (auto simp: jobs_in_def sel_def)
  also have "\<dots> = (\<Sum>q \<in> set (rd_queues_seen r). zcard (zset_at (queue_place st q) r))"
    using queue_place_card(1) [OF ok] q by (intro sum.cong) simp_all
  also have "\<dots> = sum_list (map (\<lambda>q. zcard (zset_at (queue_place st q) r)) (rd_queues_seen r))"
    using h(1) by (simp add: sum_list_distinct_conv_sum_set)
  finally show ?thesis .
qed

definition all_states :: "job_state list" where
  "all_states = [Pending, Running, Scheduled, Completed, Failed, Cancelled]"

lemma queue_stats_eq:
  "queue_stats r q = concat (map (\<lambda>st. stat_line q (as_str st) (zcard (zset_at (queue_place st q) r))) all_states)"
  by (simp add: queue_stats_def all_states_def zset_at.simps)

lemma get_stats_lines:
  assumes "redis_ok r" "[] \<notin> set (rd_queues_seen r)"
  shows "fn_get_stats r = concat (map (queue_stats r) (rd_queues_seen r))"
proof -
  have "remainder r (rd_nq_scheduled r) (rd_delayed r) = 0"
    using state_partition [OF assms, of Delayed Scheduled] by (simp add: remainder_def zset_at.simps fun_eq_iff)
  moreover have "remainder r (fin_nq st r) (fin_set st r) = 0" for st
    using state_partition [OF assms, of "Finished st" "clean_job_state st"]
    by (cases st) (simp_all add: remainder_def zset_at.simps fun_eq_iff)
  from this [of CleanCompleted] this [of CleanFailed] this [of CleanCancelled]
  have "remainder r (rd_nq_completed r) (rd_completed r) = 0" "remainder r (rd_nq_failed r) (rd_failed r) = 0"
    "remainder r (rd_nq_cancelled r) (rd_cancelled r) = 0" by simp_all
  ultimately show ?thesis by (simp add: fn_get_stats_def stat_line_def)
qed

lemma set_map_filter: "set (List.map_filter f xs) = {y. \<exists>x \<in> set xs. f x = Some y}"
  by (induction xs) (auto simp: List.map_filter_def)

lemma stat_line_mem: "l \<in> set (stat_line q s n) \<longleftrightarrow> 0 < n \<and> l = q @ ''|'' @ s @ ''|'' @ show_nat n"
  by (simp add: stat_line_def)

lemma all_states_UNIV: "set all_states = UNIV"
proof -
  have "st \<in> set all_states" for st by (cases st) (simp_all add: all_states_def)
  then show ?thesis by blast
qed

lemma seen_queue: "redis_ok r \<Longrightarrow> jobs_in r q st \<noteq> {} \<Longrightarrow> q \<in> set (rd_queues_seen r)"
  by (fastforce simp: jobs_in_def sel_def redis_ok_def core_ok_def hashes_ok_def hash_ok_def)

lemma stats_reply_set:
  assumes ok: "redis_ok r" and names: "\<And>q. q \<in> set (rd_queues_seen r) \<Longrightarrow> q \<noteq> [] \<and> CHR ''|'' \<notin> set q"
    and small: "\<And>q st. int (card (jobs_in r q st)) \<le> i64_max"
  shows "set (parse_stats_reply (RArray (map RBulk (fn_get_stats r)))) =
    {\<lparr>qs_queue = q, qs_state = st, qs_count = int (card (jobs_in r q st))\<rparr> | q st. 0 < card (jobs_in r q st)}"
proof -
  define line where "line q st = q @ ''|'' @ as_str st @ ''|'' @ show_nat (card (jobs_in r q st))" for q st
  define entry where "entry q st = \<lparr>qs_queue = q, qs_state = st, qs_count = int (card (jobs_in r q st))\<rparr>" for q st
  let ?here = "\<lambda>q st. q \<in> set (rd_queues_seen r) \<and> 0 < card (jobs_in r q st)"
  have ne: "[] \<notin> set (rd_queues_seen r)" using names by blast
  have "set (queue_stats r q) = {line q st | st. 0 < card (jobs_in r q st)}" if "q \<in> set (rd_queues_seen r)" for q
    using names [OF that] queue_place_card(1) [OF ok, of q]
    by (auto simp: queue_stats_eq all_states_UNIV stat_line_mem line_def simp del: append_Cons append_Nil)
  then have lines: "set (fn_get_stats r) = {line q st | q st. ?here q st}"
    unfolding get_stats_lines [OF ok ne] set_concat set_map by auto
  have parsed: "parse_stat_line (line q st) = Some (entry q st)" if "q \<in> set (rd_queues_seen r)" for q st
    unfolding line_def entry_def by (rule parse_stat_line_of) (use names [OF that] small in simp_all)
  have "set (parse_stats_reply (RArray (map RBulk (fn_get_stats r)))) = {y. \<exists>l \<in> set (fn_get_stats r). parse_stat_line l = Some y}"
    by (simp add: parse_stats_reply_def set_map_filter redis_to_string_def)
  also have "\<dots> = {entry q st | q st. ?here q st}"
  proof (intro set_eqI iffI)
    fix y assume "y \<in> {y. \<exists>l \<in> set (fn_get_stats r). parse_stat_line l = Some y}"
    then obtain q st where "?here q st" "parse_stat_line (line q st) = Some y" unfolding lines by blast
    then show "y \<in> {entry q st | q st. ?here q st}" using parsed [of q st] by auto
  next
    fix y assume "y \<in> {entry q st | q st. ?here q st}"
    then obtain q st where "?here q st" "y = entry q st" by blast
    then show "y \<in> {y. \<exists>l \<in> set (fn_get_stats r). parse_stat_line l = Some y}" unfolding lines using parsed [of q st] by blast
  qed
  also have "\<dots> = {entry q st | q st. 0 < card (jobs_in r q st)}"
    using seen_queue [OF ok] by (metis (no_types, lifting) card_gt_0_iff)
  finally show ?thesis by (simp add: entry_def)
qed

end
