(* ===== verification/Redis_Clients.thy ===== *)
theory Redis_Clients
  imports Redis_Replies
begin

text \<open>
  What a client of the function library can do to the store. A method of the Redis backend makes one or more calls, each of
  which may be refused, lost or repeated, with other clients in between; whatever relation the functions and the other
  clients respect, the method respects. The locale \<open>library_client\<close> states this contract once; it is interpreted for the
  runs that keep the store in order, where only reports need care, and with reports for the steps of the library.
\<close>

section \<open>Adapters\<close>

lemma fst_rd_map [simp]: "fst (rd_map g x) = fst x"
  by (simp add: rd_map_def split: prod.split)

lemma fst_then_parse [simp]: "fst (then_parse g x) = fst x"
  by (simp add: then_parse_def split: prod.split sum.split)

lemma fst_runs [simp]: "fst (runs f r) = fst (f r)"
  by (simp add: runs_def split: prod.split)

lemma fst_reads [simp]: "fst (reads f r) = r"
  by (simp add: reads_def)

lemma fst_writes [simp]: "fst (writes f r) = f r"
  by (simp add: writes_def)

fun is_report :: "redis_op \<Rightarrow> bool" where
  "is_report (Complete i w now result) = True"
| "is_report (Fail i w now entry retry_ms) = True"
| "is_report op = False"

lemma in_time_if [simp]: "\<not> is_report op \<Longrightarrow> in_time op r"
  by (cases op) simp_all

lemma single_enqueue: "fst (fn_enqueue now a r) = run_op (Enqueue now [a]) r"
  by (simp split: prod.split)

section \<open>The contract\<close>

locale library_client =
  fixes R :: "redis \<Rightarrow> redis \<Rightarrow> bool" and ok :: "rd_ctx \<Rightarrow> bool"
  assumes stays: "R r r"
    and goes_on: "R r s \<Longrightarrow> R s t \<Longrightarrow> R r t"
    and others: "ok p \<Longrightarrow> R r (rc_mid p n r)"
    and runs_op: "\<not> is_report op \<Longrightarrow> R r (run_op op r)"
begin

lemma fcall_within:
  assumes p: "ok p" and f: "\<And>r. R r (fst (f r))"
  shows "R r (fst (fcall p n f r))"
proof -
  have a: "R s (fst (attempt_call c f s))" for c s by (cases c) (simp_all add: f stays)
  have w: "R s (fst (with_retry c f s))" for c s
    using a goes_on [OF a [of s "co_first c"] a [of "fst (attempt_call (co_first c) f s)" "co_second c"]]
    by (auto simp: with_retry_def split: prod.split sum.split option.split) (metis fst_conv)+
  show ?thesis using w others [OF p] goes_on by (fastforce simp: fcall_def)
qed

lemma read_within:
  assumes "ok p"
  shows "R r (fst (fcall p n (reads f) r))" "R r (fst (plain_read p n f r))"
proof -
  show "R r (fst (fcall p n (reads f) r))" by (intro fcall_within [OF assms]) (simp add: stays)
  have "R r (if n = 0 then r else rc_mid p n r)" using stays others [OF assms] by simp
  moreover have "fst (plain_read p n f r) = (if n = 0 then r else rc_mid p n r)"
    by (simp add: plain_read_def Let_def split: Redis_Wire.outcome.split)
  ultimately show "R r (fst (plain_read p n f r))" by (simp only:)
qed

lemma bind_within:
  assumes "R r (fst x)" "\<And>v s. R s (fst (g v s))"
  shows "R r (fst (rd_bind x g))"
  using assms by (auto simp: rd_bind_def split: prod.split sum.split) (meson goes_on)

lemma count_within:
  assumes "ok p" "\<And>r. R r (fst (f r))"
  shows "R r (fst (count_call p n f r))"
proof -
  have "fst (count_reply (f s)) = fst (f s)" for s by (simp add: count_reply_def split: prod.split)
  then show ?thesis unfolding count_call_def fst_rd_map by (intro fcall_within [OF assms(1)]) (simp add: assms(2))
qed

text \<open>A call that runs one operation.\<close>

lemma op_call:
  assumes "ok p" "\<not> is_report op" "\<And>r. fst (f r) = run_op op r"
  shows "R r (fst (fcall p n f r))"
  using assms runs_op by (intro fcall_within) simp_all

lemma op_count:
  assumes "ok p" "\<not> is_report op" "\<And>r. fst (f r) = run_op op r"
  shows "R r (fst (count_call p n f r))"
  using assms runs_op by (intro count_within) simp_all

lemma rounds_within:
  assumes "ok p" "\<And>r. R r (fst (f r))"
  shows "R r (fst (cleanup_rounds p f n rounds totals r))"
proof (induction rounds arbitrary: n totals r)
  case (Suc rounds)
  obtain t0 t1 t2 t3 where t: "totals = (t0, t1, t2, t3)" by (cases totals)
  show ?case unfolding t cleanup_rounds.simps
    by (intro bind_within fcall_within [OF assms(1)]) (auto simp: assms(2) Let_def Suc stays split: rvalue.split)
qed (simp add: stays)

lemma fire_within: "ok p \<Longrightarrow> R r (fst (fire_each p n es fired r))"
proof (induction es arbitrary: n fired r)
  case (Cons e es)
  obtain name s where e: "e = (name, s)" by (cases e)
  have "R r (fst (schedule_fire_call p n sch next_ms r))" for sch next_ms
    unfolding schedule_fire_call_def fst_rd_map by (rule op_call [OF Cons.prems, of "FireSchedule sch (rc_now_ms p) next_ms"]) simp_all
  then show ?case using Cons by (auto simp: e Let_def stays split: sum.split intro!: bind_within)
qed (simp add: stays)

text \<open>What the tasks of a process ask for, reports aside.\<close>

lemma tasks_within:
  assumes "ok p"
  shows "R r (fst (rd_claim_batch p w n ks qs r))" "R r (fst (rd_update_heartbeat_batch p ids r))"
    "R r (fst (rd_sweep_stale p d r))" "R r (fst (rd_cleanup p ret r))" "R r (fst (rd_leader_try_elect p w role lease r))"
    "R r (fst (rd_leader_resign p w role r))" "R r (fst (rd_schedule_tick p r))" "R r (fst (rd_reclaim_in_flight p ids r))"
proof -
  note c = op_count [OF assms]
  show "R r (fst (rd_claim_batch p w n ks qs r))"
    by (auto simp: rd_claim_batch_def stays intro!: op_call [OF assms, of "Claim n w (rc_now_ms p) qs ks"])
  show "R r (fst (rd_update_heartbeat_batch p ids r))"
    by (auto simp: rd_update_heartbeat_batch_def stays intro!: c [of "Heartbeat (rc_now_ms p) ids"])
  show "R r (fst (rd_sweep_stale p d r))"
    unfolding rd_sweep_stale_def by (rule c [of "SweepStale _ 256"]) simp_all
  show "R r (fst (rd_cleanup p ret r))"
    using runs_op [of "CleanupJobs (rc_now_ms p) x y per_state_limit" for x y]
    by (auto simp: rd_cleanup_def stays intro: rounds_within [OF assms])
  show "R r (fst (rd_leader_try_elect p w role lease r))"
    unfolding rd_leader_try_elect_def fst_rd_map by (rule c [of "LeaderTry (rc_clk p) w lease role"]) simp_all
  show "R r (fst (rd_leader_resign p w role r))"
    unfolding rd_leader_resign_def fst_rd_map by (rule c [of "LeaderResign (rc_clk p) w role"]) simp_all
  have "R s (fst (promote_delayed_call p s))" for s
    unfolding promote_delayed_call_def by (rule c [of "Promote (rc_now_ms p) 256"]) simp_all
  moreover have "R s (fst (fire_due_schedules p s))" for s
    unfolding fire_due_schedules_def by (intro bind_within read_within(1) [OF assms] fire_within [OF assms])
  ultimately show "R r (fst (rd_schedule_tick p r))" unfolding rd_schedule_tick_def by (intro bind_within) simp_all
  show "R r (fst (rd_reclaim_in_flight p ids r))"
    by (auto simp: rd_reclaim_in_flight_def stays intro!: c [of "Reclaim (rc_now_ms p) ids"])
qed

text \<open>What an application asks for.\<close>

lemma jobs_within:
  assumes "ok p"
  shows "R r (fst (rd_enqueue p req r))" "R r (fst (rd_enqueue_many p reqs r))" "R r (fst (rd_cancel p i r))"
    "R r (fst (rd_clean p grace limit st r))" "R r (fst (rd_get_stats p r))" "R r (fst (rd_list_jobs p f pn r))"
proof -
  show "R r (fst (rd_enqueue p req r))"
    unfolding rd_enqueue_def fst_then_parse
    by (rule op_call [OF assms, of "Enqueue (rc_now_ms p) [dyn_to_argv req]"]) (simp_all add: single_enqueue del: run_op.simps)
  show "R r (fst (rd_enqueue_many p reqs r))"
    by (auto simp: rd_enqueue_many_def stays intro!: op_call [OF assms, of "Enqueue (rc_now_ms p) (map dyn_to_argv reqs)"])
  show "R r (fst (rd_cancel p i r))"
    unfolding rd_cancel_def fst_rd_map by (rule op_count [OF assms, of "CancelJob i (rc_now_ms p)"]) simp_all
  show "R r (fst (rd_clean p grace limit st r))"
    by (auto simp: rd_clean_def Let_def stays intro!: op_call [OF assms, of "CleanupJobs (rc_now_ms p) _ (- 1, - 1, - 1) limit"])
  show "R r (fst (rd_get_stats p r))" unfolding rd_get_stats_def fst_rd_map by (rule read_within(1) [OF assms])
  show "R r (fst (rd_list_jobs p f pn r))"
    by (auto simp: rd_list_jobs_def list_one_job_def stays read_within [OF assms] split: option.split prod.split intro!: bind_within)
qed

lemma settings_within:
  assumes "ok p"
  shows "R r (fst (rd_group_set_concurrency p k mx r))" "R r (fst (rd_group_set_paused p k b r))"
    "R r (fst (rd_group_set_rate p k n period r))" "R r (fst (rd_group_clear_rate p k r))"
    "R r (fst (rd_group_set_rule p pattern rule r))" "R r (fst (rd_group_remove_rule p pattern r))"
    "R r (fst (rd_queue_set_concurrency p q mx r))" "R r (fst (rd_queue_set_paused p q b r))"
    "R r (fst (rd_queue_set_timeout p q t r))"
proof -
  note c = op_call [OF assms]
  show "R r (fst (rd_group_set_concurrency p k mx r))"
    unfolding rd_group_set_concurrency_def by (rule c [of "GroupConcurrency k (max mx 0)"]) simp_all
  show "R r (fst (rd_group_set_paused p k b r))" unfolding rd_group_set_paused_def by (rule c [of "GroupPaused k b"]) simp_all
  show "R r (fst (rd_group_set_rate p k n period r))" unfolding rd_group_set_rate_def by (rule c [of "GroupRate k _ _ _"]) simp_all
  show "R r (fst (rd_group_clear_rate p k r))" unfolding rd_group_clear_rate_def by (rule c [of "GroupClearRate k"]) simp_all
  have "R r (fst (fcall p 0 (writes (fn_group_set_rule pattern x)) r))" for x by (rule c [of "SetRule pattern x"]) simp_all
  then show "R r (fst (rd_group_set_rule p pattern rule r))" by (simp add: rd_group_set_rule_def stays)
  show "R r (fst (rd_group_remove_rule p pattern r))"
    unfolding rd_group_remove_rule_def fst_rd_map by (rule op_count [OF assms, of "RemoveRule pattern"]) simp_all
  show "R r (fst (rd_queue_set_concurrency p q mx r))"
    unfolding rd_queue_set_concurrency_def by (rule c [of "QueueConcurrency q (max mx 0)"]) simp_all
  show "R r (fst (rd_queue_set_paused p q b r))" unfolding rd_queue_set_paused_def by (rule c [of "QueuePaused q b"]) simp_all
  show "R r (fst (rd_queue_set_timeout p q t r))" unfolding rd_queue_set_timeout_def by (rule c [of "QueueTimeout q _"]) simp_all
qed

lemma listings_within:
  assumes "ok p"
  shows "R r (fst (rd_group_get p k r))" "R r (fst (rd_group_list p r))" "R r (fst (rd_group_list_rules p r))"
    "R r (fst (rd_queue_get p q r))" "R r (fst (rd_queue_list p r))" "R r (fst (rd_list_schedules p r))" "R r (fst (lookup_cron p name r))"
  by (simp_all add: rd_group_get_def rd_group_list_def rd_group_list_rules_def rd_queue_get_def rd_queue_list_def
      rd_list_schedules_def lookup_cron_def read_within(1) [OF assms])

lemma schedules_within:
  assumes "ok p"
  shows "R r (fst (rd_upsert_schedule_raw p d r))" "R r (fst (rd_upsert_interval_schedule_raw p name ms kind payload pr ma q r))"
    "R r (fst (rd_remove_schedule p name r))" "R r (fst (rd_set_schedule_enabled p name b r))"
    "R r (fst (rd_sync_schedules p declared r))"
proof -
  have u: "R s (fst (schedule_upsert_call p n name cron kind payload pr ma q en nx iv s))"
    for n name cron kind payload pr ma q en nx iv s
    unfolding schedule_upsert_call_def by (rule op_call [OF assms, of "UpsertSchedule name _"]) simp_all
  have d: "R s (fst (remove_schedule_call p n name s))" for n name s
    unfolding remove_schedule_call_def fst_rd_map by (rule op_count [OF assms, of "RemoveSchedule name"]) simp_all
  have e: "R s (fst (set_enabled_call p n name b nx s))" for n name b nx s
    unfolding set_enabled_call_def fst_rd_map by (rule op_count [OF assms, of "EnableSchedule name b nx"]) simp_all
  show "R r (fst (rd_upsert_schedule_raw p d r))"
    using u by (simp add: rd_upsert_schedule_raw_def upsert_declared_def stays split: sum.split)
  show "R r (fst (rd_upsert_interval_schedule_raw p name ms kind payload pr ma q r))"
    using u by (simp add: rd_upsert_interval_schedule_raw_def stays)
  show "R r (fst (rd_remove_schedule p name r))" using d by (simp add: rd_remove_schedule_def)
  show "R r (fst (rd_set_schedule_enabled p name b r))"
    using e listings_within(7) [OF assms]
    by (auto simp: rd_set_schedule_enabled_def stays split: option.split sum.split intro!: bind_within)
  have us: "R s (fst (upsert_each p n ds s))" for n ds s
  proof (induction ds arbitrary: n s)
    case (Cons x ds)
    then show ?case using u by (cases x) (auto simp: upsert_declared_def intro!: bind_within)
  qed (simp add: stays)
  have ds: "R s (fst (remove_each p n names s))" for n names s
    by (induction names arbitrary: n s) (auto simp: stays d intro!: bind_within)
  show "R r (fst (rd_sync_schedules p declared r))"
    using us ds by (auto simp: rd_sync_schedules_def stays read_within(1) [OF assms] split: sum.split intro!: bind_within)
qed

end

text \<open>A client that reports as well.\<close>

locale reporting_client = library_client +
  assumes reports: "R r (run_op op r)"
begin

lemma reports_within:
  assumes "ok p"
  shows "R r (fst (rd_mark_completed p i w res r))" "R r (fst (rd_mark_failed p i w entry retry_at r))"
  using reports [of _ "Complete i w (rc_now_ms p) res"] reports [of _ "Fail i w (rc_now_ms p) entry x" for x]
  by (auto simp: rd_mark_completed_def rd_mark_failed_def Let_def intro: count_within [OF assms] fcall_within [OF assms])

end

section \<open>Clients\<close>

definition lib_step :: "redis \<Rightarrow> redis \<Rightarrow> bool" where
  "lib_step r r' \<longleftrightarrow> (\<exists>op. r' = run_op op r)"

definition rd_ctx_ok :: "rd_ctx \<Rightarrow> bool" where
  "rd_ctx_ok p \<longleftrightarrow> (\<forall>n r. lib_step\<^sup>*\<^sup>* r (rc_mid p n r))"

lemma run_op_step: "lib_step\<^sup>*\<^sup>* r (run_op op r)"
  by (rule r_into_rtranclp) (auto simp: lib_step_def)

interpretation lib: reporting_client "lib_step\<^sup>*\<^sup>*" rd_ctx_ok
  by unfold_locales (auto simp: rd_ctx_ok_def run_op_step)

text \<open>A client that leaves reports to the processes keeps the store in order, when the other clients do.\<close>

definition run_ctx_ok :: "rd_ctx \<Rightarrow> bool" where
  "run_ctx_ok p \<longleftrightarrow> (\<forall>n r. redis_run r (rc_mid p n r))"

lemma redis_run_trans: "redis_run s t \<Longrightarrow> redis_run r s \<Longrightarrow> redis_run r t"
  by (induction rule: redis_run.induct) (auto intro: redis_run.intros)

interpretation req: library_client redis_run run_ctx_ok
  by unfold_locales (auto simp: run_ctx_ok_def intro: redis_run.intros redis_run_trans)

end
