(* ===== verification/Redis_Correct.thy ===== *)
theory Redis_Correct
  imports Redis_Clients Process
begin

text \<open>
  What the Redis backend promises: the store stays in order along every run whose reports come in time, claims keep to the
  limits, replies are read as they were written, and a process on Redis is one more client of the library.
\<close>

section \<open>Calls that are answered\<close>

definition answered :: "rd_ctx \<Rightarrow> bool" where
  "answered p \<longleftrightarrow> co_first (rc_calls p 0) = Answered"

lemma fcall_runs: "answered p \<Longrightarrow> fcall p 0 (runs f) r = (fst (f r), Inr (snd (f r)))"
  by (simp add: fcall_def answered_def with_retry_def runs_def split: prod.split)

lemma fcall_reads: "answered p \<Longrightarrow> fcall p 0 (reads f) r = (r, Inr (f r))"
  by (simp add: fcall_def answered_def with_retry_def reads_def)

lemma parse_claim_reply_ok:
  "(\<And>e. e \<in> set es \<Longrightarrow> ce_payload e \<noteq> None \<and> ce_queue e \<noteq> None) \<Longrightarrow>
   \<exists>rows. parse_claim_reply es = Inr rows \<and> map cj_id rows = map ce_id es \<and> map cj_kind rows = map ce_kind es \<and>
     map cj_attempt rows = map ce_attempt es \<and> map cj_worker_id rows = map ce_worker_id es"
proof (induction es)
  case (Cons e es)
  obtain x q where "ce_payload e = Some x" "ce_queue e = Some q" using Cons.prems [of e] by auto
  moreover obtain rows where "parse_claim_reply es = Inr rows" "map cj_id rows = map ce_id es" "map cj_kind rows = map ce_kind es"
      "map cj_attempt rows = map ce_attempt es" "map cj_worker_id rows = map ce_worker_id es"
    using Cons by fastforce
  ultimately show ?case by (simp add: parse_claimed_job_def)
qed simp

lemma parse_claim_reply_length: "parse_claim_reply es = Inr rows \<Longrightarrow> length rows = length es"
  by (induction es arbitrary: rows) (auto split: sum.splits)

lemma claimed_entries_decode:
  assumes ok: "redis_ok r"
  shows "\<exists>rows. parse_claim_reply (snd (fn_claim n w now qs ks r)) = Inr rows \<and>
    map cj_id rows = map ce_id (snd (fn_claim n w now qs ks r)) \<and> map cj_kind rows = map ce_kind (snd (fn_claim n w now qs ks r)) \<and>
    map cj_attempt rows = map ce_attempt (snd (fn_claim n w now qs ks r)) \<and>
    map cj_worker_id rows = map ce_worker_id (snd (fn_claim n w now qs ks r))"
proof (rule parse_claim_reply_ok)
  fix e assume "e \<in> set (snd (fn_claim n w now qs ks r))"
  from fn_claim_starts(3) [OF ok this] show "ce_payload e \<noteq> None \<and> ce_queue e \<noteq> None"
    using ok by (fastforce simp: starts_def redis_ok_def core_ok_def hashes_ok_def hash_ok_def)
qed

section \<open>The runtime on Redis\<close>

lemma attempt_value: "attempt_call c f s = (s', Inr v) \<Longrightarrow> f s = (s', Inr v)"
  by (cases c) simp_all

lemma with_retry_value:
  assumes "with_retry c f r = (r', Inr v)"
  obtains s s' where "f s = (s', Inr v)"
  using assms attempt_value by (fastforce simp: with_retry_def split: prod.splits sum.splits option.splits if_splits)

lemma redis_claim_bounded:
  assumes "be_claim_batch (redis_backend p) w n ks qs r = (r', Inr rows)"
  shows "length rows \<le> n"
proof (cases "n = 0 \<or> ks = [] \<or> qs = []")
  case False
  then obtain s es where e: "fcall p 0 (runs (fn_claim n w (rc_now_ms p) qs ks)) r = (s, Inr es)" "parse_claim_reply es = Inr rows"
    using assms by (auto simp: redis_backend_def rd_claim_batch_def then_parse_def split: prod.splits sum.splits)
  then obtain s0 s' where "runs (fn_claim n w (rc_now_ms p) qs ks) s0 = (s', Inr es)"
    unfolding fcall_def by (elim with_retry_value)
  then have "es = snd (fn_claim n w (rc_now_ms p) qs ks s0)" by (auto simp: runs_def split: prod.splits)
  then show ?thesis using fn_claim_length parse_claim_reply_length [OF e(2)] by simp
qed (use assms in \<open>auto simp: redis_backend_def rd_claim_batch_def\<close>)

interpretation rd: runtime_store redis_backend rd_ctx_ok "lib_step\<^sup>*\<^sup>*" "\<lambda>_. True"
proof unfold_locales
  show "length rows \<le> n" if "be_claim_batch (redis_backend p) w n ks qs s = (s', Inr rows)" for p w n ks qs s s' rows
    using that by (rule redis_claim_bounded)
qed (simp_all add: stays_in_def lib.tasks_within lib.reports_within redis_backend_def default_reconcile_counters_def)

section \<open>A store\<close>

text \<open>One job with a unique key in a group, on a queue, each limited to one running job.\<close>

definition mail_args :: enq_args where
  "mail_args = \<lparr>ea_kind = ''mail'', ea_payload = JNull, ea_priority = 0, ea_max_attempts = 3, ea_scheduled_at_ms = 0,
     ea_unique_key = ''k'', ea_group_key = ''g'', ea_queue = ''default'', ea_tags = [], ea_metadata = JObject [],
     ea_remove_on_complete = None, ea_remove_on_fail = None, ea_max_stalled_count = 0\<rparr>"

definition mail_store :: redis where
  "mail_store = run_op (Enqueue 5 [mail_args]) (run_op (GroupRate ''g'' 1 1000 0) (run_op (GroupConcurrency ''g'' 1)
     (run_op (QueueConcurrency ''default'' 1) empty_redis)))"

lemma mail_run: "redis_run empty_redis mail_store"
  unfolding mail_store_def by (intro redis_run.intros) simp_all

definition plain_ctx :: rd_ctx where
  "plain_ctx = \<lparr>rc_now_ms = 10, rc_utc = 10000, rc_clk = 10, rc_cron = (\<lambda>_. Inl ''no cron''),
     rc_calls = (\<lambda>_. \<lparr>co_first = Answered, co_load = None, co_second = Answered\<rparr>), rc_mid = (\<lambda>_ r. r)\<rparr>"

lemma plain_answered: "answered plain_ctx"
  by (simp add: answered_def plain_ctx_def)

lemma run_redis_ok: "redis_run empty_redis r \<Longrightarrow> redis_ok r"
  using redis_run_ok redis_ok_empty by blast

section \<open>Properties\<close>

text \<open>C16: along every run of the library's functions whose reports come in time, the store is in order. Every sorted set,
  global or per queue or per group, holds exactly the jobs whose hash says so; a unique key is reserved exactly while a live
  job has it; every hash is complete, and its id was handed out.\<close>

theorem redis_runs_stay_in_order:
  assumes "redis_run empty_redis r"
  shows "(\<forall>pl. tracked pl \<longrightarrow> zmem (zset_at pl r) = {i. \<exists>h. rd_jobs r i = Some h \<and> belongs pl h} \<and> zset_ok (zset_at pl r)) \<and>
    (\<forall>u i. rd_unique r u = Some i \<longleftrightarrow> (\<exists>h. rd_jobs r i = Some h \<and> live_hash h \<and> h_unique_key h = Some u)) \<and>
    (\<forall>i h. rd_jobs r i = Some h \<longrightarrow> 1 \<le> i \<and> hash_ok r i h)"
proof -
  have ok: "placed {} r" "unique_ok (rd_jobs r) (rd_unique r)" "hashes_ok r"
    using run_redis_ok [OF assms] by (simp_all add: redis_ok_def core_ok_def)
  show ?thesis
    using placed_zmem [OF ok(1)] ok(1,3) unique_iff [OF ok(2)] unique_pos [OF ok(2)]
    by (auto simp: sel_def placed_def hashes_ok_def)
qed

theorem redis_runs_stay_in_order_witness:
  "zmem (zset_at (Waits ''default'') mail_store) = {i. \<exists>h. rd_jobs mail_store i = Some h \<and> belongs (Waits ''default'') h}"
  using redis_runs_stay_in_order [OF mail_run] by simp

text \<open>C17: a claim returns at most \<open>batch_size\<close> distinct jobs, each pending before, of a subscribed kind and on a subscribed
  queue, and now running under the worker with one more attempt; every other job is as it was.\<close>

theorem redis_claim_starts_exactly_returned:
  assumes "redis_run empty_redis r" "answered p"
  shows "\<exists>rows. snd (rd_claim_batch p w n ks qs r) = Inr rows \<and> length rows \<le> n \<and> distinct (map cj_id rows) \<and>
    (\<forall>j \<in> set rows. cj_kind j \<in> set ks \<and> cj_worker_id j = w \<and>
       (\<exists>h. rd_jobs r (cj_id j) = Some h \<and> h_state h = Some Pending \<and> h_kind h = Some (cj_kind j) \<and> (\<exists>q \<in> set qs. h_queue h = Some q) \<and>
          cj_attempt j = unwrap_or (h_attempt h) 0 + 1 \<and>
          rd_jobs (fst (rd_claim_batch p w n ks qs r)) (cj_id j) = Some (run_hash w (rc_now_ms p) (cj_attempt j) h))) \<and>
    (\<forall>i. i \<notin> cj_id ` set rows \<longrightarrow> rd_jobs (fst (rd_claim_batch p w n ks qs r)) i = rd_jobs r i)"
proof (cases "n = 0 \<or> ks = [] \<or> qs = []")
  case False
  define c where "c = fn_claim n w (rc_now_ms p) qs ks r"
  have ok: "redis_ok r" by (rule run_redis_ok [OF assms(1)])
  note s = fn_claim_starts [OF ok, where b = n and w = w and now = "rc_now_ms p" and qs = qs and ks = ks, folded c_def]
  obtain rows where rows: "parse_claim_reply (snd c) = Inr rows" "map cj_id rows = map ce_id (snd c)" "map cj_kind rows = map ce_kind (snd c)"
      "map cj_attempt rows = map ce_attempt (snd c)" "map cj_worker_id rows = map ce_worker_id (snd c)"
    using claimed_entries_decode [OF ok, where n = n and w = w and now = "rc_now_ms p" and qs = qs and ks = ks] by (auto simp: c_def)
  have e: "rd_claim_batch p w n ks qs r = (fst c, Inr rows)"
    using False rows(1) by (simp add: rd_claim_batch_def then_parse_def c_def fcall_runs [OF assms(2)])
  have ids: "cj_id ` set rows = ce_id ` set (snd c)" using rows(2) by (metis set_map)
  have each: "\<exists>x \<in> set (snd c). cj_id j = ce_id x \<and> cj_kind j = ce_kind x \<and> cj_attempt j = ce_attempt x \<and> cj_worker_id j = ce_worker_id x"
    if j: "j \<in> set rows" for j
  proof -
    obtain k where k: "k < length rows" "j = rows ! k" using j by (metis in_set_conv_nth)
    have "length rows = length (snd c)" using rows(2) by (metis length_map)
    then show ?thesis using k rows(2-5) by (intro bexI [of _ "snd c ! k"]) (metis nth_map nth_mem)+
  qed
  have "length rows \<le> n" using s(1) rows(2) by (metis length_map)
  moreover have "distinct (map cj_id rows)" using s(2) rows(2) by simp
  moreover have "cj_kind j \<in> set ks \<and> cj_worker_id j = w \<and>
       (\<exists>h. rd_jobs r (cj_id j) = Some h \<and> h_state h = Some Pending \<and> h_kind h = Some (cj_kind j) \<and> (\<exists>q \<in> set qs. h_queue h = Some q) \<and>
          cj_attempt j = unwrap_or (h_attempt h) 0 + 1 \<and> rd_jobs (fst c) (cj_id j) = Some (run_hash w (rc_now_ms p) (cj_attempt j) h))"
    if j: "j \<in> set rows" for j
  proof -
    obtain x where x: "x \<in> set (snd c)" "cj_id j = ce_id x" "cj_kind j = ce_kind x" "cj_attempt j = ce_attempt x"
      "cj_worker_id j = ce_worker_id x" using each [OF j] by blast
    show ?thesis using s(3) [OF x(1)] unfolding x(2-5) starts_def by blast
  qed
  ultimately show ?thesis using e s(4) ids by auto
qed (use assms in \<open>auto simp: rd_claim_batch_def\<close>)

lemma mail_claimed: "map ce_id (snd (fn_claim 1 7 10 [''default''] [''mail''] mail_store)) = [1]"
  by code_simp

theorem redis_claim_starts_exactly_returned_witness:
  "\<exists>rows. snd (rd_claim_batch plain_ctx 7 1 [''mail''] [''default''] mail_store) = Inr rows \<and> length rows \<le> 1 \<and> distinct (map cj_id rows)"
  using redis_claim_starts_exactly_returned [OF mail_run plain_answered, of 7 1 "[''mail'']" "[''default'']"] by blast

text \<open>C18: a claim never takes the number of jobs running on a queue above its limit, and starts nothing on a paused queue.\<close>

theorem redis_claim_respects_queue_cap:
  assumes "redis_run empty_redis r" "read_nq_meta q r = Some m"
  shows "(nv_paused m \<longrightarrow> jobs_in (fst (fn_claim b w now qs ks r)) q Running = jobs_in r q Running) \<and>
    (0 \<le> nv_max_concurrency m \<longrightarrow>
       card (jobs_in (fst (fn_claim b w now qs ks r)) q Running) \<le> max (card (jobs_in r q Running)) (nat (nv_max_concurrency m)))"
proof -
  have ok: "redis_ok r" "redis_ok (fst (fn_claim b w now qs ks r))" using run_redis_ok [OF assms(1)] fn_claim_ok by blast+
  have q: "q \<noteq> []" using assms(2) by (auto simp: read_nq_meta_def)
  have s: "jobs_in s q Running = zmem (rd_nq_running s q)" if "redis_ok s" for s
    using placed_zmem [OF redis_okD(1) [OF that], of "QueueRun q"] q by (simp add: jobs_in_def sel_def zset_at.simps)
  have z: "card (jobs_in s q Running) = zcard (rd_nq_running s q)" if "redis_ok s" for s
    using queue_place_card(1) [OF that q, of Running] by (simp add: zset_at.simps)
  show ?thesis
    unfolding z [OF ok(1)] z [OF ok(2)] unfolding s [OF ok(1)] s [OF ok(2)] using fn_claim_queue_limits [OF assms(2)] by simp
qed

theorem redis_claim_respects_queue_cap_witness:
  "card (jobs_in (fst (fn_claim 5 7 10 [''default''] [''mail''] mail_store)) ''default'' Running) \<le> max (card (jobs_in mail_store ''default'' Running)) 1"
proof -
  have "read_nq_meta ''default'' mail_store = Some \<lparr>nv_max_concurrency = 1, nv_paused = False, nv_default_timeout_ms = - 1\<rparr>" by code_simp
  from redis_claim_respects_queue_cap [OF mail_run this] show ?thesis by simp
qed

text \<open>C19: a claim never takes the number of running jobs of a group above its limit, starts nothing in a paused group, and
  starts at most as many jobs of a rate-limited group as it has tokens after the refill.\<close>

theorem redis_claim_respects_group_limits:
  assumes "redis_run empty_redis r" "read_group_meta (Some k) r = Some m"
  shows "(gv_paused m \<longrightarrow> sel (rd_jobs (fst (fn_claim b w now qs ks r))) (belongs (GroupRun k)) = sel (rd_jobs r) (belongs (GroupRun k))) \<and>
    (0 \<le> gv_max_concurrency m \<longrightarrow> card (sel (rd_jobs (fst (fn_claim b w now qs ks r))) (belongs (GroupRun k)))
       \<le> max (card (sel (rd_jobs r) (belongs (GroupRun k)))) (nat (gv_max_concurrency m))) \<and>
    (0 \<le> gv_rate_count m \<longrightarrow> real (length (filter (\<lambda>e. ce_group_key e = Some k) (snd (fn_claim b w now qs ks r)))) \<le> max 0 (gv_tokens (refill_tokens now m)))"
proof -
  have ok: "redis_ok r" "redis_ok (fst (fn_claim b w now qs ks r))" using run_redis_ok [OF assms(1)] fn_claim_ok by blast+
  note l = fn_claim_group_limits [OF assms(2), where b = b and w = w and now = now and qs = qs and ks = ks]
  have s: "sel (rd_jobs s) (belongs (GroupRun k)) = zmem (rd_group_running s k)" if "redis_ok s" for s
    using placed_zmem [OF redis_okD(1) [OF that], of "GroupRun k"] by (simp add: zset_at.simps)
  have z: "card (sel (rd_jobs s) (belongs (GroupRun k))) = zcard (rd_group_running s k)" if "redis_ok s" for s
    using placed_zcard [OF redis_okD(1) [OF that], of "GroupRun k"] by (simp add: zset_at.simps)
  show ?thesis
    unfolding z [OF ok(1)] z [OF ok(2)] unfolding s [OF ok(1)] s [OF ok(2)] using l by (simp add: bank_def in_group_def)
qed

theorem redis_claim_respects_group_limits_witness:
  "card (sel (rd_jobs (fst (fn_claim 5 7 10 [''default''] [''mail''] mail_store))) (belongs (GroupRun ''g''))) \<le>
     max (card (sel (rd_jobs mail_store) (belongs (GroupRun ''g'')))) 1"
proof -
  have "read_group_meta (Some ''g'') mail_store = Some \<lparr>gv_max_concurrency = 1, gv_paused = False, gv_rate_count = 1,
      gv_rate_period_ms = 1000, gv_tokens = 1, gv_refilled_at = 0\<rparr>"
    by (simp add: mail_store_def read_group_meta_def empty_redis_def fn_enqueue_def Let_def mail_args_def fn_group_set_rate_def
        fn_group_set_concurrency_def fn_queue_set_concurrency_def set_nqmeta_def set_gmeta_def empty_gmeta_def unwrap_or_def
        publish_wakeup_def make_due_def index_tags_def index_job_def maybe_materialize_group_def hset_def opt_str_def)
  from redis_claim_respects_group_limits [OF mail_run this] show ?thesis by simp
qed




text \<open>\<open>get_stats\<close> reports exactly the queues and states that have jobs, each with the number of its jobs, when no queue
  name is empty or holds a bar.\<close>

lemma redis_stats_are_exact:
  assumes "redis_run empty_redis r" "answered p" "\<And>q. q \<in> set (rd_queues_seen r) \<Longrightarrow> q \<noteq> [] \<and> CHR ''|'' \<notin> set q"
    and "\<And>q st. int (card (jobs_in r q st)) \<le> i64_max"
  shows "\<exists>counts. rd_get_stats p r = (r, Inr counts) \<and>
    set counts = {\<lparr>qs_queue = q, qs_state = st, qs_count = int (card (jobs_in r q st))\<rparr> | q st. 0 < card (jobs_in r q st)}"
  using stats_reply_set [OF run_redis_ok [OF assms(1)] assms(3,4)]
  by (simp add: rd_get_stats_def fcall_reads [OF assms(2)] rd_map_def)

lemma mail_store_jobs: "rd_jobs mail_store i \<noteq> None \<longleftrightarrow> i = 1"
  by (simp add: mail_store_def empty_redis_def fn_enqueue_def Let_def mail_args_def fn_group_set_rate_def
      fn_group_set_concurrency_def fn_queue_set_concurrency_def set_nqmeta_def set_gmeta_def)




text \<open>C23: a process on Redis is one more client of the library. However its tasks interleave with each other and with other
  clients, and whatever calls are refused, lost or repeated, the store changes only by functions of the library; free slots,
  jobs on their way to a worker and busy workers add up to \<open>worker_concurrency\<close> while the fetcher runs, so it never claims
  more jobs than there are free slots.\<close>

theorem redis_process_refines_library:
  assumes "(rt_step redis_backend rd_ctx_ok lib_step\<^sup>*\<^sup>* pr)\<^sup>*\<^sup>* (s0, rt_start pr) (s, r)"
  shows "lib_step\<^sup>*\<^sup>* s0 s \<and> rt_idle r + slots_taken r \<le> worker_concurrency (pr_config pr) \<and>
    (\<not> fetcher_stopped (rt_fetcher r) \<longrightarrow> rt_idle r + slots_taken r = worker_concurrency (pr_config pr)) \<and>
    (\<forall>n. rt_fetcher r = Claiming n \<longrightarrow> n \<le> rt_idle r) \<and>
    (\<forall>job rest got n. rt_fetcher r = Handing (job # rest) got n \<longrightarrow> 0 < rt_idle r)"
  using rd.run_within [OF assms] rd.run_slots [OF assms] rd.run_handover [OF assms]
  by (auto simp: slots_ok_def slots_taken_def rtranclp_idemp)

definition redis_process :: process where
  "redis_process =
     \<lparr>pr_config = default_config\<lparr>worker_concurrency := 1\<rparr>, pr_registry = register_dyn ''mail'' (\<lambda>_ _ _. Returned JNull) registry_new,
      pr_queues = [''default''], pr_fetcher_id = 7, pr_maintenance_id = 8, pr_worker_ids = of_nat\<rparr>"

lemma redis_process_claims:
  obtains rows where "(rt_step redis_backend rd_ctx_ok lib_step\<^sup>*\<^sup>* redis_process)\<^sup>*\<^sup>* (mail_store, rt_start redis_process)
      (fst (rd_claim_batch plain_ctx 7 1 [''mail''] [''default''] mail_store), (rt_start redis_process)\<lparr>rt_fetcher := Handing rows 1 1\<rparr>)"
    "length rows = 1"
proof -
  let ?R = "rt_step redis_backend rd_ctx_ok lib_step\<^sup>*\<^sup>* redis_process" and ?r0 = "rt_start redis_process"
  have cfg: "registered_kinds (pr_registry redis_process) = [''mail'']" "pr_queues redis_process = [''default'']" "pr_fetcher_id redis_process = 7"
    "pr_config redis_process = default_config\<lparr>worker_concurrency := 1\<rparr>"
    by (simp_all add: redis_process_def register_dyn_def insert_handler_def registry_new_def registered_kinds_def)
  have p: "rd_ctx_ok plain_ctx" by (simp add: rd_ctx_ok_def plain_ctx_def)
  have f: "?R st st'" if "fetch_step redis_process (\<lambda>_. 0) (redis_backend plain_ctx) st = Some st'" for st st'
    using rt_step.fetch [where Bs = redis_backend and ok = rd_ctx_ok and rng = "\<lambda>_. 0" and st = st and st' = st', OF p _ that] by (simp add: rng_ok_def)
  let ?c = "fn_claim 1 7 10 [''default''] [''mail''] mail_store"
  have ids: "map ce_id (snd ?c) = [1]" by (rule mail_claimed)
  obtain rows where rows: "parse_claim_reply (snd ?c) = Inr rows" using claimed_entries_decode [OF run_redis_ok [OF mail_run]] by blast
  have l: "length rows = 1" using parse_claim_reply_length [OF rows] ids by (metis length_map length_Cons list.size(3) One_nat_def)
  have e: "rd_claim_batch plain_ctx 7 1 [''mail''] [''default''] mail_store = (fst ?c, Inr rows)"
    using rows by (simp add: rd_claim_batch_def fcall_runs [OF plain_answered] then_parse_def) (simp add: plain_ctx_def)
  have "?R (mail_store, ?r0) (mail_store, ?r0\<lparr>rt_fetcher := Claiming 1\<rparr>)"
    by (rule f) (simp add: fetch_step_def rt_start_def cfg default_config_def)
  moreover have "?R (mail_store, ?r0\<lparr>rt_fetcher := Claiming 1\<rparr>) (fst ?c, ?r0\<lparr>rt_fetcher := Handing rows 1 1\<rparr>)"
    by (rule f) (simp add: fetch_step_def cfg redis_backend_def e l del: One_nat_def)
  ultimately have "?R\<^sup>*\<^sup>* (mail_store, ?r0) (fst ?c, ?r0\<lparr>rt_fetcher := Handing rows 1 1\<rparr>)"
    by (meson r_into_rtranclp rtranclp.rtrancl_into_rtrancl)
  then show ?thesis using that [of rows] l unfolding e fst_conv by blast
qed

theorem redis_process_refines_library_witness:
  "lib_step\<^sup>*\<^sup>* mail_store (fst (rd_claim_batch plain_ctx 7 1 [''mail''] [''default''] mail_store)) \<and> 0 < rt_idle (rt_start redis_process)"
proof -
  obtain rows where run: "(rt_step redis_backend rd_ctx_ok lib_step\<^sup>*\<^sup>* redis_process)\<^sup>*\<^sup>* (mail_store, rt_start redis_process)
      (fst (rd_claim_batch plain_ctx 7 1 [''mail''] [''default''] mail_store), (rt_start redis_process)\<lparr>rt_fetcher := Handing rows 1 1\<rparr>)"
    "length rows = 1" by (rule redis_process_claims)
  then obtain job rest where "rows = job # rest" by (cases rows) simp_all
  then show ?thesis using redis_process_refines_library [OF run(1)] by auto
qed




end
