(* ===== verification/Client.thy ===== *)
theory Client
  imports Eddy_Queue System
begin

text \<open>
  \<open>Client\<close> of \<open>crates/eddyq-client/src/lib.rs\<close>: the facade without handlers, which owns a pool and calls the modules of the
  core crate. Each method is the call it makes; what the database decides is in the \<open>pg_ctx\<close> of theory \<open>Backend\<close>.
\<close>

record client =
  cl_line :: string

record client_config =
  cc_max_connections :: nat
  cc_min_connections :: nat
  cc_acquire_timeout :: duration
  cc_line :: string

definition default_client_config :: client_config where
  "default_client_config =
     \<lparr>cc_max_connections = 5, cc_min_connections = 0, cc_acquire_timeout = from_secs 30, cc_line = default_line\<rparr>"

text \<open>\<open>pool\<close> is the outcome of opening the pool with the configured sizes.\<close>

definition connect_with :: "unit res \<Rightarrow> client_config \<Rightarrow> client res" where
  "connect_with pool cfg = (case pool of Inl err \<Rightarrow> Inl err | Inr _ \<Rightarrow> Inr \<lparr>cl_line = cc_line cfg\<rparr>)"

definition client_connect :: "unit res \<Rightarrow> client res" where
  "client_connect pool = connect_with pool default_client_config"

definition from_pool :: client where
  "from_pool = \<lparr>cl_line = default_line\<rparr>"

section \<open>Migrations\<close>

definition client_migrate :: "pg_ctx \<Rightarrow> 'm exec \<Rightarrow> client \<Rightarrow> 'm mig_state \<Rightarrow> 'm mig_state \<times> migrate_report res" where
  "client_migrate p exec cl = up exec (e_now (pc_env p)) (cl_line cl)"

definition client_migrate_down :: "'m exec \<Rightarrow> nat \<Rightarrow> client \<Rightarrow> 'm mig_state \<Rightarrow> 'm mig_state \<times> migrate_report res" where
  "client_migrate_down exec max_steps cl = down exec (cl_line cl) max_steps"

definition client_migration_status :: "client \<Rightarrow> 'm mig_state \<Rightarrow> (int \<times> string \<times> timestamp option) list" where
  "client_migration_status cl = status (cl_line cl)"

section \<open>Jobs\<close>

definition client_enqueue :: "pg_ctx \<Rightarrow> dyn_enqueue \<Rightarrow> enqueue_result conn" where
  "client_enqueue p req = over_pool p (enqueue_dyn (pc_env p) req)"

definition client_enqueue_many :: "pg_ctx \<Rightarrow> dyn_enqueue list \<Rightarrow> bulk_enqueue_result conn" where
  "client_enqueue_many p reqs = over_pool p (enqueue_many_dyn (pc_env p) reqs)"

definition client_enqueue_batch :: "pg_ctx \<Rightarrow> dyn_enqueue list \<Rightarrow> batch_options \<Rightarrow> batch_enqueue_result conn" where
  "client_enqueue_batch p items opts = over_pool p (enqueue_batch (pc_env p) items opts)"

definition client_enqueue_in_tx :: "pg_ctx \<Rightarrow> dyn_enqueue \<Rightarrow> enqueue_result tx" where
  "client_enqueue_in_tx p req = enqueue_dyn_in_tx (pc_env p) req"

definition client_cancel :: "pg_ctx \<Rightarrow> job_id \<Rightarrow> bool conn" where
  "client_cancel p i = over_pool p (cancel (pc_env p) i)"

definition client_clean :: "pg_ctx \<Rightarrow> duration \<Rightarrow> nat \<Rightarrow> clean_state \<Rightarrow> nat conn" where
  "client_clean p grace limit st =
     over_pool p (fine (clean_jobs (pc_job_scan p) (e_now (pc_env p)) (clean_job_state st) (as_secs grace) limit))"

section \<open>Groups\<close>

definition client_set_group_concurrency :: "pg_ctx \<Rightarrow> string \<Rightarrow> int \<Rightarrow> unit conn" where
  "client_set_group_concurrency p k mx = over_pool p (done_by (group_set_concurrency (e_now (pc_env p)) k mx))"

definition client_pause_group :: "pg_ctx \<Rightarrow> string \<Rightarrow> unit conn" where
  "client_pause_group p k = over_pool p (done_by (group_set_paused (e_now (pc_env p)) k True))"

definition client_resume_group :: "pg_ctx \<Rightarrow> string \<Rightarrow> unit conn" where
  "client_resume_group p k = over_pool p (done_by (group_set_paused (e_now (pc_env p)) k False))"

definition client_set_group_rate :: "pg_ctx \<Rightarrow> string \<Rightarrow> nat \<Rightarrow> duration \<Rightarrow> unit conn" where
  "client_set_group_rate p k n period = over_pool p (group_set_rate (e_now (pc_env p)) k n period)"

definition client_clear_group_rate :: "pg_ctx \<Rightarrow> string \<Rightarrow> unit conn" where
  "client_clear_group_rate p k = over_pool p (done_by (group_clear_rate (e_now (pc_env p)) k))"

definition client_get_group :: "pg_ctx \<Rightarrow> string \<Rightarrow> group option conn" where
  "client_get_group p k = over_pool p (reading (group_get k))"

definition client_list_groups :: "pg_ctx \<Rightarrow> group list conn" where
  "client_list_groups p = over_pool p (reading group_list)"

definition client_set_group_rule :: "pg_ctx \<Rightarrow> string \<Rightarrow> group_rule \<Rightarrow> unit conn" where
  "client_set_group_rule p pattern rule = over_pool p (set_rule (e_now (pc_env p)) pattern rule)"

definition client_remove_group_rule :: "pg_ctx \<Rightarrow> string \<Rightarrow> bool conn" where
  "client_remove_group_rule p pattern = over_pool p (fine (remove_rule pattern))"

definition client_list_group_rules :: "pg_ctx \<Rightarrow> stored_rule list conn" where
  "client_list_group_rules p = over_pool p (reading list_rules)"

section \<open>Named queues\<close>

definition client_set_queue_concurrency :: "pg_ctx \<Rightarrow> string \<Rightarrow> int \<Rightarrow> unit conn" where
  "client_set_queue_concurrency p name mx = over_pool p (done_by (queue_set_concurrency (e_now (pc_env p)) name mx))"

definition client_pause_queue :: "pg_ctx \<Rightarrow> string \<Rightarrow> unit conn" where
  "client_pause_queue p name = over_pool p (done_by (queue_set_paused (e_now (pc_env p)) name True))"

definition client_resume_queue :: "pg_ctx \<Rightarrow> string \<Rightarrow> unit conn" where
  "client_resume_queue p name = over_pool p (done_by (queue_set_paused (e_now (pc_env p)) name False))"

definition client_set_queue_timeout :: "pg_ctx \<Rightarrow> string \<Rightarrow> duration option \<Rightarrow> unit conn" where
  "client_set_queue_timeout p name t = over_pool p (done_by (queue_set_timeout (e_now (pc_env p)) name t))"

definition client_get_queue :: "pg_ctx \<Rightarrow> string \<Rightarrow> named_queue option conn" where
  "client_get_queue p name = over_pool p (reading (queue_get name))"

definition client_list_named_queues :: "pg_ctx \<Rightarrow> named_queue list conn" where
  "client_list_named_queues p = over_pool p (reading queue_list)"

section \<open>Schedules\<close>

definition client_list_schedules :: "pg_ctx \<Rightarrow> schedule list conn" where
  "client_list_schedules p = over_pool p (reading list_schedules)"

definition client_add_schedule :: "pg_ctx \<Rightarrow> schedule_declaration \<Rightarrow> unit conn" where
  "client_add_schedule p d = over_pool p (upsert_schedule_raw (pc_cron p) (e_utc (pc_env p)) d)"

definition client_remove_schedule :: "pg_ctx \<Rightarrow> string \<Rightarrow> bool conn" where
  "client_remove_schedule p name = over_pool p (fine (remove_schedule name))"

definition client_add_interval_schedule ::
  "pg_ctx \<Rightarrow> string \<Rightarrow> int \<Rightarrow> string \<Rightarrow> json \<Rightarrow> int \<Rightarrow> int \<Rightarrow> string \<Rightarrow> unit conn" where
  "client_add_interval_schedule p name interval_ms kind payload priority max_attempts queue =
     over_pool p (upsert_interval_schedule_raw (e_utc (pc_env p)) name interval_ms kind payload priority max_attempts queue)"

definition client_set_schedule_enabled :: "pg_ctx \<Rightarrow> string \<Rightarrow> bool \<Rightarrow> bool conn" where
  "client_set_schedule_enabled p name enabled = over_pool p (fine (set_enabled name enabled))"

definition client_sync_schedules :: "pg_ctx \<Rightarrow> schedule_declaration list \<Rightarrow> sync_report conn" where
  "client_sync_schedules p declared = over_pool p (sync_schedules (pc_cron p) (e_utc (pc_env p)) declared)"

section \<open>Statistics\<close>

definition client_get_stats :: "pg_ctx \<Rightarrow> queue_state_count list conn" where
  "client_get_stats p =
     over_pool p (fine (\<lambda>s. get_stats (e_now (pc_env p)) (pc_stats_clock1 p) (pc_stats_clock2 p) (pc_stats_won p)
       (pc_stats_live p s) (pc_stats_before p s) s))"

definition client_list_jobs :: "pg_ctx \<Rightarrow> list_jobs_filter \<Rightarrow> pagination \<Rightarrow> job_list conn" where
  "client_list_jobs p f pn = over_pool p (reading (\<lambda>s. list_jobs f pn (pc_list_before p s) s))"

section \<open>The client is a participant of the system\<close>

text \<open>What the ad-hoc sweep asks of the order in which rows are scanned.\<close>

definition pg_job_scan_ok :: "pg_ctx \<Rightarrow> bool" where
  "pg_job_scan_ok p \<longleftrightarrow> scan_ok (pc_job_scan p)"

lemmas client_defs = client_enqueue_def client_enqueue_many_def client_enqueue_batch_def client_cancel_def client_clean_def
  client_set_group_concurrency_def client_pause_group_def client_resume_group_def client_set_group_rate_def
  client_clear_group_rate_def client_get_group_def client_list_groups_def client_set_group_rule_def
  client_remove_group_rule_def client_list_group_rules_def client_set_queue_concurrency_def client_pause_queue_def
  client_resume_queue_def client_set_queue_timeout_def client_get_queue_def client_list_named_queues_def
  client_list_schedules_def client_add_schedule_def client_remove_schedule_def client_add_interval_schedule_def
  client_set_schedule_enabled_def client_sync_schedules_def client_get_stats_def client_list_jobs_def

lemma over_pool_steps:
  "(\<And>s. sys_step\<^sup>*\<^sup>* s (fst (f s))) \<Longrightarrow> sys_step\<^sup>*\<^sup>* s (fst (over_pool p f s))"
  by (simp add: over_pool_def split: option.split)

lemma fst_adapters [simp]:
  "fst (fine f s) = fst (f s)" "fst (done_by g s) = g s" "fst (reading h s) = s"
  by (simp_all add: fine_def done_by_def reading_def split: prod.split)

lemma client_job_steps:
  assumes "pg_job_scan_ok p"
  shows "d_batch_id req = None \<Longrightarrow> sys_step\<^sup>*\<^sup>* s (fst (client_enqueue p req s))"
    "\<forall>d \<in> set reqs. d_batch_id d = None \<Longrightarrow> sys_step\<^sup>*\<^sup>* s (fst (client_enqueue_many p reqs s))"
    "\<forall>spec. bo_on_complete opts = Some spec \<longrightarrow> d_batch_id spec = None \<Longrightarrow>
       sys_step\<^sup>*\<^sup>* s (fst (client_enqueue_batch p items opts s))"
    "sys_step\<^sup>*\<^sup>* s (fst (client_cancel p i s))"
    "sys_step\<^sup>*\<^sup>* s (fst (client_clean p grace limit st s))"
    "sys_step\<^sup>*\<^sup>* s (fst (client_get_stats p s))"
    "fst (client_list_jobs p f pn s) = s"
  using assms unfolding client_defs pg_job_scan_ok_def
  by (auto simp: over_pool_def reading_def split: option.split intro!: over_pool_steps r_into_rtranclp intro: sys_step.intros)

lemma client_group_steps:
  "sys_step\<^sup>*\<^sup>* s (fst (client_set_group_concurrency p k mx s))" "sys_step\<^sup>*\<^sup>* s (fst (client_pause_group p k s))"
  "sys_step\<^sup>*\<^sup>* s (fst (client_resume_group p k s))" "sys_step\<^sup>*\<^sup>* s (fst (client_set_group_rate p k n period s))"
  "sys_step\<^sup>*\<^sup>* s (fst (client_clear_group_rate p k s))" "fst (client_get_group p k s) = s" "fst (client_list_groups p s) = s"
  "sys_step\<^sup>*\<^sup>* s (fst (client_set_group_rule p pattern rule s))" "sys_step\<^sup>*\<^sup>* s (fst (client_remove_group_rule p pattern s))"
  "fst (client_list_group_rules p s) = s"
  unfolding client_defs
  by (auto simp: over_pool_def reading_def split: option.split
      intro!: over_pool_steps r_into_rtranclp sys_step.admin intro: admin_step.intros)

lemma client_queue_steps:
  "sys_step\<^sup>*\<^sup>* s (fst (client_set_queue_concurrency p q mx s))" "sys_step\<^sup>*\<^sup>* s (fst (client_pause_queue p q s))"
  "sys_step\<^sup>*\<^sup>* s (fst (client_resume_queue p q s))" "sys_step\<^sup>*\<^sup>* s (fst (client_set_queue_timeout p q t s))"
  "fst (client_get_queue p q s) = s" "fst (client_list_named_queues p s) = s"
  unfolding client_defs
  by (auto simp: over_pool_def reading_def split: option.split
      intro!: over_pool_steps r_into_rtranclp sys_step.admin intro: admin_step.intros)

lemma client_schedule_steps:
  "sys_step\<^sup>*\<^sup>* s (fst (client_add_schedule p d s))" "sys_step\<^sup>*\<^sup>* s (fst (client_remove_schedule p name s))"
  "sys_step\<^sup>*\<^sup>* s (fst (client_add_interval_schedule p name ms kind payload pr ma q s))"
  "sys_step\<^sup>*\<^sup>* s (fst (client_set_schedule_enabled p name b s))" "sys_step\<^sup>*\<^sup>* s (fst (client_sync_schedules p declared s))"
  "fst (client_list_schedules p s) = s"
  unfolding client_defs
  by (auto simp: over_pool_def reading_def split: option.split
      intro!: over_pool_steps r_into_rtranclp sys_step.admin intro: admin_step.intros)

end
