(* ===== verification/Node_Options.thy ===== *)
theory Node_Options
  imports Client Redis_Backend
begin

text \<open>
  The values that cross between JavaScript and the core in \<open>crates/eddyq-napi/src/lib.rs\<close>: option objects, their
  conversion to requests, filters and configurations, the conversion of rows, and the handler that calls a JavaScript
  function. A record \<open>js_env\<close> holds what other crates answer: chrono's clock, the dates it can represent and its RFC 3339
  texts, and serde's reading of an error envelope.
\<close>

section \<open>Results\<close>

text \<open>\<open>Core err\<close> is the text of an error of the core crate, \<open>Reason\<close> a message of the bindings. \<open>Panic\<close> is a computation on
  dates that leaves chrono's range; such a call has no result.\<close>

datatype napi_error = Core error | Reason string | Panic

type_synonym 'a js = "napi_error + 'a"

definition js_err :: "'s \<times> 'a res \<Rightarrow> 's \<times> 'a js" where
  "js_err x = (case x of (s, Inl e) \<Rightarrow> (s, Inl (Core e)) | (s, Inr v) \<Rightarrow> (s, Inr v))"

definition js_map :: "('a \<Rightarrow> 'b) \<Rightarrow> 's \<times> 'a js \<Rightarrow> 's \<times> 'b js" where
  "js_map f x = (case x of (s, Inl e) \<Rightarrow> (s, Inl e) | (s, Inr v) \<Rightarrow> (s, Inr (f v)))"

definition js_bind :: "'a js \<Rightarrow> ('a \<Rightarrow> 'b js) \<Rightarrow> 'b js" where
  "js_bind x f = (case x of Inl e \<Rightarrow> Inl e | Inr v \<Rightarrow> f v)"

text \<open>A call that is made only when its arguments convert.\<close>

definition js_call :: "'a js \<Rightarrow> ('a \<Rightarrow> 's \<Rightarrow> 's \<times> 'b js) \<Rightarrow> 's \<Rightarrow> 's \<times> 'b js" where
  "js_call x f s = (case x of Inl e \<Rightarrow> (s, Inl e) | Inr v \<Rightarrow> f v s)"

fun convert_all :: "('a \<Rightarrow> 'b js) \<Rightarrow> 'a list \<Rightarrow> 'b list js" where
  "convert_all f [] = Inr []"
| "convert_all f (x # xs) = js_bind (f x) (\<lambda>y. js_bind (convert_all f xs) (\<lambda>ys. Inr (y # ys)))"

record envelope =
  en_message :: string
  en_name :: "string option"
  en_stack :: "string option"
  en_directive :: "string option"
  en_delay_ms :: "nat option"

record js_env =
  je_utc :: timestamp
  je_date_ok :: "timestamp \<Rightarrow> bool"
  je_rfc3339 :: "timestamp \<Rightarrow> string"
  je_parse_rfc3339 :: "string \<Rightarrow> timestamp option"
  je_envelope :: "string \<Rightarrow> envelope option"

section \<open>Option objects\<close>

record connect_options =
  cn_max_connections :: "nat option"
  cn_min_connections :: "nat option"
  cn_acquire_timeout_ms :: "nat option"
  cn_line :: "string option"
  cn_poll_only :: "bool option"

record shutdown_options =
  so_mode :: "string option"
  so_graceful_timeout_ms :: "nat option"

record js_options =
  jo_max_attempts :: "int option"
  jo_max_stalled_count :: "int option"
  jo_priority :: "int option"
  jo_queue :: "string option"
  jo_scheduled_at_ms :: "int option"
  jo_delay_ms :: "int option"
  jo_unique_key :: "string option"
  jo_group_key :: "string option"
  jo_tags :: "string list option"
  jo_metadata :: "json option"
  jo_remove_on_complete :: "json option"
  jo_remove_on_fail :: "json option"

text \<open>An item of \<open>enqueueMany\<close> has the same fields, and the kind and payload.\<close>

record js_item = js_options +
  ji_kind :: string
  ji_payload :: json

record batch_input =
  bi_items :: "js_item list"
  bi_on_complete :: "js_item option"
  bi_metadata :: "json option"

record start_options =
  st_skip_migration_check :: "bool option"
  st_sweep_interval_ms :: "nat option"
  st_stale_after_ms :: "nat option"
  st_heartbeat_interval_ms :: "nat option"
  st_cleanup_interval_ms :: "nat option"
  st_completed_retention_secs :: "int option"
  st_failed_retention_secs :: "int option"
  st_cancelled_retention_secs :: "int option"
  st_batch_retention_secs :: "int option"
  st_completed_retention_count :: "int option"
  st_failed_retention_count :: "int option"
  st_cancelled_retention_count :: "int option"
  st_batch_retention_count :: "int option"
  st_leader_lease_secs :: "nat option"
  st_fetch_poll_interval_ms :: "nat option"
  st_default_job_timeout_ms :: "nat option"
  st_scheduler_interval_ms :: "nat option"

record js_filter =
  jf_queue :: "string option"
  jf_state :: "string option"
  jf_kind :: "string option"
  jf_group_key :: "string option"
  jf_tag :: "string option"
  jf_id :: "job_id option"
  jf_before_created_at :: "string option"

record js_pagination =
  jp_limit :: "int option"
  jp_offset :: "int option"

record schedule_options =
  sp_priority :: "int option"
  sp_max_attempts :: "int option"
  sp_queue :: "string option"

record js_declaration =
  jd_name :: string
  jd_cron_expr :: string
  jd_kind :: string
  jd_payload :: json
  jd_priority :: "int option"
  jd_max_attempts :: "int option"
  jd_queue :: "string option"

section \<open>Requests\<close>

text \<open>\<open>if let Some(x) = option\<close>\<close>

definition set_some :: "'a option \<Rightarrow> ('a \<Rightarrow> 'b \<Rightarrow> 'b) \<Rightarrow> 'b \<Rightarrow> 'b" where
  "set_some x f b = (case x of None \<Rightarrow> b | Some v \<Rightarrow> f v b)"

definition number_as_u64 :: "number \<Rightarrow> nat option" where
  "number_as_u64 n = (case n of PosInt k \<Rightarrow> Some k | _ \<Rightarrow> None)"

text \<open>serde's reading of an optional unsigned field: absent and null are none, a number has to be an integer in range.\<close>

definition unsigned_field :: "nat \<Rightarrow> string \<Rightarrow> (string \<times> json) list \<Rightarrow> nat option option" where
  "unsigned_field mx name fs =
     (case map_of fs name of
        None \<Rightarrow> Some None
      | Some JNull \<Rightarrow> Some None
      | Some (JNumber n) \<Rightarrow>
          (case number_as_u64 n of Some k \<Rightarrow> if k \<le> mx then Some (Some k) else None | None \<Rightarrow> None)
      | Some _ \<Rightarrow> None)"

definition normalize_retention :: "string \<Rightarrow> json \<Rightarrow> retention_rule js" where
  "normalize_retention field v =
     (case v of
        JBool b \<Rightarrow> Inr (RBool b)
      | JNumber n \<Rightarrow>
          (case number_as_u64 n of
             None \<Rightarrow> Inl (Reason (field @ '': must be a non-negative integer''))
           | Some k \<Rightarrow>
               if u32_max < k then Inl (Reason (field @ '': count '' @ show_nat k @ '' exceeds u32::MAX''))
               else Inr (RRule None (Some k)))
      | JObject fs \<Rightarrow>
          (case (unsigned_field u64_max ''age'' fs, unsigned_field u32_max ''count'' fs) of
             (Some age, Some n) \<Rightarrow> Inr (RRule age n)
           | _ \<Rightarrow> Inl (Reason (field @ '': expected { age?: number; count?: number }'')))
      | _ \<Rightarrow> Inl (Reason (field @ '': expected boolean | number | object'')))"

definition ms_to_utc :: "js_env \<Rightarrow> int \<Rightarrow> timestamp" where
  "ms_to_utc v ms = (if je_date_ok v (ms * 1000) then ms * 1000 else je_utc v)"

text \<open>\<open>Utc::now() + Duration::milliseconds(ms)\<close>\<close>

definition after_ms :: "js_env \<Rightarrow> int \<Rightarrow> timestamp js" where
  "after_ms v ms = (if je_date_ok v (je_utc v + ms * 1000) then Inr (je_utc v + ms * 1000) else Inl Panic)"

definition time_conflict :: "'z js_options_scheme \<Rightarrow> bool" where
  "time_conflict opt = (jo_scheduled_at_ms opt \<noteq> None \<and> jo_delay_ms opt \<noteq> None)"

definition with_limits :: "'z js_options_scheme \<Rightarrow> dyn_enqueue \<Rightarrow> dyn_enqueue" where
  "with_limits opt req =
     set_some (jo_queue opt) (\<lambda>q r. r\<lparr>d_queue := q\<rparr>)
       (set_some (jo_priority opt) (\<lambda>n r. r\<lparr>d_priority := n\<rparr>)
          (set_some (jo_max_attempts opt) (\<lambda>n r. r\<lparr>d_max_attempts := n\<rparr>) req))"

definition with_stalls :: "'z js_options_scheme \<Rightarrow> dyn_enqueue \<Rightarrow> dyn_enqueue" where
  "with_stalls opt req = set_some (jo_max_stalled_count opt) (\<lambda>n r. r\<lparr>d_max_stalled_count := n\<rparr>) req"

definition with_time :: "js_env \<Rightarrow> 'z js_options_scheme \<Rightarrow> dyn_enqueue \<Rightarrow> dyn_enqueue js" where
  "with_time v opt req =
     (let req1 = set_some (jo_scheduled_at_ms opt) (\<lambda>ms r. r\<lparr>d_scheduled_at := Some (ms_to_utc v ms)\<rparr>) req
      in case jo_delay_ms opt of
           None \<Rightarrow> Inr req1
         | Some ms \<Rightarrow> js_bind (after_ms v ms) (\<lambda>t. Inr (req1\<lparr>d_scheduled_at := Some t\<rparr>)))"

definition with_keys :: "'z js_options_scheme \<Rightarrow> dyn_enqueue \<Rightarrow> dyn_enqueue" where
  "with_keys opt req =
     set_some (jo_metadata opt) (\<lambda>m r. r\<lparr>d_metadata := m\<rparr>)
       (set_some (jo_tags opt) (\<lambda>t r. r\<lparr>d_tags := t\<rparr>)
          (set_some (jo_group_key opt) (\<lambda>g r. r\<lparr>d_group_key := Some g\<rparr>)
             (set_some (jo_unique_key opt) (\<lambda>k r. r\<lparr>d_unique_key := Some k\<rparr>) req)))"

definition with_retention :: "'z js_options_scheme \<Rightarrow> dyn_enqueue \<Rightarrow> dyn_enqueue js" where
  "with_retention opt req =
     js_bind (case jo_remove_on_complete opt of
                None \<Rightarrow> Inr req
              | Some j \<Rightarrow> js_bind (normalize_retention ''removeOnComplete'' j) (\<lambda>r. Inr (req\<lparr>d_remove_on_complete := Some r\<rparr>)))
       (\<lambda>req1. case jo_remove_on_fail opt of
                 None \<Rightarrow> Inr req1
               | Some j \<Rightarrow> js_bind (normalize_retention ''removeOnFail'' j) (\<lambda>r. Inr (req1\<lparr>d_remove_on_fail := Some r\<rparr>)))"

text \<open>The rest of every conversion, after the times have been looked at.\<close>

definition convert_rest :: "js_env \<Rightarrow> 'z js_options_scheme \<Rightarrow> dyn_enqueue \<Rightarrow> dyn_enqueue js" where
  "convert_rest v opt req = js_bind (with_time v opt req) (\<lambda>req1. with_retention opt (with_keys opt req1))"

text \<open>The five conversions of the source: of the options of a single enqueue, inline on Postgres and as a function on Redis,
  and of an item, inline in \<open>do_enqueue_many\<close>, as a function for batches, and as a function on Redis. They differ in
  their messages, and the last one does not look at \<open>maxStalledCount\<close>.\<close>

definition do_enqueue_request :: "js_env \<Rightarrow> string \<Rightarrow> json \<Rightarrow> js_options option \<Rightarrow> dyn_enqueue js" where
  "do_enqueue_request v kind payload opts =
     (case opts of
        None \<Rightarrow> Inr (dyn_new kind payload)
      | Some opt \<Rightarrow>
          if time_conflict opt then Inl (Reason ''enqueue: pass either scheduledAtMs or delayMs, not both'')
          else convert_rest v opt (with_limits opt (with_stalls opt (dyn_new kind payload))))"

definition build_dyn_enqueue_from_opts :: "js_env \<Rightarrow> string \<Rightarrow> json \<Rightarrow> js_options option \<Rightarrow> dyn_enqueue js" where
  "build_dyn_enqueue_from_opts v kind payload opts =
     (case opts of
        None \<Rightarrow> Inr (dyn_new kind payload)
      | Some opt \<Rightarrow>
          if time_conflict opt then Inl (Reason ''enqueue: pass either scheduledAtMs or delayMs, not both'')
          else convert_rest v opt (with_limits opt (with_stalls opt (dyn_new kind payload))))"

definition do_enqueue_many_request :: "js_env \<Rightarrow> js_item \<Rightarrow> dyn_enqueue js" where
  "do_enqueue_many_request v it =
     (if time_conflict it then Inl (Reason ''enqueueMany: each item must set either scheduledAtMs or delayMs, not both'')
      else convert_rest v it (with_limits it (with_stalls it (dyn_new (ji_kind it) (ji_payload it)))))"

definition item_to_dyn :: "js_env \<Rightarrow> js_item \<Rightarrow> dyn_enqueue js" where
  "item_to_dyn v it =
     (if time_conflict it then Inl (Reason ''each item must set either scheduledAtMs or delayMs, not both'')
      else convert_rest v it (with_limits it (with_stalls it (dyn_new (ji_kind it) (ji_payload it)))))"

definition build_dyn_enqueue_from_many_item :: "js_env \<Rightarrow> js_item \<Rightarrow> dyn_enqueue js" where
  "build_dyn_enqueue_from_many_item v it =
     (if time_conflict it then Inl (Reason ''enqueueMany: pass either scheduledAtMs or delayMs, not both'')
      else convert_rest v it (with_limits it (dyn_new (ji_kind it) (ji_payload it))))"

section \<open>Configuration\<close>

definition build_cfg :: "connect_options option \<Rightarrow> client_config" where
  "build_cfg opts =
     (case opts of
        None \<Rightarrow> default_client_config
      | Some opt \<Rightarrow>
          set_some (cn_line opt) (\<lambda>l c. c\<lparr>cc_line := l\<rparr>)
            (set_some (cn_acquire_timeout_ms opt) (\<lambda>ms c. c\<lparr>cc_acquire_timeout := from_millis ms\<rparr>)
               (set_some (cn_min_connections opt) (\<lambda>n c. c\<lparr>cc_min_connections := n\<rparr>)
                  (set_some (cn_max_connections opt) (\<lambda>n c. c\<lparr>cc_max_connections := n\<rparr>) default_client_config))))"

definition retention_from_secs :: "int \<Rightarrow> duration option" where
  "retention_from_secs n = (if n < 0 then None else Some (from_secs (nat n)))"

definition count_from_napi :: "int \<Rightarrow> int option" where
  "count_from_napi n = (if n < 0 then None else Some n)"

text \<open>Zero turns the backstop off.\<close>

definition job_timeout_of :: "nat \<Rightarrow> duration option" where
  "job_timeout_of ms = (if ms = 0 then None else Some (from_millis ms))"

text \<open>The options of \<open>start\<close> as calls on the builder, in the order of the source: what both classes apply, and the counts that
  only \<open>EddyqRedis\<close> applies.\<close>

definition tune_times :: "start_options \<Rightarrow> (queue_builder \<Rightarrow> queue_builder) list" where
  "tune_times opt =
     [set_some (st_sweep_interval_ms opt) (\<lambda>ms. set_sweep_interval (from_millis ms)),
      set_some (st_stale_after_ms opt) (\<lambda>ms. set_stale_after (from_millis ms)),
      set_some (st_heartbeat_interval_ms opt) (\<lambda>ms. set_heartbeat_interval (from_millis ms)),
      set_some (st_cleanup_interval_ms opt) (\<lambda>ms. set_cleanup_interval (from_millis ms)),
      set_some (st_completed_retention_secs opt) (\<lambda>secs. set_completed_retention (retention_from_secs secs)),
      set_some (st_failed_retention_secs opt) (\<lambda>secs. set_failed_retention (retention_from_secs secs)),
      set_some (st_cancelled_retention_secs opt) (\<lambda>secs. set_cancelled_retention (retention_from_secs secs)),
      set_some (st_batch_retention_secs opt) (\<lambda>secs. set_batch_retention (retention_from_secs secs))]"

definition tune_counts :: "start_options \<Rightarrow> (queue_builder \<Rightarrow> queue_builder) list" where
  "tune_counts opt =
     [set_some (st_completed_retention_count opt) (\<lambda>n. set_completed_retention_count (count_from_napi n)),
      set_some (st_failed_retention_count opt) (\<lambda>n. set_failed_retention_count (count_from_napi n)),
      set_some (st_cancelled_retention_count opt) (\<lambda>n. set_cancelled_retention_count (count_from_napi n)),
      set_some (st_batch_retention_count opt) (\<lambda>n. set_batch_retention_count (count_from_napi n))]"

definition tune_rest :: "start_options \<Rightarrow> (queue_builder \<Rightarrow> queue_builder) list" where
  "tune_rest opt =
     [set_some (st_leader_lease_secs opt) set_leader_lease_secs,
      set_some (st_fetch_poll_interval_ms opt) (\<lambda>ms. set_fetch_poll_interval (from_millis ms)),
      set_some (st_default_job_timeout_ms opt) (\<lambda>ms. set_default_job_timeout (job_timeout_of ms)),
      set_some (st_scheduler_interval_ms opt) (\<lambda>ms. set_scheduler_interval (from_millis ms))]"

definition tune_pg :: "start_options option \<Rightarrow> queue_builder \<Rightarrow> queue_builder" where
  "tune_pg opts b = (case opts of None \<Rightarrow> b | Some opt \<Rightarrow> fold (\<lambda>f. f) (tune_times opt @ tune_rest opt) b)"

definition tune_redis :: "start_options option \<Rightarrow> queue_builder \<Rightarrow> queue_builder" where
  "tune_redis opts b =
     (case opts of None \<Rightarrow> b | Some opt \<Rightarrow> fold (\<lambda>f. f) (tune_times opt @ tune_counts opt @ tune_rest opt) b)"

section \<open>Names\<close>

text \<open>The escapes of the format \<open>{:?}\<close> are left out.\<close>

definition quoted :: "string \<Rightarrow> string" where
  "quoted s = [char_of (34::nat)] @ s @ [char_of (34::nat)]"

definition ticked :: "string \<Rightarrow> string" where
  "ticked s = [char_of (39::nat)] @ s @ [char_of (39::nat)]"

definition parse_clean_state :: "string \<Rightarrow> clean_state js" where
  "parse_clean_state s =
     (if s = ''completed'' then Inr CleanCompleted
      else if s = ''failed'' then Inr CleanFailed
      else if s = ''cancelled'' then Inr CleanCancelled
      else Inl (Reason (''clean: invalid state '' @ quoted s @ '' (completed | failed | cancelled)'')))"

definition parse_shutdown_mode :: "string \<Rightarrow> shutdown_mode js" where
  "parse_shutdown_mode s =
     (if s = ''drain'' then Inr Drain
      else if s = ''force'' then Inr Force
      else if s = ''abandon'' then Inr Abandon
      else Inl (Reason (''shutdown: invalid mode '' @ quoted s @ '' (drain | force | abandon)'')))"

text \<open>\<open>parse_job_state\<close> knows the six names of \<open>parse_state\<close>.\<close>

definition parse_job_state :: "string \<Rightarrow> job_state js" where
  "parse_job_state s =
     (case parse_state s of
        Some st \<Rightarrow> Inr st
      | None \<Rightarrow> Inl (Reason (''invalid state filter: '' @ quoted s @ '' '' @ em_dash @
          '' must be one of pending, running, completed, failed, scheduled, cancelled'')))"

datatype backend_kind = Pg | Redis

definition parse_provider :: "string \<Rightarrow> backend_kind js" where
  "parse_provider s =
     (if s = ''postgres'' \<or> s = ''pg'' then Inr Pg
      else if s = ''redis'' then Inr Redis
      else Inl (Reason (''unknown provider '' @ quoted s @ '' '' @ em_dash @ '' expected '' @ ticked ''postgres'' @ '' or '' @ ticked ''redis'')))"

section \<open>Listings\<close>

definition before_created :: "js_env \<Rightarrow> js_filter \<Rightarrow> timestamp option" where
  "before_created v f = Option.bind (jf_before_created_at f) (je_parse_rfc3339 v)"

definition empty_filter :: js_filter where
  "empty_filter = \<lparr>jf_queue = None, jf_state = None, jf_kind = None, jf_group_key = None, jf_tag = None, jf_id = None,
     jf_before_created_at = None\<rparr>"

text \<open>On Postgres an unknown state is an error.\<close>

definition do_list_jobs_filter :: "js_env \<Rightarrow> js_filter option \<Rightarrow> list_jobs_filter js" where
  "do_list_jobs_filter v filter0 =
     (let f = unwrap_or filter0 empty_filter
      in js_bind (case jf_state f of None \<Rightarrow> Inr None | Some s \<Rightarrow> js_bind (parse_job_state s) (\<lambda>st. Inr (Some st)))
           (\<lambda>st. Inr \<lparr>lf_queue = jf_queue f, lf_state = st, lf_kind = jf_kind f, lf_group_key = jf_group_key f,
                      lf_tag = jf_tag f, lf_id = jf_id f, lf_before_created_at = before_created v f\<rparr>))"

text \<open>On Redis it is no filter.\<close>

definition napi_filter_to_core :: "js_env \<Rightarrow> js_filter \<Rightarrow> list_jobs_filter" where
  "napi_filter_to_core v f =
     \<lparr>lf_queue = jf_queue f, lf_state = Option.bind (jf_state f) parse_state, lf_kind = jf_kind f,
      lf_group_key = jf_group_key f, lf_tag = jf_tag f, lf_id = jf_id f, lf_before_created_at = before_created v f\<rparr>"

definition page_to_core :: "js_pagination option \<Rightarrow> pagination" where
  "page_to_core pn =
     (case pn of
        None \<Rightarrow> default_pagination
      | Some p \<Rightarrow> \<lparr>pg_limit = unwrap_or (jp_limit p) 50, pg_offset = unwrap_or (jp_offset p) 0\<rparr>)"

section \<open>Rows\<close>

record js_job_row =
  xj_id :: job_id
  xj_queue :: string
  xj_kind :: string
  xj_state :: string
  xj_priority :: int
  xj_attempt :: int
  xj_max_attempts :: int
  xj_scheduled_at :: string
  xj_created_at :: string
  xj_finalized_at :: "string option"
  xj_group_key :: "string option"
  xj_tags :: "string list"
  xj_payload :: json
  xj_result :: "json option"
  xj_errors :: "json list"
  xj_metadata :: json

definition job_row_to_napi :: "js_env \<Rightarrow> job_row \<Rightarrow> js_job_row" where
  "job_row_to_napi v r =
     \<lparr>xj_id = jr_id r, xj_queue = jr_queue r, xj_kind = jr_kind r, xj_state = jr_state r, xj_priority = jr_priority r,
      xj_attempt = jr_attempt r, xj_max_attempts = jr_max_attempts r, xj_scheduled_at = je_rfc3339 v (jr_scheduled_at r),
      xj_created_at = je_rfc3339 v (jr_created_at r), xj_finalized_at = map_option (je_rfc3339 v) (jr_finalized_at r),
      xj_group_key = jr_group_key r, xj_tags = jr_tags r, xj_payload = jr_payload r, xj_result = jr_result r,
      xj_errors = jr_errors r, xj_metadata = jr_metadata r\<rparr>"

record js_job_list =
  xl_total :: int
  xl_rows :: "js_job_row list"

definition job_list_to_napi :: "js_env \<Rightarrow> job_list \<Rightarrow> js_job_list" where
  "job_list_to_napi v l = \<lparr>xl_total = jl_total l, xl_rows = map (job_row_to_napi v) (jl_rows l)\<rparr>"

record js_group =
  xg_key :: string
  xg_running_count :: int
  xg_max_concurrency :: int
  xg_paused :: bool
  xg_rate_count :: "int option"
  xg_rate_period_ms :: "int option"
  xg_tokens :: real
  xg_tokens_refilled_at :: "string option"
  xg_created_at :: string
  xg_updated_at :: string

definition group_to_napi :: "js_env \<Rightarrow> group \<Rightarrow> js_group" where
  "group_to_napi v g =
     \<lparr>xg_key = g_key g, xg_running_count = g_running_count g, xg_max_concurrency = g_max_concurrency g, xg_paused = g_paused g,
      xg_rate_count = g_rate_count g, xg_rate_period_ms = g_rate_period_ms g, xg_tokens = g_tokens g,
      xg_tokens_refilled_at = map_option (je_rfc3339 v) (g_tokens_refilled_at g),
      xg_created_at = je_rfc3339 v (g_created_at g), xg_updated_at = je_rfc3339 v (g_updated_at g)\<rparr>"

record js_named_queue =
  xq_name :: string
  xq_running_count :: int
  xq_max_concurrency :: int
  xq_paused :: bool
  xq_default_timeout_ms :: "int option"
  xq_created_at :: string
  xq_updated_at :: string

definition nq_to_napi :: "js_env \<Rightarrow> named_queue \<Rightarrow> js_named_queue" where
  "nq_to_napi v q =
     \<lparr>xq_name = q_name q, xq_running_count = q_running_count q, xq_max_concurrency = q_max_concurrency q, xq_paused = q_paused q,
      xq_default_timeout_ms = q_default_timeout_ms q, xq_created_at = je_rfc3339 v (q_created_at q),
      xq_updated_at = je_rfc3339 v (q_updated_at q)\<rparr>"

record js_schedule =
  xs_name :: string
  xs_kind :: string
  xs_payload :: json
  xs_cron_expr :: "string option"
  xs_interval_ms :: "int option"
  xs_next_run_at :: string
  xs_last_run_at :: "string option"
  xs_enabled :: bool
  xs_priority :: int
  xs_max_attempts :: int
  xs_queue :: string

definition schedule_to_napi :: "js_env \<Rightarrow> schedule \<Rightarrow> js_schedule" where
  "schedule_to_napi v s =
     \<lparr>xs_name = s_name s, xs_kind = s_kind s, xs_payload = s_payload s, xs_cron_expr = s_cron_expr s,
      xs_interval_ms = s_interval_ms s, xs_next_run_at = je_rfc3339 v (s_next_run_at s),
      xs_last_run_at = map_option (je_rfc3339 v) (s_last_run_at s), xs_enabled = s_enabled s, xs_priority = s_priority s,
      xs_max_attempts = s_max_attempts s, xs_queue = s_queue s\<rparr>"

text \<open>\<open>QueueStateCount\<close> with the state by name.\<close>

definition stats_to_napi :: "queue_state_count list \<Rightarrow> (string \<times> string \<times> int) list" where
  "stats_to_napi xs = map (\<lambda>c. (qs_queue c, as_str (qs_state c), qs_count c)) xs"

definition to_declaration :: "js_declaration \<Rightarrow> schedule_declaration" where
  "to_declaration d =
     \<lparr>sd_name = jd_name d, sd_cron_expr = jd_cron_expr d, sd_kind = jd_kind d, sd_payload = jd_payload d,
      sd_priority = unwrap_or (jd_priority d) 0, sd_max_attempts = unwrap_or (jd_max_attempts d) 3,
      sd_queue = unwrap_or (jd_queue d) default_queue\<rparr>"

text \<open>\<open>report.upserted as u32\<close>\<close>

definition sync_to_napi :: "sync_report \<Rightarrow> nat \<times> string list" where
  "sync_to_napi r = (sr_upserted r mod 2 ^ 32, sr_deleted r)"

record enqueue_outcome =
  eo_inserted :: bool
  eo_id :: "job_id option"

definition outcome_of :: "enqueue_result \<Rightarrow> enqueue_outcome" where
  "outcome_of x = (case x of Inserted i \<Rightarrow> \<lparr>eo_inserted = True, eo_id = Some i\<rparr> | Skipped \<Rightarrow> \<lparr>eo_inserted = False, eo_id = None\<rparr>)"

record bulk_outcome =
  bu_inserted :: int
  bu_skipped :: int

definition status_to_napi :: "js_env \<Rightarrow> (int \<times> string \<times> timestamp option) list \<Rightarrow> (int \<times> string \<times> string option) list" where
  "status_to_napi v rows = map (\<lambda>(n, name, t). (n, name, map_option (je_rfc3339 v) t)) rows"

section \<open>Handlers\<close>

record js_job_call =
  cl_payload :: json
  cl_id :: job_id
  cl_kind :: string
  cl_attempt :: int
  cl_max_attempts :: int
  cl_stalled_count :: int
  cl_max_stalled_count :: int

text \<open>What comes of calling the JavaScript function: the host cannot deliver the call, or the promise settles.\<close>

datatype js_outcome = Undelivered string | Resolved json | Rejected string

type_synonym js_handler = "js_job_call \<Rightarrow> nat \<Rightarrow> js_outcome"

definition strip_prefix :: "string \<Rightarrow> string \<Rightarrow> string option" where
  "strip_prefix pre s = (if take (length pre) s = pre then Some (drop (length pre) s) else None)"

text \<open>The text after the first occurrence of the marker.\<close>

fun after_marker :: "string \<Rightarrow> string \<Rightarrow> string option" where
  "after_marker pre [] = strip_prefix pre []"
| "after_marker pre (c # cs) = (case strip_prefix pre (c # cs) of Some t \<Rightarrow> Some t | None \<Rightarrow> after_marker pre cs)"

definition parse_js_failure :: "js_env \<Rightarrow> string \<Rightarrow> handler_failure" where
  "parse_js_failure v reason =
     (case Option.bind (after_marker ''[eddyq:err]'' reason) (je_envelope v) of
        Some e \<Rightarrow>
          \<lparr>hf_message = en_message e, hf_name = en_name e, hf_stack = en_stack e,
           hf_directive =
             (if en_directive e = Some ''cancel'' then Some Cancel
              else if en_directive e = Some ''retry'' then Some (Retry (unwrap_or (en_delay_ms e) 0))
              else None)\<rparr>
      | None \<Rightarrow> from_message (unwrap_or (strip_prefix ''GenericFailure, '' reason) reason))"

definition dispatcher :: "js_env \<Rightarrow> js_handler \<Rightarrow> handler" where
  "dispatcher v f payload ctx seed =
     (case f \<lparr>cl_payload = payload, cl_id = jc_id ctx, cl_kind = jc_kind ctx, cl_attempt = jc_attempt ctx,
              cl_max_attempts = jc_max_attempts ctx, cl_stalled_count = jc_stalled_count ctx,
              cl_max_stalled_count = jc_max_stalled_count ctx\<rparr> seed of
        Undelivered e \<Rightarrow>
          Raised (Structured \<lparr>hf_message = ''threadsafe call failed: '' @ e, hf_name = Some ''EddyqHostError'',
                               hf_stack = None, hf_directive = None\<rparr>)
      | Resolved value \<Rightarrow> Returned value
      | Rejected reason \<Rightarrow> Raised (Structured (parse_js_failure v reason)))"

end
