(* ===== verification/Node_Queue.thy ===== *)
theory Node_Queue
  imports Node_Options
begin

text \<open>
  \<open>Eddyq\<close> of \<open>crates/eddyq-napi/src/lib.rs\<close>: the class a Node application uses on Postgres. Requests convert their arguments
  and call the client crate; the worker side is a small state machine of its own (building, running, stopped) around the
  queue of the core crate.
\<close>

section \<open>State\<close>

datatype worker_state =
    Ws_building "(string \<times> js_handler) list" "nat option" "string list option"
  | Ws_running eddy_queue
  | Ws_stopped

definition default_worker_state :: worker_state where
  "default_worker_state = Ws_building [] None None"

text \<open>\<open>ey_abort\<close>: an abort handler is registered.\<close>

record eddyq =
  ey_client :: client
  ey_state :: worker_state
  ey_abort :: bool
  ey_poll_only :: bool

text \<open>What a shutdown does besides the store, in order: calls of the abort handler with their reason, and the call of the core.\<close>

datatype event = Abort_fired string | Core_stop shutdown_mode

definition eddyq_connect :: "unit res \<Rightarrow> connect_options option \<Rightarrow> eddyq js" where
  "eddyq_connect pool opts =
     (case connect_with pool (build_cfg opts) of
        Inl e \<Rightarrow> Inl (Core e)
      | Inr cl \<Rightarrow> Inr \<lparr>ey_client = cl, ey_state = default_worker_state, ey_abort = False,
                        ey_poll_only = unwrap_or (Option.bind opts cn_poll_only) False\<rparr>)"

section \<open>Migrations\<close>

definition do_migrate :: "pg_ctx \<Rightarrow> 'm exec \<Rightarrow> eddyq \<Rightarrow> 'm mig_state \<Rightarrow> 'm mig_state \<times> migrate_report js" where
  "do_migrate p exec q s = js_err (client_migrate p exec (ey_client q) s)"

definition do_migrate_down :: "'m exec \<Rightarrow> nat \<Rightarrow> eddyq \<Rightarrow> 'm mig_state \<Rightarrow> 'm mig_state \<times> migrate_report js" where
  "do_migrate_down exec steps q s = js_err (client_migrate_down exec steps (ey_client q) s)"

definition do_migration_status :: "js_env \<Rightarrow> eddyq \<Rightarrow> 'm mig_state \<Rightarrow> (int \<times> string \<times> string option) list" where
  "do_migration_status v q s = status_to_napi v (client_migration_status (ey_client q) s)"

section \<open>Jobs\<close>

definition enqueue_many_max :: nat where "enqueue_many_max = 5000"

definition do_enqueue :: "pg_ctx \<Rightarrow> js_env \<Rightarrow> string \<Rightarrow> json \<Rightarrow> js_options option \<Rightarrow> db \<Rightarrow> db \<times> enqueue_outcome js" where
  "do_enqueue p v kind payload opts =
     js_call (do_enqueue_request v kind payload opts) (\<lambda>req s. js_map outcome_of (js_err (client_enqueue p req s)))"

definition too_many :: "string \<Rightarrow> nat \<Rightarrow> napi_error" where
  "too_many name n =
     Reason (name @ '': batch of '' @ show_nat n @ '' exceeds max of '' @ show_nat enqueue_many_max @ ''; split client-side'')"

text \<open>\<open>as i64\<close>\<close>

definition bulk_of :: "bulk_enqueue_result \<Rightarrow> bulk_outcome" where
  "bulk_of r = \<lparr>bu_inserted = wrap_i64 (int (inserted r)), bu_skipped = wrap_i64 (int (skipped r))\<rparr>"

definition do_enqueue_many :: "pg_ctx \<Rightarrow> js_env \<Rightarrow> js_item list \<Rightarrow> db \<Rightarrow> db \<times> bulk_outcome js" where
  "do_enqueue_many p v items s =
     (if enqueue_many_max < length items then (s, Inl (too_many ''enqueueMany'' (length items)))
      else js_call (convert_all (do_enqueue_many_request v) items)
             (\<lambda>reqs s. js_map bulk_of (js_err (client_enqueue_many p reqs s))) s)"

definition batch_request :: "js_env \<Rightarrow> batch_input \<Rightarrow> (dyn_enqueue list \<times> batch_options) js" where
  "batch_request v input =
     js_bind (convert_all (item_to_dyn v) (bi_items input))
       (\<lambda>reqs. js_bind (case bi_on_complete input of None \<Rightarrow> Inr None | Some it \<Rightarrow> js_bind (item_to_dyn v it) (\<lambda>d. Inr (Some d)))
         (\<lambda>oc. Inr (reqs, \<lparr>bo_on_complete = oc, bo_metadata = unwrap_or (bi_metadata input) JNull\<rparr>)))"

definition do_enqueue_batch :: "pg_ctx \<Rightarrow> js_env \<Rightarrow> batch_input \<Rightarrow> db \<Rightarrow> db \<times> (batch_key \<times> int \<times> int) js" where
  "do_enqueue_batch p v input s =
     (if enqueue_many_max < length (bi_items input) then (s, Inl (too_many ''enqueueBatch'' (length (bi_items input))))
      else js_call (batch_request v input)
             (\<lambda>(reqs, opts) s. js_map (\<lambda>r. (br_batch_id r, wrap_i64 (int (br_inserted r)), wrap_i64 (int (br_skipped r))))
                (js_err (client_enqueue_batch p reqs opts s))) s)"

definition do_cancel :: "pg_ctx \<Rightarrow> job_id \<Rightarrow> db \<Rightarrow> db \<times> bool js" where
  "do_cancel p i s = js_err (client_cancel p i s)"

definition eddyq_clean :: "pg_ctx \<Rightarrow> int \<Rightarrow> nat \<Rightarrow> string \<Rightarrow> db \<Rightarrow> db \<times> nat js" where
  "eddyq_clean p grace_ms limit state =
     js_call (parse_clean_state state)
       (\<lambda>st s. js_map sat_u32 (js_err (client_clean p (from_millis (nat (max grace_ms 0))) limit st s)))"

section \<open>Administration\<close>

definition eddyq_set_group_concurrency :: "pg_ctx \<Rightarrow> string \<Rightarrow> int \<Rightarrow> db \<Rightarrow> db \<times> unit js" where
  "eddyq_set_group_concurrency p k mx s = js_err (client_set_group_concurrency p k mx s)"

definition eddyq_pause_group :: "pg_ctx \<Rightarrow> string \<Rightarrow> db \<Rightarrow> db \<times> unit js" where
  "eddyq_pause_group p k s = js_err (client_pause_group p k s)"

definition eddyq_resume_group :: "pg_ctx \<Rightarrow> string \<Rightarrow> db \<Rightarrow> db \<times> unit js" where
  "eddyq_resume_group p k s = js_err (client_resume_group p k s)"

definition eddyq_set_group_rate :: "pg_ctx \<Rightarrow> string \<Rightarrow> nat \<Rightarrow> nat \<Rightarrow> db \<Rightarrow> db \<times> unit js" where
  "eddyq_set_group_rate p k n period_ms s = js_err (client_set_group_rate p k n (from_millis period_ms) s)"

definition eddyq_clear_group_rate :: "pg_ctx \<Rightarrow> string \<Rightarrow> db \<Rightarrow> db \<times> unit js" where
  "eddyq_clear_group_rate p k s = js_err (client_clear_group_rate p k s)"

definition eddyq_set_queue_concurrency :: "pg_ctx \<Rightarrow> string \<Rightarrow> int \<Rightarrow> db \<Rightarrow> db \<times> unit js" where
  "eddyq_set_queue_concurrency p name mx s = js_err (client_set_queue_concurrency p name mx s)"

definition eddyq_pause_queue :: "pg_ctx \<Rightarrow> string \<Rightarrow> db \<Rightarrow> db \<times> unit js" where
  "eddyq_pause_queue p name s = js_err (client_pause_queue p name s)"

definition eddyq_resume_queue :: "pg_ctx \<Rightarrow> string \<Rightarrow> db \<Rightarrow> db \<times> unit js" where
  "eddyq_resume_queue p name s = js_err (client_resume_queue p name s)"

definition eddyq_set_queue_timeout :: "pg_ctx \<Rightarrow> string \<Rightarrow> nat option \<Rightarrow> db \<Rightarrow> db \<times> unit js" where
  "eddyq_set_queue_timeout p name timeout_ms s = js_err (client_set_queue_timeout p name (map_option from_millis timeout_ms) s)"

definition do_get_stats :: "pg_ctx \<Rightarrow> db \<Rightarrow> db \<times> (string \<times> string \<times> int) list js" where
  "do_get_stats p s = js_map stats_to_napi (js_err (client_get_stats p s))"

definition do_list_jobs :: "pg_ctx \<Rightarrow> js_env \<Rightarrow> js_filter option \<Rightarrow> js_pagination option \<Rightarrow> db \<Rightarrow> db \<times> js_job_list js" where
  "do_list_jobs p v f pn =
     js_call (do_list_jobs_filter v f) (\<lambda>cf s. js_map (job_list_to_napi v) (js_err (client_list_jobs p cf (page_to_core pn) s)))"

definition do_list_named_queues :: "pg_ctx \<Rightarrow> js_env \<Rightarrow> db \<Rightarrow> db \<times> js_named_queue list js" where
  "do_list_named_queues p v s = js_map (map (nq_to_napi v)) (js_err (client_list_named_queues p s))"

definition do_list_groups :: "pg_ctx \<Rightarrow> js_env \<Rightarrow> db \<Rightarrow> db \<times> js_group list js" where
  "do_list_groups p v s = js_map (map (group_to_napi v)) (js_err (client_list_groups p s))"

definition do_list_schedules :: "pg_ctx \<Rightarrow> js_env \<Rightarrow> db \<Rightarrow> db \<times> js_schedule list js" where
  "do_list_schedules p v s = js_map (map (schedule_to_napi v)) (js_err (client_list_schedules p s))"

text \<open>The defaults of a schedule: priority, attempts, queue.\<close>

definition schedule_defaults :: "schedule_options option \<Rightarrow> int \<times> int \<times> string" where
  "schedule_defaults opts =
     (unwrap_or (Option.bind opts sp_priority) 0, unwrap_or (Option.bind opts sp_max_attempts) 3,
      unwrap_or (Option.bind opts sp_queue) default_queue)"

definition eddyq_add_schedule ::
  "pg_ctx \<Rightarrow> string \<Rightarrow> string \<Rightarrow> string \<Rightarrow> json \<Rightarrow> schedule_options option \<Rightarrow> db \<Rightarrow> db \<times> unit js" where
  "eddyq_add_schedule p name cron_expr kind payload opts s =
     (case schedule_defaults opts of (pr, ma, q) \<Rightarrow>
        js_err (client_add_schedule p \<lparr>sd_name = name, sd_cron_expr = cron_expr, sd_kind = kind, sd_payload = payload,
          sd_priority = pr, sd_max_attempts = ma, sd_queue = q\<rparr> s))"

definition eddyq_add_interval_schedule ::
  "pg_ctx \<Rightarrow> string \<Rightarrow> int \<Rightarrow> string \<Rightarrow> json \<Rightarrow> schedule_options option \<Rightarrow> db \<Rightarrow> db \<times> unit js" where
  "eddyq_add_interval_schedule p name interval_ms kind payload opts s =
     (case schedule_defaults opts of (pr, ma, q) \<Rightarrow>
        js_err (client_add_interval_schedule p name interval_ms kind payload pr ma q s))"

definition eddyq_remove_schedule :: "pg_ctx \<Rightarrow> string \<Rightarrow> db \<Rightarrow> db \<times> bool js" where
  "eddyq_remove_schedule p name s = js_err (client_remove_schedule p name s)"

definition eddyq_sync_schedules :: "pg_ctx \<Rightarrow> js_declaration list \<Rightarrow> db \<Rightarrow> db \<times> (nat \<times> string list) js" where
  "eddyq_sync_schedules p declared s = js_map sync_to_napi (js_err (client_sync_schedules p (map to_declaration declared) s))"

definition eddyq_set_schedule_enabled :: "pg_ctx \<Rightarrow> string \<Rightarrow> bool \<Rightarrow> db \<Rightarrow> db \<times> bool js" where
  "eddyq_set_schedule_enabled p name enabled s = js_err (client_set_schedule_enabled p name enabled s)"

section \<open>Workers\<close>

definition register_handler_arc :: "string \<Rightarrow> js_handler \<Rightarrow> eddyq \<Rightarrow> eddyq \<times> unit js" where
  "register_handler_arc kind h q =
     (case ey_state q of
        Ws_building hs n subs \<Rightarrow> (q\<lparr>ey_state := Ws_building (hs @ [(kind, h)]) n subs\<rparr>, Inr ())
      | Ws_running _ \<Rightarrow> (q, Inl (Reason (''Queue is already running '' @ em_dash @ '' register handlers before calling start()'')))
      | Ws_stopped \<Rightarrow> (q, Inl (Reason ''Queue has been shut down and cannot be reused'')))"

definition eddyq_set_worker_concurrency :: "nat \<Rightarrow> eddyq \<Rightarrow> eddyq \<times> unit js" where
  "eddyq_set_worker_concurrency n q =
     (case ey_state q of
        Ws_building hs _ subs \<Rightarrow> (q\<lparr>ey_state := Ws_building hs (Some (max n 1)) subs\<rparr>, Inr ())
      | _ \<Rightarrow> (q, Inl (Reason ''Cannot change concurrency after start()'')))"

definition eddyq_subscribe_to :: "string list \<Rightarrow> eddyq \<Rightarrow> eddyq \<times> unit js" where
  "eddyq_subscribe_to qs q =
     (case ey_state q of
        Ws_building hs n _ \<Rightarrow> (q\<lparr>ey_state := Ws_building hs n (Some qs)\<rparr>, Inr ())
      | _ \<Rightarrow> (q, Inl (Reason ''Cannot change queue subscriptions after start()'')))"

definition eddyq_set_abort_handler :: "eddyq \<Rightarrow> eddyq \<times> unit js" where
  "eddyq_set_abort_handler q = (q\<lparr>ey_abort := True\<rparr>, Inr ())"

text \<open>The first part of \<open>start\<close>, under the lock: the state is taken and \<open>Stopped\<close> left in its place.\<close>

definition take_building :: "eddyq \<Rightarrow> eddyq \<times> ((string \<times> js_handler) list \<times> nat option \<times> string list option) js" where
  "take_building q =
     (case ey_state q of
        Ws_building hs n subs \<Rightarrow>
          if hs = [] then (q\<lparr>ey_state := Ws_building [] n subs\<rparr>,
                           Inl (Reason (''No handlers registered '' @ em_dash @ '' call work(kind, fn) before start()'')))
          else (q\<lparr>ey_state := Ws_stopped\<rparr>, Inr (hs, n, subs))
      | Ws_running _ \<Rightarrow> (q, Inl (Reason ''Queue is already running''))
      | Ws_stopped \<Rightarrow> (q, Inl (Reason ''Queue has been shut down and cannot be reused'')))"

text \<open>The guard against pending migrations; \<open>statuses\<close> is what the database answers. The advice in the message is left out.\<close>

definition migration_guard :: "(int \<times> string \<times> timestamp option) list res \<Rightarrow> start_options option \<Rightarrow> unit js" where
  "migration_guard statuses opts =
     (if unwrap_or (Option.bind opts st_skip_migration_check) False then Inr ()
      else case statuses of
             Inl e \<Rightarrow> Inl (Core e)
           | Inr rows \<Rightarrow>
               (let pending = filter (\<lambda>(n, name, t). t = None) rows
                in if pending = [] then Inr ()
                   else Inl (Reason (''eddyq: '' @ show_nat (length pending) @ '' pending migration(s) '' @ em_dash @
                          '' will not start workers against stale schema.''))))"

definition pg_builder ::
  "js_env \<Rightarrow> start_options option \<Rightarrow> eddyq \<Rightarrow> (string \<times> js_handler) list \<Rightarrow> nat option \<Rightarrow> string list option \<Rightarrow> queue_builder" where
  "pg_builder v opts q hs n subs =
     fold (\<lambda>(kind, f). builder_register_dyn kind (dispatcher v f)) hs
       (tune_pg opts
          (set_some subs subscribe_to
             (set_some n set_worker_concurrency
                (set_poll_only (ey_poll_only q) (set_line (cl_line (ey_client q)) with_backend)))))"

text \<open>\<open>start\<close>: \<open>mid\<close> is what other calls do to the object while this one waits; \<open>ids\<close> are the identifiers the runtime makes up.\<close>

definition eddyq_start ::
  "js_env \<Rightarrow> uuid \<times> uuid \<times> (nat \<Rightarrow> uuid) \<Rightarrow> (int \<times> string \<times> timestamp option) list res \<Rightarrow> (eddyq \<Rightarrow> eddyq) \<Rightarrow>
     start_options option \<Rightarrow> eddyq \<Rightarrow> eddyq \<times> unit js" where
  "eddyq_start v ids statuses mid opts q =
     (case take_building q of
        (q1, Inl e) \<Rightarrow> (q1, Inl e)
      | (q1, Inr (hs, n, subs)) \<Rightarrow>
          (let q2 = mid q1
           in case migration_guard statuses opts of
                Inl e \<Rightarrow> (q2, Inl e)
              | Inr _ \<Rightarrow>
                  (case ids of (fid, maint, wids) \<Rightarrow>
                   case q_start (build fid maint wids (pg_builder v opts q hs n subs)) of
                     (cq, Inl e) \<Rightarrow> (q2, Inl (Core e))
                   | (cq, Inr _) \<Rightarrow> (q2\<lparr>ey_state := Ws_running cq\<rparr>, Inr ()))))"

section \<open>Stopping\<close>

definition abort_events :: "bool \<Rightarrow> string \<Rightarrow> event list" where
  "abort_events registered reason = (if registered then [Abort_fired reason] else [])"

definition requested_mode :: "shutdown_options option \<Rightarrow> shutdown_mode js" where
  "requested_mode opts =
     (let mode = unwrap_or (Option.bind opts so_mode) ''drain''
      in if mode = ''drain'' then Inr Drain
         else if mode = ''force'' then Inr Force
         else if mode = ''abandon'' then Inr Abandon
         else Inl (Reason (''shutdown: invalid mode '' @ quoted mode @ '' (expected '' @ quoted ''drain'' @ '' | '' @
                quoted ''force'' @ '' | '' @ quoted ''abandon'' @ '')'')))"

definition grace_of :: "shutdown_options option \<Rightarrow> duration" where
  "grace_of opts = from_millis (unwrap_or (Option.bind opts so_graceful_timeout_ms) 30000)"

definition js_unit :: "'a res \<Rightarrow> unit js" where
  "js_unit x = (case x of Inl e \<Rightarrow> Inl (Core e) | Inr _ \<Rightarrow> Inr ())"

text \<open>\<open>drain grace\<close> is the run of the process until its tasks have ended or the time is up.\<close>

definition eddyq_shutdown ::
  "'s backend \<Rightarrow> (duration \<Rightarrow> 's \<times> runtime \<Rightarrow> ('s \<times> runtime) \<times> bool) \<Rightarrow> shutdown_options option \<Rightarrow> eddyq \<Rightarrow> 's \<Rightarrow>
     's \<times> eddyq \<times> event list \<times> unit js" where
  "eddyq_shutdown B drain opts q s =
     (let q1 = q\<lparr>ey_state := Ws_stopped\<rparr>; abort = abort_events (ey_abort q) ''shutdown''
      in case ey_state q of
           Ws_running cq \<Rightarrow>
             (case requested_mode opts of
                Inl e \<Rightarrow> (s, q1, [], Inl e)
              | Inr Drain \<Rightarrow>
                  (case shutdown_drain_bounded B (drain (grace_of opts)) cq s of
                     (s', _, x) \<Rightarrow> (s', q1, abort @ [Core_stop Drain], js_unit x))
              | Inr Abandon \<Rightarrow>
                  (case shutdown_with Abandon B (\<lambda>x. x) cq s of
                     (s', _, x) \<Rightarrow> (s', q1, abort @ [Core_stop Abandon], js_unit x))
              | Inr Force \<Rightarrow>
                  (case shutdown_with Force B (\<lambda>x. x) cq s of
                     (s', _, x) \<Rightarrow> (s', q1, [Core_stop Force] @ abort, js_unit x)))
         | _ \<Rightarrow> (s, q1, [], Inl (Reason ''Queue is not running'')))"

definition eddyq_close :: "'s backend \<Rightarrow> eddyq \<Rightarrow> 's \<Rightarrow> 's \<times> eddyq \<times> event list \<times> unit js" where
  "eddyq_close B q s =
     (let q1 = q\<lparr>ey_state := Ws_stopped, ey_abort := False\<rparr>
      in case ey_state q of
           Ws_running cq \<Rightarrow> (case shutdown_with Abandon B (\<lambda>x. x) cq s of (s', _, _) \<Rightarrow> (s', q1, [Core_stop Abandon], Inr ()))
         | _ \<Rightarrow> (s, q1, [], Inr ()))"

end
