(* ===== verification/Node_Redis.thy ===== *)
theory Node_Redis
  imports Node_Queue
begin

text \<open>
  \<open>EddyqRedis\<close> of \<open>crates/eddyq-napi/src/lib.rs\<close>: the class a Node application uses on Redis. It has the worker states of
  \<open>Eddyq\<close>, calls the methods of \<open>RedisBackend\<close> directly, and waits for a drain without a bound.
\<close>

section \<open>State\<close>

record eddyq_redis =
  er_line :: string
  er_state :: worker_state
  er_abort :: bool

text \<open>\<open>library\<close>, \<open>listed\<close> and \<open>load\<close> are the arguments of \<open>rd_connect\<close>.\<close>

definition redis_connect ::
  "rd_ctx \<Rightarrow> string \<Rightarrow> string + string option \<Rightarrow> string option \<Rightarrow> string option \<Rightarrow> redis \<Rightarrow> redis \<times> eddyq_redis js" where
  "redis_connect p library listed load line r =
     js_map (\<lambda>_. \<lparr>er_line = unwrap_or line ''main'', er_state = default_worker_state, er_abort = False\<rparr>)
       (js_err (rd_connect p library listed load r))"

section \<open>Jobs\<close>

definition redis_enqueue :: "rd_ctx \<Rightarrow> js_env \<Rightarrow> string \<Rightarrow> json \<Rightarrow> js_options option \<Rightarrow> redis \<Rightarrow> redis \<times> enqueue_outcome js" where
  "redis_enqueue p v kind payload opts =
     js_call (build_dyn_enqueue_from_opts v kind payload opts) (\<lambda>req r. js_map outcome_of (js_err (rd_enqueue p req r)))"

text \<open>\<open>i64::try_from(n).unwrap_or(i64::MAX)\<close>\<close>

definition redis_bulk_of :: "bulk_enqueue_result \<Rightarrow> bulk_outcome" where
  "redis_bulk_of x = \<lparr>bu_inserted = sat_i64 (int (inserted x)), bu_skipped = sat_i64 (int (skipped x))\<rparr>"

definition redis_enqueue_many :: "rd_ctx \<Rightarrow> js_env \<Rightarrow> js_item list \<Rightarrow> redis \<Rightarrow> redis \<times> bulk_outcome js" where
  "redis_enqueue_many p v items r =
     (if 5000 < length items then (r, Inl (too_many ''enqueueMany'' (length items)))
      else js_call (convert_all (build_dyn_enqueue_from_many_item v) items)
             (\<lambda>reqs r. js_map redis_bulk_of (js_err (rd_enqueue_many p reqs r))) r)"

definition redis_cancel :: "rd_ctx \<Rightarrow> job_id \<Rightarrow> redis \<Rightarrow> redis \<times> bool js" where
  "redis_cancel p i r = js_err (rd_cancel p i r)"

definition redis_clean :: "rd_ctx \<Rightarrow> int \<Rightarrow> nat \<Rightarrow> string \<Rightarrow> redis \<Rightarrow> redis \<times> nat js" where
  "redis_clean p grace_ms limit state =
     js_call (parse_clean_state state)
       (\<lambda>st r. js_map sat_u32 (js_err (rd_clean p (from_millis (nat (max grace_ms 0))) limit st r)))"

section \<open>Workers\<close>

definition redis_register_handler_arc :: "string \<Rightarrow> js_handler \<Rightarrow> eddyq_redis \<Rightarrow> eddyq_redis \<times> unit js" where
  "redis_register_handler_arc kind h q =
     (case er_state q of
        Ws_building hs n subs \<Rightarrow> (q\<lparr>er_state := Ws_building (hs @ [(kind, h)]) n subs\<rparr>, Inr ())
      | Ws_running _ \<Rightarrow> (q, Inl (Reason (''EddyqRedis is already running '' @ em_dash @ '' register handlers before start()'')))
      | Ws_stopped \<Rightarrow> (q, Inl (Reason ''EddyqRedis has been shut down'')))"

definition redis_set_worker_concurrency :: "nat \<Rightarrow> eddyq_redis \<Rightarrow> eddyq_redis \<times> unit js" where
  "redis_set_worker_concurrency n q =
     (case er_state q of
        Ws_building hs _ subs \<Rightarrow> (q\<lparr>er_state := Ws_building hs (Some (max n 1)) subs\<rparr>, Inr ())
      | _ \<Rightarrow> (q, Inl (Reason ''setWorkerConcurrency must be called before start()'')))"

definition redis_subscribe_to :: "string list \<Rightarrow> eddyq_redis \<Rightarrow> eddyq_redis \<times> unit js" where
  "redis_subscribe_to qs q =
     (case er_state q of
        Ws_building hs n _ \<Rightarrow> (q\<lparr>er_state := Ws_building hs n (Some qs)\<rparr>, Inr ())
      | _ \<Rightarrow> (q, Inl (Reason ''subscribeTo must be called before start()'')))"

definition redis_set_abort_handler :: "eddyq_redis \<Rightarrow> eddyq_redis \<times> unit js" where
  "redis_set_abort_handler q = (q\<lparr>er_abort := True\<rparr>, Inr ())"

definition redis_take_building ::
  "eddyq_redis \<Rightarrow> eddyq_redis \<times> ((string \<times> js_handler) list \<times> nat option \<times> string list option) js" where
  "redis_take_building q =
     (case er_state q of
        Ws_building hs n subs \<Rightarrow>
          if hs = [] then (q\<lparr>er_state := Ws_building [] n subs\<rparr>,
                           Inl (Reason (''No handlers registered '' @ em_dash @ '' call work(kind, fn) before start()'')))
          else (q\<lparr>er_state := Ws_stopped\<rparr>, Inr (hs, n, subs))
      | Ws_running _ \<Rightarrow> (q, Inl (Reason ''EddyqRedis is already running''))
      | Ws_stopped \<Rightarrow> (q, Inl (Reason ''EddyqRedis has been shut down and cannot be reused'')))"

definition redis_builder ::
  "js_env \<Rightarrow> start_options option \<Rightarrow> eddyq_redis \<Rightarrow> (string \<times> js_handler) list \<Rightarrow> nat option \<Rightarrow> string list option \<Rightarrow> queue_builder" where
  "redis_builder v opts q hs n subs =
     fold (\<lambda>(kind, f). builder_register_dyn kind (dispatcher v f)) hs
       (tune_redis opts
          (set_some subs subscribe_to (set_some n set_worker_concurrency (set_line (er_line q) with_backend))))"

definition redis_start ::
  "js_env \<Rightarrow> uuid \<times> uuid \<times> (nat \<Rightarrow> uuid) \<Rightarrow> (eddyq_redis \<Rightarrow> eddyq_redis) \<Rightarrow> start_options option \<Rightarrow> eddyq_redis \<Rightarrow>
     eddyq_redis \<times> unit js" where
  "redis_start v ids mid opts q =
     (case redis_take_building q of
        (q1, Inl e) \<Rightarrow> (q1, Inl e)
      | (q1, Inr (hs, n, subs)) \<Rightarrow>
          (let q2 = mid q1
           in case ids of (fid, maint, wids) \<Rightarrow>
              case q_start (build fid maint wids (redis_builder v opts q hs n subs)) of
                (cq, Inl e) \<Rightarrow> (q2, Inl (Core e))
              | (cq, Inr _) \<Rightarrow> (q2\<lparr>er_state := Ws_running cq\<rparr>, Inr ())))"

definition mode_name :: "shutdown_mode \<Rightarrow> string" where
  "mode_name mode = (case mode of Drain \<Rightarrow> ''drain'' | Force \<Rightarrow> ''force'' | Abandon \<Rightarrow> ''abandon'')"

text \<open>\<open>wait\<close> is the run of the process until its tasks have ended.\<close>

definition redis_shutdown ::
  "'s backend \<Rightarrow> ('s \<times> runtime \<Rightarrow> 's \<times> runtime) \<Rightarrow> shutdown_options option \<Rightarrow> eddyq_redis \<Rightarrow> 's \<Rightarrow>
     's \<times> eddyq_redis \<times> event list \<times> unit js" where
  "redis_shutdown B wait opts q s =
     (let q1 = q\<lparr>er_state := Ws_stopped\<rparr>
      in case er_state q of
           Ws_running cq \<Rightarrow>
             (case (case Option.bind opts so_mode of None \<Rightarrow> Inr Drain | Some m \<Rightarrow> parse_shutdown_mode m) of
                Inl e \<Rightarrow> (s, q1, [], Inl e)
              | Inr mode \<Rightarrow>
                  (case shutdown_with mode B wait cq s of
                     (s', _, x) \<Rightarrow> (s', q1, abort_events (er_abort q) (mode_name mode) @ [Core_stop mode], js_unit x)))
         | _ \<Rightarrow> (s, q1, [], Inl (Reason ''EddyqRedis is not running'')))"

section \<open>Administration\<close>

definition redis_set_group_concurrency :: "rd_ctx \<Rightarrow> string \<Rightarrow> int \<Rightarrow> redis \<Rightarrow> redis \<times> unit js" where
  "redis_set_group_concurrency p k mx r = js_err (rd_group_set_concurrency p k mx r)"

definition redis_pause_group :: "rd_ctx \<Rightarrow> string \<Rightarrow> redis \<Rightarrow> redis \<times> unit js" where
  "redis_pause_group p k r = js_err (rd_group_set_paused p k True r)"

definition redis_resume_group :: "rd_ctx \<Rightarrow> string \<Rightarrow> redis \<Rightarrow> redis \<times> unit js" where
  "redis_resume_group p k r = js_err (rd_group_set_paused p k False r)"

definition redis_set_group_rate :: "rd_ctx \<Rightarrow> string \<Rightarrow> nat \<Rightarrow> nat \<Rightarrow> redis \<Rightarrow> redis \<times> unit js" where
  "redis_set_group_rate p k n period_ms r = js_err (rd_group_set_rate p k n (from_millis period_ms) r)"

definition redis_clear_group_rate :: "rd_ctx \<Rightarrow> string \<Rightarrow> redis \<Rightarrow> redis \<times> unit js" where
  "redis_clear_group_rate p k r = js_err (rd_group_clear_rate p k r)"

definition redis_list_groups :: "rd_ctx \<Rightarrow> js_env \<Rightarrow> redis \<Rightarrow> redis \<times> js_group list js" where
  "redis_list_groups p v r = js_map (map (group_to_napi v)) (js_err (rd_group_list p r))"

definition redis_get_group :: "rd_ctx \<Rightarrow> js_env \<Rightarrow> string \<Rightarrow> redis \<Rightarrow> redis \<times> js_group option js" where
  "redis_get_group p v k r = js_map (map_option (group_to_napi v)) (js_err (rd_group_get p k r))"

definition redis_set_queue_concurrency :: "rd_ctx \<Rightarrow> string \<Rightarrow> int \<Rightarrow> redis \<Rightarrow> redis \<times> unit js" where
  "redis_set_queue_concurrency p name mx r = js_err (rd_queue_set_concurrency p name mx r)"

definition redis_pause_queue :: "rd_ctx \<Rightarrow> string \<Rightarrow> redis \<Rightarrow> redis \<times> unit js" where
  "redis_pause_queue p name r = js_err (rd_queue_set_paused p name True r)"

definition redis_resume_queue :: "rd_ctx \<Rightarrow> string \<Rightarrow> redis \<Rightarrow> redis \<times> unit js" where
  "redis_resume_queue p name r = js_err (rd_queue_set_paused p name False r)"

definition redis_set_queue_timeout :: "rd_ctx \<Rightarrow> string \<Rightarrow> nat option \<Rightarrow> redis \<Rightarrow> redis \<times> unit js" where
  "redis_set_queue_timeout p name timeout_ms r = js_err (rd_queue_set_timeout p name (map_option from_millis timeout_ms) r)"

definition redis_list_named_queues :: "rd_ctx \<Rightarrow> js_env \<Rightarrow> redis \<Rightarrow> redis \<times> js_named_queue list js" where
  "redis_list_named_queues p v r = js_map (map (nq_to_napi v)) (js_err (rd_queue_list p r))"

definition redis_get_queue :: "rd_ctx \<Rightarrow> js_env \<Rightarrow> string \<Rightarrow> redis \<Rightarrow> redis \<times> js_named_queue option js" where
  "redis_get_queue p v name r = js_map (map_option (nq_to_napi v)) (js_err (rd_queue_get p name r))"

text \<open>\<open>i16::try_from(priority.unwrap_or(0)).unwrap_or(0)\<close>\<close>

definition narrow_priority :: "int \<Rightarrow> int" where
  "narrow_priority n = (if i16_min \<le> n \<and> n \<le> i16_max then n else 0)"

definition redis_add_schedule ::
  "rd_ctx \<Rightarrow> string \<Rightarrow> string \<Rightarrow> string \<Rightarrow> json \<Rightarrow> int option \<Rightarrow> int option \<Rightarrow> string option \<Rightarrow> redis \<Rightarrow> redis \<times> unit js" where
  "redis_add_schedule p name cron kind payload priority max_attempts queue r =
     js_err (rd_upsert_schedule_raw p
       \<lparr>sd_name = name, sd_cron_expr = cron, sd_kind = kind, sd_payload = payload,
        sd_priority = narrow_priority (unwrap_or priority 0), sd_max_attempts = unwrap_or max_attempts 3,
        sd_queue = unwrap_or queue default_queue\<rparr> r)"

definition redis_add_interval_schedule ::
  "rd_ctx \<Rightarrow> string \<Rightarrow> int \<Rightarrow> string \<Rightarrow> json \<Rightarrow> int option \<Rightarrow> int option \<Rightarrow> string option \<Rightarrow> redis \<Rightarrow> redis \<times> unit js" where
  "redis_add_interval_schedule p name interval_ms kind payload priority max_attempts queue r =
     js_err (rd_upsert_interval_schedule_raw p name interval_ms kind payload (narrow_priority (unwrap_or priority 0))
       (unwrap_or max_attempts 3) (unwrap_or queue default_queue) r)"

definition redis_remove_schedule :: "rd_ctx \<Rightarrow> string \<Rightarrow> redis \<Rightarrow> redis \<times> bool js" where
  "redis_remove_schedule p name r = js_err (rd_remove_schedule p name r)"

definition redis_set_schedule_enabled :: "rd_ctx \<Rightarrow> string \<Rightarrow> bool \<Rightarrow> redis \<Rightarrow> redis \<times> bool js" where
  "redis_set_schedule_enabled p name enabled r = js_err (rd_set_schedule_enabled p name enabled r)"

definition redis_list_schedules :: "rd_ctx \<Rightarrow> js_env \<Rightarrow> redis \<Rightarrow> redis \<times> js_schedule list js" where
  "redis_list_schedules p v r = js_map (map (schedule_to_napi v)) (js_err (rd_list_schedules p r))"

definition redis_get_stats :: "rd_ctx \<Rightarrow> redis \<Rightarrow> redis \<times> (string \<times> string \<times> int) list js" where
  "redis_get_stats p r = js_map stats_to_napi (js_err (rd_get_stats p r))"

definition redis_list_jobs :: "rd_ctx \<Rightarrow> js_env \<Rightarrow> js_filter option \<Rightarrow> js_pagination option \<Rightarrow> redis \<Rightarrow> redis \<times> js_job_list js" where
  "redis_list_jobs p v f pn r =
     js_map (job_list_to_napi v) (js_err (rd_list_jobs p (napi_filter_to_core v (unwrap_or f empty_filter)) (page_to_core pn) r))"

definition redis_sync_schedules :: "rd_ctx \<Rightarrow> js_declaration list \<Rightarrow> redis \<Rightarrow> redis \<times> (nat \<times> string list) js" where
  "redis_sync_schedules p declared r = js_map sync_to_napi (js_err (rd_sync_schedules p (map to_declaration declared) r))"

end
