(* ===== verification/Node_App.thy ===== *)
theory Node_App
  imports Node_Redis
begin

text \<open>
  \<open>EddyqApp\<close> of \<open>crates/eddyq-napi/src/lib.rs\<close>: one application on both stores. A table of routes sends every queue to
  Postgres or to Redis; requests go to the store of their queue, administration to the store the caller names.
\<close>

section \<open>State\<close>

text \<open>The two stores, and what each call meets besides them.\<close>

record world =
  w_db :: db
  w_redis :: redis

record app_ctx =
  ax_pg :: pg_ctx
  ax_rd :: rd_ctx
  ax_js :: js_env

definition on_pg :: "(db \<Rightarrow> db \<times> 'a js) \<Rightarrow> world \<Rightarrow> world \<times> 'a js" where
  "on_pg f w = (case f (w_db w) of (s, x) \<Rightarrow> (w\<lparr>w_db := s\<rparr>, x))"

definition on_redis :: "(redis \<Rightarrow> redis \<times> 'a js) \<Rightarrow> world \<Rightarrow> world \<times> 'a js" where
  "on_redis f w = (case f (w_redis w) of (r, x) \<Rightarrow> (w\<lparr>w_redis := r\<rparr>, x))"

text \<open>The configuration: connection options of each store, if it is to be used; name and provider of each queue.\<close>

record app_config =
  ac_postgres :: "connect_options option option"
  ac_redis :: "string option option"
  ac_queues :: "(string \<times> string) list"
  ac_default_provider :: "string option"

record eddyq_app =
  ap_pg :: "eddyq option"
  ap_redis :: "eddyq_redis option"
  ap_routes :: "string \<rightharpoonup> backend_kind"
  ap_default :: backend_kind
  ap_abort :: bool

section \<open>Connecting\<close>

fun build_routes :: "bool \<Rightarrow> bool \<Rightarrow> (string \<times> string) list \<Rightarrow> (string \<rightharpoonup> backend_kind) \<Rightarrow> (string \<rightharpoonup> backend_kind) js" where
  "build_routes want_pg want_redis [] routes = Inr routes"
| "build_routes want_pg want_redis ((name, provider) # qs) routes =
     js_bind (parse_provider provider) (\<lambda>kind.
       if kind = Pg \<and> \<not> want_pg then
         Inl (Reason (''queue '' @ quoted name @ '' routes to '' @ ticked ''postgres'' @ '' but no postgres config provided''))
       else if kind = Redis \<and> \<not> want_redis then
         Inl (Reason (''queue '' @ quoted name @ '' routes to '' @ ticked ''redis'' @ '' but no redis config provided''))
       else build_routes want_pg want_redis qs (routes(name \<mapsto> kind)))"

definition default_provider_of :: "bool \<Rightarrow> bool \<Rightarrow> string option \<Rightarrow> backend_kind js" where
  "default_provider_of want_pg want_redis provider =
     (case provider of
        Some s \<Rightarrow> parse_provider s
      | None \<Rightarrow>
          if want_pg \<and> \<not> want_redis then Inr Pg
          else if want_redis \<and> \<not> want_pg then Inr Redis
          else Inl (Reason (''EddyqApp.connect: both backends configured '' @ em_dash @ '' set `defaultProvider`'')))"

text \<open>The queues declared for a store; every provider has been parsed by then.\<close>

definition declared_for :: "backend_kind \<Rightarrow> (string \<times> string) list \<Rightarrow> string list" where
  "declared_for kind qs = map fst (filter (\<lambda>(name, provider). parse_provider provider = Inr kind) qs)"

definition connect_pg :: "unit res \<Rightarrow> connect_options option option \<Rightarrow> eddyq option js" where
  "connect_pg pool c = (case c of None \<Rightarrow> Inr None | Some opts \<Rightarrow> js_bind (eddyq_connect pool opts) (\<lambda>q. Inr (Some q)))"

definition connect_redis ::
  "rd_ctx \<Rightarrow> string \<Rightarrow> string + string option \<Rightarrow> string option \<Rightarrow> string option option \<Rightarrow> redis \<Rightarrow> redis \<times> eddyq_redis option js" where
  "connect_redis p library listed load c r =
     (case c of None \<Rightarrow> (r, Inr None) | Some line \<Rightarrow> js_map Some (redis_connect p library listed load line r))"

definition pre_subscribe_pg :: "string list \<Rightarrow> eddyq option \<Rightarrow> eddyq option js" where
  "pre_subscribe_pg qs x =
     (case x of
        Some q \<Rightarrow> if qs = [] then Inr (Some q)
                  else (case eddyq_subscribe_to qs q of (q', Inl e) \<Rightarrow> Inl e | (q', Inr _) \<Rightarrow> Inr (Some q'))
      | None \<Rightarrow> Inr None)"

definition pre_subscribe_redis :: "string list \<Rightarrow> eddyq_redis option \<Rightarrow> eddyq_redis option js" where
  "pre_subscribe_redis qs x =
     (case x of
        Some q \<Rightarrow> if qs = [] then Inr (Some q)
                  else (case redis_subscribe_to qs q of (q', Inl e) \<Rightarrow> Inl e | (q', Inr _) \<Rightarrow> Inr (Some q'))
      | None \<Rightarrow> Inr None)"

definition app_connect ::
  "app_ctx \<Rightarrow> unit res \<Rightarrow> string \<Rightarrow> string + string option \<Rightarrow> string option \<Rightarrow> app_config \<Rightarrow> world \<Rightarrow> world \<times> eddyq_app js" where
  "app_connect c pool library listed load cfg w =
     (let want_pg = (ac_postgres cfg \<noteq> None); want_redis = (ac_redis cfg \<noteq> None)
      in if \<not> want_pg \<and> \<not> want_redis then
           (w, Inl (Reason ''EddyqApp.connect: at least one of `postgres` or `redis` must be set''))
         else
           js_call
             (js_bind (build_routes want_pg want_redis (ac_queues cfg) Map.empty) (\<lambda>routes.
              js_bind (default_provider_of want_pg want_redis (ac_default_provider cfg)) (\<lambda>d.
              js_bind (connect_pg pool (ac_postgres cfg)) (\<lambda>pgq. Inr (routes, d, pgq)))))
             (\<lambda>(routes, d, pgq) w.
                (case on_redis (connect_redis (ax_rd c) library listed load (ac_redis cfg)) w of
                   (w', Inl e) \<Rightarrow> (w', Inl e)
                 | (w', Inr rq) \<Rightarrow>
                     (w', js_bind (pre_subscribe_pg (declared_for Pg (ac_queues cfg)) pgq) (\<lambda>pgq'.
                          js_bind (pre_subscribe_redis (declared_for Redis (ac_queues cfg)) rq) (\<lambda>rq'.
                            Inr \<lparr>ap_pg = pgq', ap_redis = rq', ap_routes = routes, ap_default = d, ap_abort = False\<rparr>)))))
             w)"

section \<open>Routing\<close>

definition pick :: "eddyq_app \<Rightarrow> string \<Rightarrow> backend_kind" where
  "pick a queue_name = unwrap_or (ap_routes a queue_name) (ap_default a)"

definition pg_ref :: "eddyq_app \<Rightarrow> eddyq js" where
  "pg_ref a = (case ap_pg a of Some q \<Rightarrow> Inr q | None \<Rightarrow> Inl (Reason ''postgres backend not configured''))"

definition redis_ref :: "eddyq_app \<Rightarrow> eddyq_redis js" where
  "redis_ref a = (case ap_redis a of Some q \<Rightarrow> Inr q | None \<Rightarrow> Inl (Reason ''redis backend not configured''))"

text \<open>A call on one store or the other.\<close>

definition route ::
  "eddyq_app \<Rightarrow> backend_kind \<Rightarrow> (db \<Rightarrow> db \<times> 'a js) \<Rightarrow> (redis \<Rightarrow> redis \<times> 'a js) \<Rightarrow> world \<Rightarrow> world \<times> 'a js" where
  "route a kind f g =
     (case kind of Pg \<Rightarrow> js_call (pg_ref a) (\<lambda>_. on_pg f) | Redis \<Rightarrow> js_call (redis_ref a) (\<lambda>_. on_redis g))"

definition on_provider ::
  "eddyq_app \<Rightarrow> string \<Rightarrow> (db \<Rightarrow> db \<times> 'a js) \<Rightarrow> (redis \<Rightarrow> redis \<times> 'a js) \<Rightarrow> world \<Rightarrow> world \<times> 'a js" where
  "on_provider a provider f g = js_call (parse_provider provider) (\<lambda>kind. route a kind f g)"

definition provider_for :: "eddyq_app \<Rightarrow> string \<Rightarrow> string" where
  "provider_for a queue_name = (case pick a queue_name of Pg \<Rightarrow> ''postgres'' | Redis \<Rightarrow> ''redis'')"

section \<open>Jobs\<close>

definition app_enqueue :: "app_ctx \<Rightarrow> eddyq_app \<Rightarrow> string \<Rightarrow> json \<Rightarrow> js_options option \<Rightarrow> world \<Rightarrow> world \<times> enqueue_outcome js" where
  "app_enqueue c a kind payload opts =
     route a (pick a (unwrap_or (Option.bind opts jo_queue) ''default''))
       (do_enqueue (ax_pg c) (ax_js c) kind payload opts) (redis_enqueue (ax_rd c) (ax_js c) kind payload opts)"

definition item_kind :: "eddyq_app \<Rightarrow> js_item \<Rightarrow> backend_kind" where
  "item_kind a it = pick a (unwrap_or (jo_queue it) ''default'')"

definition add_bulk :: "bulk_outcome \<Rightarrow> bulk_outcome \<Rightarrow> bulk_outcome" where
  "add_bulk x y = \<lparr>bu_inserted = bu_inserted x + bu_inserted y, bu_skipped = bu_skipped x + bu_skipped y\<rparr>"

definition no_items :: bulk_outcome where
  "no_items = \<lparr>bu_inserted = 0, bu_skipped = 0\<rparr>"

definition app_enqueue_many :: "app_ctx \<Rightarrow> eddyq_app \<Rightarrow> js_item list \<Rightarrow> world \<Rightarrow> world \<times> bulk_outcome js" where
  "app_enqueue_many c a items w =
     (let pg_items = filter (\<lambda>it. item_kind a it = Pg) items;
          redis_items = filter (\<lambda>it. item_kind a it = Redis) items
      in case (if pg_items = [] then (w, Inr no_items)
               else route a Pg (do_enqueue_many (ax_pg c) (ax_js c) pg_items) (\<lambda>r. (r, Inr no_items)) w) of
           (w1, Inl e) \<Rightarrow> (w1, Inl e)
         | (w1, Inr x) \<Rightarrow>
             (case (if redis_items = [] then (w1, Inr no_items)
                    else route a Redis (\<lambda>s. (s, Inr no_items)) (redis_enqueue_many (ax_rd c) (ax_js c) redis_items) w1) of
                (w2, Inl e) \<Rightarrow> (w2, Inl e)
              | (w2, Inr y) \<Rightarrow> (w2, Inr (add_bulk x y))))"

definition app_clean :: "app_ctx \<Rightarrow> eddyq_app \<Rightarrow> int \<Rightarrow> nat \<Rightarrow> string \<Rightarrow> string \<Rightarrow> world \<Rightarrow> world \<times> nat js" where
  "app_clean c a grace_ms limit state provider =
     on_provider a provider (eddyq_clean (ax_pg c) grace_ms limit state) (redis_clean (ax_rd c) grace_ms limit state)"

definition app_cancel :: "app_ctx \<Rightarrow> eddyq_app \<Rightarrow> job_id \<Rightarrow> string \<Rightarrow> world \<Rightarrow> world \<times> bool js" where
  "app_cancel c a i provider = on_provider a provider (do_cancel (ax_pg c) i) (redis_cancel (ax_rd c) i)"

section \<open>Administration\<close>

definition app_set_group_concurrency :: "app_ctx \<Rightarrow> eddyq_app \<Rightarrow> string \<Rightarrow> string \<Rightarrow> int \<Rightarrow> world \<Rightarrow> world \<times> unit js" where
  "app_set_group_concurrency c a provider k mx =
     on_provider a provider (eddyq_set_group_concurrency (ax_pg c) k mx) (redis_set_group_concurrency (ax_rd c) k mx)"

definition app_pause_group :: "app_ctx \<Rightarrow> eddyq_app \<Rightarrow> string \<Rightarrow> string \<Rightarrow> world \<Rightarrow> world \<times> unit js" where
  "app_pause_group c a provider k = on_provider a provider (eddyq_pause_group (ax_pg c) k) (redis_pause_group (ax_rd c) k)"

definition app_resume_group :: "app_ctx \<Rightarrow> eddyq_app \<Rightarrow> string \<Rightarrow> string \<Rightarrow> world \<Rightarrow> world \<times> unit js" where
  "app_resume_group c a provider k = on_provider a provider (eddyq_resume_group (ax_pg c) k) (redis_resume_group (ax_rd c) k)"

definition app_set_group_rate :: "app_ctx \<Rightarrow> eddyq_app \<Rightarrow> string \<Rightarrow> string \<Rightarrow> nat \<Rightarrow> nat \<Rightarrow> world \<Rightarrow> world \<times> unit js" where
  "app_set_group_rate c a provider k n period_ms =
     on_provider a provider (eddyq_set_group_rate (ax_pg c) k n period_ms) (redis_set_group_rate (ax_rd c) k n period_ms)"

definition app_clear_group_rate :: "app_ctx \<Rightarrow> eddyq_app \<Rightarrow> string \<Rightarrow> string \<Rightarrow> world \<Rightarrow> world \<times> unit js" where
  "app_clear_group_rate c a provider k =
     on_provider a provider (eddyq_clear_group_rate (ax_pg c) k) (redis_clear_group_rate (ax_rd c) k)"

definition app_list_groups :: "app_ctx \<Rightarrow> eddyq_app \<Rightarrow> string \<Rightarrow> world \<Rightarrow> world \<times> js_group list js" where
  "app_list_groups c a provider = on_provider a provider (do_list_groups (ax_pg c) (ax_js c)) (redis_list_groups (ax_rd c) (ax_js c))"

definition app_list_named_queues :: "app_ctx \<Rightarrow> eddyq_app \<Rightarrow> string \<Rightarrow> world \<Rightarrow> world \<times> js_named_queue list js" where
  "app_list_named_queues c a provider =
     on_provider a provider (do_list_named_queues (ax_pg c) (ax_js c)) (redis_list_named_queues (ax_rd c) (ax_js c))"

definition app_list_jobs :: "app_ctx \<Rightarrow> eddyq_app \<Rightarrow> js_filter option \<Rightarrow> js_pagination option \<Rightarrow> world \<Rightarrow> world \<times> js_job_list js" where
  "app_list_jobs c a f pn =
     route a (pick a (unwrap_or (Option.bind f jf_queue) ''default''))
       (do_list_jobs (ax_pg c) (ax_js c) f pn) (redis_list_jobs (ax_rd c) (ax_js c) f pn)"

definition app_list_jobs_for ::
  "app_ctx \<Rightarrow> eddyq_app \<Rightarrow> string \<Rightarrow> js_filter option \<Rightarrow> js_pagination option \<Rightarrow> world \<Rightarrow> world \<times> js_job_list js" where
  "app_list_jobs_for c a provider f pn =
     on_provider a provider (do_list_jobs (ax_pg c) (ax_js c) f pn) (redis_list_jobs (ax_rd c) (ax_js c) f pn)"

definition app_get_stats_for :: "app_ctx \<Rightarrow> eddyq_app \<Rightarrow> string \<Rightarrow> world \<Rightarrow> world \<times> (string \<times> string \<times> int) list js" where
  "app_get_stats_for c a provider = on_provider a provider (do_get_stats (ax_pg c)) (redis_get_stats (ax_rd c))"

definition app_set_queue_concurrency :: "app_ctx \<Rightarrow> eddyq_app \<Rightarrow> string \<Rightarrow> string \<Rightarrow> int \<Rightarrow> world \<Rightarrow> world \<times> unit js" where
  "app_set_queue_concurrency c a provider name mx =
     on_provider a provider (eddyq_set_queue_concurrency (ax_pg c) name mx) (redis_set_queue_concurrency (ax_rd c) name mx)"

definition app_set_queue_timeout :: "app_ctx \<Rightarrow> eddyq_app \<Rightarrow> string \<Rightarrow> string \<Rightarrow> nat option \<Rightarrow> world \<Rightarrow> world \<times> unit js" where
  "app_set_queue_timeout c a provider name timeout_ms =
     on_provider a provider (eddyq_set_queue_timeout (ax_pg c) name timeout_ms) (redis_set_queue_timeout (ax_rd c) name timeout_ms)"

definition app_pause_queue :: "app_ctx \<Rightarrow> eddyq_app \<Rightarrow> string \<Rightarrow> string \<Rightarrow> world \<Rightarrow> world \<times> unit js" where
  "app_pause_queue c a provider name = on_provider a provider (eddyq_pause_queue (ax_pg c) name) (redis_pause_queue (ax_rd c) name)"

definition app_resume_queue :: "app_ctx \<Rightarrow> eddyq_app \<Rightarrow> string \<Rightarrow> string \<Rightarrow> world \<Rightarrow> world \<times> unit js" where
  "app_resume_queue c a provider name =
     on_provider a provider (eddyq_resume_queue (ax_pg c) name) (redis_resume_queue (ax_rd c) name)"

text \<open>The priority is narrowed to 16 bits, or becomes zero, before it reaches Postgres.\<close>

definition narrow_options :: "int option \<Rightarrow> int option \<Rightarrow> string option \<Rightarrow> schedule_options" where
  "narrow_options priority max_attempts queue =
     \<lparr>sp_priority = map_option narrow_priority priority, sp_max_attempts = max_attempts, sp_queue = queue\<rparr>"

definition app_add_schedule ::
  "app_ctx \<Rightarrow> eddyq_app \<Rightarrow> string \<Rightarrow> string \<Rightarrow> string \<Rightarrow> string \<Rightarrow> json \<Rightarrow> int option \<Rightarrow> int option \<Rightarrow> string option \<Rightarrow>
     world \<Rightarrow> world \<times> unit js" where
  "app_add_schedule c a provider name cron kind payload priority max_attempts queue =
     on_provider a provider
       (eddyq_add_schedule (ax_pg c) name cron kind payload (Some (narrow_options priority max_attempts queue)))
       (redis_add_schedule (ax_rd c) name cron kind payload priority max_attempts queue)"

definition app_add_interval_schedule ::
  "app_ctx \<Rightarrow> eddyq_app \<Rightarrow> string \<Rightarrow> string \<Rightarrow> int \<Rightarrow> string \<Rightarrow> json \<Rightarrow> int option \<Rightarrow> int option \<Rightarrow> string option \<Rightarrow>
     world \<Rightarrow> world \<times> unit js" where
  "app_add_interval_schedule c a provider name interval_ms kind payload priority max_attempts queue =
     on_provider a provider
       (eddyq_add_interval_schedule (ax_pg c) name interval_ms kind payload (Some (narrow_options priority max_attempts queue)))
       (redis_add_interval_schedule (ax_rd c) name interval_ms kind payload priority max_attempts queue)"

definition app_remove_schedule :: "app_ctx \<Rightarrow> eddyq_app \<Rightarrow> string \<Rightarrow> string \<Rightarrow> world \<Rightarrow> world \<times> bool js" where
  "app_remove_schedule c a provider name =
     on_provider a provider (eddyq_remove_schedule (ax_pg c) name) (redis_remove_schedule (ax_rd c) name)"

definition app_list_schedules :: "app_ctx \<Rightarrow> eddyq_app \<Rightarrow> string \<Rightarrow> world \<Rightarrow> world \<times> js_schedule list js" where
  "app_list_schedules c a provider =
     on_provider a provider (do_list_schedules (ax_pg c) (ax_js c)) (redis_list_schedules (ax_rd c) (ax_js c))"

definition app_sync_schedules :: "app_ctx \<Rightarrow> eddyq_app \<Rightarrow> string \<Rightarrow> js_declaration list \<Rightarrow> world \<Rightarrow> world \<times> (nat \<times> string list) js" where
  "app_sync_schedules c a provider declared =
     on_provider a provider (eddyq_sync_schedules (ax_pg c) declared) (redis_sync_schedules (ax_rd c) declared)"

section \<open>Migrations\<close>

definition app_migrate :: "app_ctx \<Rightarrow> 'm exec \<Rightarrow> eddyq_app \<Rightarrow> 'm mig_state \<Rightarrow> 'm mig_state \<times> migrate_report option js" where
  "app_migrate c exec a s = (case ap_pg a of Some q \<Rightarrow> js_map Some (do_migrate (ax_pg c) exec q s) | None \<Rightarrow> (s, Inr None))"

definition app_migration_status :: "app_ctx \<Rightarrow> eddyq_app \<Rightarrow> 'm mig_state \<Rightarrow> (int \<times> string \<times> string option) list" where
  "app_migration_status c a s = (case ap_pg a of Some q \<Rightarrow> do_migration_status (ax_js c) q s | None \<Rightarrow> [])"

section \<open>Workers\<close>

text \<open>One call on the part for Postgres, then one on the part for Redis, if the first has not failed.\<close>

definition on_parts ::
  "(eddyq \<Rightarrow> eddyq \<times> unit js) \<Rightarrow> (eddyq_redis \<Rightarrow> eddyq_redis \<times> unit js) \<Rightarrow> eddyq_app \<Rightarrow> eddyq_app \<times> unit js" where
  "on_parts f g a =
     (case (case ap_pg a of None \<Rightarrow> (a, Inr ()) | Some q \<Rightarrow> (case f q of (q', x) \<Rightarrow> (a\<lparr>ap_pg := Some q'\<rparr>, x))) of
        (a1, Inl e) \<Rightarrow> (a1, Inl e)
      | (a1, Inr _) \<Rightarrow>
          (case ap_redis a1 of None \<Rightarrow> (a1, Inr ()) | Some q \<Rightarrow> (case g q of (q', x) \<Rightarrow> (a1\<lparr>ap_redis := Some q'\<rparr>, x))))"

definition app_subscribe_to :: "string list \<Rightarrow> eddyq_app \<Rightarrow> eddyq_app \<times> unit js" where
  "app_subscribe_to qs a =
     (let pg_q = filter (\<lambda>q. pick a q = Pg) qs; redis_q = filter (\<lambda>q. pick a q = Redis) qs
      in on_parts (\<lambda>q. if pg_q = [] then (q, Inr ()) else eddyq_subscribe_to pg_q q)
           (\<lambda>q. if redis_q = [] then (q, Inr ()) else redis_subscribe_to redis_q q) a)"

definition app_set_worker_concurrency :: "nat \<Rightarrow> eddyq_app \<Rightarrow> eddyq_app \<times> unit js" where
  "app_set_worker_concurrency n = on_parts (eddyq_set_worker_concurrency n) (redis_set_worker_concurrency n)"

definition app_work :: "string \<Rightarrow> js_handler \<Rightarrow> eddyq_app \<Rightarrow> eddyq_app \<times> unit js" where
  "app_work kind h = on_parts (register_handler_arc kind h) (redis_register_handler_arc kind h)"

definition app_set_abort_handler :: "eddyq_app \<Rightarrow> eddyq_app \<times> unit js" where
  "app_set_abort_handler a = (a\<lparr>ap_abort := True\<rparr>, Inr ())"

definition app_start ::
  "js_env \<Rightarrow> uuid \<times> uuid \<times> (nat \<Rightarrow> uuid) \<Rightarrow> uuid \<times> uuid \<times> (nat \<Rightarrow> uuid) \<Rightarrow> (int \<times> string \<times> timestamp option) list res \<Rightarrow>
     (eddyq \<Rightarrow> eddyq) \<Rightarrow> (eddyq_redis \<Rightarrow> eddyq_redis) \<Rightarrow> start_options option \<Rightarrow> eddyq_app \<Rightarrow> eddyq_app \<times> unit js" where
  "app_start v ids ids' statuses mid mid' opts = on_parts (eddyq_start v ids statuses mid opts) (redis_start v ids' mid' opts)"

text \<open>Both parts are stopped one after the other, whatever the first one answers.\<close>

definition app_shutdown ::
  "(db backend \<times> redis backend) \<Rightarrow> (duration \<Rightarrow> db \<times> runtime \<Rightarrow> (db \<times> runtime) \<times> bool) \<Rightarrow> (redis \<times> runtime \<Rightarrow> redis \<times> runtime) \<Rightarrow>
     shutdown_options option \<Rightarrow> eddyq_app \<Rightarrow> world \<Rightarrow> world \<times> eddyq_app \<times> event list \<times> unit js" where
  "app_shutdown B drain wait opts a w =
     (let ev0 = abort_events (ap_abort a) (unwrap_or (Option.bind opts so_mode) ''drain'')
      in case (case ap_pg a of
                 None \<Rightarrow> (w, a, [])
               | Some q \<Rightarrow> (case eddyq_shutdown (fst B) drain opts q (w_db w) of (s, q', ev, _) \<Rightarrow> (w\<lparr>w_db := s\<rparr>, a\<lparr>ap_pg := Some q'\<rparr>, ev))) of
           (w1, a1, ev1) \<Rightarrow>
             (case ap_redis a1 of
                None \<Rightarrow> (w1, a1, ev0 @ ev1, Inr ())
              | Some q \<Rightarrow>
                  (case redis_shutdown (snd B) wait opts q (w_redis w1) of
                     (r, q', ev, _) \<Rightarrow> (w1\<lparr>w_redis := r\<rparr>, a1\<lparr>ap_redis := Some q'\<rparr>, ev0 @ ev1 @ ev, Inr ()))))"

definition app_close :: "db backend \<Rightarrow> eddyq_app \<Rightarrow> world \<Rightarrow> world \<times> eddyq_app \<times> event list \<times> unit js" where
  "app_close B a w =
     (case ap_pg a of
        None \<Rightarrow> (w, a, [], Inr ())
      | Some q \<Rightarrow> (case eddyq_close B q (w_db w) of (s, q', ev, x) \<Rightarrow> (w\<lparr>w_db := s\<rparr>, a\<lparr>ap_pg := Some q'\<rparr>, ev, x)))"

end
