(* ===== verification/Node_Workers.thy ===== *)
theory Node_Workers
  imports Node_App
begin

text \<open>
  The worker side of the Node classes. \<open>Eddyq\<close> and \<open>EddyqRedis\<close> keep the same three states; the locale \<open>lifecycle\<close> says how
  they may follow one another, whatever class and calls, and its lemmas hold for both. Then what a successful start hands to
  the runtime of the core crate.
\<close>

section \<open>Lifecycle\<close>

fun life_moves :: "worker_state \<Rightarrow> worker_state \<Rightarrow> bool" where
  "life_moves (Ws_building hs n subs) s = True"
| "life_moves (Ws_running cq) s = (s = Ws_running cq \<or> s = Ws_stopped)"
| "life_moves Ws_stopped s = (s = Ws_stopped)"

lemma life_moves_simps [simp]: "life_moves s s" "life_moves s Ws_stopped"
  by (cases s; simp)+

locale lifecycle =
  fixes state :: "'o \<Rightarrow> worker_state"
    and call :: "'o \<Rightarrow> 'o \<Rightarrow> bool"
  assumes call_moves: "call q q' \<Longrightarrow> life_moves (state q) (state q')"
begin

lemma stopped_stays: "call\<^sup>*\<^sup>* q q' \<Longrightarrow> state q = Ws_stopped \<Longrightarrow> state q' = Ws_stopped"
  by (induction rule: rtranclp_induct) (auto dest: call_moves)

lemma running_stays: "call\<^sup>*\<^sup>* q q' \<Longrightarrow> state q = Ws_running cq \<Longrightarrow> state q' = Ws_running cq \<or> state q' = Ws_stopped"
  by (induction rule: rtranclp_induct) (auto dest: call_moves)

end

text \<open>The calls on an \<open>Eddyq\<close>. Other calls may come while \<open>start\<close> waits for the database: they are \<open>mid\<close>.\<close>

inductive eddyq_call :: "eddyq \<Rightarrow> eddyq \<Rightarrow> bool" where
  work: "eddyq_call q (fst (register_handler_arc kind h q))"
| concurrency: "eddyq_call q (fst (eddyq_set_worker_concurrency n q))"
| subscribe: "eddyq_call q (fst (eddyq_subscribe_to qs q))"
| abort: "eddyq_call q (fst (eddyq_set_abort_handler q))"
| start: "eddyq_call\<^sup>*\<^sup>* (fst (take_building q)) (mid (fst (take_building q))) \<Longrightarrow>
    eddyq_call q (fst (eddyq_start v ids statuses mid opts q))"
| shutdown: "eddyq_call q (fst (snd (eddyq_shutdown B drain opts q (s :: db))))"
| close: "eddyq_call q (fst (snd (eddyq_close B q (s :: db))))"

inductive redis_call :: "eddyq_redis \<Rightarrow> eddyq_redis \<Rightarrow> bool" where
  work: "redis_call q (fst (redis_register_handler_arc kind h q))"
| concurrency: "redis_call q (fst (redis_set_worker_concurrency n q))"
| subscribe: "redis_call q (fst (redis_subscribe_to qs q))"
| abort: "redis_call q (fst (redis_set_abort_handler q))"
| start: "redis_call\<^sup>*\<^sup>* (fst (redis_take_building q)) (mid (fst (redis_take_building q))) \<Longrightarrow>
    redis_call q (fst (redis_start v ids mid opts q))"
| shutdown: "redis_call q (fst (snd (redis_shutdown B wait opts q (r :: redis))))"

lemmas eddyq_call_defs = register_handler_arc_def eddyq_set_worker_concurrency_def eddyq_subscribe_to_def
  eddyq_set_abort_handler_def eddyq_start_def take_building_def eddyq_shutdown_def eddyq_close_def

lemmas redis_call_defs = redis_register_handler_arc_def redis_set_worker_concurrency_def redis_subscribe_to_def
  redis_set_abort_handler_def redis_start_def redis_take_building_def redis_shutdown_def

lemma shutdown_states [simp]:
  "ey_state (fst (snd (eddyq_shutdown B drain opts q s))) = Ws_stopped"
  "ey_state (fst (snd (eddyq_close B q s))) = Ws_stopped"
  "er_state (fst (snd (redis_shutdown B' wait opts' q' s'))) = Ws_stopped"
  by (auto simp: eddyq_shutdown_def eddyq_close_def redis_shutdown_def Let_def
      split: worker_state.split sum.split shutdown_mode.split prod.split)

interpretation node: lifecycle ey_state eddyq_call
proof
  fix q q' assume "eddyq_call q q'"
  then show "life_moves (ey_state q) (ey_state q')"
    by cases (cases "ey_state q"; simp add: eddyq_call_defs(1-6) split: prod.split)+
qed

interpretation node_redis: lifecycle er_state redis_call
proof
  fix q q' assume "redis_call q q'"
  then show "life_moves (er_state q) (er_state q')"
    by cases (cases "er_state q"; simp add: redis_call_defs(1-6) split: prod.split)+
qed

section \<open>Stopping\<close>

text \<open>The abort handler is called before the core stops, but for a forced stop, which takes its snapshot first.\<close>

lemma shutdown_order:
  assumes "ey_state q = Ws_running cq" "requested_mode opts = Inr mode"
  shows "fst (snd (snd (eddyq_shutdown B drain opts q s))) =
    (if mode = Force then Core_stop Force # abort_events (ey_abort q) ''shutdown''
     else abort_events (ey_abort q) ''shutdown'' @ [Core_stop mode])"
  using assms by (cases mode) (simp_all add: eddyq_shutdown_def split: prod.split)

text \<open>A mode that is not known drops the running queue without stopping it.\<close>

lemma invalid_mode_drops_queue:
  "ey_state q = Ws_running cq \<Longrightarrow> requested_mode opts = Inl e \<Longrightarrow>
     eddyq_shutdown B drain opts q s = (s, q\<lparr>ey_state := Ws_stopped\<rparr>, [], Inl e)"
  by (simp add: eddyq_shutdown_def)

text \<open>An application reports success whatever its parts answer, and accepts a default provider that is not configured.\<close>

lemma app_shutdown_succeeds: "snd (snd (snd (app_shutdown B drain wait opts a w))) = Inr ()"
  by (simp add: app_shutdown_def Let_def split: prod.split option.split)

lemma default_provider_unchecked: "default_provider_of True False (Some ''redis'') = Inr Redis"
  by (simp add: default_provider_of_def parse_provider_def)

section \<open>Tuning\<close>

definition over :: "'a option \<Rightarrow> ('a \<Rightarrow> 'b) \<Rightarrow> 'b \<Rightarrow> 'b" where
  "over x f d = (case x of None \<Rightarrow> d | Some v \<Rightarrow> f v)"

lemma over_simps [simp]: "over None f d = d" "over (Some v) f d = f v"
  by (simp_all add: over_def)

lemma set_some_config:
  "set_some o1 (\<lambda>x. set_sweep_interval (h1 x)) b = b\<lparr>qb_config := (qb_config b)\<lparr>sweep_interval := over o1 h1 (sweep_interval (qb_config b))\<rparr>\<rparr>"
  "set_some o2 (\<lambda>x. set_stale_after (h2 x)) b = b\<lparr>qb_config := (qb_config b)\<lparr>stale_after := over o2 h2 (stale_after (qb_config b))\<rparr>\<rparr>"
  "set_some o3 (\<lambda>x. set_heartbeat_interval (h3 x)) b =
     b\<lparr>qb_config := (qb_config b)\<lparr>heartbeat_interval := over o3 h3 (heartbeat_interval (qb_config b))\<rparr>\<rparr>"
  "set_some o4 (\<lambda>x. set_cleanup_interval (h4 x)) b = b\<lparr>qb_config := (qb_config b)\<lparr>cleanup_interval := over o4 h4 (cleanup_interval (qb_config b))\<rparr>\<rparr>"
  "set_some o5 (\<lambda>x. set_completed_retention (h5 x)) b =
     b\<lparr>qb_config := (qb_config b)\<lparr>completed_retention := over o5 h5 (completed_retention (qb_config b))\<rparr>\<rparr>"
  "set_some o5 (\<lambda>x. set_failed_retention (h5 x)) b = b\<lparr>qb_config := (qb_config b)\<lparr>failed_retention := over o5 h5 (failed_retention (qb_config b))\<rparr>\<rparr>"
  "set_some o5 (\<lambda>x. set_cancelled_retention (h5 x)) b =
     b\<lparr>qb_config := (qb_config b)\<lparr>cancelled_retention := over o5 h5 (cancelled_retention (qb_config b))\<rparr>\<rparr>"
  "set_some o5 (\<lambda>x. set_batch_retention (h5 x)) b = b\<lparr>qb_config := (qb_config b)\<lparr>batch_retention := over o5 h5 (batch_retention (qb_config b))\<rparr>\<rparr>"
  "set_some o6 (\<lambda>x. set_completed_retention_count (h6 x)) b =
     b\<lparr>qb_config := (qb_config b)\<lparr>completed_retention_count := over o6 h6 (completed_retention_count (qb_config b))\<rparr>\<rparr>"
  "set_some o6 (\<lambda>x. set_failed_retention_count (h6 x)) b =
     b\<lparr>qb_config := (qb_config b)\<lparr>failed_retention_count := over o6 h6 (failed_retention_count (qb_config b))\<rparr>\<rparr>"
  "set_some o6 (\<lambda>x. set_cancelled_retention_count (h6 x)) b =
     b\<lparr>qb_config := (qb_config b)\<lparr>cancelled_retention_count := over o6 h6 (cancelled_retention_count (qb_config b))\<rparr>\<rparr>"
  "set_some o6 (\<lambda>x. set_batch_retention_count (h6 x)) b =
     b\<lparr>qb_config := (qb_config b)\<lparr>batch_retention_count := over o6 h6 (batch_retention_count (qb_config b))\<rparr>\<rparr>"
  "set_some o7 (\<lambda>x. set_leader_lease_secs (h7 x)) b = b\<lparr>qb_config := (qb_config b)\<lparr>leader_lease_secs := over o7 h7 (leader_lease_secs (qb_config b))\<rparr>\<rparr>"
  "set_some o8 (\<lambda>x. set_fetch_poll_interval (h8 x)) b =
     b\<lparr>qb_config := (qb_config b)\<lparr>fetch_poll_interval := over o8 h8 (fetch_poll_interval (qb_config b))\<rparr>\<rparr>"
  "set_some o5 (\<lambda>x. set_default_job_timeout (h5 x)) b =
     b\<lparr>qb_config := (qb_config b)\<lparr>default_job_timeout := over o5 h5 (default_job_timeout (qb_config b))\<rparr>\<rparr>"
  "set_some o8 (\<lambda>x. set_scheduler_interval (h8 x)) b =
     b\<lparr>qb_config := (qb_config b)\<lparr>scheduler_interval := over o8 h8 (scheduler_interval (qb_config b))\<rparr>\<rparr>"
  by (simp_all add: set_some_def over_def set_sweep_interval_def set_stale_after_def set_heartbeat_interval_def set_cleanup_interval_def
      set_completed_retention_def set_failed_retention_def set_cancelled_retention_def set_batch_retention_def
      set_completed_retention_count_def set_failed_retention_count_def set_cancelled_retention_count_def set_batch_retention_count_def
      set_leader_lease_secs_def set_fetch_poll_interval_def set_default_job_timeout_def set_scheduler_interval_def split: option.split)

lemmas tune_defs = tune_times_def tune_counts_def tune_rest_def

lemma tuned_builder:
  "qb_registry (tune_pg opts b) = qb_registry b" "qb_line (tune_pg opts b) = qb_line b" "qb_queues (tune_pg opts b) = qb_queues b"
  "qb_registry (tune_redis opts b) = qb_registry b" "qb_line (tune_redis opts b) = qb_line b" "qb_queues (tune_redis opts b) = qb_queues b"
  by (simp_all add: tune_pg_def tune_redis_def tune_defs set_some_config split: option.split)

lemma tuned_config:
  "worker_concurrency (qb_config (tune_pg opts b)) = worker_concurrency (qb_config b)"
  "poll_only (qb_config (tune_pg opts b)) = poll_only (qb_config b)"
  "worker_concurrency (qb_config (tune_redis opts b)) = worker_concurrency (qb_config b)"
  "poll_only (qb_config (tune_redis opts b)) = poll_only (qb_config b)"
  by (simp_all add: tune_pg_def tune_redis_def tune_defs set_some_config split: option.split)

text \<open>Reading the retention of a process off the options of its start.\<close>

definition asked_secs :: "start_options option \<Rightarrow> (start_options \<Rightarrow> int option) \<Rightarrow> duration option \<Rightarrow> nat option" where
  "asked_secs opts field d = map_option as_secs (over (Option.bind opts field) retention_from_secs d)"

definition asked_count :: "start_options option \<Rightarrow> (start_options \<Rightarrow> int option) \<Rightarrow> int option" where
  "asked_count opts field = over (Option.bind opts field) count_from_napi None"

text \<open>\<open>counts\<close>: the numbers of jobs to keep are taken from the options too.\<close>

definition asked_retention :: "bool \<Rightarrow> start_options option \<Rightarrow> retention" where
  "asked_retention counts opts =
     \<lparr>rt_completed_secs = asked_secs opts st_completed_retention_secs (completed_retention default_config),
      rt_failed_secs = asked_secs opts st_failed_retention_secs (failed_retention default_config),
      rt_cancelled_secs = asked_secs opts st_cancelled_retention_secs (cancelled_retention default_config),
      rt_batch_secs = asked_secs opts st_batch_retention_secs (batch_retention default_config),
      rt_completed_count = (if counts then asked_count opts st_completed_retention_count else None),
      rt_failed_count = (if counts then asked_count opts st_failed_retention_count else None),
      rt_cancelled_count = (if counts then asked_count opts st_cancelled_retention_count else None),
      rt_batch_count = (if counts then asked_count opts st_batch_retention_count else None)\<rparr>"

lemma tuned_retention:
  assumes "qb_config b = default_config\<lparr>worker_concurrency := n, poll_only := yes\<rparr>"
  shows "config_retention (qb_config (tune_redis opts b)) = asked_retention True opts"
    and "config_retention (qb_config (tune_pg opts b)) = asked_retention False opts"
  by (cases opts; simp add: tune_pg_def tune_redis_def tune_defs set_some_config config_retention_def assms asked_secs_def asked_count_def
      asked_retention_def default_config_def)+

section \<open>Handlers\<close>

lemma registered_fields:
  "qb_config (fold (\<lambda>(kind, f). builder_register_dyn kind (dispatcher v f)) hs b) = qb_config b"
  "qb_line (fold (\<lambda>(kind, f). builder_register_dyn kind (dispatcher v f)) hs b) = qb_line b"
  "qb_queues (fold (\<lambda>(kind, f). builder_register_dyn kind (dispatcher v f)) hs b) = qb_queues b"
  by (induction hs arbitrary: b) (auto simp: builder_register_dyn_def)

lemma registered_handler:
  "get_handler (qb_registry (fold (\<lambda>(kind, f). builder_register_dyn kind (dispatcher v f)) hs b)) kind =
     (case map_of (rev hs) kind of Some f \<Rightarrow> Inr (dispatcher v f) | None \<Rightarrow> get_handler (qb_registry b) kind)"
  by (induction hs arbitrary: b)
     (auto simp: builder_register_dyn_def register_dyn_def get_insert_handler map_add_def split: option.split)

text \<open>The process that a queue of the core runs after a start: handlers, subscriptions, slots and line.\<close>

definition runs_as ::
  "js_env \<Rightarrow> string \<Rightarrow> (string \<times> js_handler) list \<Rightarrow> nat option \<Rightarrow> string list option \<Rightarrow> bool \<Rightarrow> eddy_queue \<Rightarrow> bool" where
  "runs_as v line hs n subs yes cq \<longleftrightarrow>
     eq_state cq = Q_running (rt_start (eq_process cq)) \<and> eq_line cq = line \<and>
     pr_queues (eq_process cq) = (if unwrap_or subs [] = [] then [default_queue] else the subs) \<and>
     worker_concurrency (pr_config (eq_process cq)) = over n (\<lambda>m. max m 1) 10 \<and> poll_only (pr_config (eq_process cq)) = yes \<and>
     (\<forall>kind. get_handler (pr_registry (eq_process cq)) kind =
        (case map_of (rev hs) kind of Some f \<Rightarrow> Inr (dispatcher v f) | None \<Rightarrow> Inl (UnknownKind kind)))"

lemma configured_builder:
  "qb_config (set_some subs subscribe_to (set_some n set_worker_concurrency b)) =
     (qb_config b)\<lparr>worker_concurrency := over n (\<lambda>m. max m 1) (worker_concurrency (qb_config b))\<rparr>"
  "qb_line (set_some subs subscribe_to (set_some n set_worker_concurrency b)) = qb_line b"
  "qb_registry (set_some subs subscribe_to (set_some n set_worker_concurrency b)) = qb_registry b"
  "qb_queues b = [default_queue] \<Longrightarrow> qb_queues (set_some subs subscribe_to (set_some n set_worker_concurrency b)) =
     (if unwrap_or subs [] = [] then [default_queue] else the subs)"
  by (cases subs; cases n; simp add: set_some_def over_def subscribe_to_def set_worker_concurrency_def unwrap_or_def)+

text \<open>Both builders are of this form, one with each way of tuning.\<close>

definition node_builder ::
  "(queue_builder \<Rightarrow> queue_builder) \<Rightarrow> js_env \<Rightarrow> string \<Rightarrow> (string \<times> js_handler) list \<Rightarrow> nat option \<Rightarrow> string list option \<Rightarrow> bool \<Rightarrow> queue_builder" where
  "node_builder tune v line hs n subs yes =
     fold (\<lambda>(kind, f). builder_register_dyn kind (dispatcher v f)) hs
       (tune (set_some subs subscribe_to (set_some n set_worker_concurrency
          (with_backend\<lparr>qb_line := line, qb_config := default_config\<lparr>poll_only := yes\<rparr>\<rparr>))))"

lemma default_slots: "worker_concurrency default_config = 10"
  by (simp add: default_config_def)

lemma builders_eq:
  "pg_builder v opts q hs n subs = node_builder (tune_pg opts) v (cl_line (ey_client q)) hs n subs (ey_poll_only q)"
  "redis_builder v opts r hs n subs = node_builder (tune_redis opts) v (er_line r) hs n subs False"
  by (simp_all add: pg_builder_def redis_builder_def node_builder_def set_poll_only_def set_line_def with_backend_def default_config_def)

text \<open>What a start relies on in its tuning: only times and retention change.\<close>

locale tuning =
  fixes tune :: "start_options option \<Rightarrow> queue_builder \<Rightarrow> queue_builder"
    and counts :: bool
  assumes kept: "qb_registry (tune opts b) = qb_registry b" "qb_line (tune opts b) = qb_line b" "qb_queues (tune opts b) = qb_queues b"
      "worker_concurrency (qb_config (tune opts b)) = worker_concurrency (qb_config b)"
      "poll_only (qb_config (tune opts b)) = poll_only (qb_config b)"
    and retention: "qb_config b = default_config\<lparr>worker_concurrency := n, poll_only := yes\<rparr> \<Longrightarrow>
      config_retention (qb_config (tune opts b)) = asked_retention counts opts"
begin

lemma started:
  obtains cq where "q_start (build fid maint wids (node_builder (tune opts) v line hs n subs yes)) = (cq, Inr ())"
    "runs_as v line hs n subs yes cq" "config_retention (pr_config (eq_process cq)) = asked_retention counts opts"
proof -
  let ?with = "with_backend\<lparr>qb_line := line, qb_config := default_config\<lparr>poll_only := yes\<rparr>\<rparr>"
  let ?set = "set_some subs subscribe_to (set_some n set_worker_concurrency ?with)"
  let ?q = "build fid maint wids (node_builder (tune opts) v line hs n subs yes)"
  let ?cq = "?q\<lparr>eq_state := Q_running (rt_start (eq_process ?q))\<rparr>"
  have "q_start ?q = (?cq, Inr ())" by (simp add: q_start_def build_def)
  moreover have "get_handler registry_new kind = Inl (UnknownKind kind)" for kind
    by (simp add: get_handler_def registry_new_def)
  then have "runs_as v line hs n subs yes ?cq"
    by (auto simp: runs_as_def build_def node_builder_def registered_fields kept configured_builder registered_handler
        with_backend_def default_slots split: option.split)
  moreover have "qb_config ?set = default_config\<lparr>worker_concurrency := over n (\<lambda>m. max m 1) 10, poll_only := yes\<rparr>"
    by (simp add: configured_builder default_config_def)
  then have "config_retention (pr_config (eq_process ?cq)) = asked_retention counts opts"
    by (simp add: build_def node_builder_def registered_fields retention)
  ultimately show ?thesis by (rule that)
qed

end

interpretation pg_tuning: tuning tune_pg False
  by unfold_locales (simp_all add: tuned_builder tuned_config tuned_retention)

interpretation redis_tuning: tuning tune_redis True
  by unfold_locales (simp_all add: tuned_builder tuned_config tuned_retention)

section \<open>Properties\<close>

definition one_handler :: "(string \<times> js_handler) list" where
  "one_handler = [(''mail'', \<lambda>_ _. Resolved JNull)]"

definition ready_queue :: eddyq where
  "ready_queue = \<lparr>ey_client = from_pool, ey_state = Ws_building one_handler (Some 0) (Some [''mail'']), ey_abort = False, ey_poll_only = True\<rparr>"

definition ready_redis :: eddyq_redis where
  "ready_redis = \<lparr>er_line = ''main'', er_state = Ws_building one_handler (Some 0) (Some [''mail'']), er_abort = False\<rparr>"

definition keep_ten :: start_options where
  "keep_ten = \<lparr>st_skip_migration_check = None, st_sweep_interval_ms = None, st_stale_after_ms = None, st_heartbeat_interval_ms = None,
     st_cleanup_interval_ms = None, st_completed_retention_secs = Some (- 1), st_failed_retention_secs = None,
     st_cancelled_retention_secs = None, st_batch_retention_secs = None, st_completed_retention_count = Some 10,
     st_failed_retention_count = None, st_cancelled_retention_count = None, st_batch_retention_count = None,
     st_leader_lease_secs = None, st_fetch_poll_interval_ms = None, st_default_job_timeout_ms = None, st_scheduler_interval_ms = None\<rparr>"

definition plain_js :: js_env where
  "plain_js = \<lparr>je_utc = 0, je_date_ok = (\<lambda>_. True), je_rfc3339 = (\<lambda>_. []), je_parse_rfc3339 = (\<lambda>_. None), je_envelope = (\<lambda>_. None)\<rparr>"

text \<open>C28: a start that fails once handlers are registered, because migrations are pending or the database does not answer, is
  final. Whatever is called on the object afterwards, it stays stopped, and both a second \<open>start\<close>, even after the migrations
  have been applied, and \<open>work\<close> are refused. Only the start that is refused for want of a handler leaves the object as it
  was.\<close>

theorem failed_start_is_final:
  assumes "ey_state q = Ws_building hs n subs" "hs \<noteq> []" "eddyq_start v ids statuses mid opts q = (q1, Inl e)"
    "eddyq_call\<^sup>*\<^sup>* (fst (take_building q)) (mid (fst (take_building q)))" "eddyq_call\<^sup>*\<^sup>* q1 q2"
  shows "ey_state q2 = Ws_stopped \<and>
    snd (eddyq_start v' ids' statuses' mid' opts' q2) = Inl (Reason ''Queue has been shut down and cannot be reused'') \<and>
    snd (register_handler_arc kind h q2) = Inl (Reason ''Queue has been shut down and cannot be reused'') \<and>
    (\<forall>q0 n0 subs0. ey_state q0 = Ws_building [] n0 subs0 \<longrightarrow> fst (eddyq_start v' ids' statuses' mid' opts' q0) = q0)"
proof -
  have taken: "take_building q = (q\<lparr>ey_state := Ws_stopped\<rparr>, Inr (hs, n, subs))" using assms(1,2) by (simp add: take_building_def)
  then have mid: "ey_state (mid (q\<lparr>ey_state := Ws_stopped\<rparr>)) = Ws_stopped" using node.stopped_stays [OF assms(4)] by simp
  have "q1 = mid (q\<lparr>ey_state := Ws_stopped\<rparr>)"
    using assms(3) by (auto simp: eddyq_start_def taken Let_def split: sum.splits prod.splits)
  then have s: "ey_state q2 = Ws_stopped" using mid node.stopped_stays [OF assms(5)] by simp
  moreover have "fst (eddyq_start v' ids' statuses' mid' opts' q0) = q0" if "ey_state q0 = Ws_building [] n0 subs0" for q0 n0 subs0
  proof -
    have "q0\<lparr>ey_state := ey_state q0\<rparr> = q0" by simp
    then show ?thesis by (simp add: eddyq_start_def take_building_def that)
  qed
  ultimately show ?thesis by (simp add: eddyq_start_def take_building_def register_handler_arc_def)
qed

theorem failed_start_is_final_witness:
  "snd (eddyq_start plain_js (1, 2, of_nat) (Inr []) id None (fst (eddyq_start plain_js (1, 2, of_nat) (Inr [(1, ''init'', None)]) id None ready_queue))) =
     Inl (Reason ''Queue has been shut down and cannot be reused'')"
proof -
  obtain q1 e where s: "eddyq_start plain_js (1, 2, of_nat) (Inr [(1, ''init'', None)]) id None ready_queue = (q1, Inl e)"
    by (simp add: eddyq_start_def take_building_def ready_queue_def one_handler_def migration_guard_def unwrap_or_def)
  have "snd (eddyq_start plain_js (1, 2, of_nat) (Inr []) id None q1) = Inl (Reason ''Queue has been shut down and cannot be reused'')"
    using failed_start_is_final [OF _ _ s] by (simp add: ready_queue_def one_handler_def)
  then show ?thesis by (simp add: s)
qed

text \<open>C29: a start that passes the migration guard succeeds and runs what was configured. The runtime has the handler that was
  registered last for each kind and no other, the subscribed queues (the default queue when none was named), at least one
  slot, the line of the connection and fresh tasks. Ages of retention come from the options on both stores, a negative one
  meaning for ever; counts come from the options on Redis only, and on Postgres they are not applied.\<close>

theorem start_runs_what_was_configured:
  assumes "ey_state q = Ws_building hs n subs" "er_state r = Ws_building hs n subs" "hs \<noteq> []" "migration_guard statuses opts = Inr ()"
  shows "(\<exists>cq. snd (eddyq_start v ids statuses mid opts q) = Inr () \<and>
      ey_state (fst (eddyq_start v ids statuses mid opts q)) = Ws_running cq \<and>
      runs_as v (cl_line (ey_client q)) hs n subs (ey_poll_only q) cq \<and>
      config_retention (pr_config (eq_process cq)) = asked_retention False opts) \<and>
    (\<exists>cq. snd (redis_start v ids mid' opts r) = Inr () \<and> er_state (fst (redis_start v ids mid' opts r)) = Ws_running cq \<and>
      runs_as v (er_line r) hs n subs False cq \<and> config_retention (pr_config (eq_process cq)) = asked_retention True opts)"
proof
  obtain fid maint wids where ids: "ids = (fid, maint, wids)" by (cases ids)
  obtain cq where "q_start (build fid maint wids (pg_builder v opts q hs n subs)) = (cq, Inr ())"
    "runs_as v (cl_line (ey_client q)) hs n subs (ey_poll_only q) cq" "config_retention (pr_config (eq_process cq)) = asked_retention False opts"
    using pg_tuning.started unfolding builders_eq by metis
  then show "\<exists>cq. snd (eddyq_start v ids statuses mid opts q) = Inr () \<and>
      ey_state (fst (eddyq_start v ids statuses mid opts q)) = Ws_running cq \<and>
      runs_as v (cl_line (ey_client q)) hs n subs (ey_poll_only q) cq \<and>
      config_retention (pr_config (eq_process cq)) = asked_retention False opts"
    using assms by (simp add: eddyq_start_def take_building_def ids)
  obtain cq where "q_start (build fid maint wids (redis_builder v opts r hs n subs)) = (cq, Inr ())"
    "runs_as v (er_line r) hs n subs False cq" "config_retention (pr_config (eq_process cq)) = asked_retention True opts"
    using redis_tuning.started unfolding builders_eq by metis
  then show "\<exists>cq. snd (redis_start v ids mid' opts r) = Inr () \<and> er_state (fst (redis_start v ids mid' opts r)) = Ws_running cq \<and>
      runs_as v (er_line r) hs n subs False cq \<and> config_retention (pr_config (eq_process cq)) = asked_retention True opts"
    using assms by (simp add: redis_start_def redis_take_building_def ids)
qed

theorem start_runs_what_was_configured_witness:
  "\<exists>cq. ey_state (fst (eddyq_start plain_js (1, 2, of_nat) (Inr []) id (Some keep_ten) ready_queue)) = Ws_running cq \<and>
     worker_concurrency (pr_config (eq_process cq)) = 1 \<and> pr_queues (eq_process cq) = [''mail''] \<and>
     rt_completed_secs (config_retention (pr_config (eq_process cq))) = None \<and>
     rt_completed_count (config_retention (pr_config (eq_process cq))) = None"
proof -
  have r: "ey_state ready_queue = Ws_building one_handler (Some 0) (Some [''mail''])"
    "er_state ready_redis = Ws_building one_handler (Some 0) (Some [''mail''])" "one_handler \<noteq> []"
    by (simp_all add: ready_queue_def ready_redis_def one_handler_def)
  have "migration_guard (Inr []) (Some keep_ten) = Inr ()" by (simp add: migration_guard_def unwrap_or_def)
  then obtain cq where "ey_state (fst (eddyq_start plain_js (1, 2, of_nat) (Inr []) id (Some keep_ten) ready_queue)) = Ws_running cq"
    "runs_as plain_js (cl_line (ey_client ready_queue)) one_handler (Some 0) (Some [''mail'']) (ey_poll_only ready_queue) cq"
    "config_retention (pr_config (eq_process cq)) = asked_retention False (Some keep_ten)"
    using start_runs_what_was_configured [OF r, THEN conjunct1] by blast
  then show ?thesis
    by (intro exI [of _ cq])
       (simp add: runs_as_def asked_retention_def asked_secs_def keep_ten_def retention_from_secs_def unwrap_or_def)
qed

end
