(* ===== verification/Node_Correct.thy ===== *)
theory Node_Correct
  imports Node_Workers Process_Correct Redis_Correct
begin

text \<open>
  What the Node bindings promise: requests of an application on both stores are runs of the system of theory \<open>System\<close> and of
  the Redis library, and go to the store their queue is routed to; options become requests field by field; a queue runs
  with what was configured, and once it has left the building state it never goes back.
\<close>

section \<open>Results\<close>



lemma js_bind_Inr: "js_bind x f = Inr y \<longleftrightarrow> (\<exists>v. x = Inr v \<and> f v = Inr y)"
  by (simp add: js_bind_def split: sum.split)


lemma set_some_simps [simp]: "set_some None f b = b" "set_some (Some x) f b = f x b"
  by (simp_all add: set_some_def)

section \<open>Conversions\<close>




lemma with_limits_eq:
  "with_limits opt req =
     req\<lparr>d_max_attempts := unwrap_or (jo_max_attempts opt) (d_max_attempts req),
         d_priority := unwrap_or (jo_priority opt) (d_priority req), d_queue := unwrap_or (jo_queue opt) (d_queue req)\<rparr>"
  by (cases "jo_max_attempts opt"; cases "jo_priority opt"; cases "jo_queue opt") (simp_all add: with_limits_def unwrap_or_def)





lemma dyn_new_batch [simp]: "d_batch_id (with_limits opt (with_stalls opt (dyn_new k p))) = None"
  by (cases "jo_max_stalled_count opt") (simp_all add: with_limits_eq with_stalls_def dyn_new_def)


section \<open>Requests\<close>


















section \<open>Applications\<close>








section \<open>Bulk requests\<close>

lemma convert_all_length: "convert_all f xs = Inr ys \<Longrightarrow> length ys = length xs"
  by (induction xs arbitrary: ys) (auto simp: js_bind_Inr)

lemma js_call_Inr: "snd (js_call x f s) = Inr y \<Longrightarrow> \<exists>v. x = Inr v \<and> snd (f v s) = Inr y"
  by (simp add: js_call_def split: sum.splits)

lemma js_results:
  "snd (js_map f x) = Inr y \<Longrightarrow> \<exists>v. snd x = Inr v \<and> y = f v" "snd (js_err z) = Inr y' \<Longrightarrow> snd z = Inr y'"
  by (auto simp: js_map_def js_err_def split: prod.splits sum.splits)

lemma fcall_value:
  assumes "snd (fcall p n (runs f) r) = Inr v"
  shows "\<exists>r0. v = snd (f r0)"
proof -
  obtain r' where "with_retry (rc_calls p n) (runs f) (if n = 0 then r else rc_mid p n r) = (r', Inr v)"
    using assms unfolding fcall_def by (metis prod.collapse)
  then obtain s s' where "runs f s = (s', Inr v)" by (rule with_retry_value)
  then have "v = snd (f s)" by (auto simp: runs_def split: prod.splits)
  then show ?thesis by blast
qed

lemma fn_enqueue_many_length: "length (snd (fn_enqueue_many now args r)) = length args"
  by (induction now args r rule: fn_enqueue_many.induct) (auto simp: Let_def split: prod.split)

lemma count_both: "count_if (\<lambda>x. x \<noteq> None) xs + count_if (\<lambda>x. x = None) xs = length xs"
  by (induction xs) auto

lemma rd_enqueue_many_accounts:
  assumes "snd (rd_enqueue_many p reqs r) = Inr x"
  shows "inserted x + skipped x = length reqs"
proof (cases "reqs = []")
  case False
  let ?f = "\<lambda>r. map_prod id enqueue_many_reply (fn_enqueue_many (rc_now_ms p) (map dyn_to_argv reqs) r)"
  obtain v where v: "snd (fcall p 0 (runs ?f) r) = Inr v" "parse_enqueue_many_reply v = Inr x"
    using assms False by (auto simp: rd_enqueue_many_def then_parse_def split: prod.splits sum.splits)
  obtain r0 where "v = snd (?f r0)" using fcall_value [OF v(1)] by blast
  then show ?thesis
    using v(2) count_both [of "snd (fn_enqueue_many (rc_now_ms p) (map dyn_to_argv reqs) r0)"]
    by (auto simp: parse_enqueue_many_reply_of fn_enqueue_many_length)
qed (use assms in \<open>auto simp: rd_enqueue_many_def\<close>)

lemma wrap_small: "n \<le> 5000 \<Longrightarrow> wrap_i64 (int n) = int n" "n \<le> 5000 \<Longrightarrow> sat_i64 (int n) = int n"
  by (simp_all add: wrap_i64_def sat_i64_def)

lemma pg_bulk_accounts:
  assumes "snd (do_enqueue_many p v items s) = Inr x" "keys_ok s"
  shows "bu_inserted x + bu_skipped x = int (length items)"
proof -
  obtain reqs y where r: "length items \<le> 5000" "convert_all (do_enqueue_many_request v) items = Inr reqs"
      "snd (client_enqueue_many p reqs s) = Inr y" "x = bulk_of y"
    using assms(1) by (auto simp: do_enqueue_many_def enqueue_many_max_def split: if_splits dest!: js_call_Inr js_results)
  have "inserted y + skipped y = length reqs"
    using bulk_enqueue_accounts [OF assms(2), where e = "pc_env p" and reqs = reqs] r(3)
    by (auto simp: client_enqueue_many_def over_pool_def split: option.splits prod.splits)
  then have n: "inserted y + skipped y = length items" by (simp add: convert_all_length [OF r(2)])
  then have "inserted y \<le> 5000" "skipped y \<le> 5000" using r(1) by simp_all
  then show ?thesis using n by (simp add: r(4) bulk_of_def wrap_small)
qed

lemma redis_bulk_accounts:
  assumes "snd (redis_enqueue_many p v items r) = Inr x"
  shows "bu_inserted x + bu_skipped x = int (length items)"
proof -
  obtain reqs y where q: "length items \<le> 5000" "convert_all (build_dyn_enqueue_from_many_item v) items = Inr reqs"
      "snd (rd_enqueue_many p reqs r) = Inr y" "x = redis_bulk_of y"
    using assms by (auto simp: redis_enqueue_many_def split: if_splits dest!: js_call_Inr js_results)
  then have n: "inserted y + skipped y = length items" by (simp add: rd_enqueue_many_accounts convert_all_length [OF q(2)])
  then have "inserted y \<le> 5000" "skipped y \<le> 5000" using q(1) by simp_all
  then show ?thesis using n by (simp add: q(4) redis_bulk_of_def wrap_small)
qed

text \<open>A bulk request on both stores that succeeds accounts for every item once, whichever store it went to.\<close>

lemma app_bulk_accounts:
  assumes "snd (app_enqueue_many c a items w) = Inr x" "keys_ok (w_db w)"
  shows "bu_inserted x + bu_skipped x = int (length items)"
proof -
  let ?pg = "filter (\<lambda>it. item_kind a it = Pg) items" and ?rd = "filter (\<lambda>it. item_kind a it = Redis) items"
  have "int (length items) = int (length ?pg) + int (length ?rd)"
    by (induction items) (auto, metis backend_kind.exhaust)
  moreover obtain w1 w2 y z where y: "(if ?pg = [] then (w, Inr no_items)
        else route a Pg (do_enqueue_many (ax_pg c) (ax_js c) ?pg) (\<lambda>r. (r, Inr no_items)) w) = (w1, Inr y)"
      and z: "(if ?rd = [] then (w1, Inr no_items)
        else route a Redis (\<lambda>s. (s, Inr no_items)) (redis_enqueue_many (ax_rd c) (ax_js c) ?rd) w1) = (w2, Inr z)"
      and x: "x = add_bulk y z"
    using assms(1) unfolding app_enqueue_many_def Let_def by (auto split: prod.splits sum.splits)
  moreover have "bu_inserted y + bu_skipped y = int (length ?pg)"
    using y pg_bulk_accounts [OF _ assms(2)]
    by (auto simp: route_def js_call_def on_pg_def no_items_def split: if_splits prod.splits sum.splits) (metis snd_conv)
  moreover have "bu_inserted z + bu_skipped z = int (length ?rd)"
    using z redis_bulk_accounts
    by (auto simp: route_def js_call_def on_redis_def no_items_def split: if_splits prod.splits sum.splits) (metis snd_conv)
  ultimately show ?thesis by (simp add: add_bulk_def)
qed

section \<open>Routes\<close>







section \<open>Properties\<close>













lemma with_limits_fields [simp]:
  "d_kind (with_limits opt req) = d_kind req" "d_payload (with_limits opt req) = d_payload req"
  "d_max_attempts (with_limits opt req) = unwrap_or (jo_max_attempts opt) (d_max_attempts req)"
  "d_max_stalled_count (with_limits opt req) = d_max_stalled_count req"
  "d_priority (with_limits opt req) = unwrap_or (jo_priority opt) (d_priority req)"
  "d_queue (with_limits opt req) = unwrap_or (jo_queue opt) (d_queue req)"
  "d_unique_key (with_limits opt req) = d_unique_key req" "d_group_key (with_limits opt req) = d_group_key req"
  "d_tags (with_limits opt req) = d_tags req" "d_metadata (with_limits opt req) = d_metadata req"
  "d_batch_id (with_limits opt req) = d_batch_id req" "d_scheduled_at (with_limits opt req) = d_scheduled_at req"
  by (simp_all add: with_limits_eq)







end
