(* ===== verification/Command_Line.thy ===== *)
theory Command_Line
  imports Migrate
begin

text \<open>
  \<open>crates/eddyq-cli/src/main.rs\<close>: the command line. Clap's parsing of the arguments is left out; a command arrives parsed. What
  it prints is a list of texts on standard output and standard error. Parameters: \<open>pool\<close>, whether a connection to a URL can be
  made; \<open>exec\<close>, the effect of a migration's SQL; \<open>sql\<close>, the text of a migration; \<open>fmt\<close>, chrono's rendering of a time.
\<close>

section \<open>Commands\<close>

datatype direction_arg = Arg_up | Arg_down

record db_args =
  da_database_url :: string
  da_line :: string

record get_args =
  ga_version :: int
  ga_direction :: direction_arg

record down_args = db_args +
  wa_max_steps :: nat
  wa_confirm :: bool

datatype migrate_cmd = Run_cmd db_args | List_cmd db_args | Get_cmd get_args | Down_cmd down_args

datatype command = Migrate_cmd migrate_cmd | Jobs_cmd | Groups_cmd | Drain_cmd

definition direction_of :: "direction_arg \<Rightarrow> direction" where
  "direction_of d = (case d of Arg_up \<Rightarrow> Up | Arg_down \<Rightarrow> Down)"

text \<open>An error with the context \<open>anyhow\<close> puts before it, and a message of its own.\<close>

datatype cli_error = With_context string error | Bail string

datatype printed = Out string | Err string

definition out_line :: "string \<Rightarrow> printed" where
  "out_line s = Out (s @ [char_of (10::nat)])"

definition err_line :: "string \<Rightarrow> printed" where
  "err_line s = Err (s @ [char_of (10::nat)])"

definition line_tag :: "string \<Rightarrow> string" where
  "line_tag line = ''[line='' @ line @ '']''"

text \<open>\<open>{:<n}\<close>\<close>

definition pad :: "nat \<Rightarrow> string \<Rightarrow> string" where
  "pad n s = s @ replicate (n - length s) (char_of (32::nat))"

definition version_line :: "string \<Rightarrow> int \<times> string \<Rightarrow> string" where
  "version_line mark x = (case x of (v, name) \<Rightarrow> ''  '' @ mark @ '' '' @ show_int v @ ''  '' @ name)"

section \<open>Running\<close>

definition connect :: "(string \<Rightarrow> unit res) \<Rightarrow> string \<Rightarrow> cli_error + unit" where
  "connect pool url = (case pool url of Inl e \<Rightarrow> Inl (With_context (''failed to connect to '' @ url) e) | Inr _ \<Rightarrow> Inr ())"

definition run_report :: "string \<Rightarrow> migrate_report \<Rightarrow> printed list" where
  "run_report line report =
     (if mr_applied report = [] then [out_line (''eddyq '' @ line_tag line @ '': schema already up to date.'')]
      else out_line (''eddyq '' @ line_tag line @ '': applied '' @ show_nat (length (mr_applied report)) @ '' migration(s):'') #
           map (\<lambda>x. out_line (version_line ''+'' x)) (mr_applied report))"

definition list_report :: "(timestamp \<Rightarrow> string) \<Rightarrow> string \<Rightarrow> (int \<times> string \<times> timestamp option) list \<Rightarrow> printed list" where
  "list_report fmt line statuses =
     [out_line (''line: '' @ line),
      out_line (pad 5 ''#'' @ '' '' @ pad 16 ''version'' @ '' '' @ pad 10 ''name'' @ '' applied_at''),
      out_line (replicate 60 (char_of (45::nat)))] @
     map (\<lambda>(i, v, name, t).
            out_line (pad 5 (show_nat (i + 1)) @ '' '' @ pad 16 (show_int v) @ '' '' @ pad 10 name @ '' '' @
              (case t of Some x \<Rightarrow> fmt x | None \<Rightarrow> em_dash @ '' pending '' @ em_dash)))
       (enumerate 0 statuses)"

text \<open>The migrations a dry run lists: the newest applied ones that the registry knows.\<close>

definition to_drop :: "nat \<Rightarrow> (int \<times> string \<times> timestamp option) list \<Rightarrow> (int \<times> string) list" where
  "to_drop max_steps statuses =
     map (\<lambda>(v, name, t). (v, name)) (take max_steps (filter (\<lambda>(v, name, t). t \<noteq> None) (rev statuses)))"

definition dry_run_report :: "string \<Rightarrow> (int \<times> string) list \<Rightarrow> printed list" where
  "dry_run_report line drops =
     err_line (''DRY RUN '' @ line_tag line @ ''. Would roll back '' @ show_nat (length drops) @ '' migration(s):'') #
     map (\<lambda>x. err_line (version_line ''-'' x)) drops @
     [err_line (char_of (10::nat) # ''Re-run with --confirm to execute.'')]"

definition down_report :: "string \<Rightarrow> migrate_report \<Rightarrow> printed list" where
  "down_report line report =
     (if mr_rolled_back report = [] then [out_line (''eddyq '' @ line_tag line @ '': nothing to roll back.'')]
      else out_line (''eddyq '' @ line_tag line @ '': rolled back '' @ show_nat (length (mr_rolled_back report)) @ '' migration(s):'') #
           map (\<lambda>x. out_line (version_line ''-'' x)) (mr_rolled_back report))"

fun run_migrate ::
  "(string \<Rightarrow> unit res) \<Rightarrow> 's exec \<Rightarrow> (int \<Rightarrow> direction \<Rightarrow> string) \<Rightarrow> (timestamp \<Rightarrow> string) \<Rightarrow> timestamp \<Rightarrow> migrate_cmd \<Rightarrow>
     's mig_state \<Rightarrow> 's mig_state \<times> printed list \<times> (cli_error + unit)" where
  "run_migrate pool exec sql fmt now (Run_cmd args) s =
     (case connect pool (da_database_url args) of
        Inl e \<Rightarrow> (s, [], Inl e)
      | Inr _ \<Rightarrow>
          (case up exec now (da_line args) s of
             (s', Inl e) \<Rightarrow> (s', [], Inl (With_context ''migrate up failed'' e))
           | (s', Inr report) \<Rightarrow> (s', run_report (da_line args) report, Inr ())))"
| "run_migrate pool exec sql fmt now (List_cmd args) s =
     (case connect pool (da_database_url args) of
        Inl e \<Rightarrow> (s, [], Inl e)
      | Inr _ \<Rightarrow> (s, list_report fmt (da_line args) (status (da_line args) s), Inr ()))"
| "run_migrate pool exec sql fmt now (Get_cmd args) s =
     (case get_sql sql (ga_version args) (direction_of (ga_direction args)) of
        Some text \<Rightarrow> (s, [Out text], Inr ())
      | None \<Rightarrow> (s, [], Inl (Bail (''no migration found for version '' @ show_int (ga_version args) @
                          ''; `eddyq migrate list` to see known versions''))))"
| "run_migrate pool exec sql fmt now (Down_cmd args) s =
     (case connect pool (da_database_url args) of
        Inl e \<Rightarrow> (s, [], Inl e)
      | Inr _ \<Rightarrow>
          if \<not> wa_confirm args then
            (s, dry_run_report (da_line args) (to_drop (wa_max_steps args) (status (da_line args) s)), Inr ())
          else
            (case down exec (da_line args) (wa_max_steps args) s of
               (s', Inl e) \<Rightarrow> (s', [], Inl (With_context ''migrate down failed'' e))
             | (s', Inr report) \<Rightarrow> (s', down_report (da_line args) report, Inr ())))"

definition main ::
  "(string \<Rightarrow> unit res) \<Rightarrow> 's exec \<Rightarrow> (int \<Rightarrow> direction \<Rightarrow> string) \<Rightarrow> (timestamp \<Rightarrow> string) \<Rightarrow> timestamp \<Rightarrow> command \<Rightarrow>
     's mig_state \<Rightarrow> 's mig_state \<times> printed list \<times> (cli_error + unit)" where
  "main pool exec sql fmt now cmd s =
     (case cmd of
        Migrate_cmd mc \<Rightarrow> run_migrate pool exec sql fmt now mc s
      | _ \<Rightarrow> (s, [], Inl (Bail ''not implemented yet; coming in a later phase'')))"

section \<open>Rolling back\<close>

lemma descending_unique:
  fixes xs ys :: "int list"
  assumes "sorted (map uminus xs)" "distinct xs" "sorted_wrt (<) (map uminus ys)" "set xs = set ys"
  shows "xs = ys"
proof -
  have "distinct (map uminus xs)" using assms(2) by (simp add: distinct_map)
  then have "map uminus xs = map uminus ys"
    using assms by (intro sorted_distinct_set_unique) (simp_all add: strict_sorted_iff)
  then show ?thesis by (simp add: inj_map_eq_map)
qed

text \<open>The rows \<open>down\<close> goes through, newest first, are the applied migrations of the registry when every applied version is known.\<close>

lemma newest_first:
  assumes "tracking_ok s" "versions line s \<subseteq> m_version ` set migrations"
  shows "map a_version (sort_key (\<lambda>r. - a_version r) (list_applied line s)) =
    map m_version (filter (\<lambda>m. m_version m \<in> versions line s) (rev migrations))"
proof -
  let ?d = "map a_version (sort_key (\<lambda>r. - a_version r) (list_applied line s))"
  let ?m = "map m_version (filter (\<lambda>m. m_version m \<in> versions line s) (rev migrations))"
  have "distinct (map (\<lambda>r. (a_line r, a_version r)) (filter (\<lambda>r. a_line r = line) (applied s)))"
    using assms(1) by (simp add: tracking_ok_def distinct_map_filter)
  then have "distinct (map a_version (filter (\<lambda>r. a_line r = line) (applied s)))"
    by (auto simp: distinct_map inj_on_def)
  then have d: "distinct ?d" by (simp add: list_applied_def distinct_map_sort_key)
  have "sorted (map uminus ?d)" using sorted_sort_key [of "\<lambda>r. - a_version r" "list_applied line s"] by (simp add: comp_def)
  moreover have "sorted_wrt (<) (map m_version (filter (\<lambda>m. m_version m \<in> versions line s) migrations))"
    using migrations_sorted by (simp add: sorted_wrt_map sorted_wrt_filter)
  then have "sorted_wrt (<) (map uminus ?m)"
    by (simp add: rev_filter [symmetric] rev_map [symmetric] sorted_wrt_rev sorted_wrt_map)
  moreover have "set ?d = set ?m"
    using assms(2) list_applied_versions [of line s] by auto
  ultimately show ?thesis using d by (intro descending_unique)
qed

lemma to_drop_eq:
  "to_drop n (status line s) =
     map (\<lambda>m. (m_version m, m_name m)) (take n (filter (\<lambda>m. m_version m \<in> versions line s) (rev migrations)))"
proof -
  define at_time where "at_time = map_of (map (\<lambda>r. (a_version r, a_applied_at r)) (rev (list_applied line s)))"
  have st: "status line s = map (\<lambda>m. (m_version m, m_name m, at_time (m_version m))) migrations"
    by (simp add: status_def at_time_def)
  have "at_time (m_version m) \<noteq> None \<longleftrightarrow> m_version m \<in> versions line s" if "m \<in> set migrations" for m
    using status_versions [of line s] that by (simp add: st comp_def)
  then have "filter (\<lambda>m. at_time (m_version m) \<noteq> None) (rev migrations) = filter (\<lambda>m. m_version m \<in> versions line s) (rev migrations)"
    by (intro filter_cong) auto
  then show ?thesis by (simp add: to_drop_def st rev_map filter_map take_map comp_def)
qed

lemma find_own:
  assumes "m \<in> set migrations"
  shows "find_migration (m_version m) = Some m"
proof -
  have "distinct (map m_version ms) \<Longrightarrow> m \<in> set ms \<Longrightarrow> find (\<lambda>x. m_version x = m_version m) ms = Some m" for ms
    by (induction ms) (auto simp: image_iff)
  then show ?thesis using migrations_distinct assms by (simp add: find_migration_def)
qed

text \<open>\<open>down\<close> on rows that are all known, when no rollback fails.\<close>

lemma down_loop_known:
  assumes "map a_version rs = map m_version ms" "set ms \<subseteq> set migrations" "\<And>v s. \<exists>s'. exec v Down s = Inr s'"
  shows "\<exists>s'. down_loop exec line rs s = (s', map (\<lambda>m. (m_version m, m_name m)) ms, None)"
  using assms(1,2)
proof (induction rs arbitrary: ms s)
  case (Cons r rs)
  then obtain m ms' where ms: "ms = m # ms'" "a_version r = m_version m" "map a_version rs = map m_version ms'" by (cases ms) auto
  obtain sch where sch: "exec (m_version m) Down (schema s) = Inr sch" using assms(3) by blast
  obtain s' where "down_loop exec line rs (s\<lparr>schema := sch, applied := delete_where (\<lambda>x. a_line x = line \<and> a_version x = m_version m) (applied s)\<rparr>) =
      (s', map (\<lambda>m. (m_version m, m_name m)) ms', None)" using Cons.IH [OF ms(3)] Cons.prems(2) ms(1) by auto
  then show ?case using Cons.prems(2) by (simp add: ms find_own sch)
qed simp

text \<open>A version that the program does not know uses up a step of \<open>down\<close>, though not of the dry run.\<close>

lemma unknown_version_uses_a_step:
  assumes "applied s = [record_migration 5 ''main'' \<lparr>m_version = 20260421000001, m_name = ''init''\<rparr>,
    record_migration 6 ''main'' \<lparr>m_version = 30000101000001, m_name = ''later''\<rparr>]"
  shows "to_drop 1 (status ''main'' s) = [(20260421000001, ''init'')]"
    "down exec ''main'' 1 s = (s, Inr \<lparr>mr_applied = [], mr_rolled_back = []\<rparr>)"
proof -
  have v: "versions ''main'' s = {20260421000001, 30000101000001}" by (auto simp: versions_def assms record_migration_def)
  show "to_drop 1 (status ''main'' s) = [(20260421000001, ''init'')]" unfolding to_drop_eq v by (simp add: migrations_def)
  show "down exec ''main'' 1 s = (s, Inr \<lparr>mr_applied = [], mr_rolled_back = []\<rparr>)"
    by (simp add: down_def list_applied_def assms record_migration_def find_migration_def migrations_def)
qed

text \<open>C30: a dry run tells the truth. When every applied version of the line is one the program knows and no rollback fails, the
  migrations that \<open>migrate down\<close> lists without \<open>--confirm\<close> are exactly those that it rolls back with it, in that order; the
  dry run itself changes nothing, and afterwards exactly the listed versions are gone.\<close>

theorem dry_run_predicts_rollback:
  assumes "tracking_ok s" "versions (da_line args) s \<subseteq> m_version ` set migrations" "\<forall>v s. \<exists>s'. exec v Down s = Inr s'"
    "pool (da_database_url args) = Inr ()"
  shows "run_migrate pool exec sql fmt now (Down_cmd (args\<lparr>wa_confirm := False\<rparr>)) s =
      (s, dry_run_report (da_line args) (to_drop (wa_max_steps args) (status (da_line args) s)), Inr ()) \<and>
    (\<exists>s'. run_migrate pool exec sql fmt now (Down_cmd (args\<lparr>wa_confirm := True\<rparr>)) s =
        (s', down_report (da_line args) \<lparr>mr_applied = [], mr_rolled_back = to_drop (wa_max_steps args) (status (da_line args) s)\<rparr>, Inr ()) \<and>
      versions (da_line args) s' = versions (da_line args) s - fst ` set (to_drop (wa_max_steps args) (status (da_line args) s)))"
proof -
  let ?n = "wa_max_steps args" and ?line = "da_line args"
  let ?ms = "take ?n (filter (\<lambda>m. m_version m \<in> versions ?line s) (rev migrations))"
  let ?rs = "take ?n (sort_key (\<lambda>r. - a_version r) (list_applied ?line s))"
  have "map a_version ?rs = map m_version ?ms" using newest_first [OF assms(1,2)] by (simp add: take_map [symmetric])
  moreover have "set ?ms \<subseteq> set migrations" by (auto dest: in_set_takeD)
  ultimately obtain s' where s': "down_loop exec ?line ?rs s = (s', to_drop ?n (status ?line s), None)"
    using down_loop_known [of ?rs ?ms exec ?line s] assms(3) unfolding to_drop_eq by blast
  then show ?thesis using down_loop_versions(1) [OF s'] assms(4) by (simp add: connect_def down_def)
qed

definition down_two :: down_args where
  "down_two = \<lparr>da_database_url = ''db'', da_line = ''main'', wa_max_steps = 2, wa_confirm = False\<rparr>"

definition three_applied :: "nat mig_state" where
  "three_applied = \<lparr>applied = map (record_migration 5 ''main'') (take 3 migrations), schema = 3\<rparr>"

theorem dry_run_predicts_rollback_witness:
  "\<exists>s'. run_migrate (\<lambda>_. Inr ()) (\<lambda>v d n. Inr (n - 1)) (\<lambda>_ _. []) (\<lambda>_. []) 9 (Down_cmd (down_two\<lparr>wa_confirm := True\<rparr>)) three_applied =
     (s', down_report ''main'' \<lparr>mr_applied = [], mr_rolled_back = [(20260511000001, ''schedule_intervals''), (20260509000001, ''batches'')]\<rparr>, Inr ())"
proof -
  have v: "versions (da_line down_two) three_applied = {20260421000001, 20260509000001, 20260511000001}"
    by (auto simp: versions_def three_applied_def down_two_def record_migration_def migrations_def)
  have "versions (da_line down_two) three_applied \<subseteq> m_version ` set migrations" unfolding v by (simp add: migrations_def)
  moreover have "tracking_ok three_applied" by (simp add: tracking_ok_def three_applied_def record_migration_def migrations_def)
  moreover have "to_drop (wa_max_steps down_two) (status (da_line down_two) three_applied) =
      [(20260511000001, ''schedule_intervals''), (20260509000001, ''batches'')]"
    unfolding to_drop_eq v by (simp add: migrations_def down_two_def)
  moreover have "da_line down_two = ''main''" by (simp add: down_two_def)
  ultimately show ?thesis
    using dry_run_predicts_rollback [of three_applied down_two "\<lambda>v d n. Inr (n - 1)" "\<lambda>_. Inr ()" "\<lambda>_ _. []" "\<lambda>_. []" 9]
    by (auto simp del: run_migrate.simps)
qed

end
