(* ===== verification/Spec2Isabelle.thy ===== *)
theory Spec2Isabelle
  imports Process_Correct Maintenance_Correct Policy_Correct Redis_Correct Node_Correct Command_Line
begin

text \<open>
  eddyq is a job queue: applications enqueue jobs into a store, and the processes of a fleet claim them, run the
  registered handlers and report the outcome. This development verifies the core crate, \<open>crates/eddyq-core\<close>, with its
  Postgres store, the Redis store of \<open>crates/eddyq-redis\<close>, the runtime that every process runs on top of either, and the
  ways in: the client crate \<open>crates/eddyq-client\<close>, the Node bindings \<open>crates/eddyq-napi\<close> and the command line
  \<open>crates/eddyq-cli\<close>. Paths below are relative to \<open>crates/eddyq-core/src\<close>, those of the Redis theories to
  \<open>crates/eddyq-redis/src\<close>, those of the last group to \<open>crates\<close>.

  \<^bold>\<open>The parts and their theories.\<close>

  \<^item> \<open>Prelude\<close> holds the vocabulary all parts share: bounded machine integers, timestamps and durations, results as
    sums, the transaction and connection types, tables as lists of rows with \<open>update_where\<close> and \<open>count_if\<close>, and the
    collections of simplification rules the proofs use. \<open>Jobs\<close> is \<open>job.rs\<close>, \<open>error.rs\<close> and \<open>retention.rs\<close>; \<open>Schema\<close> is
    the database state with the constraints of \<open>migrations/\<close> (primary keys, the partial unique index, the CHECKs, the
    foreign key of a job to its batch); \<open>Counters\<close> holds the invariant of the \<open>running_count\<close> columns; \<open>Samples\<close> and
    \<open>Sample_Run\<close> hold the concrete databases and runs that witnesses evaluate.
  \<^item> \<open>Named_Queues\<close> (\<open>named_queue.rs\<close>) and \<open>Job_Groups\<close> (\<open>group.rs\<close>): administration of queues, groups and group rules,
    with \<open>LIKE\<close> matching written out.
  \<^item> \<open>Enqueue\<close> (\<open>enqueue.rs\<close>, \<open>build_dyn_enqueue\<close> of \<open>queue.rs\<close>): single and bulk inserts, typed and dynamic, pooled and
    transactional. \<open>Batches\<close> (\<open>batch.rs\<close>): batches, the settling of their jobs and the completion callback.
  \<^item> \<open>Claim\<close> (\<open>claim_batch\<close> of \<open>fetch.rs\<close>), in the five phases of the source; \<open>Claim_Safety\<close> and \<open>Claim_Limits\<close> prove
    what each phase contributes. \<open>Settle\<close> (the rest of \<open>fetch.rs\<close>): completion, failure, cancellation, heartbeats,
    stale sweep, reclaim and reconciliation. \<open>Cleanup\<close>: retention. \<open>Schedules\<close> (\<open>schedule.rs\<close>), \<open>Leadership\<close>
    (\<open>leader.rs\<close>), \<open>Backoff\<close> (\<open>retry.rs\<close>), \<open>Migrate\<close> (\<open>migrate.rs\<close>), \<open>Stats\<close> (\<open>stats.rs\<close>).
  \<^item> \<open>System\<close>: the store as a transition system. One step is one operation of any process; \<open>reachable\<close> closes the empty
    database under them. It proves the invariant \<open>db_ok\<close> and the history of every job and batch for each operation.
  \<^item> \<open>Backend\<close> (\<open>backend/mod.rs\<close>, \<open>backend/pg.rs\<close>): the trait as a record of operations over a state, and the Postgres
    backend as its instance. \<open>Config\<close> (\<open>worker.rs\<close>, builder and configuration of \<open>queue.rs\<close>): handlers and settings.
    \<open>Runtime\<close> (\<open>runtime.rs\<close>): the loops of a process, cut at their await points into atomic steps on the shared
    semaphore, channel, in-flight set and flags. \<open>Process\<close>: the process as a step relation, its invariants, and the
    locales \<open>runtime_backend\<close> and \<open>runtime_store\<close> that state what the runtime needs of a store. \<open>Eddy_Queue\<close> (the rest of
    \<open>queue.rs\<close>): the handle, start and shutdown.
  \<^item> \<open>Claim_Correct\<close>, \<open>Enqueue_Correct\<close>, \<open>Settle_Correct\<close>, \<open>Maintenance_Correct\<close>, \<open>Policy_Correct\<close>, \<open>Process_Correct\<close> and
    this theory state the properties, each with an evaluated instance. \<open>Process_Correct\<close> interprets the locales on the
    Postgres backend and on the steps of \<open>System\<close>.
  \<^item> The Redis store. \<open>Redis_Store\<close> (\<open>keys.rs\<close> and the key layout of \<open>functions/library.lua\<close>): the store as a record of
    hashes, sorted sets and sets. \<open>Redis_Functions\<close>, \<open>Redis_Settle\<close> and \<open>Redis_Admin\<close>: every function the Lua library
    registers, as one atomic step on the store. \<open>Redis_Wire\<close> (\<open>bootstrap.rs\<close>, \<open>error.rs\<close>, the parsers of \<open>backend.rs\<close>):
    replies, their parsing, and the call with its reload of a missing library. \<open>Redis_Backend\<close> (\<open>backend.rs\<close>): the
    methods of the trait. \<open>Redis_Invariant\<close> states the invariant \<open>redis_ok\<close> of the store, \<open>Redis_Steps\<close> shows that every
    function keeps it, \<open>Redis_Claims\<close> what a claim does, \<open>Redis_Replies\<close> that replies are read as written.
    \<open>Redis_Clients\<close> has the locale \<open>library_client\<close>: whatever relation on stores the functions and other clients respect,
    every method respects; it is interpreted on the steps of the library and on its runs. \<open>Redis_Correct\<close> states the
    properties and interprets \<open>runtime_store\<close> on the Redis backend.
  \<^item> The ways in. \<open>Client\<close> (\<open>eddyq-client/src/lib.rs\<close>): the facade without handlers, each method the call it makes. The
    Node bindings (\<open>eddyq-napi/src/lib.rs\<close>): \<open>Node_Options\<close> has the option objects, their conversion to requests, filters
    and settings, the conversion of rows and the handler that calls a JavaScript function; \<open>Node_Queue\<close> is the class
    \<open>Eddyq\<close> on Postgres, \<open>Node_Redis\<close> the class \<open>EddyqRedis\<close>, \<open>Node_App\<close> the class \<open>EddyqApp\<close> that routes each queue to one
    of the two. \<open>Node_Workers\<close> has the locales \<open>lifecycle\<close> (the three worker states of both classes) and \<open>tuning\<close> (what a
    start relies on in its options), each interpreted on both classes, and the properties of starting; \<open>Node_Correct\<close> has
    the properties of requests. \<open>Command_Line\<close> (\<open>eddyq-cli/src/main.rs\<close>): the commands after parsing and what they print.

  \<^bold>\<open>How the code is rendered.\<close> A table is a list of rows, a row a record with the columns as fields. A statement sees
  one state and returns the next; a transaction is a function to an error or to a new state and a value, whose error
  leaves the state as it was; a pooled connection commits statement by statement, which shows where the code is not
  atomic. What the database chooses is an argument: \<open>now()\<close> and the wall clocks, which rows \<open>SKIP LOCKED\<close> passes over,
  the configuration the unlocked read of a claim saw, the order of hash maps and of rows without \<open>ORDER BY\<close>, the answer of
  advisory locks, a lost connection (\<open>env\<close>, \<open>claim_env\<close>, \<open>pg_ctx\<close>). The theorems hold for every choice, or name what they
  ask of it: \<open>order_ok\<close>, \<open>scan_ok\<close> and \<open>due_scan_ok\<close> say that an order is a permutation, \<open>rng_ok\<close> that a random number is
  in its range. The cron crate, the migration texts, serde's encoding of a payload, the handlers and the rendering of
  a clock in an error entry are arguments too. Integers are unbounded where a column or a check bounds them and
  saturate, wrap or are checked where the code does so; \<open>Duration\<close> is its number of nanoseconds with its
  maximum, timestamps are microseconds.

  A function of the Redis library runs atomically and sees the clock of its caller; \<open>rd_ctx\<close> holds the clocks, what
  becomes of each command of a method (answered, refused, or run with the answer lost) and what other clients do between
  two of them. Hash fields are options, JSON text is the value it encodes, and scores are integers. The invariant of the
  Redis store is shown for runs whose reports come in time, which is to say about jobs that still run (\<open>in_time\<close>);
  \<open>redis_late_report_leaks_slot\<close> shows what a late one can do.

  A call from Node takes a \<open>js_env\<close> (chrono's clock, the dates it can represent, its texts, serde's reading of an error
  envelope) and returns a value or a \<open>napi_error\<close>; a \<open>world\<close> is the pair of stores an application uses. Objects are passed
  and returned; \<open>mid\<close> is what other calls do to an object while \<open>start\<close> waits, \<open>drain\<close> and \<open>wait\<close> are the run of the
  process until its tasks have ended. The calls of the abort handler and of the core that a shutdown makes are a list of
  events. A JavaScript function is a function of the call and a seed to what its promise comes to.

  The loops are structural or have a measure: the two loose index scans of a claim walk the finite set of group keys; a
  Redis claim pages through a wait set and reads at most \<open>claim_scan_limit\<close> entries plus a page, a cleanup makes at most
  \<open>max_rounds\<close> calls, both as in the source; migrations walk their list; only \<open>drain_ends\<close> speaks of a loop that waits for others, and shows a measure that every
  step reduces and that some step is always possible. Sleeping takes no time: a timer may fire whenever its task
  is scheduled, so the theorems about runs cover every timing. Error texts that the code composes from its arguments
  are kept where they are stored or returned to the caller as data, and abbreviated in the errors of the database.

  \<^bold>\<open>What is shown.\<close> Every reachable database satisfies the invariant, jobs follow their life cycle, finished jobs stay
  finished and callbacks are claimed once (this theory). A claim respects the caps of queues and groups and the token
  buckets, returns what it started, makes progress, and takes jobs by priority (\<open>Claim_Correct\<close>). Enqueueing deduplicates,
  bulk inserts are all or nothing, typed and dynamic requests agree, a batch fires at its last job (\<open>Enqueue_Correct\<close>).
  Late reports are ignored, sweeps recover exactly the stale jobs and a bounded number of times, drift is repaired
  (\<open>Settle_Correct\<close>). Retention keeps live jobs, ticks fire due schedules once, leases exclude each other
  (\<open>Maintenance_Correct\<close>). Backoff, patterns, rules and migrations do what they say (\<open>Policy_Correct\<close>), as do statistics
  and listings (\<open>Stats\<close>). A process refines the system, accounts for its worker slots, keeps what it holds alive, paces
  itself, drains, and reports what handlers did (\<open>Process_Correct\<close>). Some theorems prove a defect: a callback with an
  invalid queue blocks the last job of its batch, an exhausted schedule blocks every tick, a pooled enqueue can fail
  after inserting, a clean drain can strand a job, an escalated drain can take a job from another process.

  On Redis, every run whose reports come in time keeps each job in exactly the sets of its state, queue and group and each
  unique key with the live job that holds it; claims start what they return and keep to the limits of queues and groups;
  enqueueing deduplicates by key; statistics are exact; replies are read as they were written and are well typed; a process
  on Redis changes the store by functions of the library only and accounts for its worker slots (\<open>Redis_Correct\<close>).

  An application on both stores changes them only by steps they know, so both invariants hold whatever it asks for; its
  requests run on the store of their route and leave the other alone; an item means the same job in every conversion, but
  for the stall budget on Redis (\<open>Node_Correct\<close>). A start runs what was configured, and one that fails is final
  (\<open>Node_Workers\<close>). A dry run of a rollback lists what the rollback does (\<open>Command_Line\<close>).

  \<^bold>\<open>Not modelled.\<close> Rounding of floating-point numbers (token buckets are real numbers), the range of chrono's dates, the
  JSON encoding of a stored callback, secondary indexes and query plans, deadlocks and serialization failures between
  transactions, the DDL of the migrations and of their tracking table, the reconnects of the listeners, logging. On Redis:
  the rounding of scores beyond \<open>2^53\<close>, the text of JSON values, the order in which \<open>HGETALL\<close> and \<open>SMEMBERS\<close> answer (it is
  the order of the list that stands for the hash or set), and the pub/sub listeners, which end at once because
  \<open>build_url_for_pubsub\<close> always fails. Of the ways in: clap's parsing of arguments, opening and closing a pool, the delivery
  of calls between napi and JavaScript, and in messages the escapes of \<open>{:?}\<close>, the details of a parser's error and the
  advice of the migration guard. Outside these crates: benchmarks, examples and the TypeScript packages.
\<close>

section \<open>The system as a whole\<close>

text \<open>C1: every state of the database that the operations of any number of processes can reach, in any order,
  satisfies the invariant: keys are unique, live jobs respect the unique index, every \<open>running_count\<close> is the number of
  jobs running under it, and every batch accounts for its jobs and has its callback claimed exactly when none of them is
  outstanding.\<close>

theorem reachable_states_ok:
  assumes "reachable s"
  shows "db_ok s"
  using assms by (rule reachable_db_ok)

theorem reachable_states_ok_witness:
  "db_ok (fst (claim_batch sample_claim 7 5 [''mail''] [''default''] (fst (enqueue_dyn sample_env sample_request empty_db))))"
proof -
  have "reachable (fst (claim_batch sample_claim 7 5 [''mail''] [''default''] run1))"
    using run_reachable(1) sys_step.claim unfolding reachable_def by (rule rtranclp.rtrancl_into_rtrancl)
  then show ?thesis unfolding run1_def by (rule reachable_states_ok)
qed

text \<open>C7: whatever operation runs on a reachable database, every job that was there either is still there, with the
  same identity, kind, queue, payload, group and unique key and in a state its life cycle allows (pending to running or
  cancelled, running to pending, completed or failed, finished unchanged), or it was finished and has been deleted. Jobs
  that were not there are pending and have an id the sequence had not given out.\<close>

theorem jobs_follow_life_cycle:
  assumes "reachable s" "sys_step s s'"
  shows "(\<forall>j \<in> set (jobs s).
        (\<exists>j' \<in> set (jobs s'). j_id j' = j_id j \<and> j_kind j' = j_kind j \<and> j_queue j' = j_queue j \<and>
           j_payload j' = j_payload j \<and> j_group_key j' = j_group_key j \<and> j_unique_key j' = j_unique_key j \<and>
           moves (j_state j) (j_state j')) \<or>
        (terminal (j_state j) \<and> j_id j \<notin> j_id ` set (jobs s'))) \<and>
     (\<forall>j' \<in> set (jobs s'). j_id j' \<notin> j_id ` set (jobs s) \<longrightarrow> j_state j' = Pending \<and> next_job_id s \<le> j_id j')"
proof -
  have h: "jobs_evolve s s'"
    using sys_step_history [OF assms(2) reachable_db_ok [OF assms(1)]] by (simp add: history_def)
  have "(\<exists>j' \<in> set (jobs s'). j_id j' = j_id j \<and> j_kind j' = j_kind j \<and> j_queue j' = j_queue j \<and>
         j_payload j' = j_payload j \<and> j_group_key j' = j_group_key j \<and> j_unique_key j' = j_unique_key j \<and>
         moves (j_state j) (j_state j')) \<or>
      (terminal (j_state j) \<and> j_id j \<notin> j_id ` set (jobs s'))" if "j \<in> set (jobs s)" for j
    using h [unfolded jobs_evolve_def, THEN conjunct1, rule_format, OF that] by (auto simp: evolves_def)
  moreover have "j_state j' = Pending \<and> next_job_id s \<le> j_id j'"
    if "j' \<in> set (jobs s')" "j_id j' \<notin> j_id ` set (jobs s)" for j'
    using h that unfolding jobs_evolve_def by blast
  ultimately show ?thesis by blast
qed

theorem jobs_follow_life_cycle_witness:
  "\<exists>j' \<in> set (jobs run2). j_id j' = 1 \<and> moves Pending (j_state j')"
  using jobs_follow_life_cycle [OF run_reachable(1) run_steps(2)]
  unfolding run1_eq by (auto simp: new_job_def)

text \<open>C8: a finished job is finished for good. After any further run the row under its id is the same, except that its
  batch link may have been cleared, or it has been deleted; no other job ever gets its id.\<close>

theorem finished_jobs_stay_finished:
  assumes "reachable s" "sys_step\<^sup>*\<^sup>* s s'" "j \<in> set (jobs s)" "terminal (j_state j)"
    and "j' \<in> set (jobs s')" "j_id j' = j_id j"
  shows "j' = j\<lparr>j_batch_id := j_batch_id j'\<rparr>"
proof -
  have ok: "db_ok s" using assms(1) by (rule reachable_db_ok)
  then have "keys_ok s" by (rule db_okD)
  then have "settled_for_good j s"
    using assms(3) by (auto simp: settled_for_good_def keys_ok_def same_but_batch_refl dest: distinct_key_eq)
  then have "settled_for_good j s'"
    using run_keeps [OF assms(2) ok] settled_for_good_step assms(4) by blast
  then show ?thesis using assms(5,6) by (simp add: settled_for_good_def same_but_batch_def)
qed

theorem finished_jobs_stay_finished_witness: "j_state (hd (jobs run3)) = Cancelled"
proof -
  let ?j = "cancel_job 100 (new_job 100 100 sample_request 1)" and ?j' = "hd (jobs run3)"
  have "?j' \<in> set (jobs run3)" "j_id ?j' = j_id ?j" by (simp_all add: run3_eq run2_eq)
  moreover have "?j \<in> set (jobs run2)" by (simp add: run2_eq)
  moreover have "terminal (j_state ?j)" by (simp add: cancel_job_def)
  ultimately have "?j' = ?j\<lparr>j_batch_id := j_batch_id ?j'\<rparr>"
    using finished_jobs_stay_finished [OF run_reachable(2) r_into_rtranclp] run_steps(3) by blast
  then obtain x where "?j' = ?j\<lparr>j_batch_id := x\<rparr>" by blast
  then show "j_state ?j' = Cancelled" by (simp add: cancel_job_def)
qed

text \<open>C9: the callback of a batch is claimed at most once. After any further run a batch whose callback slot was claimed
  has the same claim, or has been deleted, and no other batch ever gets its id.\<close>

theorem callbacks_are_claimed_once:
  assumes "reachable s" "sys_step\<^sup>*\<^sup>* s s'" "b \<in> set (batches s)" "b_callback_enqueued_at b = Some t"
    and "b' \<in> set (batches s')" "b_id b' = b_id b"
  shows "b_callback_enqueued_at b' = Some t"
proof -
  have ok: "db_ok s" using assms(1) by (rule reachable_db_ok)
  then have "keys_ok s" by (rule db_okD)
  then have "claimed_for_good b s"
    using assms(3) by (auto simp: claimed_for_good_def keys_ok_def dest: distinct_key_eq)
  moreover have "claimed b" using assms(4) by (simp add: claimed_def)
  ultimately have "claimed_for_good b s'"
    using run_keeps [OF assms(2) ok] claimed_for_good_step by blast
  then show ?thesis using assms(4-6) by (simp add: claimed_for_good_def)
qed


theorem callbacks_are_claimed_once_witness:
  "b_callback_enqueued_at (hd (batches (fst (clean_jobs rev 200 (clean_job_state CleanCancelled) 10 5 run3)))) = Some 100"
proof -
  let ?s = "fst (clean_jobs rev 200 (clean_job_state CleanCancelled) 10 5 run3)"
  let ?b = "finish_batch 100 (new_batch 100 \<lparr>bo_on_complete = None, bo_metadata = JNull\<rparr> 1)"
  have "batches ?s = [?b]" by (simp add: clean_jobs_def Let_def run3_eq)
  then have "hd (batches ?s) \<in> set (batches ?s)" "b_id (hd (batches ?s)) = b_id ?b" by simp_all
  moreover have "sys_step run3 ?s" by (rule sys_step.clean [OF scan_ok_rev])
  moreover have "?b \<in> set (batches run3)" by (simp add: run3_eq)
  moreover have "b_callback_enqueued_at ?b = Some 100" by (simp add: finish_batch_def)
  ultimately show ?thesis
    using callbacks_are_claimed_once [OF run_reachable(3) r_into_rtranclp] by blast
qed

end
